(* ===== verification/Prelude.thy ===== *)
theory Prelude
  imports Main "HOL-Library.AList" "HOL-Library.Word"
begin

text \<open>
  Shared vocabulary of the development: error-valued results, JavaScript
  \<open>Record<string, T>\<close> objects as ordered association lists, decimal rendering of
  numbers (template strings), and the lemmas on them that the component theories use.

  \<^item> \<open>'a res\<close> is the result of code that may throw: \<open>Inl e\<close> is the thrown error.
  \<^item> \<open>'v dict\<close> is a \<open>Record<string, T>\<close> with its own properties in insertion order.
    Writing an existing key keeps its position (\<open>AList.update\<close>), as an object spread
    followed by an assignment does; removing a key is rest destructuring
    (\<open>AList.delete\<close>); \<open>Object.values\<close> is \<open>map snd\<close>.
\<close>

named_theorems loop_simps \<open>unfolding rules of the model's small helper definitions\<close>
named_theorems id_simps \<open>unfolding rules of the deterministic id builders\<close>

subsection \<open>Results of code that may throw\<close>

text \<open>\<open>GadAppendErrorCode\<close> of \<open>append-errors.ts\<close>, the machine-readable part of a failed append.\<close>

datatype gad_append_error_code = IdCollision | HeadConflict | ReplayMismatch

text \<open>
  The errors the modelled code throws: first those of the loop, then those of the outbox, of the log
  store (an append failure with its code, a violated table constraint, any other refusal), of the
  language, and a crash at a named point of the driver.
\<close>

datatype loop_error =
    DeltaAppended
  | MissingModelRequest string
  | MissingTransport string
  | TypeError string
  | OutcomeMismatch string
  | NotDerivable string
  | NoPendingEffect string
  | AmbiguousEffect string
  | GadAppendError gad_append_error_code
  | ConstraintError string
  | StoreError string
  | UriError
  | Killed string

type_synonym 'a res = "loop_error + 'a"

fun bind_res :: "'a res \<Rightarrow> ('a \<Rightarrow> 'b res) \<Rightarrow> 'b res" where
  "bind_res (Inl e) f = Inl e"
| "bind_res (Inr x) f = f x"

lemma bind_res_Inr_iff [simp]:
  "bind_res r f = Inr y \<longleftrightarrow> (\<exists>x. r = Inr x \<and> f x = Inr y)"
  by (cases r) auto

lemma bind_res_assoc: "bind_res (bind_res r f) g = bind_res r (\<lambda>x. bind_res (f x) g)"
  by (cases r) auto

text \<open>Folding a throwing step over a list, left to right, stopping at the first throw.\<close>

fun fold_res :: "('s \<Rightarrow> 'e \<Rightarrow> 's res) \<Rightarrow> 's \<Rightarrow> 'e list \<Rightarrow> 's res" where
  "fold_res f s [] = Inr s"
| "fold_res f s (x # xs) = bind_res (f s x) (\<lambda>s'. fold_res f s' xs)"

lemma fold_res_append:
  "fold_res f s (xs @ ys) = bind_res (fold_res f s xs) (\<lambda>s'. fold_res f s' ys)"
  by (induction xs arbitrary: s) (auto simp: bind_res_assoc)

text \<open>
  The interface of an event-sourced reducer: a step that may throw, a guard on the next
  event (for instance that it continues the log), and a state predicate that every
  successful guarded step keeps. The client's lemma is that a replay of a log that meets
  the guard at every position keeps the predicate.
\<close>

fun guarded :: "('s \<Rightarrow> 'e \<Rightarrow> 's res) \<Rightarrow> ('s \<Rightarrow> 'e \<Rightarrow> bool) \<Rightarrow> 's \<Rightarrow> 'e list \<Rightarrow> bool" where
  "guarded f ok s [] = True"
| "guarded f ok s (x # xs) =
     (ok s x \<and> (case f s x of Inl _ \<Rightarrow> True | Inr s' \<Rightarrow> guarded f ok s' xs))"

lemma guarded_True [simp]: "guarded f (\<lambda>_ _. True) s xs"
  by (induction xs arbitrary: s) (auto split: sum.split)

locale guarded_replay =
  fixes apply_step :: "'s \<Rightarrow> 'e \<Rightarrow> 's res"
    and admits :: "'s \<Rightarrow> 'e \<Rightarrow> bool"
    and invariant :: "'s \<Rightarrow> bool"
  assumes guarded_step_keeps:
    "invariant s \<Longrightarrow> admits s x \<Longrightarrow> apply_step s x = Inr s' \<Longrightarrow> invariant s'"
begin

lemma guarded_replay_keeps:
  "invariant s \<Longrightarrow> guarded apply_step admits s xs \<Longrightarrow> fold_res apply_step s xs = Inr s' \<Longrightarrow>
     invariant s'"
proof (induction xs arbitrary: s)
  case Nil
  then show ?case by simp
next
  case (Cons x xs)
  then obtain t where "apply_step s x = Inr t" and "fold_res apply_step t xs = Inr s'"
    by auto
  with Cons show ?case by (auto intro: guarded_step_keeps)
qed

end

text \<open>The unguarded case: a predicate that every successful step keeps.\<close>

locale replay =
  fixes apply_step :: "'s \<Rightarrow> 'e \<Rightarrow> 's res"
    and invariant :: "'s \<Rightarrow> bool"
  assumes step_keeps: "invariant s \<Longrightarrow> apply_step s x = Inr s' \<Longrightarrow> invariant s'"

sublocale replay \<subseteq> guarded_replay apply_step "\<lambda>_ _. True" invariant
  by unfold_locales (rule step_keeps)

context replay
begin

lemma replay_keeps:
  "invariant s \<Longrightarrow> fold_res apply_step s xs = Inr s' \<Longrightarrow> invariant s'"
  by (rule guarded_replay_keeps) simp_all

end

text \<open>\<open>v ?? d\<close> on an optional value.\<close>

definition option_or :: "'a option \<Rightarrow> 'a \<Rightarrow> 'a" where
  [loop_simps]: "option_or o' d = (case o' of None \<Rightarrow> d | Some x \<Rightarrow> x)"

subsection \<open>Lists\<close>

lemma filter_shorter:
  assumes "x \<in> set xs" and "P x" and "\<not> Q x" and "\<And>y. Q y \<Longrightarrow> P y"
  shows "length (filter Q xs) < length (filter P xs)"
proof -
  have "filter Q xs = filter Q (filter P xs)" using assms(4) by (auto intro: filter_cong)
  moreover have "length (filter Q (filter P xs)) < length (filter P xs)"
    by (rule length_filter_less [of x]) (use assms in auto)
  ultimately show ?thesis by simp
qed

subsection \<open>Ordered string-keyed objects\<close>

type_synonym 'v dict = "(string \<times> 'v) list"

abbreviation dget :: "'v dict \<Rightarrow> string \<Rightarrow> 'v option" where
  "dget d k \<equiv> map_of d k"

abbreviation dput :: "string \<Rightarrow> 'v \<Rightarrow> 'v dict \<Rightarrow> 'v dict" where
  "dput \<equiv> AList.update"

abbreviation ddel :: "string \<Rightarrow> 'v dict \<Rightarrow> 'v dict" where
  "ddel \<equiv> AList.delete"

definition keyed :: "('v \<Rightarrow> string) \<Rightarrow> (string \<Rightarrow> bool) \<Rightarrow> 'v dict \<Rightarrow> bool" where
  "keyed key_of ok d \<longleftrightarrow> distinct (map fst d) \<and> (\<forall>(k, v) \<in> set d. key_of v = k \<and> ok k)"

lemma dget_dput [simp]: "dget (dput k v d) k' = (if k' = k then Some v else dget d k')"
  by (simp add: update_conv')

lemma dget_ddel [simp]: "dget (ddel k d) k' = (if k' = k then None else dget d k')"
  by (simp add: delete_conv')

lemma keyed_empty [simp]: "keyed key_of ok []"
  by (simp add: keyed_def)

lemma set_ddel_subset: "set (ddel k d) \<subseteq> set d"
  by (auto simp: AList.delete_eq)

lemma set_dput_subset: "set (dput k v d) \<subseteq> insert (k, v) (set d)"
  by (induction d) auto

lemma keyed_dput [simp]:
  "keyed key_of ok d \<Longrightarrow> key_of v = k \<Longrightarrow> ok k \<Longrightarrow> keyed key_of ok (dput k v d)"
  using set_dput_subset [of k v d]
  by (auto simp: keyed_def distinct_update dest!: subsetD)

lemma keyed_ddel [simp]: "keyed key_of ok d \<Longrightarrow> keyed key_of ok (ddel k d)"
  using set_ddel_subset [of k d]
  by (auto simp: keyed_def AList.distinct_delete)

lemma keyed_dgetD: "keyed key_of ok d \<Longrightarrow> dget d k = Some v \<Longrightarrow> key_of v = k \<and> ok k"
  by (auto simp: keyed_def dest: map_of_SomeD)

lemma keyed_dput_same [simp]:
  "keyed key_of ok d \<Longrightarrow> dget d k = Some v \<Longrightarrow> key_of v' = key_of v \<Longrightarrow>
     keyed key_of ok (dput k v' d)"
  using keyed_dgetD [of key_of ok d k v] by simp

lemma dput_is_Cons: "dput k v d \<noteq> []"
  by (cases d) (auto split: if_splits)

subsection \<open>Numbers in template strings\<close>

definition digit_char :: "nat \<Rightarrow> char" where
  "digit_char d = ''0123456789'' ! d"

fun show_nat :: "nat \<Rightarrow> string" where
  "show_nat n = (if n < 10 then [digit_char n] else show_nat (n div 10) @ [digit_char (n mod 10)])"

declare show_nat.simps [simp del]

definition show_int :: "int \<Rightarrow> string" where
  "show_int i = (if i < 0 then ''-'' @ show_nat (nat (- i)) else show_nat (nat i))"

text \<open>Reading the digits back: the left inverse that makes rendering injective.\<close>

definition char_digit :: "char \<Rightarrow> nat" where
  "char_digit c = of_char c - 48"

definition read_nat :: "string \<Rightarrow> nat" where
  "read_nat s = foldl (\<lambda>acc c. 10 * acc + char_digit c) 0 s"

lemma less_10_cases:
  "(d::nat) < 10 \<Longrightarrow> d \<in> {0, 1, 2, 3, 4, 5, 6, 7, 8, 9}"
  by auto

lemma char_digit_digit_char [simp]: "d < 10 \<Longrightarrow> char_digit (digit_char d) = d"
  by (drule less_10_cases) (auto simp: char_digit_def digit_char_def)

lemma digit_char_in: "d < 10 \<Longrightarrow> digit_char d \<in> set ''0123456789''"
  unfolding digit_char_def by (rule nth_mem) simp

lemma read_show_nat [simp]: "read_nat (show_nat n) = n"
proof (induction n rule: show_nat.induct)
  case (1 n)
  show ?case
  proof (cases "n < 10")
    case True
    then show ?thesis by (simp add: show_nat.simps [of n] read_nat_def)
  next
    case False
    with "1.IH" have "read_nat (show_nat (n div 10)) = n div 10" by simp
    with False show ?thesis by (simp add: show_nat.simps [of n] read_nat_def)
  qed
qed

lemma show_nat_inject [simp]: "show_nat m = show_nat n \<longleftrightarrow> m = n"
  by (metis read_show_nat)

lemma show_nat_nonempty [simp]: "show_nat n \<noteq> []"
  by (subst show_nat.simps) simp

lemma set_show_nat: "set (show_nat n) \<subseteq> set ''0123456789''"
proof (induction n rule: show_nat.induct)
  case (1 n)
  show ?case
  proof (cases "n < 10")
    case True
    then show ?thesis using digit_char_in [of n] by (simp add: show_nat.simps [of n])
  next
    case False
    with "1.IH" show ?thesis
      using digit_char_in [of "n mod 10"] by (simp add: show_nat.simps [of n])
  qed
qed

lemma colon_notin_show_nat [simp]: "CHR '':'' \<notin> set (show_nat n)"
  using set_show_nat [of n] by auto

lemma hd_show_nat_not_minus: "show_nat n = c # s \<Longrightarrow> c \<noteq> CHR ''-''"
  using set_show_nat [of n] by auto

lemma show_int_inject [simp]: "show_int i = show_int j \<longleftrightarrow> i = j"
proof
  assume eq: "show_int i = show_int j"
  show "i = j"
  proof (cases "i < 0"; cases "j < 0")
    assume "i < 0" "j < 0"
    with eq show ?thesis by (simp add: show_int_def)
  next
    assume "i < 0" "\<not> j < 0"
    with eq have "show_nat (nat j) = CHR ''-'' # show_nat (nat (- i))"
      by (simp add: show_int_def)
    then show ?thesis using hd_show_nat_not_minus by blast
  next
    assume "\<not> i < 0" "j < 0"
    with eq have "show_nat (nat i) = CHR ''-'' # show_nat (nat (- j))"
      by (simp add: show_int_def)
    then show ?thesis using hd_show_nat_not_minus by blast
  next
    assume "\<not> i < 0" "\<not> j < 0"
    with eq show ?thesis by (simp add: show_int_def)
  qed
qed simp

lemma colon_notin_show_int [simp]: "CHR '':'' \<notin> set (show_int i)"
  by (simp add: show_int_def)

text \<open>Two strings that end in a colon-free suffix after their last colon split alike.\<close>

lemma colon_suffix_inject:
  assumes "xs @ CHR '':'' # s = ys @ CHR '':'' # t"
    and "CHR '':'' \<notin> set s" and "CHR '':'' \<notin> set t"
  shows "xs = ys \<and> s = t"
  using assms
proof (induction xs arbitrary: ys)
  case Nil
  then show ?case by (cases ys) auto
next
  case (Cons x xs)
  then show ?case by (cases ys) auto
qed

subsection \<open>String operations of the language\<close>

definition starts_with :: "string \<Rightarrow> string \<Rightarrow> bool" where
  "starts_with s p \<longleftrightarrow> take (length p) s = p"

lemma starts_with_append [simp]: "starts_with (p @ s) p"
  by (simp add: starts_with_def)

definition index_of_char :: "char \<Rightarrow> string \<Rightarrow> nat option" where
  "index_of_char c s =
     (if c \<in> set s then Some (length (takeWhile (\<lambda>d. d \<noteq> c) s)) else None)"

definition is_space :: "char \<Rightarrow> bool" where
  "is_space c \<longleftrightarrow> of_char c \<in> {9, 10, 11, 12, 13, 32 :: nat}"

definition trim_string :: "string \<Rightarrow> string" where
  "trim_string s = rev (dropWhile is_space (rev (dropWhile is_space s)))"

fun join_with :: "string \<Rightarrow> string list \<Rightarrow> string" where
  "join_with sep [] = []"
| "join_with sep [x] = x"
| "join_with sep (x # y # xs) = x @ sep @ join_with sep (y # xs)"

end
