(* ===== verification/Json.thy ===== *)
theory Json
  imports Prelude
begin

text \<open>
  JavaScript values as they travel through event payloads. Payloads are untyped
  (\<open>unknown\<close>, \<open>Record<string, unknown>\<close>) in the source, and the code reads them
  with property access, \<open>typeof\<close> tests, \<open>??\<close>, truthiness and \<open>String(...)\<close>; the
  definitions below are those operators. A structure the source receives by an unchecked
  cast (\<open>as ModelRequestDescriptor\<close>, \<open>as ParticipantRef\<close>, turn metadata, the loop
  configuration and its patches) stays a value of this type and is read by property
  access; a structure the source builds field by field is a record of its own theory.

  Numbers are integers: every number the loop computes with (sequence numbers, counters,
  limits, approval levels) is one. Strings are lists of characters. Property lookup is on
  own properties.
\<close>

datatype json =
    JUndefined
  | JNull
  | JBool bool
  | JNum int
  | JStr string
  | JArr "json list"
  | JObj "json dict"

subsection \<open>Property access\<close>

fun jget :: "json \<Rightarrow> string \<Rightarrow> json" where
  "jget (JObj ps) k = (case dget ps k of None \<Rightarrow> JUndefined | Some v \<Rightarrow> v)"
| "jget _ k = JUndefined"

text \<open>The own enumerable properties an object spread copies.\<close>

fun own_props :: "json \<Rightarrow> json dict" where
  "own_props (JObj ps) = ps"
| "own_props (JArr xs) = zip (map show_nat [0..<length xs]) xs"
| "own_props (JStr s) = zip (map show_nat [0..<length s]) (map (\<lambda>c. JStr [c]) s)"
| "own_props _ = []"

text \<open>\<open>{ ...a, ...b }\<close>: later properties win, first occurrence keeps its position.\<close>

definition jspread :: "json dict \<Rightarrow> json dict \<Rightarrow> json dict" where
  "jspread a b = fold (\<lambda>(k, v). dput k v) b a"

subsection \<open>Tests and coercions\<close>

fun truthy :: "json \<Rightarrow> bool" where
  "truthy JUndefined = False"
| "truthy JNull = False"
| "truthy (JBool b) = b"
| "truthy (JNum n) = (n \<noteq> 0)"
| "truthy (JStr s) = (s \<noteq> [])"
| "truthy (JArr _) = True"
| "truthy (JObj _) = True"

fun nullish :: "json \<Rightarrow> bool" where
  "nullish JUndefined = True"
| "nullish JNull = True"
| "nullish _ = False"

text \<open>\<open>a ?? b\<close>\<close>

definition coalesce :: "json \<Rightarrow> json \<Rightarrow> json" where
  "coalesce a b = (if nullish a then b else a)"

text \<open>\<open>v && typeof v === "object" && !Array.isArray(v)\<close>\<close>

fun is_plain_object :: "json \<Rightarrow> bool" where
  "is_plain_object (JObj _) = True"
| "is_plain_object _ = False"

text \<open>\<open>v && typeof v === "object"\<close>, arrays included\<close>

fun is_object :: "json \<Rightarrow> bool" where
  "is_object (JObj _) = True"
| "is_object (JArr _) = True"
| "is_object _ = False"

text \<open>\<open>typeof v === "string" ? v : undefined\<close>\<close>

fun string_opt :: "json \<Rightarrow> string option" where
  "string_opt (JStr s) = Some s"
| "string_opt _ = None"

text \<open>\<open>typeof v === "number" ? v : undefined\<close>\<close>

fun number_opt :: "json \<Rightarrow> int option" where
  "number_opt (JNum n) = Some n"
| "number_opt _ = None"

text \<open>\<open>Array.isArray(v) ? v : []\<close>\<close>

fun array_or_empty :: "json \<Rightarrow> json list" where
  "array_or_empty (JArr xs) = xs"
| "array_or_empty _ = []"

text \<open>\<open>a > b\<close> on numbers; a comparison with a non-number (\<open>NaN\<close>) is false.\<close>

definition num_gt :: "int \<Rightarrow> json \<Rightarrow> bool" where
  "num_gt a b = (case number_opt b of None \<Rightarrow> False | Some n \<Rightarrow> a > n)"

definition num_le :: "int \<Rightarrow> json \<Rightarrow> bool" where
  "num_le a b = (case number_opt b of None \<Rightarrow> False | Some n \<Rightarrow> a \<le> n)"

text \<open>\<open>String(v)\<close>\<close>

fun js_String :: "json \<Rightarrow> string" where
  "js_String JUndefined = ''undefined''"
| "js_String JNull = ''null''"
| "js_String (JBool b) = (if b then ''true'' else ''false'')"
| "js_String (JNum n) = show_int n"
| "js_String (JStr s) = s"
| "js_String (JArr xs) =
     join_with '','' (map (\<lambda>x. if nullish x then [] else js_String x) xs)"
| "js_String (JObj _) = ''[object Object]''"

text \<open>\<open>String(v ?? "d")\<close>\<close>

definition string_or :: "json \<Rightarrow> string \<Rightarrow> string" where
  "string_or v d = js_String (coalesce v (JStr d))"

text \<open>An optional property of an object literal: \<open>...(v ? { k: v } : {})\<close>.\<close>

definition opt_prop :: "string \<Rightarrow> ('a \<Rightarrow> json) \<Rightarrow> 'a option \<Rightarrow> json dict" where
  "opt_prop k f v = (case v of None \<Rightarrow> [] | Some x \<Rightarrow> [(k, f x)])"

subsection \<open>JSON.stringify\<close>

definition hex_char :: "nat \<Rightarrow> char" where
  "hex_char d = ''0123456789abcdef'' ! d"

text \<open>The escapes of a JSON string literal: quote, backslash, the short control
  escapes, and \<open>\u00XX\<close> for the other control characters.\<close>

definition json_escape_char :: "char \<Rightarrow> string" where
  "json_escape_char c =
     (let n = (of_char c :: nat) in
      if n = 34 then [char_of (92::nat), char_of (34::nat)]
      else if n = 92 then [char_of (92::nat), char_of (92::nat)]
      else if n = 8 then char_of (92::nat) # ''b''
      else if n = 9 then char_of (92::nat) # ''t''
      else if n = 10 then char_of (92::nat) # ''n''
      else if n = 12 then char_of (92::nat) # ''f''
      else if n = 13 then char_of (92::nat) # ''r''
      else if n < 32 then char_of (92::nat) # ''u00'' @ [hex_char (n div 16), hex_char (n mod 16)]
      else [c])"

definition json_quote :: "string \<Rightarrow> string" where
  "json_quote s = char_of (34::nat) # concat (map json_escape_char s) @ [char_of (34::nat)]"

text \<open>An \<open>undefined\<close> property is dropped from an object and becomes \<open>null\<close> in an
  array; \<open>JSON.stringify(undefined)\<close> itself is \<open>undefined\<close>, here \<open>None\<close>.\<close>

fun json_text :: "json \<Rightarrow> string" where
  "json_text JUndefined = ''null''"
| "json_text JNull = ''null''"
| "json_text (JBool b) = (if b then ''true'' else ''false'')"
| "json_text (JNum n) = show_int n"
| "json_text (JStr s) = json_quote s"
| "json_text (JArr xs) = ''['' @ join_with '','' (map json_text xs) @ '']''"
| "json_text (JObj ps) =
     ''{'' @ join_with '',''
       (map (\<lambda>p. json_quote (fst p) @ '':'' @ json_text (snd p))
          (filter (\<lambda>p. snd p \<noteq> JUndefined) ps)) @ ''}''"

definition json_stringify :: "json \<Rightarrow> string option" where
  "json_stringify v = (if v = JUndefined then None else Some (json_text v))"

subsection \<open>Code equations on the bits of a character\<close>

lemma json_escape_char_code [code]:
  "json_escape_char (Char b0 b1 b2 b3 b4 b5 b6 b7) =
     (if b5 \<or> b6 \<or> b7 then
        (if Char b0 b1 b2 b3 b4 b5 b6 b7 = CHR 0x22 then [CHR 0x5C, CHR 0x22]
         else if Char b0 b1 b2 b3 b4 b5 b6 b7 = CHR 0x5C then [CHR 0x5C, CHR 0x5C]
         else [Char b0 b1 b2 b3 b4 b5 b6 b7])
      else
        (let n = (of_char (Char b0 b1 b2 b3 b4 b5 b6 b7) :: nat) in
         if n = 8 then CHR 0x5C # ''b'' else if n = 9 then CHR 0x5C # ''t'' else if n = 10 then CHR 0x5C # ''n''
         else if n = 12 then CHR 0x5C # ''f'' else if n = 13 then CHR 0x5C # ''r''
         else CHR 0x5C # ''u00'' @ [hex_char (n div 16), hex_char (n mod 16)]))"
  by (cases b0; cases b1; cases b2; cases b3; cases b4; cases b5; cases b6; cases b7)
     (simp_all add: json_escape_char_def of_char_def char_of_def bit_0)

lemma json_quote_code [code]: "json_quote s = CHR 0x22 # concat (map json_escape_char s) @ [CHR 0x22]"
  by (simp add: json_quote_def char_of_def bit_0)

subsection \<open>Lemmas\<close>

lemma jget_JObj_Nil [simp]: "jget (JObj []) k = JUndefined"
  by simp

lemma jget_JObj_Cons [simp]:
  "jget (JObj ((k', v) # ps)) k = (if k = k' then v else jget (JObj ps) k)"
  by auto

lemma jget_JObj_append [simp]:
  "jget (JObj (ps @ qs)) k = (if k \<in> fst ` set ps then jget (JObj ps) k else jget (JObj qs) k)"
  by (auto simp: map_add_def dom_map_of_conv_image_fst [symmetric] split: option.splits)

lemma jget_dput [simp]: "jget (JObj (dput k v ps)) k' = (if k' = k then v else jget (JObj ps) k')"
  by simp

lemma jget_fold_dput:
  "jget (JObj (fold (\<lambda>(k, v). dput k v) qs ps)) k =
     (if k \<in> fst ` set qs then jget (JObj (rev qs)) k else jget (JObj ps) k)"
proof (induction qs arbitrary: ps)
  case Nil
  then show ?case by simp
next
  case (Cons q qs)
  obtain k' v' where q: "q = (k', v')" by (cases q)
  show ?case
    unfolding q by (simp add: Cons.IH del: jget.simps)
qed

lemma jget_jspread:
  "jget (JObj (jspread a b)) k =
     (if k \<in> fst ` set b then jget (JObj (rev b)) k else jget (JObj a) k)"
  by (simp add: jspread_def jget_fold_dput del: jget.simps)

declare jget.simps(1) [simp del]

lemma coalesce_simps [simp]:
  "coalesce JUndefined b = b" "coalesce JNull b = b"
  "coalesce (JStr s) b = JStr s" "coalesce (JNum n) b = JNum n"
  "coalesce (JBool c) b = JBool c" "coalesce (JObj ps) b = JObj ps" "coalesce (JArr xs) b = JArr xs"
  by (simp_all add: coalesce_def)

lemma string_or_simps [simp]:
  "string_or (JStr s) d = s" "string_or JUndefined d = d" "string_or JNull d = d"
  by (simp_all add: string_or_def)

lemma opt_prop_simps [simp]:
  "opt_prop k f None = []" "opt_prop k f (Some x) = [(k, f x)]"
  by (simp_all add: opt_prop_def)

lemma fst_set_opt_prop [simp]:
  "fst ` set (opt_prop k f v) = (if v = None then {} else {k})"
  by (cases v) auto

lemma jget_opt_prop [simp]:
  "jget (JObj (opt_prop k f v)) k' =
     (if k' = k then (case v of None \<Rightarrow> JUndefined | Some x \<Rightarrow> f x) else JUndefined)"
  by (cases v) auto

lemma num_gt_JNum [simp]: "num_gt a (JNum n) \<longleftrightarrow> a > n"
  by (simp add: num_gt_def)

lemma num_le_JNum [simp]: "num_le a (JNum n) \<longleftrightarrow> a \<le> n"
  by (simp add: num_le_def)

lemma is_plain_object_iff: "is_plain_object v \<longleftrightarrow> (\<exists>ps. v = JObj ps)"
  by (cases v) auto

lemma truthy_not_nullish: "truthy v \<Longrightarrow> \<not> nullish v"
  by (cases v) auto

end
