(* ===== verification/Ids.thy ===== *)
theory Ids
  imports Json
begin

text \<open>
  The deterministic id scheme of the agent loop (\<open>agent-loop/src/ids.ts\<close>): every envelope
  id and effect id is a function of stable coordinates. A builder \<open>ids.f\<close> of the source is
  \<open>ids_f\<close> here. \<open>patchHash\<close> is the 32-bit FNV-1a hash over the JSON text of a
  configuration patch, on 32-bit words, so its wrap-around is the source's
  \<open>Math.imul(...) >>> 0\<close>. Also \<open>participantKey\<close> of the protocol package, the
  identity under which messages are authored.

  The lemmas show which coordinates an id determines and that ids of different families
  never collide; the outbox relies on both.
\<close>

unbundle bit_operations_syntax

definition ids_logIdForChannel :: "string \<Rightarrow> string" where
  [id_simps]: "ids_logIdForChannel channelId = ''branch:channel:'' @ channelId"

definition ids_turnId :: "string \<Rightarrow> string \<Rightarrow> string \<Rightarrow> string" where
  [id_simps]: "ids_turnId channelId triggerEnvelopeId actorId =
     ''t:'' @ channelId @ '':'' @ triggerEnvelopeId @ '':'' @ actorId"

definition ids_messageId :: "string \<Rightarrow> nat \<Rightarrow> string" where
  [id_simps]: "ids_messageId turnId modelCallCount = ''m:'' @ turnId @ '':'' @ show_nat modelCallCount"

definition ids_attemptId :: "string \<Rightarrow> string" where
  [id_simps]: "ids_attemptId messageId = ''att:'' @ messageId"

definition ids_transportCallId :: "string \<Rightarrow> string" where
  [id_simps]: "ids_transportCallId invocationId = ''tc:'' @ invocationId"

definition ids_approvalId :: "string \<Rightarrow> string" where
  [id_simps]: "ids_approvalId invocationId = ''approval:'' @ invocationId"

definition ids_credKey :: "string \<Rightarrow> string \<Rightarrow> string" where
  [id_simps]: "ids_credKey channelId providerId = ''cred:'' @ channelId @ '':'' @ providerId"

definition ids_recvUserMessage :: "string \<Rightarrow> string \<Rightarrow> string" where
  [id_simps]: "ids_recvUserMessage channelId channelEnvelopeId =
     ''recv:'' @ channelId @ '':'' @ channelEnvelopeId"

definition ids_recvPromoted :: "string \<Rightarrow> int \<Rightarrow> string" where
  [id_simps]: "ids_recvPromoted sourceMessageId n =
     ''recv:promoted:'' @ sourceMessageId @ '':'' @ show_int n"

definition ids_messageEdited :: "string \<Rightarrow> int \<Rightarrow> string" where
  [id_simps]: "ids_messageEdited sourceMessageId n =
     ''msg:'' @ sourceMessageId @ '':edited:'' @ show_int n"

definition ids_messageRetracted :: "string \<Rightarrow> int \<Rightarrow> string" where
  [id_simps]: "ids_messageRetracted sourceMessageId n =
     ''msg:'' @ sourceMessageId @ '':retracted:'' @ show_int n"

definition ids_turnOpened :: "string \<Rightarrow> string" where
  [id_simps]: "ids_turnOpened turnId = ''turn:'' @ turnId @ '':opened''"

definition ids_turnClosed :: "string \<Rightarrow> string" where
  [id_simps]: "ids_turnClosed turnId = ''turn:'' @ turnId @ '':closed''"

definition ids_turnWaiting :: "string \<Rightarrow> nat \<Rightarrow> string" where
  [id_simps]: "ids_turnWaiting turnId n = ''turn:'' @ turnId @ '':waiting:'' @ show_nat n"

definition ids_messageStarted :: "string \<Rightarrow> string" where
  [id_simps]: "ids_messageStarted messageId = ''msg:'' @ messageId @ '':started''"

definition ids_messageTerminal :: "string \<Rightarrow> string" where
  [id_simps]: "ids_messageTerminal messageId = ''msg:'' @ messageId @ '':terminal''"

definition ids_invocationStart :: "string \<Rightarrow> string" where
  [id_simps]: "ids_invocationStart invocationId = ''inv:'' @ invocationId @ '':start''"

definition ids_invocationTerminal :: "string \<Rightarrow> string" where
  [id_simps]: "ids_invocationTerminal invocationId = ''inv:'' @ invocationId @ '':terminal''"

definition ids_invocationOutput :: "string \<Rightarrow> nat \<Rightarrow> string" where
  [id_simps]: "ids_invocationOutput invocationId n =
     ''inv:'' @ invocationId @ '':output:'' @ show_nat n"

definition ids_approvalRequested :: "string \<Rightarrow> string" where
  [id_simps]: "ids_approvalRequested approvalId = ''appr:'' @ approvalId @ '':requested''"

definition ids_approvalResolved :: "string \<Rightarrow> string" where
  [id_simps]: "ids_approvalResolved approvalId = ''appr:'' @ approvalId @ '':resolved''"

definition ids_systemEvent :: "string \<Rightarrow> string \<Rightarrow> int option \<Rightarrow> string" where
  [id_simps]: "ids_systemEvent scope detailKind n =
     (case n of
        None \<Rightarrow> ''sys:'' @ scope @ '':'' @ detailKind
      | Some i \<Rightarrow> ''sys:'' @ scope @ '':'' @ detailKind @ '':'' @ show_int i)"

definition ids_compaction :: "string \<Rightarrow> int \<Rightarrow> string" where
  [id_simps]: "ids_compaction turnId n = ''sys:compaction:'' @ turnId @ '':'' @ show_int n"

definition ids_configChange :: "string \<Rightarrow> int \<Rightarrow> string" where
  [id_simps]: "ids_configChange patchHash n = ''sys:config:'' @ patchHash @ '':'' @ show_int n"

definition ids_modelEffect :: "string \<Rightarrow> string" where
  [id_simps]: "ids_modelEffect messageId = ''model:'' @ messageId"

definition ids_invocationEffect :: "string \<Rightarrow> string" where
  [id_simps]: "ids_invocationEffect invocationId = ''inv:'' @ invocationId"

definition ids_approvalFormEffect :: "string \<Rightarrow> string" where
  [id_simps]: "ids_approvalFormEffect approvalId = ''form:'' @ approvalId"

definition ids_credentialWaitEffect :: "string \<Rightarrow> string" where
  [id_simps]: "ids_credentialWaitEffect credKey = ''credwait:'' @ credKey"

subsection \<open>The configuration patch hash\<close>

definition fnv_step :: "32 word \<Rightarrow> char \<Rightarrow> 32 word" where
  "fnv_step h c = (h XOR of_nat (of_char c)) * 0x01000193"

definition fnv1a :: "string \<Rightarrow> 32 word" where
  "fnv1a text = foldl fnv_step 0x811c9dc5 text"

text \<open>\<open>hash.toString(16).padStart(8, "0")\<close> of a 32-bit value: its eight nibbles.\<close>

definition hex8 :: "32 word \<Rightarrow> string" where
  "hex8 h = map (\<lambda>i. hex_char (unat (drop_bit (4 * i) h AND 15))) [7, 6, 5, 4, 3, 2, 1, 0]"

definition patchHash :: "json \<Rightarrow> string" where
  "patchHash value = hex8 (fnv1a (case json_stringify value of None \<Rightarrow> ''null'' | Some t \<Rightarrow> t))"

lemma length_patchHash [simp]: "length (patchHash v) = 8"
  by (simp add: patchHash_def hex8_def)

subsection \<open>Participant identity\<close>

text \<open>\<open>handlers.ts\<close>: the participant id when present and non-empty, else kind and id.\<close>

definition participantKey :: "json \<Rightarrow> string" where
  "participantKey participant =
     (if truthy (jget participant ''participantId'')
      then js_String (jget participant ''participantId'')
      else js_String (jget participant ''kind'') @ '':'' @ js_String (jget participant ''id''))"

subsection \<open>What ids determine\<close>

lemma messageId_inject [simp]:
  "ids_messageId t m = ids_messageId u n \<longleftrightarrow> t = u \<and> m = n"
proof
  assume "ids_messageId t m = ids_messageId u n"
  then have "t @ CHR '':'' # show_nat m = u @ CHR '':'' # show_nat n"
    by (simp add: ids_messageId_def)
  from colon_suffix_inject [OF this] show "t = u \<and> m = n" by simp
qed simp

lemma recvPromoted_inject:
  "ids_recvPromoted a m = ids_recvPromoted b n \<longleftrightarrow> a = b \<and> m = n"
proof
  assume "ids_recvPromoted a m = ids_recvPromoted b n"
  then have "a @ CHR '':'' # show_int m = b @ CHR '':'' # show_int n"
    by (simp add: ids_recvPromoted_def)
  from colon_suffix_inject [OF this] show "a = b \<and> m = n" by simp
qed simp

lemma effect_id_inject [simp]:
  "ids_modelEffect a = ids_modelEffect b \<longleftrightarrow> a = b"
  "ids_invocationEffect a = ids_invocationEffect b \<longleftrightarrow> a = b"
  "ids_approvalFormEffect a = ids_approvalFormEffect b \<longleftrightarrow> a = b"
  "ids_credentialWaitEffect a = ids_credentialWaitEffect b \<longleftrightarrow> a = b"
  by (simp_all add: id_simps)

lemma effect_id_families [simp]:
  "ids_modelEffect a \<noteq> ids_invocationEffect b" "ids_invocationEffect b \<noteq> ids_modelEffect a"
  "ids_modelEffect a \<noteq> ids_approvalFormEffect b" "ids_approvalFormEffect b \<noteq> ids_modelEffect a"
  "ids_modelEffect a \<noteq> ids_credentialWaitEffect b" "ids_credentialWaitEffect b \<noteq> ids_modelEffect a"
  "ids_invocationEffect a \<noteq> ids_approvalFormEffect b" "ids_approvalFormEffect b \<noteq> ids_invocationEffect a"
  "ids_invocationEffect a \<noteq> ids_credentialWaitEffect b" "ids_credentialWaitEffect b \<noteq> ids_invocationEffect a"
  "ids_approvalFormEffect a \<noteq> ids_credentialWaitEffect b" "ids_credentialWaitEffect b \<noteq> ids_approvalFormEffect a"
  by (simp_all add: id_simps)

lemma turnId_nonempty [simp]: "ids_turnId c e a \<noteq> []"
  by (simp add: ids_turnId_def)

lemma turnId_inject_trigger:
  "ids_turnId c e a = ids_turnId c e' a \<longleftrightarrow> e = e'"
  by (simp add: ids_turnId_def)

lemma turnId_inject_actor:
  "ids_turnId c e a = ids_turnId c e a' \<longleftrightarrow> a = a'"
  by (simp add: ids_turnId_def)

lemma recvUserMessage_inject:
  "ids_recvUserMessage c e = ids_recvUserMessage c e' \<longleftrightarrow> e = e'"
  by (simp add: ids_recvUserMessage_def)

lemma message_prefix: "starts_with (ids_messageId t n) (''m:'' @ t @ '':'')"
  by (simp add: ids_messageId_def starts_with_def)

end
