(* ===== verification/LoopState.thy ===== *)
theory LoopState
  imports Ids
begin

text \<open>
  The data of the agent loop (\<open>agent-loop/src/state.ts\<close>, \<open>commands.ts\<close>, the envelope
  and event-kind types of the protocol package): \<open>AgentState\<close> and the structures it
  holds, log envelopes, and session entries with their JSON form (a recorded compaction
  carries session entries through the log). \<open>AgentLoopConfig\<close> and \<open>AgentTurnMetadata\<close>
  are JSON objects, because the source overlays and patches them by object spread.
\<close>

subsection \<open>Event kinds and envelopes\<close>

text \<open>\<open>EventKind\<close>; the kinds the loop neither reads nor writes are \<open>OtherEvent\<close>.\<close>

datatype event_kind =
    MessageStarted | MessageDelta | MessageCompleted | MessageFailed
  | MessageEdited | MessageRetracted
  | InvocationStarted | InvocationCompleted | InvocationFailed
  | InvocationCancelled | InvocationAbandoned
  | ApprovalRequested | ApprovalResolved
  | TurnOpened | TurnWaiting | TurnClosed
  | SystemEvent | CompactionRecorded
  | OtherEvent string

record log_envelope =
  env_logId :: string
  env_head :: string
  env_seq :: int
  env_envelopeId :: string
  env_actor :: json
  env_payloadKind :: event_kind
  env_payload :: json
  env_causality :: json
  env_appendedAt :: string
  env_prevHash :: string
  env_hash :: string

definition AGENTIC_PROTOCOL_VERSION :: json where
  "AGENTIC_PROTOCOL_VERSION = JStr ''agentic.trajectory.v1''"

definition AGENTIC_EVENT_PAYLOAD_KIND :: string where
  "AGENTIC_EVENT_PAYLOAD_KIND = ''agentic.trajectory.v1/event''"

subsection \<open>Turns, model calls and pending work\<close>

record open_turn =
  ot_turnId :: string
  ot_openedAtSeq :: int
  ot_reason :: "string option"
  ot_modelCallCount :: nat
  ot_interrupted :: bool
  ot_waitingCount :: nat
  ot_metadata :: "json option"
  ot_pendingFlush :: "string option"

record in_flight_model_call =
  mc_messageId :: string
  mc_attemptId :: json
  mc_contextThroughSeq :: json
  mc_request :: json

datatype approval_state = ApprovalNone | ApprovalPending | ApprovalGranted

record pending_invocation =
  pi_invocationId :: string
  pi_turnId :: string
  pi_startedAtSeq :: int
  pi_attemptId :: "string option"
  pi_name :: string
  pi_transport :: json
  pi_request :: json
  pi_requiresApproval :: bool
  pi_approvalId :: "string option"
  pi_approvalState :: approval_state

record pending_approval =
  pa_approvalId :: string
  pa_invocationId :: string
  pa_turnId :: string
  pa_startedAtSeq :: int
  pa_question :: string
  pa_toolName :: json
  pa_input :: json

record pending_credential_wait =
  cw_credKey :: string
  cw_providerId :: string
  cw_turnId :: string
  cw_startedAtSeq :: int
  cw_connectSpec :: json
  cw_modelBaseUrl :: "string option"
  cw_waitReason :: "string option"
  cw_reason :: "string option"
  cw_failureCode :: "string option"
  cw_expiresAt :: string

record steering_entry =
  se_envelopeId :: string
  se_seq :: int
  se_sourceMessageId :: "string option"
  se_senderRef :: json
  se_content :: json
  se_metadata :: "json option"

record pending_prompt =
  pp_envelopeId :: string
  pp_seq :: int
  pp_sourceMessageId :: "string option"
  pp_senderRef :: json
  pp_content :: json
  pp_agentHops :: "int option"
  pp_metadata :: "json option"

record deferred_prompt =
  dp_sourceMessageId :: string
  dp_envelopeId :: string
  dp_seq :: int
  dp_senderRef :: json
  dp_content :: json
  dp_metadata :: "json option"
  dp_agentHops :: "int option"

subsection \<open>Session entries\<close>

text \<open>
  The four shapes of \<open>SessionEntry\<close>. \<open>RawEntry\<close> stands for an element of a logged
  compaction \<open>replacement\<close> that has none of these shapes: the fold stores it unchecked.
\<close>

datatype session_entry =
    UserEntry (entry_num: int) (user_envelopeId: string) (user_sourceMessageId: "string option")
      (user_senderRef: "json option") (user_content: json) (user_metadata: "json option")
  | AssistantEntry (entry_num: int) (asst_messageId: string) (asst_senderRef: "json option")
      (asst_blocks: "json list") (asst_outcome: "string option")
  | ToolResultEntry (entry_num: int) (tool_invocationId: string) (tool_name: string)
      (tool_result: json) (tool_isError: bool)
  | NoteEntry (entry_num: int) (note_text: string)
  | RawEntry json

text \<open>\<open>entry.seq\<close>\<close>

fun entry_seq :: "session_entry \<Rightarrow> json" where
  "entry_seq (UserEntry n _ _ _ _ _) = JNum n"
| "entry_seq (AssistantEntry n _ _ _ _) = JNum n"
| "entry_seq (ToolResultEntry n _ _ _ _) = JNum n"
| "entry_seq (NoteEntry n _) = JNum n"
| "entry_seq (RawEntry j) = jget j ''seq''"

definition defined_opt :: "json \<Rightarrow> json option" where
  "defined_opt v = (if v = JUndefined then None else Some v)"

fun entry_to_json :: "session_entry \<Rightarrow> json" where
  "entry_to_json (UserEntry n e src sender content md) =
     JObj ([(''kind'', JStr ''user''), (''seq'', JNum n), (''envelopeId'', JStr e)]
       @ opt_prop ''sourceMessageId'' JStr src
       @ opt_prop ''senderRef'' id sender
       @ [(''content'', content)]
       @ opt_prop ''metadata'' id md)"
| "entry_to_json (AssistantEntry n m sender blocks outcome) =
     JObj ([(''kind'', JStr ''assistant''), (''seq'', JNum n), (''messageId'', JStr m)]
       @ opt_prop ''senderRef'' id sender
       @ [(''blocks'', JArr blocks)]
       @ opt_prop ''outcome'' JStr outcome)"
| "entry_to_json (ToolResultEntry n i name result isError) =
     JObj [(''kind'', JStr ''tool-result''), (''seq'', JNum n), (''invocationId'', JStr i),
       (''name'', JStr name), (''result'', result), (''isError'', JBool isError)]"
| "entry_to_json (NoteEntry n text) =
     JObj [(''kind'', JStr ''note''), (''seq'', JNum n), (''text'', JStr text)]"
| "entry_to_json (RawEntry j) = j"

definition entry_of_json :: "json \<Rightarrow> session_entry" where
  "entry_of_json j =
     (let kind = jget j ''kind'' in
      if kind = JStr ''user'' then
        (case (jget j ''seq'', jget j ''envelopeId'') of
           (JNum n, JStr e) \<Rightarrow>
             UserEntry n e (string_opt (jget j ''sourceMessageId''))
               (defined_opt (jget j ''senderRef'')) (jget j ''content'')
               (defined_opt (jget j ''metadata''))
         | _ \<Rightarrow> RawEntry j)
      else if kind = JStr ''assistant'' then
        (case (jget j ''seq'', jget j ''messageId'', jget j ''blocks'') of
           (JNum n, JStr m, JArr bs) \<Rightarrow>
             AssistantEntry n m (defined_opt (jget j ''senderRef'')) bs
               (string_opt (jget j ''outcome''))
         | _ \<Rightarrow> RawEntry j)
      else if kind = JStr ''tool-result'' then
        (case (jget j ''seq'', jget j ''invocationId'', jget j ''name'', jget j ''isError'') of
           (JNum n, JStr i, JStr nm, JBool b) \<Rightarrow> ToolResultEntry n i nm (jget j ''result'') b
         | _ \<Rightarrow> RawEntry j)
      else if kind = JStr ''note'' then
        (case (jget j ''seq'', jget j ''text'') of
           (JNum n, JStr t) \<Rightarrow> NoteEntry n t
         | _ \<Rightarrow> RawEntry j)
      else RawEntry j)"

text \<open>Entries that survive the log: optional fields hold no \<open>undefined\<close>, and a raw
  element is really of none of the four shapes.\<close>

fun entry_loggable :: "session_entry \<Rightarrow> bool" where
  "entry_loggable (UserEntry _ _ _ sender _ md) = (sender \<noteq> Some JUndefined \<and> md \<noteq> Some JUndefined)"
| "entry_loggable (AssistantEntry _ _ sender _ _) = (sender \<noteq> Some JUndefined)"
| "entry_loggable (RawEntry j) = (entry_of_json j = RawEntry j)"
| "entry_loggable _ = True"

lemma entry_json_roundtrip: "entry_loggable e \<Longrightarrow> entry_of_json (entry_to_json e) = e"
proof (cases e)
  case (UserEntry n e' src sender content md)
  then show "entry_loggable e \<Longrightarrow> ?thesis"
    by (cases src; cases sender; cases md) (simp_all add: entry_of_json_def defined_opt_def)
next
  case (AssistantEntry n m sender blocks outcome)
  then show "entry_loggable e \<Longrightarrow> ?thesis"
    by (cases sender; cases outcome) (simp_all add: entry_of_json_def defined_opt_def)
qed (simp_all add: entry_of_json_def)

lemma defined_opt_neq [simp]: "defined_opt v \<noteq> Some JUndefined"
  by (simp add: defined_opt_def)

lemma entry_of_json_Raw: "entry_of_json j = RawEntry j' \<Longrightarrow> j' = j"
  by (simp add: entry_of_json_def Let_def split: if_splits json.splits)

lemma entry_of_json_User:
  "entry_of_json j = UserEntry n e src sender content md \<Longrightarrow>
     sender \<noteq> Some JUndefined \<and> md \<noteq> Some JUndefined"
  by (auto simp: entry_of_json_def Let_def split: if_splits json.splits)

lemma entry_of_json_Assistant:
  "entry_of_json j = AssistantEntry n m sender blocks outcome \<Longrightarrow> sender \<noteq> Some JUndefined"
  by (auto simp: entry_of_json_def Let_def split: if_splits json.splits)

lemma entry_of_json_loggable: "entry_loggable (entry_of_json j)"
  by (cases "entry_of_json j")
     (use entry_of_json_Raw [of j] in \<open>auto dest: entry_of_json_User entry_of_json_Assistant\<close>)

subsection \<open>The loop state\<close>

record agent_state =
  logId :: string
  head :: string
  channelId :: string
  lastSeq :: int
  lastHash :: string
  forkSeq :: int
  selfId :: "string option"
  config :: json
  entries :: "session_entry list"
  openTurn :: "open_turn option"
  inFlightModelCall :: "in_flight_model_call option"
  pendingInvocations :: "pending_invocation dict"
  pendingApprovals :: "pending_approval dict"
  pendingCredentialWaits :: "pending_credential_wait dict"
  steeringQueue :: "steering_entry list"
  pendingPrompt :: "pending_prompt option"
  deferredPostTurnQueue :: "deferred_prompt list"

definition GENESIS_LAST_HASH :: string where
  "GENESIS_LAST_HASH = replicate 64 (CHR ''0'')"

record initial_state_input =
  in_channelId :: string
  in_logId :: "string option"
  in_head :: "string option"
  in_config :: json
  in_forkSeq :: "int option"
  in_lastSeq :: "int option"
  in_lastHash :: "string option"
  in_selfId :: "string option"

definition initialAgentState :: "initial_state_input \<Rightarrow> agent_state" where
  "initialAgentState input =
     (let lid = option_or (in_logId input) (''branch:channel:'' @ in_channelId input) in
      \<lparr> logId = lid,
        head = option_or (in_head input) lid,
        channelId = in_channelId input,
        lastSeq = option_or (in_lastSeq input) (option_or (in_forkSeq input) 0),
        lastHash = option_or (in_lastHash input) GENESIS_LAST_HASH,
        forkSeq = option_or (in_forkSeq input) 0,
        selfId = (case in_selfId input of Some s \<Rightarrow> if s = [] then None else Some s | None \<Rightarrow> None),
        config = in_config input,
        entries = [],
        openTurn = None,
        inFlightModelCall = None,
        pendingInvocations = [],
        pendingApprovals = [],
        pendingCredentialWaits = [],
        steeringQueue = [],
        pendingPrompt = None,
        deferredPostTurnQueue = [] \<rparr>)"

text \<open>The input configuration wins except for the fold-owned keys.\<close>

definition FOLD_OWNED_CONFIG_KEYS :: "string list" where
  "FOLD_OWNED_CONFIG_KEYS = [''roster'']"

definition overlayInputConfig :: "json \<Rightarrow> json \<Rightarrow> json" where
  "overlayInputConfig folded input =
     JObj (fold (\<lambda>k merged. dput k (jget folded k) merged) FOLD_OWNED_CONFIG_KEYS (own_props input))"

datatype turn_status = Idle | Starting | RunningModel | WaitingExternal | Continuing

definition derivedTurnStatus :: "agent_state \<Rightarrow> turn_status" where
  "derivedTurnStatus state =
     (case openTurn state of
        None \<Rightarrow> Idle
      | Some turn \<Rightarrow>
          if inFlightModelCall state \<noteq> None then RunningModel
          else if ot_modelCallCount turn = 0 then Starting
          else
            let pendings = map snd (pendingInvocations state);
                hasExternal =
                  (\<exists>inv \<in> set pendings. jget (pi_transport inv) ''kind'' \<noteq> JStr ''local'')
                  \<or> pendingApprovals state \<noteq> []
                  \<or> pendingCredentialWaits state \<noteq> []
            in if pendings \<noteq> [] \<or> hasExternal then WaitingExternal else Continuing)"

end
