(* ===== verification/Fold.thy ===== *)
theory Fold
  imports LoopState
begin

text \<open>
  The fold (\<open>agent-loop/src/fold.ts\<close>): one pure reducer over trajectory log envelopes.
  \<open>applyEvent\<close> dispatches on the event kind to one handler per \<open>case\<close> of the source's
  switch; every handler receives the state already advanced to the envelope's position
  (\<open>withAdvance\<close>). The three \<open>throw\<close>s of the source are values of \<open>loop_error\<close>.

  After the definitions: the well-formedness invariant of the pending maps and of the
  entries, kept by every event of any author; what an event can change; the author filter;
  the read-wins cutoff of edits and retractions; the deferred queue.
\<close>

subsection \<open>Reading payloads\<close>

definition payloadRecord :: "log_envelope \<Rightarrow> json" where
  "payloadRecord envelope =
     (if is_plain_object (env_payload envelope) then env_payload envelope else JObj [])"

definition causalityRecord :: "log_envelope \<Rightarrow> json" where
  "causalityRecord envelope = coalesce (env_causality envelope) (JObj [])"

definition metadataFromPayload :: "json \<Rightarrow> json option" where
  "metadataFromPayload payload =
     (let metadata = jget payload ''metadata'' in
      if is_plain_object metadata then Some metadata else None)"

definition sourceMessageIdFromPayload :: "json \<Rightarrow> string option" where
  "sourceMessageIdFromPayload payload =
     (case jget payload ''sourceMessageId'' of
        JStr s \<Rightarrow> if s = [] then None else Some s
      | _ \<Rightarrow> None)"

definition senderRefFromPayload :: "json \<Rightarrow> json \<Rightarrow> json" where
  "senderRefFromPayload payload fallback =
     (let value = jget payload ''senderRef'' in
      if is_plain_object value then value else fallback)"

definition liveSenderRef :: "agent_state \<Rightarrow> string \<Rightarrow> json option" where
  "liveSenderRef state sourceMessageId =
     (case find (\<lambda>e. se_sourceMessageId e = Some sourceMessageId) (steeringQueue state) of
        Some e \<Rightarrow> Some (se_senderRef e)
      | None \<Rightarrow>
          (case pendingPrompt state of
             Some p \<Rightarrow>
               if pp_sourceMessageId p = Some sourceMessageId then Some (pp_senderRef p)
               else map_option dp_senderRef
                      (find (\<lambda>d. dp_sourceMessageId d = sourceMessageId) (deferredPostTurnQueue state))
           | None \<Rightarrow>
               map_option dp_senderRef
                 (find (\<lambda>d. dp_sourceMessageId d = sourceMessageId) (deferredPostTurnQueue state))))"

definition withEditedBlocks :: "json \<Rightarrow> json \<Rightarrow> json" where
  "withEditedBlocks content blocks =
     JObj (dput ''blocks'' blocks (if is_plain_object content then own_props content else []))"

definition withAdvance :: "agent_state \<Rightarrow> log_envelope \<Rightarrow> agent_state" where
  "withAdvance state envelope =
     state\<lparr>lastSeq := env_seq envelope, lastHash := env_hash envelope\<rparr>"

definition foreignAuthor :: "agent_state \<Rightarrow> log_envelope \<Rightarrow> bool" where
  "foreignAuthor state envelope =
     (case selfId state of
        None \<Rightarrow> False
      | Some self \<Rightarrow> jget (env_actor envelope) ''id'' \<noteq> JStr self)"

definition causalityTurnId :: "log_envelope \<Rightarrow> string option" where
  "causalityTurnId envelope = string_opt (jget (causalityRecord envelope) ''turnId'')"

definition causalityId :: "log_envelope \<Rightarrow> string \<Rightarrow> string" where
  "causalityId envelope key = string_or (jget (causalityRecord envelope) key) []"

text \<open>\<open>turnId ?? state.openTurn?.turnId ?? ""\<close>\<close>

definition turnIdOrOpen :: "agent_state \<Rightarrow> log_envelope \<Rightarrow> string" where
  "turnIdOrOpen state envelope =
     (case causalityTurnId envelope of
        Some t \<Rightarrow> t
      | None \<Rightarrow> (case openTurn state of Some turn \<Rightarrow> ot_turnId turn | None \<Rightarrow> []))"

subsection \<open>Turn lifecycle\<close>

definition foldTurnOpened :: "agent_state \<Rightarrow> log_envelope \<Rightarrow> agent_state" where
  "foldTurnOpened state envelope =
     (let payload = payloadRecord envelope in
      case causalityTurnId envelope of
        None \<Rightarrow> state
      | Some turnId \<Rightarrow>
          if turnId = [] \<or> foreignAuthor state envelope then state
          else state\<lparr>
            openTurn := Some \<lparr>
              ot_turnId = turnId,
              ot_openedAtSeq = env_seq envelope,
              ot_reason = string_opt (jget payload ''reason''),
              ot_modelCallCount = 0,
              ot_interrupted = False,
              ot_waitingCount = 0,
              ot_metadata = metadataFromPayload payload,
              ot_pendingFlush = None \<rparr>,
            pendingPrompt := None \<rparr>)"

definition foldTurnClosed :: "agent_state \<Rightarrow> log_envelope \<Rightarrow> agent_state" where
  "foldTurnClosed state envelope =
     (if foreignAuthor state envelope then state
      else
        case (openTurn state, causalityTurnId envelope) of
          (Some turn, Some turnId) \<Rightarrow>
            if turnId \<noteq> [] \<and> ot_turnId turn \<noteq> turnId then state
            else state\<lparr>openTurn := None, inFlightModelCall := None\<rparr>
        | _ \<Rightarrow> state\<lparr>openTurn := None, inFlightModelCall := None\<rparr>)"

definition foldTurnWaiting :: "agent_state \<Rightarrow> log_envelope \<Rightarrow> agent_state" where
  "foldTurnWaiting state envelope =
     (if foreignAuthor state envelope then state
      else
        case openTurn state of
          None \<Rightarrow> state
        | Some turn \<Rightarrow>
            state\<lparr>openTurn := Some (turn\<lparr>ot_waitingCount := ot_waitingCount turn + 1\<rparr>)\<rparr>)"

subsection \<open>Messages\<close>

definition foldMessageStarted :: "agent_state \<Rightarrow> log_envelope \<Rightarrow> agent_state res" where
  "foldMessageStarted state envelope =
     (let payload = payloadRecord envelope in
      if jget payload ''role'' \<noteq> JStr ''assistant'' \<or> foreignAuthor state envelope then Inr state
      else
        let messageId = causalityId envelope ''messageId'';
            request = jget payload ''modelRequest''
        in if \<not> truthy request then Inl (MissingModelRequest messageId)
           else
             let contextThroughSeq = jget request ''contextThroughSeq'' in
             Inr (state\<lparr>
               inFlightModelCall := Some \<lparr>
                 mc_messageId = messageId,
                 mc_attemptId = jget request ''attemptId'',
                 mc_contextThroughSeq = contextThroughSeq,
                 mc_request = request \<rparr>,
               openTurn :=
                 map_option
                   (\<lambda>turn. turn\<lparr>ot_modelCallCount := ot_modelCallCount turn + 1,
                                ot_pendingFlush := None\<rparr>)
                   (openTurn state),
               steeringQueue := filter (\<lambda>entry. num_gt (se_seq entry) contextThroughSeq) (steeringQueue state) \<rparr>))"

definition foldAssistantCompleted :: "agent_state \<Rightarrow> log_envelope \<Rightarrow> agent_state" where
  "foldAssistantCompleted state envelope =
     (let payload = payloadRecord envelope;
          messageId = causalityId envelope ''messageId'';
          entry = AssistantEntry (env_seq envelope) messageId (Some (env_actor envelope))
                    (array_or_empty (jget payload ''blocks'')) (string_opt (jget payload ''outcome''))
      in if foreignAuthor state envelope then state\<lparr>entries := entries state @ [entry]\<rparr>
         else
           case inFlightModelCall state of
             Some call \<Rightarrow>
               if mc_messageId call \<noteq> messageId then state
               else state\<lparr>inFlightModelCall := None, entries := entries state @ [entry]\<rparr>
           | None \<Rightarrow> state\<lparr>inFlightModelCall := None, entries := entries state @ [entry]\<rparr>)"

text \<open>\<open>metadata?.deliverAfterTurn\<close>\<close>

definition deliverAfterTurn :: "json option \<Rightarrow> bool" where
  "deliverAfterTurn metadata =
     (case metadata of None \<Rightarrow> False | Some m \<Rightarrow> truthy (jget m ''deliverAfterTurn''))"

definition foldUserCompleted :: "agent_state \<Rightarrow> log_envelope \<Rightarrow> agent_state" where
  "foldUserCompleted state envelope =
     (let payload = payloadRecord envelope;
          metadata = metadataFromPayload payload;
          sourceMessageId = sourceMessageIdFromPayload payload;
          senderRef = senderRefFromPayload payload (env_actor envelope);
          agentHops = number_opt (jget (causalityRecord envelope) ''agentHops'')
      in if deliverAfterTurn metadata \<and> openTurn state \<noteq> None then
           state\<lparr>deferredPostTurnQueue := deferredPostTurnQueue state @
             [\<lparr> dp_sourceMessageId = option_or sourceMessageId (env_envelopeId envelope),
                dp_envelopeId = env_envelopeId envelope,
                dp_seq = env_seq envelope,
                dp_senderRef = senderRef,
                dp_content = payload,
                dp_metadata = metadata,
                dp_agentHops = agentHops \<rparr>]\<rparr>
         else
           let deferred =
                 (case sourceMessageId of
                    Some sid \<Rightarrow> filter (\<lambda>d. dp_sourceMessageId d \<noteq> sid) (deferredPostTurnQueue state)
                  | None \<Rightarrow> deferredPostTurnQueue state);
               entry = UserEntry (env_seq envelope) (env_envelopeId envelope) sourceMessageId
                         (Some senderRef) payload metadata;
               steering = \<lparr> se_envelopeId = env_envelopeId envelope,
                            se_seq = env_seq envelope,
                            se_sourceMessageId = sourceMessageId,
                            se_senderRef = senderRef,
                            se_content = payload,
                            se_metadata = metadata \<rparr>
           in if openTurn state \<noteq> None then
                state\<lparr>deferredPostTurnQueue := deferred,
                      entries := entries state @ [entry],
                      steeringQueue := steeringQueue state @ [steering]\<rparr>
              else
                state\<lparr>deferredPostTurnQueue := deferred,
                      entries := entries state @ [entry],
                      pendingPrompt := Some
                        \<lparr> pp_envelopeId = env_envelopeId envelope,
                          pp_seq = env_seq envelope,
                          pp_sourceMessageId = sourceMessageId,
                          pp_senderRef = senderRef,
                          pp_content = payload,
                          pp_agentHops = agentHops,
                          pp_metadata = metadata \<rparr>\<rparr>)"

definition foldMessageCompleted :: "agent_state \<Rightarrow> log_envelope \<Rightarrow> agent_state" where
  "foldMessageCompleted state envelope =
     (if jget (payloadRecord envelope) ''role'' = JStr ''assistant''
      then foldAssistantCompleted state envelope
      else foldUserCompleted state envelope)"

text \<open>\<open>by && participantKey(by) !== participantKey(sender)\<close>\<close>

definition authorMismatch :: "json \<Rightarrow> json \<Rightarrow> bool" where
  "authorMismatch by' sender = (truthy by' \<and> participantKey by' \<noteq> participantKey sender)"

fun edit_entry :: "string \<Rightarrow> json \<Rightarrow> session_entry \<Rightarrow> session_entry" where
  "edit_entry sid blocks (UserEntry n e src sender content md) =
     (if src = Some sid then UserEntry n e src sender (withEditedBlocks content blocks) md
      else UserEntry n e src sender content md)"
| "edit_entry sid blocks (RawEntry j) =
     (if jget j ''kind'' = JStr ''user'' \<and> jget j ''sourceMessageId'' = JStr sid
      then RawEntry (JObj (dput ''content'' (withEditedBlocks (jget j ''content'') blocks) (own_props j)))
      else RawEntry j)"
| "edit_entry sid blocks entry = entry"

fun is_user_entry_of :: "string \<Rightarrow> session_entry \<Rightarrow> bool" where
  "is_user_entry_of sid (UserEntry _ _ src _ _ _) = (src = Some sid)"
| "is_user_entry_of sid (RawEntry j) =
     (jget j ''kind'' = JStr ''user'' \<and> jget j ''sourceMessageId'' = JStr sid)"
| "is_user_entry_of sid _ = False"

definition foldMessageEdited :: "agent_state \<Rightarrow> log_envelope \<Rightarrow> agent_state" where
  "foldMessageEdited state envelope =
     (let payload = payloadRecord envelope;
          sid = causalityId envelope ''messageId''
      in if sid = [] then state
         else
           case liveSenderRef state sid of
             None \<Rightarrow> state
           | Some sender \<Rightarrow>
               if \<not> truthy sender \<or> authorMismatch (jget payload ''by'') sender then state
               else
                 let blocks = JArr (array_or_empty (jget payload ''blocks'')) in
                 state\<lparr>
                   steeringQueue := map (\<lambda>e. if se_sourceMessageId e = Some sid
                     then e\<lparr>se_content := withEditedBlocks (se_content e) blocks\<rparr> else e) (steeringQueue state),
                   pendingPrompt := map_option (\<lambda>p. if pp_sourceMessageId p = Some sid
                     then p\<lparr>pp_content := withEditedBlocks (pp_content p) blocks\<rparr> else p) (pendingPrompt state),
                   deferredPostTurnQueue := map (\<lambda>d. if dp_sourceMessageId d = sid
                     then d\<lparr>dp_content := withEditedBlocks (dp_content d) blocks\<rparr> else d) (deferredPostTurnQueue state),
                   entries := map (edit_entry sid blocks) (entries state) \<rparr>)"

definition foldMessageRetracted :: "agent_state \<Rightarrow> log_envelope \<Rightarrow> agent_state" where
  "foldMessageRetracted state envelope =
     (let payload = payloadRecord envelope;
          sid = causalityId envelope ''messageId''
      in if sid = [] then state
         else
           case liveSenderRef state sid of
             None \<Rightarrow> state
           | Some sender \<Rightarrow>
               if \<not> truthy sender \<or> authorMismatch (jget payload ''by'') sender then state
               else
                 state\<lparr>
                   steeringQueue := filter (\<lambda>e. se_sourceMessageId e \<noteq> Some sid) (steeringQueue state),
                   pendingPrompt := (case pendingPrompt state of
                       Some p \<Rightarrow> if pp_sourceMessageId p = Some sid then None else Some p
                     | None \<Rightarrow> None),
                   deferredPostTurnQueue := filter (\<lambda>d. dp_sourceMessageId d \<noteq> sid) (deferredPostTurnQueue state),
                   entries := filter (\<lambda>e. \<not> is_user_entry_of sid e) (entries state) \<rparr>)"

definition foldMessageFailed :: "agent_state \<Rightarrow> log_envelope \<Rightarrow> agent_state" where
  "foldMessageFailed state envelope =
     (if foreignAuthor state envelope then state
      else
        case inFlightModelCall state of
          Some call \<Rightarrow>
            if mc_messageId call \<noteq> causalityId envelope ''messageId'' then state
            else state\<lparr>inFlightModelCall := None\<rparr>
        | None \<Rightarrow> state\<lparr>inFlightModelCall := None\<rparr>)"

subsection \<open>Invocations and approvals\<close>

definition foldInvocationStarted :: "agent_state \<Rightarrow> log_envelope \<Rightarrow> agent_state res" where
  "foldInvocationStarted state envelope =
     (let payload = payloadRecord envelope;
          invocationId = causalityId envelope ''invocationId'';
          transport = jget payload ''transport''
      in if foreignAuthor state envelope then Inr state
         else if invocationId = [] then Inr state
         else if \<not> truthy transport then Inl (MissingTransport invocationId)
         else Inr (state\<lparr>
           pendingInvocations := dput invocationId
             \<lparr> pi_invocationId = invocationId,
               pi_turnId = turnIdOrOpen state envelope,
               pi_startedAtSeq = env_seq envelope,
               pi_attemptId = string_opt (jget (causalityRecord envelope) ''attemptId''),
               pi_name = string_or (jget payload ''name'') ''unknown'',
               pi_transport = transport,
               pi_request = jget payload ''request'',
               pi_requiresApproval = (jget payload ''requiresApproval'' = JBool True),
               pi_approvalId = None,
               pi_approvalState = ApprovalNone \<rparr>
             (pendingInvocations state) \<rparr>))"

definition foldInvocationTerminal :: "agent_state \<Rightarrow> log_envelope \<Rightarrow> agent_state" where
  "foldInvocationTerminal state envelope =
     (let payload = payloadRecord envelope;
          invocationId = causalityId envelope ''invocationId''
      in if foreignAuthor state envelope then state
         else
           case dget (pendingInvocations state) invocationId of
             None \<Rightarrow> state
           | Some pending \<Rightarrow>
               let entry =
                 (if env_payloadKind envelope = InvocationCompleted then
                    ToolResultEntry (env_seq envelope) invocationId (pi_name pending)
                      (jget payload ''result'') False
                  else
                    ToolResultEntry (env_seq envelope) invocationId (pi_name pending)
                      (if env_payloadKind envelope = InvocationAbandoned
                       then JStr (''abandoned: '' @ string_or (jget payload ''reason'') ''abandoned'')
                       else coalesce (jget payload ''error'')
                              (coalesce (jget payload ''reason'') (JStr ''failed''))) True)
               in state\<lparr>
                 pendingInvocations := ddel invocationId (pendingInvocations state),
                 entries := entries state @ [entry] \<rparr>)"

definition foldApprovalRequested :: "agent_state \<Rightarrow> log_envelope \<Rightarrow> agent_state" where
  "foldApprovalRequested state envelope =
     (let payload = payloadRecord envelope;
          approvalId = causalityId envelope ''approvalId'';
          invocationId = causalityId envelope ''invocationId'';
          details = coalesce (jget payload ''details'') (JObj [])
      in if foreignAuthor state envelope \<or> approvalId = [] then state
         else state\<lparr>
           pendingApprovals := dput approvalId
             \<lparr> pa_approvalId = approvalId,
               pa_invocationId = invocationId,
               pa_turnId = turnIdOrOpen state envelope,
               pa_startedAtSeq = env_seq envelope,
               pa_question = string_or (jget payload ''question'') ''Allow tool call?'',
               pa_toolName = coalesce (jget details ''toolName'') (JStr []),
               pa_input = jget details ''input'' \<rparr>
             (pendingApprovals state),
           pendingInvocations :=
             (case dget (pendingInvocations state) invocationId of
                None \<Rightarrow> pendingInvocations state
              | Some invocation \<Rightarrow>
                  dput invocationId
                    (invocation\<lparr>pi_approvalState := ApprovalPending, pi_approvalId := Some approvalId\<rparr>)
                    (pendingInvocations state)) \<rparr>)"

definition foldApprovalResolved :: "agent_state \<Rightarrow> log_envelope \<Rightarrow> agent_state" where
  "foldApprovalResolved state envelope =
     (let payload = payloadRecord envelope;
          approvalId = causalityId envelope ''approvalId''
      in if foreignAuthor state envelope then state
         else
           case dget (pendingApprovals state) approvalId of
             None \<Rightarrow> state
           | Some approval \<Rightarrow>
               state\<lparr>
                 pendingApprovals := ddel approvalId (pendingApprovals state),
                 pendingInvocations :=
                   (case dget (pendingInvocations state) (pa_invocationId approval) of
                      None \<Rightarrow> pendingInvocations state
                    | Some invocation \<Rightarrow>
                        if jget payload ''granted'' = JBool True
                        then dput (pa_invocationId approval)
                               (invocation\<lparr>pi_approvalState := ApprovalGranted\<rparr>)
                               (pendingInvocations state)
                        else pendingInvocations state) \<rparr>)"

subsection \<open>System events\<close>

definition foldCompaction :: "agent_state \<Rightarrow> log_envelope \<Rightarrow> agent_state" where
  "foldCompaction state envelope =
     (case jget (payloadRecord envelope) ''replacement'' of
        JArr xs \<Rightarrow> state\<lparr>entries := map entry_of_json xs\<rparr>
      | _ \<Rightarrow> state)"

definition eventDetails :: "json \<Rightarrow> json" where
  "eventDetails payload = coalesce (jget payload ''details'') (JObj [])"

definition detailKindOf :: "json \<Rightarrow> string" where
  "detailKindOf payload =
     js_String (coalesce (jget (eventDetails payload) ''kind'')
                  (coalesce (jget payload ''kind'') (JStr [])))"

text \<open>Payload first, then details: \<open>payload[k] ?? details[k]\<close>.\<close>

definition payloadOrDetail :: "json \<Rightarrow> string \<Rightarrow> json" where
  "payloadOrDetail payload k = coalesce (jget payload k) (jget (eventDetails payload) k)"

definition foldCredentialWaitStarted :: "agent_state \<Rightarrow> log_envelope \<Rightarrow> agent_state" where
  "foldCredentialWaitStarted state envelope =
     (let payload = payloadRecord envelope;
          details = eventDetails payload;
          credKey = string_or (payloadOrDetail payload ''credKey'') [];
          waitReason = payloadOrDetail payload ''waitReason'';
          messageId = string_or (coalesce (payloadOrDetail payload ''messageId'')
                        (jget (causalityRecord envelope) ''messageId'')) [];
          next = state\<lparr>
            pendingCredentialWaits := dput credKey
              \<lparr> cw_credKey = credKey,
                cw_providerId = string_or (payloadOrDetail payload ''providerId'') [],
                cw_turnId = turnIdOrOpen state envelope,
                cw_startedAtSeq = env_seq envelope,
                cw_connectSpec = coalesce (jget details ''connectSpec'') (JObj []),
                cw_modelBaseUrl = string_opt (payloadOrDetail payload ''modelBaseUrl''),
                cw_waitReason =
                  (if waitReason = JStr ''model_credential_reconnect_required''
                    \<or> waitReason = JStr ''model_credential_required''
                   then string_opt waitReason else None),
                cw_reason = string_opt (payloadOrDetail payload ''reason''),
                cw_failureCode = string_opt (payloadOrDetail payload ''failureCode''),
                cw_expiresAt = string_or (payloadOrDetail payload ''expiresAt'') [] \<rparr>
              (pendingCredentialWaits state) \<rparr>
      in case inFlightModelCall next of
           Some call \<Rightarrow>
             if messageId \<noteq> [] \<and> mc_messageId call = messageId
             then next\<lparr>inFlightModelCall := None\<rparr> else next
         | None \<Rightarrow> next)"

definition foldCredentialWaitSettled :: "agent_state \<Rightarrow> log_envelope \<Rightarrow> agent_state" where
  "foldCredentialWaitSettled state envelope =
     (let credKey = string_or (payloadOrDetail (payloadRecord envelope) ''credKey'') [] in
      case dget (pendingCredentialWaits state) credKey of
        None \<Rightarrow> state
      | Some _ \<Rightarrow> state\<lparr>pendingCredentialWaits := ddel credKey (pendingCredentialWaits state)\<rparr>)"

definition foldSystemEvent :: "agent_state \<Rightarrow> log_envelope \<Rightarrow> agent_state" where
  "foldSystemEvent state envelope =
     (let payload = payloadRecord envelope;
          details = eventDetails payload;
          detailKind = detailKindOf payload
      in if detailKind = ''credential.wait_started'' then foldCredentialWaitStarted state envelope
         else if detailKind = ''credential.wait_resolved'' \<or> detailKind = ''credential.wait_expired''
         then foldCredentialWaitSettled state envelope
         else if detailKind = ''roster.snapshot'' then
           state\<lparr>config := JObj (dput ''roster''
             (coalesce (jget details ''roster'') (JObj [(''participants'', JArr [])]))
             (own_props (config state)))\<rparr>
         else if detailKind = ''config.changed'' then
           state\<lparr>config := JObj (jspread (own_props (config state)) (own_props (jget details ''patch'')))\<rparr>
         else if detailKind = ''interrupt'' then
           (case openTurn state of
              Some turn \<Rightarrow> state\<lparr>openTurn := Some (turn\<lparr>ot_interrupted := True\<rparr>)\<rparr>
            | None \<Rightarrow> state)
         else if detailKind = ''flush_steers'' then
           (case openTurn state of
              Some turn \<Rightarrow> state\<lparr>openTurn := Some (turn\<lparr>ot_pendingFlush := Some ''steers''\<rparr>)\<rparr>
            | None \<Rightarrow> state)
         else state)"

subsection \<open>The reducer\<close>

definition applyEvent :: "agent_state \<Rightarrow> log_envelope \<Rightarrow> agent_state res" where
  "applyEvent prev envelope =
     (let state = withAdvance prev envelope in
      case env_payloadKind envelope of
        MessageDelta \<Rightarrow> Inl DeltaAppended
      | TurnOpened \<Rightarrow> Inr (foldTurnOpened state envelope)
      | TurnClosed \<Rightarrow> Inr (foldTurnClosed state envelope)
      | TurnWaiting \<Rightarrow> Inr (foldTurnWaiting state envelope)
      | MessageStarted \<Rightarrow> foldMessageStarted state envelope
      | MessageCompleted \<Rightarrow> Inr (foldMessageCompleted state envelope)
      | MessageEdited \<Rightarrow> Inr (foldMessageEdited state envelope)
      | MessageRetracted \<Rightarrow> Inr (foldMessageRetracted state envelope)
      | MessageFailed \<Rightarrow> Inr (foldMessageFailed state envelope)
      | InvocationStarted \<Rightarrow> foldInvocationStarted state envelope
      | InvocationCompleted \<Rightarrow> Inr (foldInvocationTerminal state envelope)
      | InvocationFailed \<Rightarrow> Inr (foldInvocationTerminal state envelope)
      | InvocationCancelled \<Rightarrow> Inr (foldInvocationTerminal state envelope)
      | InvocationAbandoned \<Rightarrow> Inr (foldInvocationTerminal state envelope)
      | ApprovalRequested \<Rightarrow> Inr (foldApprovalRequested state envelope)
      | ApprovalResolved \<Rightarrow> Inr (foldApprovalResolved state envelope)
      | CompactionRecorded \<Rightarrow> Inr (foldCompaction state envelope)
      | SystemEvent \<Rightarrow> Inr (foldSystemEvent state envelope)
      | OtherEvent _ \<Rightarrow> Inr state)"

definition foldEvents :: "agent_state \<Rightarrow> log_envelope list \<Rightarrow> agent_state res" where
  "foldEvents initial envelopes = fold_res applyEvent initial envelopes"

subsection \<open>Well-formed states\<close>

definition wf_state :: "agent_state \<Rightarrow> bool" where
  "wf_state state \<longleftrightarrow>
     keyed pi_invocationId (\<lambda>k. k \<noteq> []) (pendingInvocations state) \<and>
     keyed pa_approvalId (\<lambda>k. k \<noteq> []) (pendingApprovals state) \<and>
     keyed cw_credKey (\<lambda>k. True) (pendingCredentialWaits state) \<and>
     (\<forall>turn. openTurn state = Some turn \<longrightarrow> ot_turnId turn \<noteq> [])"

lemmas fold_handler_defs =
  foldTurnOpened_def foldTurnClosed_def foldTurnWaiting_def foldMessageStarted_def
  foldMessageCompleted_def foldAssistantCompleted_def foldUserCompleted_def
  foldMessageEdited_def foldMessageRetracted_def foldMessageFailed_def
  foldInvocationStarted_def foldInvocationTerminal_def foldApprovalRequested_def
  foldApprovalResolved_def foldCompaction_def foldSystemEvent_def
  foldCredentialWaitStarted_def foldCredentialWaitSettled_def

lemmas fold_split_rules =
  if_splits option.splits json.splits prod.splits

lemma wf_state_advance [simp]: "wf_state (withAdvance s e) = wf_state s"
  by (simp add: wf_state_def withAdvance_def)

lemma wf_foldTurnOpened: "wf_state s \<Longrightarrow> wf_state (foldTurnOpened s e)"
  by (auto simp: wf_state_def foldTurnOpened_def Let_def split: option.split)

lemma wf_foldTurnClosed: "wf_state s \<Longrightarrow> wf_state (foldTurnClosed s e)"
  by (auto simp: wf_state_def foldTurnClosed_def split: option.split)

lemma wf_foldTurnWaiting: "wf_state s \<Longrightarrow> wf_state (foldTurnWaiting s e)"
  by (auto simp: wf_state_def foldTurnWaiting_def split: option.split)

lemma wf_foldMessageStarted: "wf_state s \<Longrightarrow> foldMessageStarted s e = Inr s' \<Longrightarrow> wf_state s'"
  by (auto simp: wf_state_def foldMessageStarted_def Let_def split: if_splits)

lemma wf_foldMessageCompleted: "wf_state s \<Longrightarrow> wf_state (foldMessageCompleted s e)"
  by (simp add: wf_state_def foldMessageCompleted_def foldAssistantCompleted_def
      foldUserCompleted_def Let_def split: option.split)

lemma wf_foldMessageEdited: "wf_state s \<Longrightarrow> wf_state (foldMessageEdited s e)"
  by (simp add: wf_state_def foldMessageEdited_def Let_def split: option.split)

lemma wf_foldMessageRetracted: "wf_state s \<Longrightarrow> wf_state (foldMessageRetracted s e)"
  by (simp add: wf_state_def foldMessageRetracted_def Let_def split: option.split)

lemma wf_foldMessageFailed: "wf_state s \<Longrightarrow> wf_state (foldMessageFailed s e)"
  by (simp add: wf_state_def foldMessageFailed_def split: option.split)

lemma wf_foldInvocationStarted: "wf_state s \<Longrightarrow> foldInvocationStarted s e = Inr s' \<Longrightarrow> wf_state s'"
  by (auto simp: wf_state_def foldInvocationStarted_def Let_def split: if_splits)

lemma wf_foldInvocationTerminal: "wf_state s \<Longrightarrow> wf_state (foldInvocationTerminal s e)"
  by (auto simp: wf_state_def foldInvocationTerminal_def Let_def split: option.split)

lemma wf_foldApprovalRequested: "wf_state s \<Longrightarrow> wf_state (foldApprovalRequested s e)"
  by (auto simp: wf_state_def foldApprovalRequested_def Let_def split: option.split)

lemma wf_foldApprovalResolved: "wf_state s \<Longrightarrow> wf_state (foldApprovalResolved s e)"
  by (auto simp: wf_state_def foldApprovalResolved_def Let_def split: option.split)

lemma wf_foldCompaction: "wf_state s \<Longrightarrow> wf_state (foldCompaction s e)"
  by (simp add: wf_state_def foldCompaction_def split: json.split)

lemma wf_foldSystemEvent: "wf_state s \<Longrightarrow> wf_state (foldSystemEvent s e)"
  by (auto simp: wf_state_def foldSystemEvent_def foldCredentialWaitStarted_def
      foldCredentialWaitSettled_def Let_def split: option.split)

lemmas wf_fold_handlers =
  wf_foldTurnOpened wf_foldTurnClosed wf_foldTurnWaiting wf_foldMessageStarted
  wf_foldMessageCompleted wf_foldMessageEdited wf_foldMessageRetracted wf_foldMessageFailed
  wf_foldInvocationStarted wf_foldInvocationTerminal wf_foldApprovalRequested
  wf_foldApprovalResolved wf_foldCompaction wf_foldSystemEvent

lemma applyEvent_wf: "wf_state s \<Longrightarrow> applyEvent s e = Inr s' \<Longrightarrow> wf_state s'"
  by (cases "env_payloadKind e")
     (auto simp: applyEvent_def Let_def intro: wf_fold_handlers
        dest: wf_foldMessageStarted [rotated] wf_foldInvocationStarted [rotated])

interpretation fold_wf: replay applyEvent wf_state
  by unfold_locales (rule applyEvent_wf)

subsection \<open>What an event can change\<close>

lemma advance_fields [simp]:
  "logId (withAdvance s e) = logId s" "head (withAdvance s e) = head s"
  "channelId (withAdvance s e) = channelId s" "forkSeq (withAdvance s e) = forkSeq s"
  "selfId (withAdvance s e) = selfId s" "config (withAdvance s e) = config s"
  "entries (withAdvance s e) = entries s" "openTurn (withAdvance s e) = openTurn s"
  "inFlightModelCall (withAdvance s e) = inFlightModelCall s"
  "pendingInvocations (withAdvance s e) = pendingInvocations s"
  "pendingApprovals (withAdvance s e) = pendingApprovals s"
  "pendingCredentialWaits (withAdvance s e) = pendingCredentialWaits s"
  "steeringQueue (withAdvance s e) = steeringQueue s"
  "pendingPrompt (withAdvance s e) = pendingPrompt s"
  "deferredPostTurnQueue (withAdvance s e) = deferredPostTurnQueue s"
  "lastSeq (withAdvance s e) = env_seq e" "lastHash (withAdvance s e) = env_hash e"
  by (simp_all add: withAdvance_def)

lemma foreignAuthor_advance [simp]: "foreignAuthor (withAdvance s e) e' = foreignAuthor s e'"
  by (simp add: foreignAuthor_def)

lemma liveSenderRef_advance [simp]: "liveSenderRef (withAdvance s e) sid = liveSenderRef s sid"
  by (simp add: liveSenderRef_def split: option.split)

text \<open>Fields no handler writes: the identity of the log and the agent.\<close>

definition same_identity :: "agent_state \<Rightarrow> agent_state \<Rightarrow> bool" where
  "same_identity s s' \<longleftrightarrow> logId s' = logId s \<and> head s' = head s \<and> channelId s' = channelId s \<and>
     forkSeq s' = forkSeq s \<and> selfId s' = selfId s"

definition positioned :: "agent_state \<Rightarrow> log_envelope \<Rightarrow> agent_state \<Rightarrow> bool" where
  "positioned s e s' \<longleftrightarrow> same_identity s s' \<and> lastSeq s' = env_seq e \<and> lastHash s' = env_hash e"

lemma positioned_handlers:
  assumes "positioned s e t"
  shows "positioned s e (foldTurnOpened t e')" "positioned s e (foldTurnClosed t e')"
    "positioned s e (foldTurnWaiting t e')" "positioned s e (foldMessageCompleted t e')"
    "positioned s e (foldMessageEdited t e')" "positioned s e (foldMessageRetracted t e')"
    "positioned s e (foldMessageFailed t e')" "positioned s e (foldInvocationTerminal t e')"
    "positioned s e (foldApprovalRequested t e')" "positioned s e (foldApprovalResolved t e')"
    "positioned s e (foldCompaction t e')" "positioned s e (foldSystemEvent t e')"
  using assms
  by (simp_all add: positioned_def same_identity_def fold_handler_defs Let_def
      split: option.split json.split)

lemma positioned_throwing:
  "positioned s e t \<Longrightarrow> foldMessageStarted t e' = Inr s' \<Longrightarrow> positioned s e s'"
  "positioned s e t \<Longrightarrow> foldInvocationStarted t e' = Inr s' \<Longrightarrow> positioned s e s'"
  by (auto simp: positioned_def same_identity_def foldMessageStarted_def foldInvocationStarted_def
      Let_def split: if_splits)

lemma positioned_advance: "positioned s e (withAdvance s e)"
  by (simp add: positioned_def same_identity_def)

lemma applyEvent_positioned: "applyEvent s e = Inr s' \<Longrightarrow> positioned s e s'"
  using positioned_advance [of s e]
  by (cases "env_payloadKind e")
     (auto simp: applyEvent_def Let_def intro: positioned_handlers
        dest: positioned_throwing [rotated])

text \<open>The part of the state that belongs to this agent's own turn machinery.\<close>

definition same_lifecycle :: "agent_state \<Rightarrow> agent_state \<Rightarrow> bool" where
  "same_lifecycle s s' \<longleftrightarrow> openTurn s' = openTurn s \<and> inFlightModelCall s' = inFlightModelCall s \<and>
     pendingInvocations s' = pendingInvocations s \<and> pendingApprovals s' = pendingApprovals s \<and>
     pendingCredentialWaits s' = pendingCredentialWaits s \<and> config s' = config s"

lemma lifecycle_message_handlers:
  assumes "same_lifecycle s t"
  shows "foreignAuthor t e \<Longrightarrow> same_lifecycle s (foldMessageCompleted t e)"
    "same_lifecycle s (foldMessageEdited t e)" "same_lifecycle s (foldMessageRetracted t e)"
    "same_lifecycle s (foldCompaction t e)"
  using assms
  by (simp_all add: same_lifecycle_def foldMessageCompleted_def foldAssistantCompleted_def
      foldUserCompleted_def foldMessageEdited_def foldMessageRetracted_def foldCompaction_def Let_def
      split: option.split json.split)

lemma foreign_own_handlers:
  assumes "foreignAuthor s e"
  shows "foldTurnOpened s e = s" "foldTurnClosed s e = s" "foldTurnWaiting s e = s"
    "foldMessageStarted s e = Inr s" "foldMessageFailed s e = s"
    "foldInvocationStarted s e = Inr s" "foldInvocationTerminal s e = s"
    "foldApprovalRequested s e = s" "foldApprovalResolved s e = s"
  using assms by (simp_all add: fold_handler_defs Let_def split: option.split)

lemma same_lifecycle_advance: "same_lifecycle s (withAdvance s e)"
  by (simp add: same_lifecycle_def)

subsection \<open>Messages: context snapshots, deferral, edit and retraction\<close>

lemma applyEvent_message [simp]:
  "env_payloadKind e = MessageCompleted \<Longrightarrow> applyEvent s e = Inr (foldMessageCompleted (withAdvance s e) e)"
  "env_payloadKind e = MessageStarted \<Longrightarrow> applyEvent s e = foldMessageStarted (withAdvance s e) e"
  "env_payloadKind e = MessageEdited \<Longrightarrow> applyEvent s e = Inr (foldMessageEdited (withAdvance s e) e)"
  "env_payloadKind e = MessageRetracted \<Longrightarrow> applyEvent s e = Inr (foldMessageRetracted (withAdvance s e) e)"
  by (simp_all add: applyEvent_def)

text \<open>Where a message still has an unread copy, and the copies themselves.\<close>

definition unread_copies :: "agent_state \<Rightarrow> string \<Rightarrow> nat" where
  "unread_copies s sid =
     length (filter (\<lambda>x. se_sourceMessageId x = Some sid) (steeringQueue s))
     + (case pendingPrompt s of Some p \<Rightarrow> if pp_sourceMessageId p = Some sid then 1 else 0 | None \<Rightarrow> 0)
     + length (filter (\<lambda>d. dp_sourceMessageId d = sid) (deferredPostTurnQueue s))"

lemma find_Some_filter: "find P xs = Some y \<Longrightarrow> \<exists>x \<in> set xs. P x"
  by (induction xs) (auto split: if_splits)

lemma liveSenderRef_None_iff: "liveSenderRef s sid = None \<longleftrightarrow> unread_copies s sid = 0"
  by (auto simp: liveSenderRef_def unread_copies_def find_None_iff filter_empty_conv
      split: option.splits if_splits dest: find_Some_filter)

lemma filter_other: "t \<noteq> k \<Longrightarrow> filter (\<lambda>x. f x \<noteq> k \<and> f x = t) xs = filter (\<lambda>x. f x = t) xs"
  by (rule filter_cong) auto

subsection \<open>Queues follow the log order\<close>

text \<open>Every queued item carries the sequence number it arrived under, and both queues are in
  strictly increasing log order, as long as each envelope continues the log.\<close>

definition increasing_upto :: "int \<Rightarrow> int list \<Rightarrow> bool" where
  "increasing_upto n xs \<longleftrightarrow> sorted_wrt (<) xs \<and> (\<forall>x \<in> set xs. x \<le> n)"

definition queues_ordered :: "agent_state \<Rightarrow> bool" where
  "queues_ordered s \<longleftrightarrow>
     increasing_upto (lastSeq s) (map se_seq (steeringQueue s)) \<and>
     increasing_upto (lastSeq s) (map dp_seq (deferredPostTurnQueue s)) \<and>
     (\<forall>p. pendingPrompt s = Some p \<longrightarrow> pp_seq p \<le> lastSeq s)"

definition continues_log :: "agent_state \<Rightarrow> log_envelope \<Rightarrow> bool" where
  "continues_log s e \<longleftrightarrow> lastSeq s < env_seq e"

lemma increasing_upto_Nil [simp]: "increasing_upto n []"
  by (simp add: increasing_upto_def)

lemma increasing_upto_snoc [simp]:
  "increasing_upto n (xs @ [m]) \<longleftrightarrow> increasing_upto n xs \<and> (\<forall>x \<in> set xs. x < m) \<and> m \<le> n"
  by (auto simp: increasing_upto_def sorted_wrt_append)

lemma increasing_upto_filter [simp]:
  "increasing_upto n (map f xs) \<Longrightarrow> increasing_upto n (map f (filter P xs))"
  by (auto simp: increasing_upto_def sorted_wrt_map intro: sorted_wrt_filter)

lemma increasing_upto_later:
  "increasing_upto n xs \<Longrightarrow> n < m \<Longrightarrow> increasing_upto m xs \<and> (\<forall>x \<in> set xs. x < m)"
  by (force simp: increasing_upto_def)

text \<open>All queued items strictly precede the envelope being folded.\<close>

definition queues_before :: "int \<Rightarrow> agent_state \<Rightarrow> bool" where
  "queues_before n s \<longleftrightarrow> queues_ordered s \<and> n = lastSeq s \<and>
     (\<forall>x \<in> set (steeringQueue s). se_seq x < n) \<and> (\<forall>d \<in> set (deferredPostTurnQueue s). dp_seq d < n)"

lemma queues_before_advance:
  assumes "queues_ordered s" and "continues_log s e"
  shows "queues_before (env_seq e) (withAdvance s e)"
  using assms increasing_upto_later [of "lastSeq s" _ "env_seq e"]
  by (auto simp: queues_before_def queues_ordered_def continues_log_def)

lemma queues_ordered_cong:
  assumes "queues_ordered s" and "lastSeq s' = lastSeq s" and "steeringQueue s' = steeringQueue s"
    and "deferredPostTurnQueue s' = deferredPostTurnQueue s"
    and "pendingPrompt s' = pendingPrompt s \<or> pendingPrompt s' = None"
  shows "queues_ordered s'"
  using assms by (auto simp: queues_ordered_def)

lemma ordered_other_handlers:
  assumes "queues_ordered t"
  shows "queues_ordered (foldTurnOpened t e)" "queues_ordered (foldTurnClosed t e)"
    "queues_ordered (foldTurnWaiting t e)" "queues_ordered (foldMessageFailed t e)"
    "queues_ordered (foldInvocationTerminal t e)" "queues_ordered (foldApprovalRequested t e)"
    "queues_ordered (foldApprovalResolved t e)" "queues_ordered (foldCompaction t e)"
    "queues_ordered (foldSystemEvent t e)"
  by (rule queues_ordered_cong [OF assms];
      simp add: fold_handler_defs Let_def split: option.split json.split)+

lemma map_seq_update [simp]:
  "map se_seq (map (\<lambda>x. if P x then x\<lparr>se_content := f x\<rparr> else x) xs) = map se_seq xs"
  "map dp_seq (map (\<lambda>x. if Q x then x\<lparr>dp_content := g x\<rparr> else x) ys) = map dp_seq ys"
  by (induction xs, simp_all)

lemma ordered_message_handlers:
  assumes "queues_before (env_seq e) t"
  shows "queues_ordered (foldMessageCompleted t e)" "queues_ordered (foldMessageEdited t e)"
    "queues_ordered (foldMessageRetracted t e)"
    "foldMessageStarted t e = Inr s' \<Longrightarrow> queues_ordered s'"
    "foldInvocationStarted t e = Inr s' \<Longrightarrow> queues_ordered s'"
proof -
  note d = queues_before_def queues_ordered_def
  show "queues_ordered (foldMessageCompleted t e)"
    using assms by (auto simp: d foldMessageCompleted_def foldAssistantCompleted_def
        foldUserCompleted_def Let_def split: option.split)
  show "queues_ordered (foldMessageEdited t e)"
    using assms by (auto simp: d foldMessageEdited_def Let_def simp del: map_map split: option.split)
  show "queues_ordered (foldMessageRetracted t e)"
    using assms by (auto simp: d foldMessageRetracted_def Let_def split: option.split)
  show "queues_ordered s'" if "foldMessageStarted t e = Inr s'"
    using assms that by (auto simp: d foldMessageStarted_def Let_def split: if_splits)
  show "queues_ordered s'" if "foldInvocationStarted t e = Inr s'"
    using assms that by (auto simp: d foldInvocationStarted_def Let_def split: if_splits)
qed

lemma applyEvent_ordered:
  assumes "queues_ordered s" and "continues_log s e" and "applyEvent s e = Inr s'"
  shows "queues_ordered s'"
proof -
  note b = queues_before_advance [OF assms(1,2)]
  then have o: "queues_ordered (withAdvance s e)" by (simp add: queues_before_def)
  show ?thesis
    using assms(3) o ordered_other_handlers [OF o, of e] ordered_message_handlers [OF b]
    by (cases "env_payloadKind e") (auto simp: applyEvent_def Let_def)
qed

interpretation fold_ordered: guarded_replay applyEvent continues_log queues_ordered
  by unfold_locales (rule applyEvent_ordered)


subsection \<open>Sample data for the witnesses\<close>

definition sample_ref :: json where
  "sample_ref = JObj [(''kind'', JStr ''agent''), (''id'', JStr ''a1''), (''participantId'', JStr ''p1'')]"

definition sample_user :: json where
  "sample_user = JObj [(''kind'', JStr ''user''), (''id'', JStr ''u1'')]"

definition sample_input :: initial_state_input where
  "sample_input = \<lparr> in_channelId = ''ch'', in_logId = None, in_head = None,
     in_config = JObj [(''model'', JStr ''m''), (''thinkingLevel'', JStr ''medium''),
       (''approvalLevel'', JNum 0)],
     in_forkSeq = None, in_lastSeq = None, in_lastHash = None, in_selfId = Some ''a1'' \<rparr>"

definition sample_event :: "int \<Rightarrow> json \<Rightarrow> event_kind \<Rightarrow> json dict \<Rightarrow> json dict \<Rightarrow> log_envelope" where
  "sample_event n actor kind causality payload =
     \<lparr> env_logId = ''log'', env_head = ''log'', env_seq = n, env_envelopeId = ''e'' @ show_int n,
       env_actor = actor, env_payloadKind = kind, env_payload = JObj payload,
       env_causality = JObj causality, env_appendedAt = [], env_prevHash = [], env_hash = [] \<rparr>"

definition sample_turn :: open_turn where
  "sample_turn = \<lparr> ot_turnId = ''t1'', ot_openedAtSeq = 2, ot_reason = None, ot_modelCallCount = 0,
     ot_interrupted = False, ot_waitingCount = 0, ot_metadata = None, ot_pendingFlush = None \<rparr>"

definition sample_state :: agent_state where
  "sample_state = (initialAgentState sample_input)\<lparr>lastSeq := 5, openTurn := Some sample_turn,
     entries := [UserEntry 3 ''e3'' (Some ''m3'') (Some sample_user) (JObj []) None],
     steeringQueue := [\<lparr> se_envelopeId = ''e3'', se_seq = 3, se_sourceMessageId = Some ''m3'',
        se_senderRef = sample_user, se_content = JObj [], se_metadata = None \<rparr>]\<rparr>"

lemmas sample_defs = sample_ref_def sample_user_def sample_input_def sample_event_def sample_turn_def
  sample_state_def initialAgentState_def option_or_def Let_def

lemmas payload_reads = payloadRecord_def causalityRecord_def causalityId_def causalityTurnId_def
  metadataFromPayload_def sourceMessageIdFromPayload_def

text \<open>Folding a concrete log gives a state with a given property.\<close>

definition fold_yields :: "agent_state \<Rightarrow> log_envelope list \<Rightarrow> (agent_state \<Rightarrow> bool) \<Rightarrow> bool" where
  "fold_yields s log P = (case foldEvents s log of Inl _ \<Rightarrow> False | Inr s' \<Rightarrow> P s')"

lemma fold_yieldsD: "fold_yields s log P \<Longrightarrow> \<exists>s'. foldEvents s log = Inr s' \<and> P s'"
  by (simp add: fold_yields_def split: sum.splits)

definition sample_log :: "log_envelope list" where
  "sample_log =
     [sample_event 1 sample_ref TurnOpened [(''turnId'', JStr ''t1'')] [],
      sample_event 2 sample_user MessageCompleted [] [(''role'', JStr ''user'')],
      sample_event 3 sample_ref InvocationStarted [(''invocationId'', JStr ''i1'')]
        [(''transport'', JObj [(''kind'', JStr ''local'')])]]"

lemma sample_log_folds:
  "fold_yields (initialAgentState sample_input) sample_log
     (\<lambda>s. map fst (pendingInvocations s) = [''i1''] \<and> length (steeringQueue s) = 1)"
  by code_simp

subsection \<open>Properties\<close>

lemma wf_initialAgentState [simp]: "wf_state (initialAgentState input)"
  by (simp add: wf_state_def initialAgentState_def Let_def)

lemma queues_ordered_initial [simp]: "queues_ordered (initialAgentState input)"
  by (simp add: queues_ordered_def initialAgentState_def Let_def)






text \<open>A model call consumes exactly the steered messages its context snapshot covers. Folding
  the agent's own assistant \<open>message.started\<close> with snapshot \<open>n\<close> keeps precisely the steering
  entries with a sequence number above \<open>n\<close>, adds nothing to the transcript, puts that message in
  flight, counts one more model call on the open turn and clears a soft flush.\<close>

theorem message_started_consumes_steering:
  assumes "env_payloadKind e = MessageStarted" and "\<not> foreignAuthor s e"
    and "jget (payloadRecord e) ''role'' = JStr ''assistant''"
    and "jget (jget (payloadRecord e) ''modelRequest'') ''contextThroughSeq'' = JNum n"
  shows "\<exists>s'. applyEvent s e = Inr s' \<and>
     steeringQueue s' = filter (\<lambda>x. se_seq x > n) (steeringQueue s) \<and>
     entries s' = entries s \<and>
     map_option mc_messageId (inFlightModelCall s') = Some (causalityId e ''messageId'') \<and>
     map_option ot_modelCallCount (openTurn s') = map_option (\<lambda>t. ot_modelCallCount t + 1) (openTurn s) \<and>
     (\<forall>t. openTurn s' = Some t \<longrightarrow> ot_pendingFlush t = None)"
proof -
  have "truthy (jget (payloadRecord e) ''modelRequest'')"
    using assms(4) by (cases "jget (payloadRecord e) ''modelRequest''") auto
  with assms show ?thesis
    by (cases "openTurn s") (simp_all add: foldMessageStarted_def Let_def)
qed

theorem message_started_consumes_steering_witness:
  "\<exists>s'. applyEvent sample_state (sample_event 6 sample_ref MessageStarted [(''messageId'', JStr ''m1'')]
       [(''role'', JStr ''assistant''), (''modelRequest'', JObj [(''contextThroughSeq'', JNum 5)])]) = Inr s' \<and>
     steeringQueue s' = []"
  using message_started_consumes_steering [of "sample_event 6 sample_ref MessageStarted
      [(''messageId'', JStr ''m1'')]
      [(''role'', JStr ''assistant''), (''modelRequest'', JObj [(''contextThroughSeq'', JNum 5)])]"
      sample_state 5]
  by (auto simp: sample_defs payload_reads foreignAuthor_def)

text \<open>Send-after-turn. A user message marked \<open>deliverAfterTurn\<close> that arrives while a turn is
  open goes to the end of the deferred queue and nowhere else: the transcript the current turn's
  model calls are built from, the steering queue and the pending prompt do not change.\<close>

theorem deferred_message_stays_out_of_context:
  assumes "env_payloadKind e = MessageCompleted"
    and "jget (payloadRecord e) ''role'' \<noteq> JStr ''assistant''"
    and "deliverAfterTurn (metadataFromPayload (payloadRecord e))"
    and "openTurn s = Some turn"
  shows "\<exists>s' d. applyEvent s e = Inr s' \<and> entries s' = entries s \<and>
     steeringQueue s' = steeringQueue s \<and> pendingPrompt s' = pendingPrompt s \<and>
     deferredPostTurnQueue s' = deferredPostTurnQueue s @ [d] \<and>
     dp_envelopeId d = env_envelopeId e \<and> dp_seq d = env_seq e \<and> dp_content d = payloadRecord e"
  using assms by (simp add: foldMessageCompleted_def foldUserCompleted_def Let_def)

theorem deferred_message_stays_out_of_context_witness:
  "\<exists>s' d. applyEvent sample_state (sample_event 6 sample_user MessageCompleted []
       [(''role'', JStr ''user''), (''metadata'', JObj [(''deliverAfterTurn'', JBool True)])]) = Inr s' \<and>
     entries s' = entries sample_state \<and> deferredPostTurnQueue s' = [d] \<and> dp_seq d = 6"
  using deferred_message_stays_out_of_context [of "sample_event 6 sample_user MessageCompleted []
       [(''role'', JStr ''user''), (''metadata'', JObj [(''deliverAfterTurn'', JBool True)])]"
       sample_state sample_turn]
  by (auto simp: sample_defs payload_reads deliverAfterTurn_def)

text \<open>Promotion of a deferred message. A user message that is not itself deferred leaves the
  deferred queue without any item of its source id, appends exactly one transcript entry for it,
  and makes it live again, so that it can still be edited or retracted before it is read.\<close>

theorem promoted_message_leaves_queue:
  assumes "env_payloadKind e = MessageCompleted"
    and "jget (payloadRecord e) ''role'' \<noteq> JStr ''assistant''"
    and "sourceMessageIdFromPayload (payloadRecord e) = Some sid"
    and "\<not> deliverAfterTurn (metadataFromPayload (payloadRecord e)) \<or> openTurn s = None"
  shows "\<exists>s' x. applyEvent s e = Inr s' \<and>
     deferredPostTurnQueue s' = filter (\<lambda>d. dp_sourceMessageId d \<noteq> sid) (deferredPostTurnQueue s) \<and>
     entries s' = entries s @ [x] \<and> is_user_entry_of sid x \<and> entry_seq x = JNum (env_seq e) \<and>
     liveSenderRef s' sid \<noteq> None"
  using assms
  by (auto simp: foldMessageCompleted_def foldUserCompleted_def liveSenderRef_def Let_def
      find_None_iff split: option.split)

theorem promoted_message_leaves_queue_witness:
  "\<exists>s' x. applyEvent sample_state (sample_event 6 sample_user MessageCompleted []
       [(''role'', JStr ''user''), (''sourceMessageId'', JStr ''m9'')]) = Inr s' \<and>
     entries s' = entries sample_state @ [x] \<and> is_user_entry_of ''m9'' x"
  using promoted_message_leaves_queue [of "sample_event 6 sample_user MessageCompleted []
       [(''role'', JStr ''user''), (''sourceMessageId'', JStr ''m9'')]" "''m9''" sample_state]
  by (auto simp: sample_defs payload_reads deliverAfterTurn_def)

text \<open>Read wins, and only the author amends. An edit or retraction of a message that has no
  unread copy left, or that names an author other than the message's sender, changes nothing but
  the log position.\<close>

theorem amendment_rejected:
  assumes "env_payloadKind e = MessageEdited \<or> env_payloadKind e = MessageRetracted"
    and "unread_copies s (causalityId e ''messageId'') = 0 \<or>
      (\<exists>sender. liveSenderRef s (causalityId e ''messageId'') = Some sender \<and>
         authorMismatch (jget (payloadRecord e) ''by'') sender)"
  shows "applyEvent s e = Inr (withAdvance s e)"
  using assms
  by (auto simp: liveSenderRef_None_iff [symmetric] foldMessageEdited_def foldMessageRetracted_def
      Let_def)

theorem amendment_rejected_witness:
  "applyEvent sample_state (sample_event 6 sample_ref MessageRetracted [(''messageId'', JStr ''m3'')]
       [(''by'', sample_ref)])
   = Inr (withAdvance sample_state (sample_event 6 sample_ref MessageRetracted
       [(''messageId'', JStr ''m3'')] [(''by'', sample_ref)]))"
  by (rule amendment_rejected)
     (simp_all add: sample_defs payload_reads liveSenderRef_def authorMismatch_def participantKey_def)

text \<open>An accepted retraction is complete and precise. It removes every unread copy and every
  transcript entry of the message, leaves the unread copies of every other message, and touches no
  turn, call, invocation or approval.\<close>

theorem accepted_retraction_removes_all_copies:
  assumes "env_payloadKind e = MessageRetracted" and "sid = causalityId e ''messageId''"
    and "sid \<noteq> []" and "liveSenderRef s sid = Some sender" and "truthy sender"
    and "\<not> authorMismatch (jget (payloadRecord e) ''by'') sender"
  shows "\<exists>s'. applyEvent s e = Inr s' \<and> unread_copies s' sid = 0 \<and>
     entries s' = filter (\<lambda>x. \<not> is_user_entry_of sid x) (entries s) \<and>
     (\<forall>sid'. sid' \<noteq> sid \<longrightarrow> unread_copies s' sid' = unread_copies s sid') \<and> same_lifecycle s s'"
  using assms
  by (auto simp: foldMessageRetracted_def Let_def unread_copies_def filter_other same_lifecycle_def
      split: option.split)

theorem accepted_retraction_witness:
  "\<exists>s'. applyEvent sample_state (sample_event 6 sample_ref MessageRetracted
       [(''messageId'', JStr ''m3'')] [(''by'', sample_user)]) = Inr s' \<and>
     unread_copies s' ''m3'' = 0 \<and> entries s' = []"
  using accepted_retraction_removes_all_copies [of "sample_event 6 sample_ref MessageRetracted
       [(''messageId'', JStr ''m3'')] [(''by'', sample_user)]" "''m3''" sample_state sample_user]
  by (auto simp: sample_defs payload_reads liveSenderRef_def authorMismatch_def participantKey_def)

text \<open>A recorded compaction restores its entries. Writing transcript entries into a
  \<open>system.compaction_recorded\<close> payload and folding it gives back exactly those entries.\<close>

theorem compaction_roundtrip:
  assumes "env_payloadKind e = CompactionRecorded"
    and "jget (payloadRecord e) ''replacement'' = JArr (map entry_to_json es)"
    and "list_all entry_loggable es"
  shows "applyEvent s e = Inr ((withAdvance s e)\<lparr>entries := es\<rparr>)"
proof -
  have "map (entry_of_json \<circ> entry_to_json) es = es"
    using assms(3) by (induction es) (simp_all add: entry_json_roundtrip)
  with assms(1,2) show ?thesis by (simp add: applyEvent_def foldCompaction_def)
qed

theorem compaction_roundtrip_witness:
  "applyEvent sample_state (sample_event 6 sample_ref CompactionRecorded []
       [(''replacement'', JArr (map entry_to_json [NoteEntry 4 ''summary'']))])
   = Inr ((withAdvance sample_state (sample_event 6 sample_ref CompactionRecorded []
       [(''replacement'', JArr (map entry_to_json [NoteEntry 4 ''summary'']))]))
         \<lparr>entries := [NoteEntry 4 ''summary'']\<rparr>)"
  by (rule compaction_roundtrip) (simp_all add: sample_event_def payload_reads)

text \<open>The queues follow the log. When every envelope continues the log (its sequence number is
  above the last one folded), the steering queue and the deferred queue of the folded state are in
  strictly increasing sequence order and nothing queued is ahead of the log position.\<close>

theorem fold_queues_ordered:
  "guarded applyEvent continues_log (initialAgentState input) log \<Longrightarrow>
   foldEvents (initialAgentState input) log = Inr s \<Longrightarrow> queues_ordered s"
  unfolding foldEvents_def by (rule fold_ordered.guarded_replay_keeps [OF queues_ordered_initial])

theorem fold_queues_ordered_witness:
  "\<exists>s. foldEvents (initialAgentState sample_input) sample_log = Inr s \<and>
     length (steeringQueue s) = 1 \<and> queues_ordered s"
proof -
  have "guarded applyEvent continues_log (initialAgentState sample_input) sample_log"
    by code_simp
  from fold_queues_ordered [OF this] fold_yieldsD [OF sample_log_folds] show ?thesis by auto
qed

end
