(* ===== verification/Effects.thy ===== *)
theory Effects
  imports Fold
begin

text \<open>
  Effects (\<open>agent-loop/src/effects.ts\<close>): the descriptors of the work the driver runs outside the
  loop, \<open>derivePendingEffects\<close>, which recomputes the pending ones from the folded state, and
  \<open>outcomeEvents\<close>, which maps what an executor reports to the terminal events to append. Also
  the terminal payload builders of the protocol package. \<open>classifyModelFailure\<close>
  (\<open>model-errors.ts\<close>) is the function argument \<open>classify\<close>.

  The lemmas: a gated invocation is never dispatched; the pending effects of a well-formed state
  have pairwise distinct ids, which are the keys of the outbox; which outcome fits which effect;
  when a model outcome is published.
\<close>

subsection \<open>Effect descriptors\<close>

datatype effect_kind =
    KModelCall | KLocalTool | KChannelCall | KHttpCall | KCredentialWait | KPublishEnvelope

record effect_base =
  ef_effectId :: string
  ef_channelId :: string
  ef_idempotencyKey :: json

datatype effect_descriptor =
    ModelCallEffect (ef_base: effect_base) (ef_messageId: string) (ef_turnId: string)
      (ef_request: json)
  | LocalToolEffect (ef_base: effect_base) (ef_invocationId: string) (ef_turnId: string)
      (ef_tool: string) (ef_args: json)
  | ChannelCallEffect (ef_base: effect_base) (ef_invocationId: string) (ef_turnId: string)
      (ef_transportCallId: json) (ef_target: json) (ef_method: string) (ef_args: json)
      (ef_purpose: "string option") (ef_approvalId: "string option")
  | HttpCallEffect (ef_base: effect_base) (ef_invocationId: string) (ef_turnId: string)
      (ef_targetUrl: json) (ef_request: json)
  | CredentialWaitEffect (ef_base: effect_base) (ef_credKey: string) (ef_startedAtSeq: int)
      (ef_providerId: string) (ef_turnId: string) (ef_connectSpec: json)
      (ef_modelBaseUrl: "string option") (ef_waitReason: "string option")
      (ef_reason: "string option") (ef_failureCode: "string option") (ef_expiresAt: string)
  | PublishEnvelopeEffect (ef_base: effect_base) (ef_payloadKind: string) (ef_payload: json)

fun effectKind :: "effect_descriptor \<Rightarrow> effect_kind" where
  "effectKind (ModelCallEffect _ _ _ _) = KModelCall"
| "effectKind (LocalToolEffect _ _ _ _ _) = KLocalTool"
| "effectKind (ChannelCallEffect _ _ _ _ _ _ _ _ _) = KChannelCall"
| "effectKind (HttpCallEffect _ _ _ _ _) = KHttpCall"
| "effectKind (CredentialWaitEffect _ _ _ _ _ _ _ _ _ _ _) = KCredentialWait"
| "effectKind (PublishEnvelopeEffect _ _ _) = KPublishEnvelope"

definition effectId :: "effect_descriptor \<Rightarrow> string" where
  "effectId d = ef_effectId (ef_base d)"

definition mk_base :: "string \<Rightarrow> agent_state \<Rightarrow> json \<Rightarrow> effect_base" where
  "mk_base eid state key = \<lparr> ef_effectId = eid, ef_channelId = channelId state, ef_idempotencyKey = key \<rparr>"

text \<open>\<open>...(x ? { k: x } : {})\<close> on an optional string: the empty string is dropped.\<close>

definition nonempty_opt :: "string option \<Rightarrow> string option" where
  "nonempty_opt v = (case v of Some s \<Rightarrow> if s = [] then None else Some s | None \<Rightarrow> None)"

definition modelCallEffect :: "agent_state \<Rightarrow> in_flight_model_call \<Rightarrow> effect_descriptor" where
  "modelCallEffect state call =
     ModelCallEffect (mk_base (ids_modelEffect (mc_messageId call)) state (mc_attemptId call))
       (mc_messageId call)
       (case openTurn state of Some turn \<Rightarrow> ot_turnId turn | None \<Rightarrow> [])
       (mc_request call)"

definition invocationEffect :: "agent_state \<Rightarrow> pending_invocation \<Rightarrow> effect_descriptor" where
  "invocationEffect state invocation =
     (let eid = ids_invocationEffect (pi_invocationId invocation);
          transport = pi_transport invocation
      in if jget transport ''kind'' = JStr ''local'' then
           LocalToolEffect (mk_base eid state (JStr (pi_invocationId invocation)))
             (pi_invocationId invocation) (pi_turnId invocation)
             (pi_name invocation) (pi_request invocation)
         else if jget transport ''kind'' = JStr ''channel'' then
           let tcid = coalesce (jget transport ''transportCallId'')
                        (JStr (ids_transportCallId (pi_invocationId invocation)));
               approval = nonempty_opt (pi_approvalId invocation)
           in ChannelCallEffect (mk_base eid state tcid)
                (pi_invocationId invocation) (pi_turnId invocation) tcid
                (jget transport ''target'') (pi_name invocation) (pi_request invocation)
                (map_option (\<lambda>_. ''tool'') approval) approval
         else
           HttpCallEffect (mk_base eid state (jget transport ''idempotencyKey''))
             (pi_invocationId invocation) (pi_turnId invocation)
             (jget transport ''targetUrl'') (pi_request invocation))"

text \<open>The first panel or user of the roster, or the default user reference.\<close>

definition approvalTarget :: "agent_state \<Rightarrow> json" where
  "approvalTarget state =
     (let participants = array_or_empty (jget (jget (config state) ''roster'') ''participants'') in
      case find (\<lambda>p. jget p ''type'' = JStr ''panel''
                  \<or> jget (jget p ''ref'') ''kind'' = JStr ''user'') participants of
        Some p \<Rightarrow> coalesce (jget p ''ref'') (JObj [(''kind'', JStr ''user''), (''id'', JStr ''user'')])
      | None \<Rightarrow> JObj [(''kind'', JStr ''user''), (''id'', JStr ''user'')])"

definition approvalFormEffect :: "agent_state \<Rightarrow> pending_approval \<Rightarrow> effect_descriptor" where
  "approvalFormEffect state approval =
     ChannelCallEffect
       (mk_base (ids_approvalFormEffect (pa_approvalId approval)) state (JStr (pa_approvalId approval)))
       (pa_invocationId approval) (pa_turnId approval)
       (JStr (ids_transportCallId (pa_approvalId approval)))
       (approvalTarget state) ''confirm''
       (JObj [(''question'', JStr (pa_question approval)),
              (''details'', JObj [(''toolName'', pa_toolName approval), (''input'', pa_input approval)])])
       (Some ''approval-form'') (Some (pa_approvalId approval))"

definition credentialWaitEffect :: "agent_state \<Rightarrow> pending_credential_wait \<Rightarrow> effect_descriptor" where
  "credentialWaitEffect state wait =
     CredentialWaitEffect
       (mk_base (ids_credentialWaitEffect (cw_credKey wait)) state (JStr (cw_credKey wait)))
       (cw_credKey wait) (cw_startedAtSeq wait) (cw_providerId wait) (cw_turnId wait)
       (cw_connectSpec wait) (nonempty_opt (cw_modelBaseUrl wait)) (nonempty_opt (cw_waitReason wait))
       (nonempty_opt (cw_reason wait)) (nonempty_opt (cw_failureCode wait)) (cw_expiresAt wait)"

subsection \<open>derivePendingEffects\<close>

definition gated :: "pending_invocation \<Rightarrow> bool" where
  "gated invocation \<longleftrightarrow> pi_requiresApproval invocation \<and> pi_approvalState invocation \<noteq> ApprovalGranted"

definition derivePendingEffects :: "agent_state \<Rightarrow> effect_descriptor list" where
  "derivePendingEffects state =
     (case inFlightModelCall state of Some call \<Rightarrow> [modelCallEffect state call] | None \<Rightarrow> [])
     @ map (invocationEffect state)
         (filter (\<lambda>invocation. \<not> gated invocation) (map snd (pendingInvocations state)))
     @ map (approvalFormEffect state) (map snd (pendingApprovals state))
     @ map (credentialWaitEffect state) (map snd (pendingCredentialWaits state))"

subsection \<open>Append items and outcomes\<close>

record append_item =
  ai_envelopeId :: string
  ai_payloadKind :: event_kind
  ai_payload :: json
  ai_causality :: json
  ai_publish :: bool

record model_failure_info =
  mf_code :: string
  mf_reason :: string
  mf_recoverable :: bool
  mf_retryAfterMs :: "int option"
  mf_resetAt :: "string option"

text \<open>The fields of \<open>ModelFailureInput\<close> that the loop's two call sites fill in.\<close>

record model_failure_input =
  mfi_provider :: json
  mfi_model :: json
  mfi_rawReason :: "string option"
  mfi_message :: "string option"
  mfi_now :: string

type_synonym classifier = "model_failure_input \<Rightarrow> model_failure_info"

datatype stop_reason = StopCompleted | StopAborted | StopError

datatype effect_outcome =
    ModelOutcome (om_blocks: "json list") (om_stopReason: stop_reason) (om_outcome: "string option")
      (om_usage: json) (om_errorReason: "string option") (om_recoverable: "bool option")
      (om_failure: "model_failure_info option")
  | RetryOutcome (or_reason: string) (or_retryAfterMs: "int option") (or_code: "string option")
  | ModelSuspended (os_providerId: string) (os_modelBaseUrl: "string option")
      (os_waitReason: "string option") (os_diagnosticReason: "string option")
      (os_failureCode: "string option")
  | ToolOutcome (ot_result: json) (ot_summary: "string option") (ot_isError: bool)
      (ot_failReason: "string option")
  | ApprovalOutcome (oa_granted: bool) (oa_resolvedBy: json) (oa_reason: "string option")
  | CredentialOutcome (oc_resolved: bool) (oc_reason: "string option")

definition protocol_prop :: "string \<times> json" where
  "protocol_prop = (''protocol'', AGENTIC_PROTOCOL_VERSION)"

definition modelFailurePayload :: "model_failure_info \<Rightarrow> bool option \<Rightarrow> json" where
  "modelFailurePayload failure recoverableOverride =
     JObj ([protocol_prop,
            (''reason'', JStr (mf_reason failure)),
            (''recoverable'', JBool (mf_recoverable failure \<and> option_or recoverableOverride True)),
            (''code'', JStr (mf_code failure))]
       @ opt_prop ''retryAfterMs'' JNum (mf_retryAfterMs failure)
       @ opt_prop ''resetAt'' JStr (nonempty_opt (mf_resetAt failure)))"

text \<open>\<open>events.ts\<close>: the terminal invocation payloads; the options' properties lie between the
  fixed ones, so \<open>terminalOutcome\<close> always wins.\<close>

definition invocationCompletedPayload :: "json dict \<Rightarrow> json" where
  "invocationCompletedPayload opts =
     JObj (dput ''terminalOutcome'' (JStr ''success'') (jspread [protocol_prop] opts))"

definition invocationFailurePayload :: "string \<Rightarrow> string \<Rightarrow> json dict \<Rightarrow> json" where
  "invocationFailurePayload outcome reason opts =
     JObj (dput ''terminalOutcome'' (JStr outcome)
       (jspread [protocol_prop, (''reason'', JStr reason)] opts))"

definition invocationFailedPayload :: "string \<Rightarrow> string \<Rightarrow> json dict \<Rightarrow> json" where
  "invocationFailedPayload outcome reason opts = invocationFailurePayload outcome reason opts"

definition classifyModelOutcome :: "json list \<Rightarrow> stop_reason \<Rightarrow> string option \<Rightarrow> string" where
  "classifyModelOutcome blocks stopReason outcome =
     (case nonempty_opt outcome of
        Some o' \<Rightarrow> o'
      | None \<Rightarrow>
          if stopReason = StopAborted then ''interrupted''
          else if blocks = [] then ''empty''
          else if \<exists>block \<in> set blocks. is_object block \<and>
                    (jget block ''type'' = JStr ''text'' \<or> jget block ''type'' = JStr ''thinking'')
          then ''completed''
          else ''tool_calls_only'')"

definition messageHasToolCalls :: "json list \<Rightarrow> bool" where
  "messageHasToolCalls blocks \<longleftrightarrow>
     (\<exists>block \<in> set blocks. is_object block \<and>
        (jget block ''type'' = JStr ''toolCall'' \<or> jget block ''type'' = JStr ''tool_call''))"

subsection \<open>Publication of model outcomes\<close>

definition is_word_char :: "char \<Rightarrow> bool" where
  "is_word_char c \<longleftrightarrow> (let n = (of_char c :: nat) in
     48 \<le> n \<and> n \<le> 57 \<or> 65 \<le> n \<and> n \<le> 90 \<or> n = 95 \<or> 97 \<le> n \<and> n \<le> 122)"

definition lower_char :: "char \<Rightarrow> char" where
  "lower_char c = (let n = (of_char c :: nat) in if 65 \<le> n \<and> n \<le> 90 then char_of (n + 32) else c)"

text \<open>A whole word (of word characters) at the start of the text.\<close>

definition word_here :: "string \<Rightarrow> string \<Rightarrow> bool" where
  "word_here w text \<longleftrightarrow> starts_with text w \<and>
     (case drop (length w) text of [] \<Rightarrow> True | c # _ \<Rightarrow> \<not> is_word_char c)"

text \<open>\<open>/\b(w1|w2|...)\b/.test(text)\<close>; the first argument says whether a word character precedes.\<close>

fun contains_word :: "bool \<Rightarrow> string list \<Rightarrow> string \<Rightarrow> bool" where
  "contains_word prev ws [] = False"
| "contains_word prev ws (c # cs) =
     ((\<not> prev \<and> (\<exists>w \<in> set ws. word_here w (c # cs))) \<or> contains_word (is_word_char c) ws cs)"

text \<open>\<open>text.includes(needle)\<close>\<close>

fun str_includes :: "string \<Rightarrow> string \<Rightarrow> bool" where
  "str_includes [] needle = (needle = [])"
| "str_includes (c # cs) needle = (starts_with (c # cs) needle \<or> str_includes cs needle)"

definition blocksLookSuccessful :: "json list \<Rightarrow> bool" where
  "blocksLookSuccessful blocks =
     (let text = join_with [char_of (10::nat)]
            (map (\<lambda>block. case string_opt (jget block ''content'') of
                     Some content \<Rightarrow> if is_object block then map lower_char content else []
                   | None \<Rightarrow> []) blocks)
      in \<not> contains_word False
           [''error'', ''failed'', ''failure'', ''blocked'', ''unable'', ''cannot''] text)"

definition blocksContainText :: "json list \<Rightarrow> string \<Rightarrow> bool" where
  "blocksContainText blocks needle =
     (needle \<noteq> [] \<and>
      (\<exists>block \<in> set blocks. is_object block \<and>
         (case string_opt (jget block ''content'') of
            Some content \<Rightarrow> str_includes content needle
          | None \<Rightarrow> False)))"

definition shouldPublishModelOutcome :: "json \<Rightarrow> json list \<Rightarrow> bool" where
  "shouldPublishModelOutcome request blocks =
     (let metadata = jget request ''turnMetadata'' in
      if \<not> truthy metadata then True
      else if jget metadata ''delivery'' = JStr ''none'' then False
      else if truthy (jget metadata ''silentOk'') \<and> blocksLookSuccessful blocks then False
      else if truthy (jget metadata ''ackToken'')
        \<and> blocksContainText blocks (js_String (jget metadata ''ackToken'')) then False
      else True)"

subsection \<open>outcomeEvents\<close>

definition modelErrorEvents ::
  "classifier \<Rightarrow> string \<Rightarrow> json \<Rightarrow> string option \<Rightarrow> bool option \<Rightarrow> model_failure_info option
   \<Rightarrow> string \<Rightarrow> append_item list" where
  "modelErrorEvents classify messageId request errorReason recoverable failureOpt now =
     (let failure = option_or failureOpt
            (classify \<lparr> mfi_provider = jget request ''provider'', mfi_model = jget request ''model'',
               mfi_rawReason = errorReason, mfi_message = errorReason, mfi_now = now \<rparr>)
      in [\<lparr> ai_envelopeId = ids_messageTerminal messageId,
            ai_payloadKind = MessageFailed,
            ai_payload = modelFailurePayload failure recoverable,
            ai_causality = JObj [(''messageId'', JStr messageId)],
            ai_publish = shouldPublishModelOutcome request [] \<rparr>])"

definition modelCompletedEvents ::
  "string \<Rightarrow> json \<Rightarrow> json list \<Rightarrow> stop_reason \<Rightarrow> string option \<Rightarrow> json \<Rightarrow> append_item list" where
  "modelCompletedEvents messageId request blocks stopReason outcome usage =
     (let messageOutcome = classifyModelOutcome blocks stopReason outcome;
          tier = (if messageOutcome \<noteq> ''interrupted'' \<and> messageHasToolCalls blocks
                  then ''secondary'' else ''primary'')
      in [\<lparr> ai_envelopeId = ids_messageTerminal messageId,
            ai_payloadKind = MessageCompleted,
            ai_payload = JObj ([protocol_prop,
              (''role'', JStr ''assistant''),
              (''blocks'', JArr blocks),
              (''outcome'', JStr messageOutcome),
              (''tier'', JStr tier)]
              @ (if truthy usage then [(''usage'', usage)] else [])),
            ai_causality = JObj [(''messageId'', JStr messageId)],
            ai_publish = shouldPublishModelOutcome request blocks \<rparr>])"

definition toolOutcomeEvents ::
  "string \<Rightarrow> json option \<Rightarrow> string \<Rightarrow> json \<Rightarrow> string option \<Rightarrow> bool \<Rightarrow> string option \<Rightarrow> append_item list" where
  "toolOutcomeEvents invocationId transportCallId turnId result summary isError reason =
     [\<lparr> ai_envelopeId = ids_invocationTerminal invocationId,
        ai_payloadKind = (if isError then InvocationFailed else InvocationCompleted),
        ai_payload =
          (if isError
           then invocationFailedPayload ''tool_error'' (option_or reason ''tool failed'')
                  [(''error'', result)]
           else invocationCompletedPayload
                  ([(''result'', result)] @ opt_prop ''summary'' JStr (nonempty_opt summary))),
        ai_causality = JObj ([(''invocationId'', JStr invocationId)]
          @ opt_prop ''transportCallId'' id transportCallId
          @ [(''turnId'', JStr turnId)]),
        ai_publish = True \<rparr>]"

definition approvalOutcomeEvents ::
  "string option \<Rightarrow> string \<Rightarrow> string \<Rightarrow> bool \<Rightarrow> json \<Rightarrow> string option \<Rightarrow> append_item list" where
  "approvalOutcomeEvents approvalId invocationId turnId granted resolvedBy reason =
     [\<lparr> ai_envelopeId = ids_approvalResolved (option_or approvalId ''undefined''),
        ai_payloadKind = ApprovalResolved,
        ai_payload = JObj ([protocol_prop, (''granted'', JBool granted), (''resolvedBy'', resolvedBy)]
          @ opt_prop ''reason'' JStr (nonempty_opt reason)),
        ai_causality = JObj [(''approvalId'', case approvalId of Some a \<Rightarrow> JStr a | None \<Rightarrow> JUndefined),
          (''invocationId'', JStr invocationId),
          (''turnId'', JStr turnId)],
        ai_publish = True \<rparr>]"

definition credentialOutcomeEvents ::
  "string \<Rightarrow> int \<Rightarrow> string \<Rightarrow> string \<Rightarrow> bool \<Rightarrow> string option \<Rightarrow> append_item list" where
  "credentialOutcomeEvents credKey startedAtSeq providerId turnId resolved reason =
     [\<lparr> ai_envelopeId = ids_systemEvent credKey ''resolved'' (Some startedAtSeq),
        ai_payloadKind = SystemEvent,
        ai_payload = JObj [protocol_prop,
          (''kind'', JStr ''credential.wait_resolved''),
          (''credKey'', JStr credKey),
          (''details'', JObj ([(''kind'', JStr ''credential.wait_resolved''),
             (''credKey'', JStr credKey), (''providerId'', JStr providerId),
             (''resolved'', JBool resolved)] @ opt_prop ''reason'' JStr (nonempty_opt reason)))],
        ai_causality = JObj [(''turnId'', JStr turnId)],
        ai_publish = True \<rparr>]"

fun outcomeEvents :: "classifier \<Rightarrow> effect_descriptor \<Rightarrow> effect_outcome \<Rightarrow> string \<Rightarrow> append_item list res" where
  "outcomeEvents classify (ModelCallEffect b messageId turnId request) outcome now =
     (case outcome of
        ModelSuspended _ _ _ _ _ \<Rightarrow> Inr []
      | RetryOutcome _ _ _ \<Rightarrow> Inr []
      | ModelOutcome blocks stopReason oc usage errorReason recoverable failure \<Rightarrow>
          if stopReason = StopError
          then Inr (modelErrorEvents classify messageId request errorReason recoverable failure now)
          else Inr (modelCompletedEvents messageId request blocks stopReason oc usage)
      | _ \<Rightarrow> Inl (OutcomeMismatch ''model_call expects a model outcome''))"
| "outcomeEvents classify (LocalToolEffect b invId turnId tool args) outcome now =
     (case outcome of
        ToolOutcome result summary isError reason \<Rightarrow>
          Inr (toolOutcomeEvents invId None turnId result summary isError reason)
      | _ \<Rightarrow> Inl (OutcomeMismatch ''local_tool expects a tool outcome''))"
| "outcomeEvents classify (HttpCallEffect b invId turnId url request) outcome now =
     (case outcome of
        ToolOutcome result summary isError reason \<Rightarrow>
          Inr (toolOutcomeEvents invId None turnId result summary isError reason)
      | _ \<Rightarrow> Inl (OutcomeMismatch ''http_call expects a tool outcome''))"
| "outcomeEvents classify (ChannelCallEffect b invId turnId tcid target method args purpose approvalId) outcome now =
     (if purpose \<noteq> Some ''approval-form'' then
        (case outcome of
           ToolOutcome result summary isError reason \<Rightarrow>
             Inr (toolOutcomeEvents invId (Some tcid) turnId result summary isError reason)
         | _ \<Rightarrow> Inl (OutcomeMismatch ''channel_call expects a tool outcome''))
      else
        (case outcome of
           ApprovalOutcome granted resolvedBy reason \<Rightarrow>
             Inr (approvalOutcomeEvents approvalId invId turnId granted resolvedBy reason)
         | _ \<Rightarrow> Inl (OutcomeMismatch ''approval form expects an approval outcome'')))"
| "outcomeEvents classify
     (CredentialWaitEffect b credKey startedAtSeq providerId turnId spec url wr reason fc expiresAt) outcome now =
     (case outcome of
        CredentialOutcome resolved why \<Rightarrow>
          Inr (credentialOutcomeEvents credKey startedAtSeq providerId turnId resolved why)
      | _ \<Rightarrow> Inl (OutcomeMismatch ''credential_wait expects credential''))"
| "outcomeEvents classify (PublishEnvelopeEffect b kind payload) outcome now = Inr []"

subsection \<open>Lemmas\<close>

lemma wf_stateD:
  assumes "wf_state s"
  shows "keyed pi_invocationId (\<lambda>k. k \<noteq> []) (pendingInvocations s)"
    "keyed pa_approvalId (\<lambda>k. k \<noteq> []) (pendingApprovals s)"
    "keyed cw_credKey (\<lambda>k. True) (pendingCredentialWaits s)"
    "openTurn s = Some turn \<Longrightarrow> ot_turnId turn \<noteq> []"
  using assms by (simp_all add: wf_state_def)

lemma effectId_simps [simp]:
  "effectId (modelCallEffect s c) = ids_modelEffect (mc_messageId c)"
  "effectId (invocationEffect s i) = ids_invocationEffect (pi_invocationId i)"
  "effectId (approvalFormEffect s a) = ids_approvalFormEffect (pa_approvalId a)"
  "effectId (credentialWaitEffect s w) = ids_credentialWaitEffect (cw_credKey w)"
  by (simp_all add: effectId_def modelCallEffect_def invocationEffect_def approvalFormEffect_def
      credentialWaitEffect_def mk_base_def Let_def)

text \<open>The ids of the pending effects, by the pending record each comes from.\<close>

definition undispatched :: "agent_state \<Rightarrow> string list" where
  "undispatched s = map fst (filter (\<lambda>(k, i). \<not> gated i) (pendingInvocations s))"

lemma keyed_map_key:
  "keyed f ok d \<Longrightarrow> map (\<lambda>p. f (snd p)) (filter P d) = map fst (filter P d)"
  by (auto simp: keyed_def)

lemma pending_effect_ids:
  assumes "wf_state s"
  shows "map effectId (derivePendingEffects s) =
     (case inFlightModelCall s of Some c \<Rightarrow> [ids_modelEffect (mc_messageId c)] | None \<Rightarrow> [])
     @ map ids_invocationEffect (undispatched s)
     @ map ids_approvalFormEffect (map fst (pendingApprovals s))
     @ map ids_credentialWaitEffect (map fst (pendingCredentialWaits s))"
proof -
  have i: "map (\<lambda>p. pi_invocationId (snd p)) (filter (\<lambda>(k, i). \<not> gated i) (pendingInvocations s))
      = undispatched s"
    unfolding undispatched_def by (rule keyed_map_key [OF wf_stateD(1) [OF assms]])
  have a: "map (\<lambda>p. pa_approvalId (snd p)) (pendingApprovals s) = map fst (pendingApprovals s)"
    and c: "map (\<lambda>p. cw_credKey (snd p)) (pendingCredentialWaits s) = map fst (pendingCredentialWaits s)"
    using keyed_map_key [OF wf_stateD(2) [OF assms], of "\<lambda>_. True"]
      keyed_map_key [OF wf_stateD(3) [OF assms], of "\<lambda>_. True"] by simp_all
  have f: "filter (\<lambda>invocation. \<not> gated invocation) (map snd d) = map snd (filter (\<lambda>(k, i). \<not> gated i) d)"
    for d :: "pending_invocation dict"
    by (induction d) auto
  have "map ids_invocationEffect (undispatched s) =
      map (effectId \<circ> invocationEffect s) (filter (\<lambda>i. \<not> gated i) (map snd (pendingInvocations s)))"
    unfolding f i [symmetric] by simp
  moreover have "map ids_approvalFormEffect (map fst (pendingApprovals s)) =
      map (effectId \<circ> approvalFormEffect s) (map snd (pendingApprovals s))"
    unfolding a [symmetric] by simp
  moreover have "map ids_credentialWaitEffect (map fst (pendingCredentialWaits s)) =
      map (effectId \<circ> credentialWaitEffect s) (map snd (pendingCredentialWaits s))"
    unfolding c [symmetric] by simp
  ultimately show ?thesis
    by (simp only: derivePendingEffects_def map_append map_map) (simp split: option.split)
qed

lemma distinct_undispatched: "wf_state s \<Longrightarrow> distinct (undispatched s)"
  unfolding undispatched_def wf_state_def keyed_def by (auto simp: distinct_map_filter)

lemma undispatched_iff:
  assumes "wf_state s" and "dget (pendingInvocations s) k = Some i"
  shows "k \<in> set (undispatched s) \<longleftrightarrow> \<not> gated i"
proof -
  have d: "distinct (map fst (pendingInvocations s))"
    using wf_stateD(1) [OF assms(1)] by (simp add: keyed_def)
  have "(k, j) \<in> set (pendingInvocations s) \<longleftrightarrow> j = i" for j
    unfolding map_of_eq_Some_iff [OF d, symmetric] assms(2) by auto
  then show ?thesis by (force simp: undispatched_def)
qed

lemma distinct_map_id:
  "(\<And>a b. f a = f b \<longleftrightarrow> a = b) \<Longrightarrow> distinct xs \<Longrightarrow> distinct (map f xs)"
  by (simp add: distinct_map inj_on_def)

lemma sample_effects:
  "fold_yields (initialAgentState sample_input) sample_log
     (\<lambda>s. map effectId (derivePendingEffects s) = [ids_invocationEffect ''i1''] \<and>
          dget (pendingInvocations s) ''i1'' \<noteq> None)"
  by code_simp

lemma sample_log_wf: "foldEvents (initialAgentState sample_input) sample_log = Inr s \<Longrightarrow> wf_state s"
  unfolding foldEvents_def by (rule fold_wf.replay_keeps) simp_all

subsection \<open>Properties\<close>

lemma pending_ids_distinct:
  "wf_state s \<Longrightarrow> distinct (map effectId (derivePendingEffects s))"
proof -
  assume w: "wf_state s"
  then have "distinct (map fst (pendingApprovals s))" "distinct (map fst (pendingCredentialWaits s))"
    by (simp_all add: wf_state_def keyed_def)
  with distinct_undispatched [OF w] show ?thesis
    by (auto simp add: pending_effect_ids [OF w] distinct_map_id distinct_map inj_on_def
        split: option.split)
qed

text \<open>C27: The outbox keys of the pending effects are unique. For every well-formed state the
  effects that \<open>derivePendingEffects\<close> returns have pairwise distinct effect ids, across all four
  families, so no pending effect can shadow another in the outbox.\<close>

theorem pending_effects_distinct:
  "wf_state s \<Longrightarrow> distinct (map effectId (derivePendingEffects s))"
  by (rule pending_ids_distinct)

theorem pending_effects_distinct_witness:
  "\<exists>s. foldEvents (initialAgentState sample_input) sample_log = Inr s \<and>
     map effectId (derivePendingEffects s) = [ids_invocationEffect ''i1''] \<and>
     distinct (map effectId (derivePendingEffects s))"
proof -
  obtain s where s: "foldEvents (initialAgentState sample_input) sample_log = Inr s"
    and e: "map effectId (derivePendingEffects s) = [ids_invocationEffect ''i1'']"
    using fold_yieldsD [OF sample_effects] by auto
  note d = pending_effects_distinct [OF sample_log_wf [OF s]]
  show ?thesis by (intro exI conjI) (rule s, rule e, rule d)
qed

text \<open>C28: Approval gating is exact. A pending invocation is in \<open>derivePendingEffects\<close> exactly when
  it does not require approval or its approval was granted: a gated tool call is never dispatched,
  and an ungated one is never forgotten.\<close>

theorem invocation_dispatched_iff_ungated:
  assumes "wf_state s" and "dget (pendingInvocations s) k = Some invocation"
  shows "ids_invocationEffect k \<in> set (map effectId (derivePendingEffects s)) \<longleftrightarrow>
     \<not> (pi_requiresApproval invocation \<and> pi_approvalState invocation \<noteq> ApprovalGranted)"
  using undispatched_iff [OF assms]
  by (auto simp: pending_effect_ids [OF assms(1)] gated_def split: option.splits)

theorem invocation_dispatched_iff_ungated_witness:
  "\<exists>s i. foldEvents (initialAgentState sample_input) sample_log = Inr s \<and>
     dget (pendingInvocations s) ''i1'' = Some i \<and>
     (ids_invocationEffect ''i1'' \<in> set (map effectId (derivePendingEffects s))) =
       (\<not> (pi_requiresApproval i \<and> pi_approvalState i \<noteq> ApprovalGranted))"
proof -
  obtain s where s: "foldEvents (initialAgentState sample_input) sample_log = Inr s"
    and "dget (pendingInvocations s) ''i1'' \<noteq> None"
    using fold_yieldsD [OF sample_effects] by auto
  then obtain i where i: "dget (pendingInvocations s) ''i1'' = Some i" by blast
  from invocation_dispatched_iff_ungated [OF sample_log_wf [OF s] i] s i show ?thesis by blast
qed

text \<open>Which outcome each effect kind accepts.\<close>

fun outcome_fits :: "effect_descriptor \<Rightarrow> effect_outcome \<Rightarrow> bool" where
  "outcome_fits (ModelCallEffect _ _ _ _) (ModelOutcome _ _ _ _ _ _ _) = True"
| "outcome_fits (ModelCallEffect _ _ _ _) (RetryOutcome _ _ _) = True"
| "outcome_fits (ModelCallEffect _ _ _ _) (ModelSuspended _ _ _ _ _) = True"
| "outcome_fits (LocalToolEffect _ _ _ _ _) (ToolOutcome _ _ _ _) = True"
| "outcome_fits (HttpCallEffect _ _ _ _ _) (ToolOutcome _ _ _ _) = True"
| "outcome_fits (ChannelCallEffect _ _ _ _ _ _ _ purpose _) (ToolOutcome _ _ _ _) =
     (purpose \<noteq> Some ''approval-form'')"
| "outcome_fits (ChannelCallEffect _ _ _ _ _ _ _ purpose _) (ApprovalOutcome _ _ _) =
     (purpose = Some ''approval-form'')"
| "outcome_fits (CredentialWaitEffect _ _ _ _ _ _ _ _ _ _ _) (CredentialOutcome _ _) = True"
| "outcome_fits (PublishEnvelopeEffect _ _ _) _ = True"
| "outcome_fits _ _ = False"

fun defers :: "effect_outcome \<Rightarrow> bool" where
  "defers (RetryOutcome _ _ _) = True"
| "defers (ModelSuspended _ _ _ _ _) = True"
| "defers _ = False"

text \<open>An outcome is rejected exactly when it is of the wrong kind for its effect. An accepted
  outcome yields exactly one terminal event, except for a suspended model call, one to be retried,
  and a fire-and-forget publish, which yield none.\<close>

theorem outcomeEvents_cases:
  "case outcomeEvents classify d outcome now of
     Inl _ \<Rightarrow> \<not> outcome_fits d outcome
   | Inr items \<Rightarrow> outcome_fits d outcome \<and>
       length items = (if effectKind d = KPublishEnvelope \<or> defers outcome then 0 else 1)"
  by (cases d; cases outcome)
     (simp_all add: modelErrorEvents_def modelCompletedEvents_def toolOutcomeEvents_def
      approvalOutcomeEvents_def credentialOutcomeEvents_def Let_def)

text \<open>Silent turns stay silent. With delivery \<open>none\<close> in the turn metadata of its request, no
  event of a model call's outcome is published to the channel, whatever the model produced and
  however it failed.\<close>

theorem undelivered_outcome_unpublished:
  assumes "jget (jget request ''turnMetadata'') ''delivery'' = JStr ''none''"
    and "outcomeEvents classify (ModelCallEffect b m t request) outcome now = Inr items"
  shows "\<forall>item \<in> set items. \<not> ai_publish item"
proof -
  have "truthy (jget request ''turnMetadata'')"
    using assms(1) by (cases "jget request ''turnMetadata''") auto
  with assms show ?thesis
    by (auto simp: modelErrorEvents_def modelCompletedEvents_def shouldPublishModelOutcome_def Let_def
        split: effect_outcome.splits if_splits)
qed

definition sample_silent :: json where
  "sample_silent = JObj [(''turnMetadata'', JObj [(''delivery'', JStr ''none'')])]"

theorem undelivered_outcome_unpublished_witness:
  "list_all (\<lambda>item. \<not> ai_publish item)
     (modelCompletedEvents ''m:1'' sample_silent [JObj [(''content'', JStr ''hi'')]] StopCompleted None JUndefined)"
proof -
  let ?o = "ModelOutcome [JObj [(''content'', JStr ''hi'')]] StopCompleted None JUndefined None None None"
  have "outcomeEvents classify (ModelCallEffect b ''m:1'' ''t'' sample_silent) ?o [] =
      Inr (modelCompletedEvents ''m:1'' sample_silent [JObj [(''content'', JStr ''hi'')]] StopCompleted None JUndefined)"
    for classify b by simp
  from undelivered_outcome_unpublished [OF _ this] show ?thesis
    unfolding list_all_iff by (simp add: sample_silent_def)
qed

end
