(* ===== verification/Dates.thy ===== *)
theory Dates
  imports Prelude
begin

text \<open>
  \<open>Date.parse\<close> on the date-time strings the loop compares: the interchange format of the
  language, \<open>YYYY-MM-DD\<close> optionally followed by \<open>THH:mm[:ss[.sss]]\<close> and \<open>Z\<close> or an
  offset (a time without an offset is read as UTC, the zone the processes run in). The result
  is milliseconds since the epoch; any other string is \<open>None\<close>, the source's \<open>NaN\<close>. Also
  \<open>toISOString\<close>, which writes that format, and that \<open>Date.parse\<close> reads back what it writes.
\<close>

definition is_digit :: "char \<Rightarrow> bool" where
  "is_digit c \<longleftrightarrow> c \<in> set ''0123456789''"

definition digits_value :: "string \<Rightarrow> int" where
  "digits_value s = foldl (\<lambda>acc c. 10 * acc + (of_char c - 48)) 0 s"

text \<open>Reads exactly \<open>n\<close> digits.\<close>

definition take_digits :: "nat \<Rightarrow> string \<Rightarrow> (int \<times> string) option" where
  "take_digits n s =
     (if n \<le> length s \<and> list_all is_digit (take n s) then Some (digits_value (take n s), drop n s) else None)"

definition take_char :: "char \<Rightarrow> string \<Rightarrow> string option" where
  "take_char c s = (case s of d # ds \<Rightarrow> if d = c then Some ds else None | [] \<Rightarrow> None)"

text \<open>A separator and two digits.\<close>

definition take_field :: "char \<Rightarrow> string \<Rightarrow> (int \<times> string) option" where
  "take_field c s = Option.bind (take_char c s) (take_digits 2)"

definition leap_year :: "int \<Rightarrow> bool" where
  "leap_year y \<longleftrightarrow> (4 dvd y \<and> \<not> 100 dvd y) \<or> 400 dvd y"

definition month_lengths :: "int \<Rightarrow> int list" where
  "month_lengths y = [31, if leap_year y then 29 else 28, 31, 30, 31, 30, 31, 31, 30, 31, 30, 31]"

text \<open>Days before 1 January of a year, counted from year 0; 719528 is 1 January 1970.\<close>

definition days_before_year :: "int \<Rightarrow> int" where
  "days_before_year y = 365 * y + (y + 3) div 4 - (y + 99) div 100 + (y + 399) div 400"

definition epoch_days :: "int \<Rightarrow> int \<Rightarrow> int \<Rightarrow> int" where
  "epoch_days y m d =
     days_before_year y + sum_list (take (nat (m - 1)) (month_lengths y)) + (d - 1) - 719528"

text \<open>\<open>Z\<close>, \<open>+HH:mm\<close>, \<open>-HH:mm\<close> or nothing, to the end of the string: minutes to subtract.\<close>

definition parse_zone :: "string \<Rightarrow> int option" where
  "parse_zone s =
     (case s of
        [] \<Rightarrow> Some 0
      | c # cs \<Rightarrow>
          if c = CHR ''Z'' then (if cs = [] then Some 0 else None)
          else if c = CHR ''+'' \<or> c = CHR ''-'' then
            (case take_digits 2 cs of
               Some (h, r) \<Rightarrow>
                 (case take_field CHR '':'' r of
                    Some (m, []) \<Rightarrow>
                      if h < 24 \<and> m < 60
                      then Some ((if c = CHR ''+'' then 1 else -1) * (60 * h + m)) else None
                  | _ \<Rightarrow> None)
             | None \<Rightarrow> None)
          else None)"

text \<open>An optional fraction: the first three digits count, missing ones are zero.\<close>

definition parse_fraction :: "string \<Rightarrow> (int \<times> string) option" where
  "parse_fraction s =
     (case take_char CHR ''.'' s of
        None \<Rightarrow> Some (0, s)
      | Some r \<Rightarrow>
          let ds = takeWhile is_digit r in
          if ds = [] then None
          else Some (digits_value (take 3 (ds @ ''00'')), dropWhile is_digit r))"

definition parse_seconds :: "string \<Rightarrow> (int \<times> int \<times> string) option" where
  "parse_seconds s =
     (case take_field CHR '':'' s of
        None \<Rightarrow> Some (0, 0, s)
      | Some (sec, r) \<Rightarrow>
          (case parse_fraction r of
             Some (ms, r') \<Rightarrow> Some (sec, ms, r')
           | None \<Rightarrow> None))"

definition parse_time :: "string \<Rightarrow> int option" where
  "parse_time s =
     (case take_digits 2 s of
        Some (h, r1) \<Rightarrow>
          (case take_field CHR '':'' r1 of
             Some (mi, r2) \<Rightarrow>
               (case parse_seconds r2 of
                  Some (sec, ms, r3) \<Rightarrow>
                    if h < 24 \<and> mi < 60 \<and> sec < 60 \<or> h = 24 \<and> mi = 0 \<and> sec = 0 \<and> ms = 0
                    then map_option (\<lambda>z. ((h * 60 + mi - z) * 60 + sec) * 1000 + ms)
                           (parse_zone r3)
                    else None
                | None \<Rightarrow> None)
           | None \<Rightarrow> None)
      | None \<Rightarrow> None)"

definition Date_parse :: "string \<Rightarrow> int option" where
  "Date_parse s =
     (case take_digits 4 s of
        Some (y, r1) \<Rightarrow>
          (case take_field CHR ''-'' r1 of
             Some (m, r2) \<Rightarrow>
               (case take_field CHR ''-'' r2 of
                  Some (d, r3) \<Rightarrow>
                    if 1 \<le> m \<and> m \<le> 12 \<and> 1 \<le> d \<and> d \<le> month_lengths y ! nat (m - 1) then
                      (if r3 = [] then Some (epoch_days y m d * 86400000)
                       else
                         Option.bind (take_char CHR ''T'' r3)
                           (\<lambda>r4. map_option (\<lambda>t. epoch_days y m d * 86400000 + t) (parse_time r4)))
                    else None
                | None \<Rightarrow> None)
           | None \<Rightarrow> None)
      | None \<Rightarrow> None)"

lemma Date_parse_epoch: "Date_parse ''1970-01-01T00:00:00.000Z'' = Some 0"
  by code_simp

lemma Date_parse_sample: "Date_parse ''2026-03-01T12:30:15.250+01:00'' = Some 1772364615250"
  by code_simp

subsection \<open>\<open>Date.prototype.toISOString\<close>\<close>

text \<open>The year, month and day of a day number, as the language defines them: the largest year that starts no
  later, then the months in order. 146097 days are 400 years, so the quotient is at most one year off.\<close>

definition year_of_day :: "int \<Rightarrow> int" where
  "year_of_day n =
     (let y = 400 * n div 146097 in
      if n < days_before_year y then y - 1 else if days_before_year (y + 1) \<le> n then y + 1 else y)"

fun month_of_day :: "int list \<Rightarrow> int \<Rightarrow> int \<times> int" where
  "month_of_day [] n = (1, n + 1)"
| "month_of_day (l # ls) n =
     (if n < l then (1, n + 1) else let (m, d) = month_of_day ls (n - l) in (m + 1, d))"

fun pad_digits :: "nat \<Rightarrow> int \<Rightarrow> string" where
  "pad_digits 0 n = []"
| "pad_digits (Suc k) n = pad_digits k (n div 10) @ [digit_char (nat (n mod 10))]"

definition show_year :: "int \<Rightarrow> string" where
  "show_year y =
     (if 0 \<le> y \<and> y \<le> 9999 then pad_digits 4 y
      else (if y < 0 then ''-'' else ''+'') @ pad_digits 6 \<bar>y\<bar>)"

definition Date_toISOString :: "int \<Rightarrow> string" where
  "Date_toISOString t =
     (let day = t div 86400000; ms = t mod 86400000; n = day + 719528; y = year_of_day n;
          (m, d) = month_of_day (month_lengths y) (n - days_before_year y)
      in show_year y @ ''-'' @ pad_digits 2 m @ ''-'' @ pad_digits 2 d @ ''T'' @
         pad_digits 2 (ms div 3600000) @ '':'' @ pad_digits 2 (ms div 60000 mod 60) @ '':'' @
         pad_digits 2 (ms div 1000 mod 60) @ ''.'' @ pad_digits 3 (ms mod 1000) @ ''Z'')"

lemma length_pad_digits [simp]: "length (pad_digits k n) = k"
  by (induction k arbitrary: n) auto

lemma is_digit_digit_char: "d < 10 \<Longrightarrow> is_digit (digit_char d)"
  using digit_char_in [of d] by (simp add: is_digit_def)

lemma digit_char_value: "d < 10 \<Longrightarrow> of_char (digit_char d) = (48 + int d)"
  using less_10_cases [of d] by (auto simp: digit_char_def)

lemma pad_digits_digits: "list_all is_digit (pad_digits k n)"
  by (induction k arbitrary: n) (auto intro!: is_digit_digit_char)

lemma pad_digits_value: "0 \<le> n \<Longrightarrow> n < 10 ^ k \<Longrightarrow> digits_value (pad_digits k n) = n"
proof (induction k arbitrary: n)
  case (Suc k)
  have "digits_value (pad_digits k (n div 10)) = n div 10" using Suc by (intro Suc.IH) auto
  moreover have "of_char (digit_char (nat (n mod 10))) = 48 + n mod 10" by (simp add: digit_char_value)
  ultimately show ?case by (simp add: digits_value_def)
qed (simp add: digits_value_def)

lemma take_pad_digits: "0 \<le> n \<Longrightarrow> n < 10 ^ k \<Longrightarrow> take_digits k (pad_digits k n @ rest) = Some (n, rest)"
  by (simp add: take_digits_def pad_digits_digits pad_digits_value)

lemma take_pad_field: "0 \<le> n \<Longrightarrow> n < 100 \<Longrightarrow> take_field c (c # pad_digits 2 n @ rest) = Some (n, rest)"
  by (simp add: take_field_def take_char_def take_pad_digits)

lemma days_before_year_bounds:
  "400 * days_before_year y \<le> 146097 * y + 800" "146097 * y \<le> 400 * days_before_year y + 800"
proof -
  have bounds: "y \<le> k * ((y + k - 1) div k) \<and> k * ((y + k - 1) div k) \<le> y + k - 1" if "0 < k" for k :: int
  proof -
    have "k * ((y + k - 1) div k) = y + k - 1 - (y + k - 1) mod k" by (rule minus_mod_eq_mult_div [symmetric])
    moreover have "0 \<le> (y + k - 1) mod k" "(y + k - 1) mod k < k" using that by simp_all
    ultimately show ?thesis by linarith
  qed
  show "400 * days_before_year y \<le> 146097 * y + 800" "146097 * y \<le> 400 * days_before_year y + 800"
    using bounds [of 4] bounds [of 100] bounds [of 400] by (simp_all add: days_before_year_def)
qed

lemma div_step: "0 < k \<Longrightarrow> (y + k) div k - (y + (k - 1)) div k = (if k dvd y then 1 else 0)" for k y :: int
proof -
  assume k: "0 < k"
  define r where "r = y mod k"
  have y: "y = k * (y div k) + r" by (simp add: r_def)
  have r: "0 \<le> r" "r < k" using k by (simp_all add: r_def)
  have "(y + (k - 1)) div k = y div k + (if r = 0 then 0 else 1)"
    by (rule int_div_pos_eq [where r = "if r = 0 then k - 1 else r - 1"]) (use y r in \<open>auto simp: algebra_simps\<close>)
  moreover have "(y + k) div k = y div k + 1" using k by (intro div_add_self2) simp
  ultimately show ?thesis by (simp add: dvd_eq_mod_eq_0 r_def)
qed

lemma year_starts: "days_before_year (y + 1) = days_before_year y + sum_list (month_lengths y)"
proof -
  have "(y + 4) div 4 - (y + 3) div 4 = (if 4 dvd y then 1 else 0)" "(y + 100) div 100 - (y + 99) div 100 = (if 100 dvd y then 1 else 0)"
    "(y + 400) div 400 - (y + 399) div 400 = (if 400 dvd y then 1 else 0)"
    using div_step [of 4 y] div_step [of 100 y] div_step [of 400 y] by simp_all
  then have "(y + 1 + 3) div 4 = (y + 3) div 4 + (if 4 dvd y then 1 else 0)" "(y + 1 + 99) div 100 = (y + 99) div 100 + (if 100 dvd y then 1 else 0)"
    "(y + 1 + 399) div 400 = (y + 399) div 400 + (if 400 dvd y then 1 else 0)" by (simp_all add: algebra_simps)
  moreover have "(4::int) dvd 100" "(100::int) dvd 400" by simp_all
  then have "100 dvd y \<Longrightarrow> 4 dvd y" "400 dvd y \<Longrightarrow> 100 dvd y" by (blast intro: dvd_trans)+
  ultimately show ?thesis unfolding days_before_year_def month_lengths_def leap_year_def by (simp split: if_splits)
qed

lemma year_of_day: "days_before_year (year_of_day n) \<le> n" "n < days_before_year (year_of_day n + 1)"
proof -
  define y where "y = 400 * n div 146097"
  define r where "r = 400 * n mod 146097"
  have "146097 * y = 400 * n - r" unfolding y_def r_def by (rule minus_mod_eq_mult_div [symmetric])
  moreover have "0 \<le> r" "r < 146097" by (simp_all add: r_def)
  ultimately have "146097 * y \<le> 400 * n" "400 * n < 146097 * y + 146097" by linarith+
  then have "days_before_year (y - 1) \<le> n" "n < days_before_year (y + 2)"
    using days_before_year_bounds [of "y - 1"] days_before_year_bounds [of "y + 2"]
    unfolding distrib_left right_diff_distrib by linarith+
  then show "days_before_year (year_of_day n) \<le> n" "n < days_before_year (year_of_day n + 1)"
    using add.commute [of y 2] by (auto simp: year_of_day_def y_def [symmetric] Let_def)
qed

lemma month_of_day:
  assumes "month_of_day ls n = (m, d)" and "0 \<le> n" and "n < sum_list ls"
  shows "1 \<le> m \<and> m \<le> int (length ls) \<and> 1 \<le> d \<and> d \<le> ls ! nat (m - 1) \<and> sum_list (take (nat (m - 1)) ls) + d - 1 = n"
  using assms
proof (induction ls arbitrary: n m)
  case (Cons l ls)
  show ?case
  proof (cases "n < l")
    case False
    then obtain m' where m': "month_of_day ls (n - l) = (m', d)" "m = m' + 1" using Cons.prems by (auto split: prod.splits)
    have "1 \<le> m' \<and> m' \<le> int (length ls) \<and> 1 \<le> d \<and> d \<le> ls ! nat (m' - 1) \<and> sum_list (take (nat (m' - 1)) ls) + d - 1 = n - l"
      using Cons.IH [OF m'(1)] Cons.prems False by simp
    moreover from this have "nat m' = Suc (nat (m' - 1))" by linarith
    ultimately show ?thesis using m'(2) by simp
  qed (use Cons.prems in auto)
qed simp

lemma month_length_bounds: "1 \<le> m \<Longrightarrow> m \<le> 12 \<Longrightarrow> month_lengths y ! nat (m - 1) \<le> 31"
proof -
  assume "1 \<le> m" "m \<le> 12"
  then have "nat (m - 1) < length (month_lengths y)" by (simp add: month_lengths_def)
  then have "month_lengths y ! nat (m - 1) \<in> set (month_lengths y)" by (rule nth_mem)
  then show ?thesis by (auto simp: month_lengths_def)
qed

text \<open>A time of the years 0 to 9999 that is written with \<open>toISOString\<close> is read back by \<open>Date.parse\<close>.\<close>

lemma parse_fraction_pad:
  "0 \<le> n \<Longrightarrow> n < 1000 \<Longrightarrow> parse_fraction (CHR ''.'' # pad_digits 3 n @ ''Z'') = Some (n, ''Z'')"
proof -
  assume n: "0 \<le> n" "n < 1000"
  have all: "\<And>c. c \<in> set (pad_digits 3 n) \<Longrightarrow> is_digit c" using pad_digits_digits [of 3 n] by (simp add: list_all_iff)
  have "\<not> is_digit CHR ''Z''" by (simp add: is_digit_def)
  then have tw: "takeWhile is_digit (pad_digits 3 n @ ''Z'') = pad_digits 3 n" "dropWhile is_digit (pad_digits 3 n @ ''Z'') = ''Z''"
    using all by (simp_all add: takeWhile_append2 dropWhile_append2)
  have "pad_digits 3 n \<noteq> []" using length_pad_digits [of 3 n] by (metis list.size(3) zero_neq_numeral)
  moreover have "digits_value (take 3 (pad_digits 3 n @ ''00'')) = n" using n by (simp add: pad_digits_value)
  ultimately show ?thesis by (simp add: parse_fraction_def take_char_def tw Let_def)
qed

lemma parse_time_pad:
  assumes "0 \<le> h" "h < 24" "0 \<le> mi" "mi < 60" "0 \<le> sec" "sec < 60" "0 \<le> ms" "ms < 1000"
  shows "parse_time (pad_digits 2 h @ '':'' @ pad_digits 2 mi @ '':'' @ pad_digits 2 sec @ ''.'' @ pad_digits 3 ms @ ''Z'') =
     Some (((h * 60 + mi) * 60 + sec) * 1000 + ms)"
proof -
  have "take_digits 2 (pad_digits 2 h @ rest) = Some (h, rest)" for rest
    using assms by (intro take_pad_digits) auto
  then show ?thesis
    using assms by (simp add: parse_time_def take_pad_field parse_seconds_def parse_fraction_pad parse_zone_def)
qed

lemma clock_total:
  fixes ms :: int
  shows "((ms div 3600000 * 60 + ms div 60000 mod 60) * 60 + ms div 1000 mod 60) * 1000 + ms mod 1000 = ms"
proof -
  define s r1 m r2 h r3 where "s = ms div 1000" and "r1 = ms mod 1000" and "m = s div 60" and "r2 = s mod 60"
    and "h = m div 60" and "r3 = m mod 60"
  have eqs: "ms div 60000 = m" "ms div 3600000 = h"
    unfolding h_def m_def s_def by (simp_all add: zdiv_zmult2_eq [symmetric])
  have "1000 * s + r1 = ms" "60 * m + r2 = s" "60 * h + r3 = m"
    unfolding s_def r1_def m_def r2_def h_def r3_def by (rule mult_div_mod_eq)+
  then have "((h * 60 + r3) * 60 + r2) * 1000 + r1 = ms" unfolding distrib_right by linarith
  then show ?thesis by (simp only: eqs s_def [symmetric] r1_def [symmetric] r2_def [symmetric] r3_def [symmetric])
qed

lemma parse_time_written:
  assumes "0 \<le> ms" and "ms < 86400000"
  shows "parse_time (pad_digits 2 (ms div 3600000) @ '':'' @ pad_digits 2 (ms div 60000 mod 60) @ '':'' @
     pad_digits 2 (ms div 1000 mod 60) @ ''.'' @ pad_digits 3 (ms mod 1000) @ ''Z'') = Some ms"
proof -
  have "0 \<le> ms div 3600000" "ms div 3600000 < 24" using assms by auto
  then show ?thesis using parse_time_pad [of "ms div 3600000" "ms div 60000 mod 60" "ms div 1000 mod 60" "ms mod 1000"]
    unfolding clock_total by simp
qed

lemma iso_roundtrip:
  assumes "0 \<le> year_of_day (t div 86400000 + 719528)" and "year_of_day (t div 86400000 + 719528) \<le> 9999"
  shows "Date_parse (Date_toISOString t) = Some t"
proof -
  define n where "n = t div 86400000 + 719528"
  define y where "y = year_of_day n"
  obtain m d where md: "month_of_day (month_lengths y) (n - days_before_year y) = (m, d)" by fastforce
  note date = month_of_day [OF md]
  have date: "1 \<le> m \<and> m \<le> 12 \<and> 1 \<le> d \<and> d \<le> month_lengths y ! nat (m - 1) \<and>
      sum_list (take (nat (m - 1)) (month_lengths y)) + d - 1 = n - days_before_year y"
    using month_of_day [OF md] year_of_day [of n] year_starts [of y] by (simp add: y_def month_lengths_def)
  have "d \<le> 31" using date month_length_bounds [of m y] by force
  then have small: "0 \<le> m" "m < 100" "0 \<le> d" "d < 100" using date by auto
  have "epoch_days y m d = t div 86400000" using date by (simp add: epoch_days_def n_def)
  moreover have "parse_time (pad_digits 2 (t mod 86400000 div 3600000) @ '':'' @ pad_digits 2 (t mod 86400000 div 60000 mod 60) @ '':'' @
     pad_digits 2 (t mod 86400000 div 1000 mod 60) @ ''.'' @ pad_digits 3 (t mod 86400000 mod 1000) @ ''Z'') = Some (t mod 86400000)"
    by (rule parse_time_written) auto
  ultimately show ?thesis
    using assms date small
    by (simp add: Date_toISOString_def Date_parse_def n_def [symmetric] y_def [symmetric] md show_year_def Let_def
        take_pad_digits take_pad_field take_char_def)
qed

end
