(* ===== verification/Step.thy ===== *)
theory Step
  imports Effects Dates
begin

text \<open>
  The step function (\<open>agent-loop/src/step.ts\<close>, commands of \<open>commands.ts\<close>): from a folded
  state and one incoming stimulus (a command, an appended event, a failed effect) to the events to
  append and the effects to dispatch. \<open>coreStep\<close> dispatches to \<open>commandStep\<close>,
  \<open>eventStep\<close> and \<open>effectFailedStep\<close>; each \<open>case\<close> or \<open>if\<close> arm of those is a definition
  of its own. A \<open>!\<close> assertion on a missing value is a \<open>TypeError\<close> result.

  Optional metadata is an object when present. Reads of configuration fields follow their declared
  types (\<open>activeToolNames\<close>, \<open>roster.participants\<close> and \<open>methods\<close> are arrays).
\<close>

subsection \<open>Commands, stimuli, output\<close>

record user_command =
  uc_channelId :: string
  uc_sourceEnvelopeId :: string
  uc_sourceMessageId :: "string option"
  uc_content :: json
  uc_senderRef :: json
  uc_agentHops :: "int option"
  uc_metadata :: "json option"

datatype command =
    Prompt user_command
  | Steer user_command
  | Interrupt bool
  | Abort "string option"
  | Edit string json json
  | Retract string json
  | SetConfig json
  | Compact
  | ResumeAfterReset string string
  | Wake

datatype incoming =
    CommandIn command
  | EventAppended log_envelope
  | EffectFailed string effect_kind string nat

record step_context =
  ctx_now :: string
  ctx_selfRef :: json

record step_output =
  so_append :: "append_item list"
  so_effects :: "effect_descriptor list"

definition EMPTY :: step_output where
  "EMPTY = \<lparr> so_append = [], so_effects = [] \<rparr>"

definition appendOnly :: "append_item list \<Rightarrow> step_output" where
  "appendOnly items = \<lparr> so_append = items, so_effects = [] \<rparr>"

definition selfActorId :: "step_context \<Rightarrow> string" where
  "selfActorId ctx = js_String (jget (ctx_selfRef ctx) ''id'')"

subsection \<open>Model start\<close>

definition parseModel :: "string \<Rightarrow> string \<times> string" where
  "parseModel model =
     (case index_of_char CHR '':'' model of
        None \<Rightarrow> (''anthropic'', model)
      | Some idx \<Rightarrow> (take idx model, drop (idx + 1) model))"

definition turnMetadataOf :: "agent_state \<Rightarrow> json option" where
  "turnMetadataOf state = (case openTurn state of Some turn \<Rightarrow> ot_metadata turn | None \<Rightarrow> None)"

definition turnConfig :: "agent_state \<Rightarrow> json" where
  "turnConfig state =
     (let patch = (case turnMetadataOf state of Some m \<Rightarrow> jget m ''loopConfigPatch'' | None \<Rightarrow> JUndefined)
      in if \<not> truthy patch then config state
         else JObj (jspread (own_props (config state)) (own_props patch)))"

definition shouldPublishTurnLifecycle :: "json option \<Rightarrow> bool" where
  "shouldPublishTurnLifecycle metadata =
     (case metadata of Some m \<Rightarrow> jget m ''delivery'' \<noteq> JStr ''none'' | None \<Rightarrow> True)"

definition truthy_prop :: "string \<Rightarrow> json \<Rightarrow> json dict" where
  "truthy_prop k v = (if truthy v then [(k, v)] else [])"

definition modelRequest :: "agent_state \<Rightarrow> string \<Rightarrow> nat \<Rightarrow> nat \<Rightarrow> json" where
  "modelRequest state turnId modelCallCount itemsBefore =
     (let attemptId = ids_attemptId (ids_messageId turnId modelCallCount);
          cfg = turnConfig state;
          (provider, model) = parseModel (js_String (jget cfg ''model''));
          idle = jget cfg ''modelStreamIdleTimeoutMs''
      in JObj ([(''provider'', JStr provider), (''model'', JStr model),
                (''thinkingLevel'', jget cfg ''thinkingLevel''),
                (''systemPromptHash'', jget cfg ''systemPromptHash'')]
           @ truthy_prop ''skillIndexHash'' (jget cfg ''skillIndexHash'')
           @ truthy_prop ''toolSchemasHash'' (jget cfg ''toolSchemasHash'')
           @ [(''activeToolNames'', jget cfg ''activeToolNames''),
              (''contextThroughSeq'', JNum (lastSeq state + int itemsBefore)),
              (''attemptId'', JStr attemptId)]
           @ (if idle \<noteq> JUndefined then [(''streamOptions'', JObj [(''idleTimeoutMs'', idle)])] else [])
           @ opt_prop ''turnMetadata'' id (turnMetadataOf state)))"

definition modelStartItems ::
  "agent_state \<Rightarrow> string \<Rightarrow> nat \<Rightarrow> nat \<Rightarrow> append_item \<times> effect_descriptor" where
  "modelStartItems state turnId modelCallCount itemsBefore =
     (let messageId = ids_messageId turnId modelCallCount;
          attemptId = ids_attemptId messageId;
          request = modelRequest state turnId modelCallCount itemsBefore
      in (\<lparr> ai_envelopeId = ids_messageStarted messageId,
            ai_payloadKind = MessageStarted,
            ai_payload = JObj [protocol_prop, (''role'', JStr ''assistant''), (''modelRequest'', request)],
            ai_causality = JObj [(''messageId'', JStr messageId), (''turnId'', JStr turnId)],
            ai_publish = shouldPublishTurnLifecycle (turnMetadataOf state) \<rparr>,
          ModelCallEffect (mk_base (ids_modelEffect messageId) state (JStr attemptId))
            messageId turnId request))"

subsection \<open>Turn and message items\<close>

definition recvPayload :: "user_command \<Rightarrow> json" where
  "recvPayload command =
     JObj ([protocol_prop, (''role'', JStr ''user''),
        (''blocks'', case uc_content command of
            JArr xs \<Rightarrow> JArr xs
          | content \<Rightarrow> JArr [JObj [(''type'', JStr ''text''), (''content'', JStr (string_or content []))]]),
        (''outcome'', JStr ''completed'')]
       @ opt_prop ''metadata'' id (uc_metadata command)
       @ opt_prop ''sourceMessageId'' JStr (nonempty_opt (uc_sourceMessageId command))
       @ [(''senderRef'', uc_senderRef command)])"

definition recvItem :: "user_command \<Rightarrow> append_item" where
  "recvItem command =
     \<lparr> ai_envelopeId = ids_recvUserMessage (uc_channelId command) (uc_sourceEnvelopeId command),
       ai_payloadKind = MessageCompleted,
       ai_payload = recvPayload command,
       ai_causality = JObj ([(''messageId'',
           JStr (ids_recvUserMessage (uc_channelId command) (uc_sourceEnvelopeId command)))]
         @ opt_prop ''agentHops'' JNum (uc_agentHops command)),
       ai_publish = False \<rparr>"

definition turnOpenedItem :: "string \<Rightarrow> json option \<Rightarrow> append_item" where
  "turnOpenedItem turnId metadata =
     \<lparr> ai_envelopeId = ids_turnOpened turnId,
       ai_payloadKind = TurnOpened,
       ai_payload = JObj ([protocol_prop] @ opt_prop ''metadata'' id metadata),
       ai_causality = JObj [(''turnId'', JStr turnId)],
       ai_publish = shouldPublishTurnLifecycle metadata \<rparr>"

definition turnClosedItem :: "string \<Rightarrow> string option \<Rightarrow> string option \<Rightarrow> append_item" where
  "turnClosedItem turnId reason summary =
     \<lparr> ai_envelopeId = ids_turnClosed turnId,
       ai_payloadKind = TurnClosed,
       ai_payload = JObj ([protocol_prop] @ opt_prop ''reason'' JStr (nonempty_opt reason)
         @ opt_prop ''summary'' JStr (nonempty_opt summary)),
       ai_causality = JObj [(''turnId'', JStr turnId)],
       ai_publish = True \<rparr>"

definition turnWaitingItem :: "string \<Rightarrow> nat \<Rightarrow> string \<Rightarrow> string option \<Rightarrow> append_item" where
  "turnWaitingItem turnId waitingCount reason summary =
     \<lparr> ai_envelopeId = ids_turnWaiting turnId waitingCount,
       ai_payloadKind = TurnWaiting,
       ai_payload = JObj ([protocol_prop, (''reason'', JStr reason)]
         @ opt_prop ''summary'' JStr (nonempty_opt summary)),
       ai_causality = JObj [(''turnId'', JStr turnId)],
       ai_publish = True \<rparr>"

definition readAckEffect :: "string \<Rightarrow> string \<Rightarrow> string \<Rightarrow> step_context \<Rightarrow> effect_descriptor" where
  "readAckEffect channel sourceMessageId turnId ctx =
     (let key = ''read:'' @ sourceMessageId @ '':'' @ turnId in
      PublishEnvelopeEffect
        \<lparr> ef_effectId = key, ef_channelId = channel, ef_idempotencyKey = JStr key \<rparr>
        AGENTIC_EVENT_PAYLOAD_KIND
        (JObj [(''kind'', JStr ''message.read''), (''actor'', ctx_selfRef ctx),
           (''causality'', JObj [(''messageId'', JStr sourceMessageId)]),
           (''payload'', JObj [protocol_prop, (''turnId'', JStr turnId)]),
           (''createdAt'', JStr (ctx_now ctx))]))"

text \<open>A \<open>Set\<close> in insertion order.\<close>

definition insertion_set :: "'a list \<Rightarrow> 'a list" where
  "insertion_set xs = rev (remdups (rev xs))"

definition consumedIds :: "agent_state \<Rightarrow> int \<Rightarrow> string list \<Rightarrow> string list" where
  "consumedIds state contextThroughSeq fresh =
     insertion_set (filter (\<lambda>sid. sid \<noteq> []) fresh
       @ List.map_filter (\<lambda>entry. if se_seq entry \<le> contextThroughSeq
            then nonempty_opt (se_sourceMessageId entry) else None) (steeringQueue state))"

definition readAckEffects ::
  "agent_state \<Rightarrow> int \<Rightarrow> string list \<Rightarrow> string \<Rightarrow> step_context \<Rightarrow> effect_descriptor list" where
  "readAckEffects state contextThroughSeq fresh turnId ctx =
     map (\<lambda>sid. readAckEffect (channelId state) sid turnId ctx) (consumedIds state contextThroughSeq fresh)"

definition promotedRecvItem :: "deferred_prompt \<Rightarrow> int \<Rightarrow> append_item" where
  "promotedRecvItem headPrompt promotionSeq =
     (let content = (if is_plain_object (dp_content headPrompt) then own_props (dp_content headPrompt) else []);
          metadata = map_option (\<lambda>m. JObj (dput ''deliverAfterTurn'' JUndefined (own_props m)))
                       (dp_metadata headPrompt)
      in \<lparr> ai_envelopeId = ids_recvPromoted (dp_sourceMessageId headPrompt) promotionSeq,
           ai_payloadKind = MessageCompleted,
           ai_payload = JObj (jspread content ([protocol_prop, (''role'', JStr ''user''),
               (''outcome'', JStr ''completed''),
               (''sourceMessageId'', JStr (dp_sourceMessageId headPrompt)),
               (''senderRef'', dp_senderRef headPrompt)]
             @ opt_prop ''metadata'' id metadata)),
           ai_causality = JObj ([(''messageId'',
               JStr (ids_recvPromoted (dp_sourceMessageId headPrompt) promotionSeq))]
             @ opt_prop ''agentHops'' JNum (dp_agentHops headPrompt)),
           ai_publish = False \<rparr>)"

text \<open>The open turn a step assumes after its own \<open>turn.opened\<close> item.\<close>

definition freshTurn :: "string \<Rightarrow> int \<Rightarrow> json option \<Rightarrow> open_turn" where
  "freshTurn turnId openedAtSeq metadata =
     \<lparr> ot_turnId = turnId, ot_openedAtSeq = openedAtSeq, ot_reason = None, ot_modelCallCount = 0,
       ot_interrupted = False, ot_waitingCount = 0, ot_metadata = metadata, ot_pendingFlush = None \<rparr>"

definition promotePendingPrompt ::
  "agent_state \<Rightarrow> step_context \<Rightarrow> append_item list \<Rightarrow> step_output res" where
  "promotePendingPrompt state ctx precedingAppend =
     (case pendingPrompt state of
        None \<Rightarrow> Inl (TypeError ''pendingPrompt'')
      | Some prompt \<Rightarrow>
          let turnId = ids_turnId (channelId state) (pp_envelopeId prompt) (selfActorId ctx);
              opened = turnOpenedItem turnId (pp_metadata prompt);
              afterOpened = state\<lparr>openTurn := Some (freshTurn turnId (lastSeq state + 1) (pp_metadata prompt))\<rparr>;
              (item, effect) = modelStartItems afterOpened turnId 0 1;
              readAcks = readAckEffects afterOpened (lastSeq state + 1)
                (case nonempty_opt (pp_sourceMessageId prompt) of Some sid \<Rightarrow> [sid] | None \<Rightarrow> [])
                turnId ctx
          in Inr \<lparr> so_append = precedingAppend @ [opened, item], so_effects = effect # readAcks \<rparr>)"

definition promoteSteersAsTurn :: "agent_state \<Rightarrow> step_context \<Rightarrow> step_output res" where
  "promoteSteersAsTurn state ctx =
     (case steeringQueue state of
        [] \<Rightarrow> Inl (TypeError ''steeringQueue'')
      | headSteer # _ \<Rightarrow>
          let turnId = ids_turnId (channelId state) (se_envelopeId headSteer) (selfActorId ctx);
              opened = turnOpenedItem turnId (se_metadata headSteer);
              afterOpened = state\<lparr>openTurn := Some (freshTurn turnId (lastSeq state + 1) (se_metadata headSteer))\<rparr>;
              (item, effect) = modelStartItems afterOpened turnId 0 1;
              readAcks = readAckEffects afterOpened (lastSeq state + 1) [] turnId ctx
          in Inr \<lparr> so_append = [opened, item], so_effects = effect # readAcks \<rparr>)"

subsection \<open>Interrupt cleanup\<close>

definition cancelInvocationItem :: "string \<Rightarrow> pending_invocation \<Rightarrow> append_item" where
  "cancelInvocationItem reason invocation =
     \<lparr> ai_envelopeId = ids_invocationTerminal (pi_invocationId invocation),
       ai_payloadKind = InvocationCancelled,
       ai_payload = JObj [protocol_prop, (''reason'', JStr reason),
         (''terminalOutcome'', JStr ''cancelled''), (''terminalReasonCode'', JStr reason)],
       ai_causality = JObj [(''invocationId'', JStr (pi_invocationId invocation)),
         (''transportCallId'', coalesce (jget (pi_transport invocation) ''transportCallId'')
            (JStr (ids_transportCallId (pi_invocationId invocation)))),
         (''turnId'', JStr (pi_turnId invocation))],
       ai_publish = True \<rparr>"

definition denyApprovalItem :: "string \<Rightarrow> string \<Rightarrow> pending_approval \<Rightarrow> append_item" where
  "denyApprovalItem resolver reason approval =
     \<lparr> ai_envelopeId = ids_approvalResolved (pa_approvalId approval),
       ai_payloadKind = ApprovalResolved,
       ai_payload = JObj [protocol_prop, (''granted'', JBool False),
         (''resolvedBy'', JObj [(''kind'', JStr ''system''), (''id'', JStr resolver)]),
         (''reason'', JStr reason)],
       ai_causality = JObj [(''approvalId'', JStr (pa_approvalId approval)),
         (''invocationId'', JStr (pa_invocationId approval)), (''turnId'', JStr (pa_turnId approval))],
       ai_publish = True \<rparr>"

definition cancelWaitItem :: "string \<Rightarrow> pending_credential_wait \<Rightarrow> append_item" where
  "cancelWaitItem reason wait =
     \<lparr> ai_envelopeId = ids_systemEvent (cw_credKey wait) ''resolved'' (Some (cw_startedAtSeq wait)),
       ai_payloadKind = SystemEvent,
       ai_payload = JObj [protocol_prop, (''kind'', JStr ''credential.wait_resolved''),
         (''credKey'', JStr (cw_credKey wait)),
         (''details'', JObj [(''kind'', JStr ''credential.wait_resolved''),
            (''credKey'', JStr (cw_credKey wait)), (''providerId'', JStr (cw_providerId wait)),
            (''resolved'', JBool False), (''reason'', JStr reason)])],
       ai_causality = JObj [(''turnId'', JStr (cw_turnId wait))],
       ai_publish = True \<rparr>"

definition interruptCleanupItems :: "agent_state \<Rightarrow> string \<Rightarrow> append_item list" where
  "interruptCleanupItems state reason =
     map (cancelInvocationItem reason) (map snd (pendingInvocations state))
     @ map (denyApprovalItem ''agent-loop'' reason) (map snd (pendingApprovals state))
     @ map (cancelWaitItem reason) (map snd (pendingCredentialWaits state))
     @ (case openTurn state of
          Some turn \<Rightarrow> [turnClosedItem (ot_turnId turn)
            (Some (if reason = ''forked'' then ''forked'' else ''user_interrupted'')) None]
        | None \<Rightarrow> [])"

subsection \<open>Projection and tool-call expansion\<close>

text \<open>The synthetic envelope of an item; the author is this agent.\<close>

definition projectedEnvelope :: "agent_state \<Rightarrow> string \<Rightarrow> agent_state \<Rightarrow> int \<Rightarrow> append_item \<Rightarrow> log_envelope" where
  "projectedEnvelope state now next seq item =
     \<lparr> env_logId = logId state, env_head = head state, env_seq = seq,
       env_envelopeId = ai_envelopeId item,
       env_actor = JObj [(''kind'', JStr ''agent''), (''id'', JStr (option_or (selfId state) ''self''))],
       env_payloadKind = ai_payloadKind item, env_payload = ai_payload item,
       env_causality = ai_causality item, env_appendedAt = now, env_prevHash = lastHash next,
       env_hash = ''projected:'' @ show_int seq \<rparr>"

fun projectItems :: "agent_state \<Rightarrow> string \<Rightarrow> agent_state \<Rightarrow> int \<Rightarrow> append_item list \<Rightarrow> agent_state res" where
  "projectItems state now next seq [] = Inr next"
| "projectItems state now next seq (item # items) =
     bind_res (applyEvent next (projectedEnvelope state now next (seq + 1) item))
       (\<lambda>next'. projectItems state now next' (seq + 1) items)"

definition projectAppend :: "agent_state \<Rightarrow> append_item list \<Rightarrow> string \<Rightarrow> agent_state res" where
  "projectAppend state items now = projectItems state now state (lastSeq state) items"

definition isToolCallBlock :: "json \<Rightarrow> bool" where
  "isToolCallBlock block \<longleftrightarrow> is_object block \<and>
     (jget block ''type'' = JStr ''toolCall'' \<or> jget block ''type'' = JStr ''tool_call'') \<and>
     string_opt (jget block ''id'') \<noteq> None \<and> string_opt (jget block ''name'') \<noteq> None"

definition block_id :: "json \<Rightarrow> string" where
  "block_id block = js_String (jget block ''id'')"

definition block_name :: "json \<Rightarrow> string" where
  "block_name block = js_String (jget block ''name'')"

definition advertises :: "string \<Rightarrow> json \<Rightarrow> bool" where
  "advertises name participant \<longleftrightarrow>
     (\<exists>method \<in> set (array_or_empty (jget participant ''methods'')). jget method ''name'' = JStr name)"

definition transportForToolCall :: "agent_state \<Rightarrow> string \<Rightarrow> string \<Rightarrow> json" where
  "transportForToolCall state name invocationId =
     (let local = JObj [(''kind'', JStr ''local''), (''awaiterId'', JStr invocationId)] in
      if JStr name \<in> set (array_or_empty (jget (config state) ''activeToolNames'')) then local
      else
        case find (advertises name) (array_or_empty (jget (jget (config state) ''roster'') ''participants'')) of
          Some participant \<Rightarrow>
            JObj [(''kind'', JStr ''channel''), (''channelId'', JStr (channelId state)),
              (''target'', jget participant ''ref''),
              (''transportCallId'', JStr (ids_transportCallId invocationId))]
        | None \<Rightarrow> local)"

definition invocationStartedItem :: "agent_state \<Rightarrow> string \<Rightarrow> string \<Rightarrow> json \<Rightarrow> append_item" where
  "invocationStartedItem state messageId turnId block =
     \<lparr> ai_envelopeId = ids_invocationStart (block_id block),
       ai_payloadKind = InvocationStarted,
       ai_payload = JObj [protocol_prop, (''name'', JStr (block_name block)),
         (''invocationType'', JStr ''tool''), (''request'', jget block ''arguments''),
         (''transport'', transportForToolCall state (block_name block) (block_id block)),
         (''userVisible'', JBool True)],
       ai_causality = JObj ((if messageId \<noteq> [] then [(''messageId'', JStr messageId)] else [])
         @ [(''invocationId'', JStr (block_id block)), (''modelToolCallId'', JStr (block_id block)),
            (''attemptId'', JStr (if messageId \<noteq> [] then ids_attemptId messageId else [])),
            (''turnId'', JStr turnId)]),
       ai_publish = True \<rparr>"

fun expandBlocks ::
  "agent_state \<Rightarrow> string \<Rightarrow> string \<Rightarrow> string \<Rightarrow> agent_state \<Rightarrow> json list \<Rightarrow> step_output res" where
  "expandBlocks state messageId turnId now projected [] = Inr EMPTY"
| "expandBlocks state messageId turnId now projected (block # blocks) =
     (let item = invocationStartedItem state messageId turnId block in
      bind_res (projectAppend projected [item] now) (\<lambda>projected'.
        case dget (pendingInvocations projected') (block_id block) of
          None \<Rightarrow> Inl (TypeError (block_id block))
        | Some invocation \<Rightarrow>
            bind_res (expandBlocks state messageId turnId now projected' blocks) (\<lambda>rest.
              Inr \<lparr> so_append = item # so_append rest,
                    so_effects = invocationEffect projected' invocation # so_effects rest \<rparr>)))"

definition expandToolCalls ::
  "agent_state \<Rightarrow> json list \<Rightarrow> string \<Rightarrow> string \<Rightarrow> step_context \<Rightarrow> step_output res" where
  "expandToolCalls state toolCalls messageId turnId ctx =
     expandBlocks state messageId turnId (ctx_now ctx) state toolCalls"

subsection \<open>Guards and the next model call\<close>

definition wakeGuardSatisfied :: "agent_state \<Rightarrow> bool" where
  "wakeGuardSatisfied state =
     (if inFlightModelCall state \<noteq> None then False
      else insertion_set (map (\<lambda>invocation. option_or (pi_attemptId invocation) [])
             (map snd (pendingInvocations state))) = [])"

fun is_tool_result :: "session_entry \<Rightarrow> bool" where
  "is_tool_result (ToolResultEntry _ _ _ _ _) = True"
| "is_tool_result (RawEntry j) = (jget j ''kind'' = JStr ''tool-result'')"
| "is_tool_result _ = False"

definition hasFreshInput :: "agent_state \<Rightarrow> bool" where
  "hasFreshInput state =
     (if steeringQueue state \<noteq> [] then True
      else entries state \<noteq> [] \<and> is_tool_result (last (entries state)))"

definition DEFAULT_MAX_MODEL_CALLS_PER_TURN :: "int option" where
  "DEFAULT_MAX_MODEL_CALLS_PER_TURN = None"

definition maxModelCallsPerTurn :: "agent_state \<Rightarrow> int option" where
  "maxModelCallsPerTurn state =
     (case jget (config state) ''maxModelCallsPerTurn'' of
        JNum n \<Rightarrow> if n \<le> 0 then DEFAULT_MAX_MODEL_CALLS_PER_TURN else Some n
      | _ \<Rightarrow> DEFAULT_MAX_MODEL_CALLS_PER_TURN)"

definition diagnosticItem :: "string \<Rightarrow> string \<Rightarrow> json \<Rightarrow> string \<Rightarrow> bool \<Rightarrow> append_item" where
  "diagnosticItem messageId content metadata turnId publish =
     \<lparr> ai_envelopeId = messageId,
       ai_payloadKind = MessageCompleted,
       ai_payload = JObj [protocol_prop, (''role'', JStr ''assistant''),
         (''blocks'', JArr [JObj [(''type'', JStr ''diagnostic''), (''content'', JStr content),
            (''metadata'', metadata)]]),
         (''outcome'', JStr ''completed'')],
       ai_causality = JObj [(''messageId'', JStr messageId), (''turnId'', JStr turnId)],
       ai_publish = publish \<rparr>"

definition budgetReachedItems :: "open_turn \<Rightarrow> int \<Rightarrow> append_item list" where
  "budgetReachedItems turn limit =
     [diagnosticItem (''diag:'' @ ot_turnId turn @ '':max-model-calls-per-turn'')
        (''Configured maxModelCallsPerTurn reached for '' @ ot_turnId turn @ '': '' @
         show_nat (ot_modelCallCount turn) @ '' model call(s) have already run, '' @
         ''and the configured limit is '' @ show_int limit @ ''.'')
        (JObj [(''code'', JStr ''max_model_calls_per_turn''), (''severity'', JStr ''error''),
           (''configKey'', JStr ''maxModelCallsPerTurn''), (''limit'', JNum limit),
           (''modelCallCount'', JNum (int (ot_modelCallCount turn))),
           (''turnId'', JStr (ot_turnId turn))])
        (ot_turnId turn) (shouldPublishTurnLifecycle (ot_metadata turn)),
      turnClosedItem (ot_turnId turn) (Some ''max_model_calls_per_turn'') None]"

definition nextModelCall :: "agent_state \<Rightarrow> nat \<Rightarrow> step_context \<Rightarrow> string list \<Rightarrow> step_output res" where
  "nextModelCall state itemsBefore ctx fresh =
     (case openTurn state of
        None \<Rightarrow> Inl (TypeError ''openTurn'')
      | Some turn \<Rightarrow>
          let startCall =
                (let (item, effect) = modelStartItems state (ot_turnId turn) (ot_modelCallCount turn) itemsBefore
                 in Inr \<lparr> so_append = [item],
                          so_effects = effect # readAckEffects state (lastSeq state + int itemsBefore)
                            fresh (ot_turnId turn) ctx \<rparr>)
          in case maxModelCallsPerTurn state of
               Some limit \<Rightarrow>
                 if int (ot_modelCallCount turn) \<ge> limit
                 then Inr (appendOnly (budgetReachedItems turn limit)) else startCall
             | None \<Rightarrow> startCall)"

text \<open>\<open>{ append: [...items, ...out.append], effects: out.effects }\<close>\<close>

definition prependItems :: "append_item list \<Rightarrow> step_output \<Rightarrow> step_output" where
  "prependItems items out = out\<lparr>so_append := items @ so_append out\<rparr>"

subsection \<open>Flush\<close>

definition interruptMarker :: "string \<Rightarrow> string \<Rightarrow> append_item" where
  "interruptMarker turnId reason =
     \<lparr> ai_envelopeId = ids_systemEvent turnId ''interrupt'' None,
       ai_payloadKind = SystemEvent,
       ai_payload = JObj [protocol_prop, (''kind'', JStr ''interrupt''),
         (''details'', JObj [(''kind'', JStr ''interrupt''), (''reason'', JStr reason)])],
       ai_causality = JObj [(''turnId'', JStr turnId)],
       ai_publish = True \<rparr>"

definition flushMarker :: "string \<Rightarrow> int \<Rightarrow> append_item" where
  "flushMarker turnId n =
     \<lparr> ai_envelopeId = ids_systemEvent turnId ''flush-steers'' (Some n),
       ai_payloadKind = SystemEvent,
       ai_payload = JObj [protocol_prop, (''kind'', JStr ''flush_steers''),
         (''details'', JObj [(''kind'', JStr ''flush_steers'')])],
       ai_causality = JObj [(''turnId'', JStr turnId)],
       ai_publish = True \<rparr>"

text \<open>Promote the head of the deferred queue into a turn of its own.\<close>

definition promoteDeferredHead :: "agent_state \<Rightarrow> step_context \<Rightarrow> deferred_prompt \<Rightarrow> step_output res" where
  "promoteDeferredHead state ctx headPrompt =
     (let recv = promotedRecvItem headPrompt (lastSeq state) in
      bind_res (projectAppend state [recv] (ctx_now ctx)) (\<lambda>afterRecv.
        promotePendingPrompt afterRecv ctx [recv]))"

definition flushSteers :: "agent_state \<Rightarrow> step_context \<Rightarrow> step_output res" where
  "flushSteers state ctx =
     (case openTurn state of
        None \<Rightarrow> promoteSteersAsTurn state ctx
      | Some turn \<Rightarrow>
          if inFlightModelCall state \<noteq> None then
            Inr (appendOnly [flushMarker (ot_turnId turn) (lastSeq state)])
          else if \<not> ot_interrupted turn \<and> wakeGuardSatisfied state then nextModelCall state 0 ctx []
          else Inr (appendOnly (interruptCleanupItems state ''user_interrupted'')))"

definition flushDeferred :: "agent_state \<Rightarrow> step_context \<Rightarrow> deferred_prompt \<Rightarrow> step_output res" where
  "flushDeferred state ctx headPrompt =
     (case openTurn state of
        Some turn \<Rightarrow>
          if inFlightModelCall state \<noteq> None
          then Inr (appendOnly [interruptMarker (ot_turnId turn) ''user_interrupted''])
          else Inr (appendOnly (interruptCleanupItems state ''user_interrupted''))
      | None \<Rightarrow> promoteDeferredHead state ctx headPrompt)"

definition flushStep :: "agent_state \<Rightarrow> step_context \<Rightarrow> step_output option res" where
  "flushStep state ctx =
     (if steeringQueue state \<noteq> [] then bind_res (flushSteers state ctx) (\<lambda>out. Inr (Some out))
      else
        case deferredPostTurnQueue state of
          headPrompt # _ \<Rightarrow> bind_res (flushDeferred state ctx headPrompt) (\<lambda>out. Inr (Some out))
        | [] \<Rightarrow> Inr None)"

subsection \<open>Commands\<close>

fun is_user_envelope :: "string \<Rightarrow> session_entry \<Rightarrow> bool" where
  "is_user_envelope eid (UserEntry _ e _ _ _ _) = (e = eid)"
| "is_user_envelope eid (RawEntry j) =
     (jget j ''kind'' = JStr ''user'' \<and> jget j ''envelopeId'' = JStr eid)"
| "is_user_envelope eid _ = False"

definition alreadyIngested :: "agent_state \<Rightarrow> string \<Rightarrow> bool" where
  "alreadyIngested state recvEnvelopeId \<longleftrightarrow>
     (case pendingPrompt state of Some p \<Rightarrow> pp_envelopeId p = recvEnvelopeId | None \<Rightarrow> False) \<or>
     (\<exists>entry \<in> set (steeringQueue state). se_envelopeId entry = recvEnvelopeId) \<or>
     (\<exists>entry \<in> set (entries state). is_user_envelope recvEnvelopeId entry)"

definition fresh_ids :: "user_command \<Rightarrow> string list" where
  "fresh_ids command = (case nonempty_opt (uc_sourceMessageId command) of Some sid \<Rightarrow> [sid] | None \<Rightarrow> [])"

definition recvIdOf :: "user_command \<Rightarrow> string" where
  "recvIdOf command = ids_recvUserMessage (uc_channelId command) (uc_sourceEnvelopeId command)"

definition steerStep :: "agent_state \<Rightarrow> user_command \<Rightarrow> step_context \<Rightarrow> step_output res" where
  "steerStep state command ctx =
     (let recv = recvItem command in
      if alreadyIngested state (ai_envelopeId recv) then Inr EMPTY
      else if deliverAfterTurn (uc_metadata command) \<and> openTurn state \<noteq> None then Inr (appendOnly [recv])
      else
        let canContinue =
          (case openTurn state of
             Some turn \<Rightarrow> \<not> ot_interrupted turn \<and> inFlightModelCall state = None
               \<and> pendingInvocations state = []
           | None \<Rightarrow> False)
        in if canContinue
           then bind_res (nextModelCall state 1 ctx (fresh_ids command)) (\<lambda>next. Inr (prependItems [recv] next))
           else Inr (appendOnly [recv]))"

definition openPromptTurn :: "agent_state \<Rightarrow> user_command \<Rightarrow> step_context \<Rightarrow> step_output" where
  "openPromptTurn state command ctx =
     (let recv = recvItem command;
          turnId = ids_turnId (uc_channelId command) (uc_sourceEnvelopeId command) (selfActorId ctx);
          opened = turnOpenedItem turnId (uc_metadata command);
          afterOpened = state\<lparr>openTurn := Some (freshTurn turnId (lastSeq state + 2) (uc_metadata command))\<rparr>;
          (item, effect) = modelStartItems afterOpened turnId 0 2;
          readAcks = readAckEffects afterOpened (lastSeq state + 2) (fresh_ids command) turnId ctx
      in \<lparr> so_append = [recv, opened, item], so_effects = effect # readAcks \<rparr>)"

definition promptStep :: "agent_state \<Rightarrow> user_command \<Rightarrow> step_context \<Rightarrow> step_output res" where
  "promptStep state command ctx =
     (if alreadyIngested state (recvIdOf command) then Inr EMPTY
      else if deliverAfterTurn (uc_metadata command) \<and> openTurn state \<noteq> None
      then Inr (appendOnly [recvItem command])
      else if openTurn state \<noteq> None then steerStep state command ctx
      else Inr (openPromptTurn state command ctx))"

definition editStep :: "agent_state \<Rightarrow> string \<Rightarrow> json \<Rightarrow> json \<Rightarrow> step_output" where
  "editStep state sid blocks by' = appendOnly
     [\<lparr> ai_envelopeId = ids_messageEdited sid (lastSeq state),
        ai_payloadKind = MessageEdited,
        ai_payload = JObj [protocol_prop, (''by'', by'), (''blocks'', blocks)],
        ai_causality = JObj [(''messageId'', JStr sid)],
        ai_publish = False \<rparr>]"

definition retractStep :: "agent_state \<Rightarrow> string \<Rightarrow> json \<Rightarrow> step_output" where
  "retractStep state sid by' = appendOnly
     [\<lparr> ai_envelopeId = ids_messageRetracted sid (lastSeq state),
        ai_payloadKind = MessageRetracted,
        ai_payload = JObj [protocol_prop, (''by'', by')],
        ai_causality = JObj [(''messageId'', JStr sid)],
        ai_publish = False \<rparr>]"

text \<open>The plain interrupt or abort of the open turn.\<close>

definition interruptTurn :: "agent_state \<Rightarrow> string \<Rightarrow> step_context \<Rightarrow> step_output res" where
  "interruptTurn state reason ctx =
     (case openTurn state of
        None \<Rightarrow> Inr EMPTY
      | Some turn \<Rightarrow>
          let marker = interruptMarker (ot_turnId turn) reason in
          if inFlightModelCall state \<noteq> None then Inr (appendOnly [marker])
          else bind_res (projectAppend state [marker] (ctx_now ctx)) (\<lambda>interrupted.
            Inr (appendOnly (marker # interruptCleanupItems interrupted reason))))"

definition interruptStep :: "agent_state \<Rightarrow> bool \<Rightarrow> step_context \<Rightarrow> step_output res" where
  "interruptStep state flush ctx =
     (if flush then
        bind_res (flushStep state ctx) (\<lambda>flushed.
          case flushed of Some out \<Rightarrow> Inr out | None \<Rightarrow> interruptTurn state ''user_interrupted'' ctx)
      else interruptTurn state ''user_interrupted'' ctx)"

definition abortStep :: "agent_state \<Rightarrow> string option \<Rightarrow> step_context \<Rightarrow> step_output res" where
  "abortStep state reason ctx = interruptTurn state (option_or reason ''work_failed'') ctx"

definition setConfigStep :: "agent_state \<Rightarrow> json \<Rightarrow> step_output" where
  "setConfigStep state patch = appendOnly
     [\<lparr> ai_envelopeId = ids_configChange (patchHash patch) (lastSeq state),
        ai_payloadKind = SystemEvent,
        ai_payload = JObj [protocol_prop, (''kind'', JStr ''config.changed''),
          (''details'', JObj [(''kind'', JStr ''config.changed''), (''patch'', patch)])],
        ai_causality = JUndefined,
        ai_publish = True \<rparr>]"

definition seq_text :: "session_entry list \<Rightarrow> string" where
  "seq_text es = (case es of [] \<Rightarrow> ''0'' | e # _ \<Rightarrow> js_String (coalesce (entry_seq e) (JNum 0)))"

definition compactStep :: "agent_state \<Rightarrow> step_output" where
  "compactStep state =
     (if entries state = [] then EMPTY
      else
        let keep = drop (length (entries state) - 8) (entries state);
            turnId = (case openTurn state of Some turn \<Rightarrow> ot_turnId turn | None \<Rightarrow> ''idle'')
        in appendOnly
          [\<lparr> ai_envelopeId = ids_compaction turnId (lastSeq state),
             ai_payloadKind = CompactionRecorded,
             ai_payload = JObj [protocol_prop,
               (''summary'', JStr (''compacted '' @ show_nat (length (entries state) - length keep) @ '' entries'')),
               (''rangeStart'', JStr (seq_text (entries state))),
               (''rangeEnd'', JStr (seq_text keep)),
               (''replacement'', JArr (map entry_to_json keep))],
             ai_causality = JUndefined,
             ai_publish = False \<rparr>])"

definition orphanItems :: "agent_state \<Rightarrow> append_item list" where
  "orphanItems state =
     (case inFlightModelCall state of
        Some call \<Rightarrow>
          [\<lparr> ai_envelopeId = ids_messageTerminal (mc_messageId call),
             ai_payloadKind = MessageFailed,
             ai_payload = JObj [protocol_prop, (''reason'', JStr ''interrupted by restart''),
               (''recoverable'', JBool True)],
             ai_causality = JObj [(''messageId'', JStr (mc_messageId call))],
             ai_publish = True \<rparr>]
      | None \<Rightarrow> [])"

fun is_assistant_entry :: "session_entry \<Rightarrow> bool" where
  "is_assistant_entry (AssistantEntry _ _ _ _ _) = True"
| "is_assistant_entry (RawEntry j) = (jget j ''kind'' = JStr ''assistant'')"
| "is_assistant_entry _ = False"

fun settles_id :: "string \<Rightarrow> session_entry \<Rightarrow> bool" where
  "settles_id i (ToolResultEntry _ j _ _ _) = (i = j)"
| "settles_id i (RawEntry j) =
     (jget j ''kind'' = JStr ''tool-result'' \<and> jget j ''invocationId'' = JStr i)"
| "settles_id i _ = False"

fun assistant_message :: "session_entry \<Rightarrow> string \<times> json list" where
  "assistant_message (AssistantEntry _ messageId _ blocks _) = (messageId, blocks)"
| "assistant_message (RawEntry j) =
     (option_or (string_opt (jget j ''messageId'')) [], array_or_empty (jget j ''blocks''))"
| "assistant_message _ = ([], [])"

definition unprocessedToolCalls :: "agent_state \<Rightarrow> string \<times> json list" where
  "unprocessedToolCalls state =
     (case find is_assistant_entry (rev (entries state)) of
        None \<Rightarrow> ([], [])
      | Some lastAssistant \<Rightarrow>
          let (messageId, blocks) = assistant_message lastAssistant in
          (messageId,
           filter (\<lambda>block. dget (pendingInvocations state) (block_id block) = None
                     \<and> \<not> list_ex (settles_id (block_id block)) (entries state))
             (filter isToolCallBlock blocks)))"

definition wakeContinue :: "agent_state \<Rightarrow> append_item list \<Rightarrow> step_context \<Rightarrow> step_output res" where
  "wakeContinue afterOrphan items ctx =
     (case openTurn afterOrphan of
        Some turn \<Rightarrow>
          if \<not> ot_interrupted turn \<and> wakeGuardSatisfied afterOrphan \<and>
             (hasFreshInput afterOrphan \<or> ot_modelCallCount turn = 0 \<or> items \<noteq> [])
          then bind_res (nextModelCall afterOrphan (length items) ctx []) (\<lambda>next.
                 Inr (prependItems items next))
          else Inr (appendOnly items)
      | None \<Rightarrow>
          if pendingPrompt afterOrphan \<noteq> None then promotePendingPrompt afterOrphan ctx items
          else Inr (appendOnly items))"

definition wakeExpand :: "agent_state \<Rightarrow> append_item list \<Rightarrow> step_context \<Rightarrow> step_output res" where
  "wakeExpand afterOrphan items ctx =
     (case openTurn afterOrphan of
        Some turn \<Rightarrow>
          (if \<not> ot_interrupted turn \<and> inFlightModelCall afterOrphan = None then
             (let (messageId, blocks) = unprocessedToolCalls afterOrphan in
              if blocks \<noteq> [] then
                bind_res (expandToolCalls afterOrphan blocks messageId (ot_turnId turn) ctx)
                  (\<lambda>expansion. Inr (prependItems items expansion))
              else wakeContinue afterOrphan items ctx)
           else wakeContinue afterOrphan items ctx)
      | None \<Rightarrow> wakeContinue afterOrphan items ctx)"

definition wakeStep :: "agent_state \<Rightarrow> step_context \<Rightarrow> step_output res" where
  "wakeStep state ctx =
     (let items = orphanItems state in
      bind_res (projectAppend state items (ctx_now ctx)) (\<lambda>afterOrphan.
        if (case openTurn afterOrphan of Some turn \<Rightarrow> ot_interrupted turn | None \<Rightarrow> False)
           \<and> inFlightModelCall afterOrphan = None
        then Inr (appendOnly (items @ interruptCleanupItems afterOrphan ''user_interrupted''))
        else wakeExpand afterOrphan items ctx))"

definition resumeMarker :: "string \<Rightarrow> string \<Rightarrow> string \<Rightarrow> int \<Rightarrow> append_item" where
  "resumeMarker turnId messageId resetAt n =
     \<lparr> ai_envelopeId = ids_systemEvent messageId ''model-limit-resume-due'' (Some n),
       ai_payloadKind = SystemEvent,
       ai_payload = JObj [protocol_prop, (''kind'', JStr ''model.limit_resume_due''),
         (''messageId'', JStr messageId), (''resetAt'', JStr resetAt),
         (''details'', JObj [(''kind'', JStr ''model.limit_resume_due''),
            (''messageId'', JStr messageId), (''resetAt'', JStr resetAt)])],
       ai_causality = JObj [(''turnId'', JStr turnId), (''messageId'', JStr messageId)],
       ai_publish = True \<rparr>"

definition resetStillAhead :: "string \<Rightarrow> string \<Rightarrow> bool" where
  "resetStillAhead resetAt now =
     (case (Date_parse resetAt, Date_parse now) of
        (Some resetAtMs, Some nowMs) \<Rightarrow> resetAtMs > nowMs + 1000
      | _ \<Rightarrow> False)"

definition resumeStep :: "agent_state \<Rightarrow> string \<Rightarrow> string \<Rightarrow> step_context \<Rightarrow> step_output res" where
  "resumeStep state messageId resetAt ctx =
     (case openTurn state of
        None \<Rightarrow> Inr EMPTY
      | Some turn \<Rightarrow>
          if ot_interrupted turn \<or> inFlightModelCall state \<noteq> None then Inr EMPTY
          else if \<not> starts_with messageId (''m:'' @ ot_turnId turn @ '':'') then Inr EMPTY
          else if resetStillAhead resetAt (ctx_now ctx) then Inr EMPTY
          else if \<not> wakeGuardSatisfied state then Inr EMPTY
          else bind_res (nextModelCall state 1 ctx []) (\<lambda>next.
                 Inr (prependItems [resumeMarker (ot_turnId turn) messageId resetAt (lastSeq state)] next)))"

fun commandStep :: "agent_state \<Rightarrow> command \<Rightarrow> step_context \<Rightarrow> step_output res" where
  "commandStep state (Prompt command) ctx = promptStep state command ctx"
| "commandStep state (Steer command) ctx = steerStep state command ctx"
| "commandStep state (Edit sid blocks by') ctx = Inr (editStep state sid blocks by')"
| "commandStep state (Retract sid by') ctx = Inr (retractStep state sid by')"
| "commandStep state (Interrupt flush) ctx = interruptStep state flush ctx"
| "commandStep state (Abort reason) ctx = abortStep state reason ctx"
| "commandStep state (SetConfig patch) ctx = Inr (setConfigStep state patch)"
| "commandStep state Compact ctx = Inr (compactStep state)"
| "commandStep state Wake ctx = wakeStep state ctx"
| "commandStep state (ResumeAfterReset messageId resetAt) ctx = resumeStep state messageId resetAt ctx"

subsection \<open>Appended events\<close>

definition eventPayload :: "log_envelope \<Rightarrow> json" where
  "eventPayload envelope = (if is_object (env_payload envelope) then env_payload envelope else JObj [])"

definition modelTerminalStep :: "agent_state \<Rightarrow> log_envelope \<Rightarrow> step_context \<Rightarrow> step_output res" where
  "modelTerminalStep state envelope ctx =
     (let payload = eventPayload envelope in
      case openTurn state of
        None \<Rightarrow> Inr EMPTY
      | Some turn \<Rightarrow>
          if string_or (jget payload ''outcome'') ''completed'' = ''interrupted'' \<or> ot_interrupted turn then
            (if ot_pendingFlush turn = Some ''steers'' \<and> \<not> ot_interrupted turn
                \<and> steeringQueue state \<noteq> [] \<and> wakeGuardSatisfied state
             then nextModelCall state 0 ctx []
             else Inr (appendOnly (interruptCleanupItems state ''user_interrupted'')))
          else
            let toolCalls = filter isToolCallBlock (array_or_empty (jget payload ''blocks'')) in
            if toolCalls \<noteq> [] then
              expandToolCalls state toolCalls (causalityId envelope ''messageId'') (ot_turnId turn) ctx
            else if steeringQueue state \<noteq> [] then nextModelCall state 0 ctx []
            else Inr (appendOnly [turnClosedItem (ot_turnId turn) None None]))"

definition turnClosedStep :: "agent_state \<Rightarrow> step_context \<Rightarrow> step_output res" where
  "turnClosedStep state ctx =
     (if openTurn state \<noteq> None then Inr EMPTY
      else if steeringQueue state \<noteq> [] then promoteSteersAsTurn state ctx
      else
        case deferredPostTurnQueue state of
          [] \<Rightarrow> Inr EMPTY
        | headPrompt # _ \<Rightarrow> promoteDeferredHead state ctx headPrompt)"

definition modelFailedStep :: "agent_state \<Rightarrow> log_envelope \<Rightarrow> step_context \<Rightarrow> step_output res" where
  "modelFailedStep state envelope ctx =
     (let payload = eventPayload envelope in
      case openTurn state of
        None \<Rightarrow> Inr EMPTY
      | Some turn \<Rightarrow>
          if ot_interrupted turn then Inr EMPTY
          else if (case string_opt (jget payload ''resetAt'') of
                     Some r \<Rightarrow> trim_string r \<noteq> [] | None \<Rightarrow> False) then
            Inr (appendOnly [turnWaitingItem (ot_turnId turn) (ot_waitingCount turn)
              ''model_usage_limit_reset'' (Some ''Waiting for model usage limit reset'')])
          else if jget payload ''recoverable'' \<noteq> JBool True then
            Inr (appendOnly [turnClosedItem (ot_turnId turn) (Some ''work_failed'') None])
          else if \<not> wakeGuardSatisfied state then Inr EMPTY
          else nextModelCall state 0 ctx [])"

definition invocationTerminalStep :: "agent_state \<Rightarrow> step_context \<Rightarrow> step_output res" where
  "invocationTerminalStep state ctx =
     (case openTurn state of
        None \<Rightarrow> Inr EMPTY
      | Some turn \<Rightarrow>
          if ot_interrupted turn then Inr EMPTY
          else if inFlightModelCall state \<noteq> None then Inr EMPTY
          else if pendingInvocations state \<noteq> [] then Inr EMPTY
          else if pendingApprovals state \<noteq> [] then Inr EMPTY
          else if pendingCredentialWaits state \<noteq> [] then Inr EMPTY
          else nextModelCall state 0 ctx [])"

definition deniedInvocationItem :: "string \<Rightarrow> pending_invocation \<Rightarrow> append_item" where
  "deniedInvocationItem invocationId invocation =
     \<lparr> ai_envelopeId = ids_invocationTerminal invocationId,
       ai_payloadKind = InvocationFailed,
       ai_payload = JObj [protocol_prop, (''reason'', JStr ''approval denied''),
         (''terminalOutcome'', JStr ''tool_error''), (''terminalReasonCode'', JStr ''approval_denied'')],
       ai_causality = JObj [(''invocationId'', JStr invocationId), (''turnId'', JStr (pi_turnId invocation))],
       ai_publish = True \<rparr>"

definition approvalResolvedStep :: "agent_state \<Rightarrow> log_envelope \<Rightarrow> step_output" where
  "approvalResolvedStep state envelope =
     (let invocationId = causalityId envelope ''invocationId'' in
      case dget (pendingInvocations state) invocationId of
        None \<Rightarrow> EMPTY
      | Some invocation \<Rightarrow>
          if jget (eventPayload envelope) ''granted'' = JBool True
          then \<lparr> so_append = [], so_effects = [invocationEffect state invocation] \<rparr>
          else appendOnly [deniedInvocationItem invocationId invocation])"

definition systemEventStep :: "agent_state \<Rightarrow> log_envelope \<Rightarrow> step_context \<Rightarrow> step_output res" where
  "systemEventStep state envelope ctx =
     (let details = eventDetails (eventPayload envelope) in
      case openTurn state of
        None \<Rightarrow> Inr EMPTY
      | Some turn \<Rightarrow>
          if jget details ''kind'' = JStr ''interrupt'' \<and> inFlightModelCall state = None then
            Inr (appendOnly (interruptCleanupItems state
              (string_or (jget details ''reason'') ''user_interrupted'')))
          else if ((jget details ''kind'' = JStr ''credential.wait_resolved''
                     \<and> jget details ''resolved'' = JBool True)
                   \<or> jget details ''kind'' = JStr ''credential.resolved'')
                  \<and> \<not> ot_interrupted turn \<and> wakeGuardSatisfied state \<and> pendingInvocations state = []
          then nextModelCall state 0 ctx []
          else Inr EMPTY)"

definition eventStep :: "agent_state \<Rightarrow> log_envelope \<Rightarrow> step_context \<Rightarrow> step_output res" where
  "eventStep state envelope ctx =
     (case env_payloadKind envelope of
        MessageCompleted \<Rightarrow>
          if jget (eventPayload envelope) ''role'' = JStr ''assistant''
          then modelTerminalStep state envelope ctx else Inr EMPTY
      | TurnClosed \<Rightarrow> turnClosedStep state ctx
      | MessageFailed \<Rightarrow> modelFailedStep state envelope ctx
      | InvocationCompleted \<Rightarrow> invocationTerminalStep state ctx
      | InvocationFailed \<Rightarrow> invocationTerminalStep state ctx
      | InvocationCancelled \<Rightarrow> invocationTerminalStep state ctx
      | InvocationAbandoned \<Rightarrow> invocationTerminalStep state ctx
      | ApprovalResolved \<Rightarrow> Inr (approvalResolvedStep state envelope)
      | SystemEvent \<Rightarrow> systemEventStep state envelope ctx
      | _ \<Rightarrow> Inr EMPTY)"

subsection \<open>Failed effects\<close>

definition workFailedItems :: "string \<Rightarrow> string \<Rightarrow> string \<Rightarrow> string \<Rightarrow> append_item list" where
  "workFailedItems messageId content code turnId =
     [diagnosticItem messageId content
        (JObj [(''code'', JStr code), (''severity'', JStr ''error'')]) turnId True,
      turnClosedItem turnId (Some ''work_failed'') None]"

definition modelCallFailed ::
  "classifier \<Rightarrow> agent_state \<Rightarrow> string \<Rightarrow> string \<Rightarrow> step_context \<Rightarrow> step_output" where
  "modelCallFailed classify state eid message ctx =
     (let request = (case inFlightModelCall state of Some call \<Rightarrow> mc_request call | None \<Rightarrow> JUndefined);
          failure = classify \<lparr> mfi_provider = jget request ''provider'', mfi_model = jget request ''model'',
            mfi_rawReason = Some message, mfi_message = Some message, mfi_now = ctx_now ctx \<rparr>;
          failed =
            (case inFlightModelCall state of
               Some call \<Rightarrow>
                 if mc_messageId call = [] then []
                 else [\<lparr> ai_envelopeId = ids_messageTerminal (mc_messageId call),
                         ai_payloadKind = MessageFailed,
                         ai_payload = modelFailurePayload failure (Some False),
                         ai_causality = JObj [(''messageId'', JStr (mc_messageId call))],
                         ai_publish = True \<rparr>]
             | None \<Rightarrow> []);
          closing =
            (case openTurn state of
               Some turn \<Rightarrow>
                 if nonempty_opt (mf_resetAt failure) \<noteq> None then []
                 else workFailedItems (''diag:'' @ ot_turnId turn @ '':'' @ eid)
                        (''Turn failed: '' @ mf_reason failure) ''work_failed'' (ot_turnId turn)
             | None \<Rightarrow> [])
      in appendOnly (failed @ closing))"

definition waitExpiredItem :: "pending_credential_wait \<Rightarrow> append_item" where
  "waitExpiredItem wait =
     \<lparr> ai_envelopeId = ids_systemEvent (cw_credKey wait) ''expired'' (Some (cw_startedAtSeq wait)),
       ai_payloadKind = SystemEvent,
       ai_payload = JObj [protocol_prop, (''kind'', JStr ''credential.wait_expired''),
         (''credKey'', JStr (cw_credKey wait)),
         (''details'', JObj [(''kind'', JStr ''credential.wait_expired''),
            (''credKey'', JStr (cw_credKey wait)), (''providerId'', JStr (cw_providerId wait))])],
       ai_causality = JObj [(''turnId'', JStr (cw_turnId wait))],
       ai_publish = True \<rparr>"

definition credentialWaitFailed :: "agent_state \<Rightarrow> string \<Rightarrow> step_output" where
  "credentialWaitFailed state eid =
     (let expired =
            (case find (\<lambda>wait. ids_credentialWaitEffect (cw_credKey wait) = eid)
                    (map snd (pendingCredentialWaits state)) of
               Some wait \<Rightarrow> [waitExpiredItem wait]
             | None \<Rightarrow> []);
          closing =
            (case openTurn state of
               Some turn \<Rightarrow> [turnClosedItem (ot_turnId turn) (Some ''work_failed'') None]
             | None \<Rightarrow> [])
      in appendOnly (expired @ closing))"

definition approvalFormFailed :: "agent_state \<Rightarrow> string \<Rightarrow> string \<Rightarrow> step_output" where
  "approvalFormFailed state approvalId message =
     (case dget (pendingApprovals state) approvalId of
        None \<Rightarrow> EMPTY
      | Some approval \<Rightarrow>
          appendOnly
            [\<lparr> ai_envelopeId = ids_approvalResolved approvalId,
               ai_payloadKind = ApprovalResolved,
               ai_payload = JObj [protocol_prop, (''granted'', JBool False),
                 (''resolvedBy'', JObj [(''kind'', JStr ''system''), (''id'', JStr ''delivery-failed'')]),
                 (''reason'', JStr (if message = [] then ''delivery-failed'' else message))],
               ai_causality = JObj [(''approvalId'', JStr approvalId),
                 (''invocationId'', JStr (pa_invocationId approval)), (''turnId'', JStr (pa_turnId approval))],
               ai_publish = True \<rparr>])"

definition unmappedEffectFailed :: "agent_state \<Rightarrow> string \<Rightarrow> step_output" where
  "unmappedEffectFailed state eid =
     appendOnly
       (case openTurn state of
          Some turn \<Rightarrow>
            workFailedItems (''diag:'' @ ot_turnId turn @ '':unknown-effect:'' @ eid)
              (''Turn failed: unmapped effect failure '' @ eid) ''unmapped_effect_failure'' (ot_turnId turn)
        | None \<Rightarrow> [])"

definition invocationDispatchFailed :: "agent_state \<Rightarrow> string \<Rightarrow> string \<Rightarrow> step_output" where
  "invocationDispatchFailed state invocationId message =
     (case dget (pendingInvocations state) invocationId of
        None \<Rightarrow> EMPTY
      | Some invocation \<Rightarrow>
          appendOnly
            [\<lparr> ai_envelopeId = ids_invocationTerminal invocationId,
               ai_payloadKind = InvocationFailed,
               ai_payload = JObj [protocol_prop, (''reason'', JStr message),
                 (''terminalOutcome'', JStr ''infrastructure_error''),
                 (''terminalReasonCode'', JStr ''dispatch_failed'')],
               ai_causality = JObj [(''invocationId'', JStr invocationId),
                 (''turnId'', JStr (pi_turnId invocation))],
               ai_publish = True \<rparr>])"

definition effectFailedStep ::
  "classifier \<Rightarrow> agent_state \<Rightarrow> string \<Rightarrow> effect_kind \<Rightarrow> string \<Rightarrow> step_context \<Rightarrow> step_output" where
  "effectFailedStep classify state eid kind message ctx =
     (if kind = KModelCall then modelCallFailed classify state eid message ctx
      else if kind = KCredentialWait then credentialWaitFailed state eid
      else if kind = KPublishEnvelope then EMPTY
      else if starts_with eid ''form:'' then approvalFormFailed state (drop 5 eid) message
      else if \<not> starts_with eid ''inv:'' then unmappedEffectFailed state eid
      else invocationDispatchFailed state (drop 4 eid) message)"

fun coreStep :: "classifier \<Rightarrow> agent_state \<Rightarrow> incoming \<Rightarrow> step_context \<Rightarrow> step_output res" where
  "coreStep classify state (CommandIn command) ctx = commandStep state command ctx"
| "coreStep classify state (EventAppended envelope) ctx = eventStep state envelope ctx"
| "coreStep classify state (EffectFailed eid kind message attempts) ctx =
     Inr (effectFailedStep classify state eid kind message ctx)"

subsection \<open>Policy composition\<close>

type_synonym intercept = "agent_state \<Rightarrow> incoming \<Rightarrow> step_context \<Rightarrow> step_output \<Rightarrow> step_output res"

record step_policy =
  pol_name :: string
  pol_intercept :: intercept
  pol_transformAppend :: "(agent_state \<Rightarrow> append_item list \<Rightarrow> append_item list) option"
  pol_filterEphemeral :: "(agent_state \<Rightarrow> json \<Rightarrow> json option) option"

definition applyPolicies ::
  "step_policy list \<Rightarrow> agent_state \<Rightarrow> incoming \<Rightarrow> step_context \<Rightarrow> step_output \<Rightarrow> step_output res" where
  "applyPolicies policies state incoming ctx output =
     fold_res (\<lambda>out policy. pol_intercept policy state incoming ctx out) output policies"

definition composeStep ::
  "classifier \<Rightarrow> step_policy list \<Rightarrow> agent_state \<Rightarrow> incoming \<Rightarrow> step_context \<Rightarrow> step_output res" where
  "composeStep classify policies state incoming ctx =
     bind_res (coreStep classify state incoming ctx) (applyPolicies policies state incoming ctx)"

end
