(* ===== verification/Projection.thy ===== *)
theory Projection
  imports Step
begin

text \<open>
  What a step's own output folds to. \<open>projectAppend\<close> folds synthetic envelopes authored by the
  agent itself; the lemmas give the folded state for each item a step builds, and show that the
  emitted effects are among the pending effects of the projected state, case by case over
  \<open>coreStep\<close>.
\<close>

subsection \<open>Projection lemmas\<close>

lemma same_identity_refl [simp]: "same_identity s s"
  by (simp add: same_identity_def)

lemma same_identity_trans: "same_identity s t \<Longrightarrow> same_identity t u \<Longrightarrow> same_identity s u"
  by (simp add: same_identity_def)

lemma projectedEnvelope_fields [simp]:
  "env_seq (projectedEnvelope st now next n item) = n"
  "env_payloadKind (projectedEnvelope st now next n item) = ai_payloadKind item"
  "env_payload (projectedEnvelope st now next n item) = ai_payload item"
  "env_causality (projectedEnvelope st now next n item) = ai_causality item"
  "env_envelopeId (projectedEnvelope st now next n item) = ai_envelopeId item"
  by (simp_all add: projectedEnvelope_def)

lemma projected_not_foreign [simp]:
  "same_identity st s \<Longrightarrow> \<not> foreignAuthor s (projectedEnvelope st now next n item)"
  by (simp add: foreignAuthor_def projectedEnvelope_def same_identity_def option_or_def split: option.split)

lemma projected_env_cong:
  "same_identity st s \<Longrightarrow> projectedEnvelope st now s n item = projectedEnvelope s now s n item"
  by (simp add: projectedEnvelope_def same_identity_def)

text \<open>One projected item, folded onto the state it extends.\<close>

definition projectOne :: "agent_state \<Rightarrow> string \<Rightarrow> append_item \<Rightarrow> agent_state res" where
  "projectOne s now item = applyEvent s (projectedEnvelope s now s (lastSeq s + 1) item)"

lemma projectOne_positioned:
  "projectOne s now item = Inr s' \<Longrightarrow> same_identity s s' \<and> lastSeq s' = lastSeq s + 1"
  unfolding projectOne_def by (drule applyEvent_positioned) (simp add: positioned_def)

lemma projectItems_eq:
  "same_identity st s \<Longrightarrow> lastSeq s = n \<Longrightarrow>
     projectItems st now s n items = fold_res (\<lambda>s item. projectOne s now item) s items"
proof (induction items arbitrary: s n)
  case Nil
  then show ?case by simp
next
  case (Cons item items)
  show ?case
  proof (cases "projectOne s now item")
    case (Inl e)
    with Cons.prems projected_env_cong [of st s] show ?thesis by (simp add: projectOne_def)
  next
    case (Inr t)
    with projectOne_positioned [OF Inr] Cons.prems Cons.IH [of t "n + 1"] projected_env_cong [of st s]
    show ?thesis by (simp add: projectOne_def same_identity_trans [of st s t])
  qed
qed

lemma projectAppend_eq: "projectAppend s items now = fold_res (\<lambda>s item. projectOne s now item) s items"
  by (simp add: projectAppend_def projectItems_eq)

lemma projectAppend_Nil [simp]: "projectAppend s [] now = Inr s"
  by (simp add: projectAppend_eq)

lemma projectAppend_Cons [simp]:
  "projectAppend s (item # items) now = bind_res (projectOne s now item) (\<lambda>s'. projectAppend s' items now)"
  by (simp add: projectAppend_eq)

lemma projectAppend_append [simp]:
  "projectAppend s (xs @ ys) now = bind_res (projectAppend s xs now) (\<lambda>s'. projectAppend s' ys now)"
  by (simp add: projectAppend_eq fold_res_append)

lemma projectAppend_positioned:
  "projectAppend s items now = Inr s' \<Longrightarrow> same_identity s s' \<and> lastSeq s' = lastSeq s + int (length items)"
proof (induction items arbitrary: s)
  case Nil
  then show ?case by simp
next
  case (Cons item items)
  then obtain t where "projectOne s now item = Inr t" and "projectAppend t items now = Inr s'" by auto
  with Cons.IH [of t] projectOne_positioned [of s now item t] show ?case
    by (auto intro: same_identity_trans)
qed

lemma projectOne_wf: "wf_state s \<Longrightarrow> projectOne s now item = Inr s' \<Longrightarrow> wf_state s'"
  unfolding projectOne_def by (rule applyEvent_wf)

interpretation project_wf: replay "\<lambda>s item. projectOne s now item" wf_state
  by unfold_locales (rule projectOne_wf)

lemma projectAppend_wf: "wf_state s \<Longrightarrow> projectAppend s items now = Inr s' \<Longrightarrow> wf_state s'"
  unfolding projectAppend_eq by (rule project_wf.replay_keeps)

text \<open>What the step's own items fold to.\<close>

definition advanced :: "agent_state \<Rightarrow> agent_state" where
  "advanced s = s\<lparr>lastSeq := lastSeq s + 1, lastHash := ''projected:'' @ show_int (lastSeq s + 1)\<rparr>"

lemma advanced_fields [simp]:
  "logId (advanced s) = logId s" "head (advanced s) = head s"
  "channelId (advanced s) = channelId s" "forkSeq (advanced s) = forkSeq s"
  "selfId (advanced s) = selfId s" "config (advanced s) = config s"
  "entries (advanced s) = entries s" "openTurn (advanced s) = openTurn s"
  "inFlightModelCall (advanced s) = inFlightModelCall s"
  "pendingInvocations (advanced s) = pendingInvocations s"
  "pendingApprovals (advanced s) = pendingApprovals s"
  "pendingCredentialWaits (advanced s) = pendingCredentialWaits s"
  "steeringQueue (advanced s) = steeringQueue s"
  "pendingPrompt (advanced s) = pendingPrompt s"
  "deferredPostTurnQueue (advanced s) = deferredPostTurnQueue s"
  "lastSeq (advanced s) = lastSeq s + 1"
  by (simp_all add: advanced_def)

lemma withAdvance_projected [simp]:
  "withAdvance s (projectedEnvelope s now s (lastSeq s + 1) item) = advanced s"
  by (simp add: withAdvance_def projectedEnvelope_def advanced_def)

lemma projected_not_foreign_advanced [simp]:
  "\<not> foreignAuthor (advanced s) (projectedEnvelope s now s n item)"
  by (rule projected_not_foreign) (simp add: same_identity_def)

lemmas project_unfold = projectOne_def applyEvent_def Let_def
  payload_reads protocol_prop_def

lemma projectOne_turnOpened:
  assumes "turnId \<noteq> []" and "\<forall>m. metadata = Some m \<longrightarrow> is_plain_object m"
  shows "projectOne s now (turnOpenedItem turnId metadata) = Inr ((advanced s)\<lparr>
     openTurn := Some (freshTurn turnId (lastSeq s + 1) metadata), pendingPrompt := None\<rparr>)"
  using assms
  by (cases metadata)
     (simp_all add: project_unfold foldTurnOpened_def turnOpenedItem_def freshTurn_def)

lemma projectOne_turnClosed:
  assumes "\<forall>turn. openTurn s = Some turn \<longrightarrow> ot_turnId turn = turnId"
  shows "projectOne s now (turnClosedItem turnId reason summary) = Inr ((advanced s)\<lparr>
     openTurn := None, inFlightModelCall := None\<rparr>)"
  using assms
  by (cases "openTurn s") (simp_all add: project_unfold foldTurnClosed_def turnClosedItem_def)

lemma projectOne_turnOpened_weak:
  "turnId \<noteq> [] \<Longrightarrow> \<exists>md. projectOne s now (turnOpenedItem turnId metadata) = Inr ((advanced s)\<lparr>
     openTurn := Some (freshTurn turnId (lastSeq s + 1) md), pendingPrompt := None\<rparr>)"
  by (cases metadata)
     (auto simp add: project_unfold foldTurnOpened_def turnOpenedItem_def freshTurn_def)

lemma modelRequest_fields [simp]:
  "jget (modelRequest st t n k) ''contextThroughSeq'' = JNum (lastSeq st + int k)"
  "jget (modelRequest st t n k) ''attemptId'' = JStr (ids_attemptId (ids_messageId t n))"
  "truthy (modelRequest st t n k)"
  by (simp_all add: modelRequest_def truthy_prop_def Let_def split: prod.split)

text \<open>The state after a \<open>message.started\<close> with this request is folded.\<close>

definition modelStarted :: "agent_state \<Rightarrow> string \<Rightarrow> nat \<Rightarrow> int \<Rightarrow> json \<Rightarrow> agent_state" where
  "modelStarted s t n c request = (advanced s)\<lparr>
     inFlightModelCall := Some \<lparr> mc_messageId = ids_messageId t n,
       mc_attemptId = JStr (ids_attemptId (ids_messageId t n)),
       mc_contextThroughSeq = JNum c, mc_request = request \<rparr>,
     openTurn := map_option (\<lambda>turn. turn\<lparr>ot_modelCallCount := ot_modelCallCount turn + 1,
       ot_pendingFlush := None\<rparr>) (openTurn s),
     steeringQueue := filter (\<lambda>entry. se_seq entry > c) (steeringQueue s)\<rparr>"

lemma projectOne_modelStart:
  "modelStartItems st t n k = (item, effect) \<Longrightarrow>
   projectOne s now item = Inr (modelStarted s t n (lastSeq st + int k) (modelRequest st t n k))"
  by (auto simp: project_unfold foldMessageStarted_def modelStartItems_def modelStarted_def)

lemma modelStart_effect_derivable:
  assumes "modelStartItems st t n k = (item, effect)" and "channelId s = channelId st"
    and "openTurn s = Some turn" and "ot_turnId turn = t"
  shows "effect \<in> set (derivePendingEffects (modelStarted s t n c (modelRequest st t n k)))"
  using assms
  by (auto simp: modelStartItems_def Let_def modelStarted_def derivePendingEffects_def
      modelCallEffect_def mk_base_def)

subsection \<open>Emitted effects are derivable\<close>

definition derivable_from :: "agent_state \<Rightarrow> string \<Rightarrow> step_output \<Rightarrow> bool" where
  "derivable_from s now out \<longleftrightarrow>
     (\<exists>s'. projectAppend s (so_append out) now = Inr s' \<and>
        (\<forall>d \<in> set (so_effects out). effectKind d \<noteq> KPublishEnvelope \<longrightarrow>
           effectId d \<in> set (map effectId (derivePendingEffects s'))))"

text \<open>Items whose fold cannot throw.\<close>

definition safe_item :: "append_item \<Rightarrow> bool" where
  "safe_item item \<longleftrightarrow> ai_payloadKind item \<notin> {MessageDelta, MessageStarted, InvocationStarted}"

lemma safe_item_literal [simp]:
  "safe_item \<lparr> ai_envelopeId = a, ai_payloadKind = k, ai_payload = b, ai_causality = c, ai_publish = p \<rparr> \<longleftrightarrow>
     k \<notin> {MessageDelta, MessageStarted, InvocationStarted}"
  by (simp add: safe_item_def)

lemma projectOne_safe: "safe_item item \<Longrightarrow> \<exists>s'. projectOne s now item = Inr s'"
  unfolding projectOne_def safe_item_def
  by (cases "ai_payloadKind item") (simp_all add: applyEvent_def Let_def)

lemma projectAppend_safe: "list_all safe_item items \<Longrightarrow> \<exists>s'. projectAppend s items now = Inr s'"
proof (induction items arbitrary: s)
  case Nil
  then show ?case by simp
next
  case (Cons item items)
  then obtain t where "projectOne s now item = Inr t" using projectOne_safe [of item s now] by auto
  with Cons show ?case by auto
qed

lemma derivable_appendOnly [simp]: "list_all safe_item items \<Longrightarrow> derivable_from s now (appendOnly items)"
  using projectAppend_safe by (simp add: derivable_from_def appendOnly_def)

lemma derivable_EMPTY [simp]: "derivable_from s now EMPTY"
  by (simp add: derivable_from_def EMPTY_def)

lemma derivable_prepend:
  "projectAppend s items now = Inr s1 \<Longrightarrow> derivable_from s now (prependItems items out) = derivable_from s1 now out"
  by (simp add: derivable_from_def prependItems_def)

lemma safe_items [simp]:
  "safe_item (turnClosedItem t ro m)" "safe_item (turnOpenedItem t md)" "safe_item (turnWaitingItem t k r m)"
  "safe_item (recvItem c)" "safe_item (promotedRecvItem h n)" "safe_item (cancelInvocationItem r i)"
  "safe_item (denyApprovalItem v r a)" "safe_item (cancelWaitItem r w)"
  "safe_item (diagnosticItem t r j v p)" "safe_item (interruptMarker t r)" "safe_item (flushMarker t n)"
  "safe_item (resumeMarker t r v n)" "safe_item (deniedInvocationItem t i)" "safe_item (waitExpiredItem w)"
  by (simp_all add: safe_item_def turnClosedItem_def turnOpenedItem_def turnWaitingItem_def recvItem_def
      promotedRecvItem_def cancelInvocationItem_def denyApprovalItem_def cancelWaitItem_def
      diagnosticItem_def interruptMarker_def flushMarker_def resumeMarker_def deniedInvocationItem_def
      waitExpiredItem_def Let_def)

lemma safe_item_lists [simp]:
  "list_all safe_item (interruptCleanupItems s r)" "list_all safe_item (budgetReachedItems t n)"
  "list_all safe_item (orphanItems s)" "list_all safe_item (workFailedItems a b c d)"
proof -
  show "list_all safe_item (interruptCleanupItems s r)"
    by (auto simp: interruptCleanupItems_def list_all_iff split: option.split)
  show "list_all safe_item (orphanItems s)"
    by (auto simp: orphanItems_def safe_item_def split: option.split)
qed (simp_all add: budgetReachedItems_def workFailedItems_def)

lemma readAcks_publish: "d \<in> set (readAckEffects s c fresh t ctx) \<Longrightarrow> effectKind d = KPublishEnvelope"
  by (auto simp: readAckEffects_def readAckEffect_def Let_def)

text \<open>A batch of safe items, then the start of a model call on the turn that is then open.\<close>

lemma derivable_model_start:
  assumes "modelStartItems st t n k = (item, effect)"
    and "projectAppend s pre now = Inr s1" and "channelId s1 = channelId st"
    and "openTurn s1 = Some turn" and "ot_turnId turn = t"
  shows "derivable_from s now \<lparr> so_append = pre @ [item], so_effects = effect # readAckEffects a b c d e \<rparr>"
proof -
  have "effect \<in> set (derivePendingEffects (modelStarted s1 t n (lastSeq st + int k) (modelRequest st t n k)))"
    using assms by (intro modelStart_effect_derivable)
  then show ?thesis
    using assms(2) projectOne_modelStart [OF assms(1)] readAcks_publish [of _ a b c d e]
    by (auto simp: derivable_from_def)
qed

lemma openTurn_foldMessageCompleted: "openTurn (foldMessageCompleted s e) = openTurn s"
  by (simp add: foldMessageCompleted_def foldAssistantCompleted_def foldUserCompleted_def Let_def
      split: option.split)

lemma openTurn_projected_message:
  "projectOne s now item = Inr s' \<Longrightarrow> ai_payloadKind item = MessageCompleted \<Longrightarrow> openTurn s' = openTurn s"
  by (auto simp: projectOne_def openTurn_foldMessageCompleted)

lemma recv_kind [simp]:
  "ai_payloadKind (recvItem c) = MessageCompleted" "ai_payloadKind (promotedRecvItem h n) = MessageCompleted"
  by (simp_all add: recvItem_def promotedRecvItem_def Let_def)

lemma projectOne_resumeMarker:
  "projectOne s now (resumeMarker t m r n) = Inr (advanced s)"
  by (simp add: project_unfold resumeMarker_def foldSystemEvent_def detailKindOf_def eventDetails_def)

lemma project_orphans:
  "projectAppend s (orphanItems s) now = Inr s1 \<Longrightarrow>
     openTurn s1 = openTurn s \<and> inFlightModelCall s1 = None \<and> same_identity s s1 \<and>
     pendingInvocations s1 = pendingInvocations s \<and> entries s1 = entries s \<and> config s1 = config s"
  by (auto simp: orphanItems_def project_unfold foldMessageFailed_def same_identity_def split: option.splits)

lemma derivable_nextModelCall:
  assumes "nextModelCall st k ctx fresh = Inr out"
    and "channelId s = channelId st" and "openTurn s = openTurn st"
  shows "derivable_from s now out"
proof -
  obtain turn where t: "openTurn st = Some turn"
    using assms(1) by (cases "openTurn st") (auto simp: nextModelCall_def)
  obtain item effect where m: "modelStartItems st (ot_turnId turn) (ot_modelCallCount turn) k = (item, effect)"
    by (meson surj_pair)
  have "derivable_from s now \<lparr> so_append = [] @ [item], so_effects = effect # readAckEffects a b c d e \<rparr>" for a b c d e
    by (rule derivable_model_start [OF m]) (use assms t in simp_all)
  then show ?thesis
    using assms(1) t m by (auto simp: nextModelCall_def Let_def split: option.splits if_splits)
qed

lemma derivable_opened_start:
  assumes "modelStartItems st t n k = (item, effect)" and "t \<noteq> []"
    and "projectAppend s pre now = Inr s1" and "channelId s1 = channelId st"
  shows "derivable_from s now \<lparr> so_append = pre @ [turnOpenedItem t md, item],
     so_effects = effect # readAckEffects a b c d e \<rparr>"
proof -
  obtain md' where "projectOne s1 now (turnOpenedItem t md) = Inr ((advanced s1)\<lparr>
     openTurn := Some (freshTurn t (lastSeq s1 + 1) md'), pendingPrompt := None\<rparr>)" (is "_ = Inr ?s2")
    using projectOne_turnOpened_weak [OF assms(2)] by blast
  with assms(3) have p: "projectAppend s (pre @ [turnOpenedItem t md]) now = Inr ?s2" by simp
  show ?thesis
    using derivable_model_start [OF assms(1) p, of "freshTurn t (lastSeq s1 + 1) md'"] assms(4)
    by (simp add: freshTurn_def)
qed

lemma derivable_promotePendingPrompt:
  assumes "promotePendingPrompt st ctx pre = Inr out" and "projectAppend s pre now = Inr st"
  shows "derivable_from s now out"
  using assms(1)
  by (auto simp: promotePendingPrompt_def Let_def split: option.splits prod.splits
      intro!: derivable_opened_start [OF _ _ assms(2)])

lemma derivable_promoteSteers:
  "promoteSteersAsTurn s ctx = Inr out \<Longrightarrow> derivable_from s now out"
  by (auto simp: promoteSteersAsTurn_def Let_def split: list.splits prod.splits
      intro!: derivable_opened_start [where pre = "[]", simplified])

lemma derivable_promoteDeferred:
  "promoteDeferredHead s ctx h = Inr out \<Longrightarrow> derivable_from s (ctx_now ctx) out"
  by (auto simp: promoteDeferredHead_def Let_def intro!: derivable_promotePendingPrompt)

lemma derivable_openPromptTurn: "derivable_from s now (openPromptTurn s c ctx)"
proof -
  obtain s1 where r: "projectOne s now (recvItem c) = Inr s1" using projectOne_safe by force
  then have "projectAppend s [recvItem c] now = Inr s1" and "channelId s1 = channelId s"
    using projectOne_positioned [OF r] by (simp_all add: same_identity_def)
  then show ?thesis
    by (auto simp: openPromptTurn_def Let_def split: prod.splits
        intro!: derivable_opened_start [where pre = "[recvItem c]", simplified])
qed

text \<open>Tool-call expansion: every started invocation stays pending and ungated.\<close>

definition startable :: "agent_state \<Rightarrow> string \<Rightarrow> bool" where
  "startable s k \<longleftrightarrow> (\<exists>i. dget (pendingInvocations s) k = Some i \<and> \<not> gated i)"

lemma startable_derivable:
  "wf_state s \<Longrightarrow> startable s k \<Longrightarrow> ids_invocationEffect k \<in> set (map effectId (derivePendingEffects s))"
  by (force simp: pending_effect_ids startable_def undispatched_def dest: map_of_SomeD split: option.split)

lemma projectOne_invocationStarted:
  assumes "projectOne s now (invocationStartedItem st m t b) = Inr s'" and "block_id b \<noteq> []"
  shows "startable s' (block_id b)" and "startable s k \<Longrightarrow> startable s' k"
    and "openTurn s' = openTurn s"
  using assms
  by (auto simp: project_unfold invocationStartedItem_def foldInvocationStarted_def startable_def gated_def
      split: if_splits)

lemma expandBlocks_nonempty_ids:
  assumes "wf_state p" and "expandBlocks st m t now p blocks = Inr out"
  shows "\<forall>b \<in> set blocks. block_id b \<noteq> []"
  using assms
proof (induction blocks arbitrary: p out)
  case Nil
  then show ?case by simp
next
  case (Cons b blocks)
  then obtain q i r where q: "projectAppend p [invocationStartedItem st m t b] now = Inr q"
    and i: "dget (pendingInvocations q) (block_id b) = Some i"
    and r: "expandBlocks st m t now q blocks = Inr r"
    by (auto simp: Let_def split: option.splits)
  have w: "wf_state q" by (rule projectAppend_wf [OF Cons.prems(1) q])
  then have "block_id b \<noteq> []" using keyed_dgetD [OF wf_stateD(1) i] by simp
  with Cons.IH [OF w r] show ?case by simp
qed

lemma expandBlocks_startable:
  assumes "wf_state p" and "expandBlocks st m t now p blocks = Inr out"
  shows "\<exists>p'. projectAppend p (so_append out) now = Inr p' \<and> wf_state p' \<and>
     (\<forall>k. k \<in> block_id ` set blocks \<or> startable p k \<longrightarrow> startable p' k) \<and>
     map effectId (so_effects out) = map (ids_invocationEffect \<circ> block_id) blocks"
  using assms
proof (induction blocks arbitrary: p out)
  case Nil
  then show ?case by (auto simp: EMPTY_def)
next
  case (Cons b blocks)
  let ?item = "invocationStartedItem st m t b"
  obtain q i r where q: "projectOne p now ?item = Inr q"
    and i: "dget (pendingInvocations q) (block_id b) = Some i"
    and r: "expandBlocks st m t now q blocks = Inr r"
    and out: "out = \<lparr> so_append = ?item # so_append r, so_effects = invocationEffect q i # so_effects r \<rparr>"
    using Cons.prems(2) by (auto simp: Let_def split: option.splits)
  have w: "wf_state q" by (rule projectOne_wf [OF Cons.prems(1) q])
  have b: "block_id b \<noteq> []" "pi_invocationId i = block_id b"
    using keyed_dgetD [OF wf_stateD(1) [OF w] i] by simp_all
  note st = projectOne_invocationStarted [OF q b(1)]
  from Cons.IH [OF w r] obtain p' where "projectAppend q (so_append r) now = Inr p'" and "wf_state p'"
    and "\<forall>k. k \<in> block_id ` set blocks \<or> startable q k \<longrightarrow> startable p' k"
    and "map effectId (so_effects r) = map (ids_invocationEffect \<circ> block_id) blocks" by blast
  with q out b st show ?case by auto
qed

lemma derivable_expandToolCalls:
  assumes "wf_state s" and "expandToolCalls s blocks m t ctx = Inr out"
  shows "derivable_from s (ctx_now ctx) out"
proof -
  from expandBlocks_startable [OF assms(1)] assms(2) obtain p' where
    p: "projectAppend s (so_append out) (ctx_now ctx) = Inr p'" "wf_state p'"
      "\<forall>k. k \<in> block_id ` set blocks \<or> startable s k \<longrightarrow> startable p' k"
      "map effectId (so_effects out) = map (ids_invocationEffect \<circ> block_id) blocks"
    unfolding expandToolCalls_def by blast
  have "\<forall>x \<in> set (map effectId (so_effects out)). x \<in> set (map effectId (derivePendingEffects p'))"
    unfolding p(4) using startable_derivable [OF p(2)] p(3) by auto
  then show ?thesis using p(1) by (auto simp: derivable_from_def)
qed

text \<open>A granted approval must have been granted in the folded state.\<close>

fun grant_folded :: "agent_state \<Rightarrow> incoming \<Rightarrow> bool" where
  "grant_folded s (EventAppended e) =
     (env_payloadKind e = ApprovalResolved \<and> jget (eventPayload e) ''granted'' = JBool True \<longrightarrow>
        (\<forall>i. dget (pendingInvocations s) (causalityId e ''invocationId'') = Some i \<longrightarrow> \<not> gated i))"
| "grant_folded s _ = True"

lemma derivable_wakeContinue:
  assumes "wakeContinue s1 items ctx = Inr out" and "projectAppend s items (ctx_now ctx) = Inr s1"
    and "list_all safe_item items"
  shows "derivable_from s (ctx_now ctx) out"
  using assms
  by (auto simp: wakeContinue_def derivable_prepend split: option.splits if_splits
      intro: derivable_promotePendingPrompt derivable_nextModelCall)

lemma derivable_wake:
  assumes "wf_state s" and "wakeStep s ctx = Inr out"
  shows "derivable_from s (ctx_now ctx) out"
proof -
  obtain s1 where s1: "projectAppend s (orphanItems s) (ctx_now ctx) = Inr s1"
    using projectAppend_safe [OF safe_item_lists(3)] by blast
  have w: "wf_state s1" by (rule projectAppend_wf [OF assms(1) s1])
  have e: "derivable_from s (ctx_now ctx) out" if "wakeExpand s1 (orphanItems s) ctx = Inr out"
    using that derivable_wakeContinue [OF _ s1] derivable_expandToolCalls [OF w]
    by (auto simp: wakeExpand_def derivable_prepend [OF s1] split: option.splits if_splits prod.splits)
  from assms(2) s1 show ?thesis
    by (auto simp: wakeStep_def Let_def intro: e split: if_splits)
qed

lemma derivable_steer:
  assumes "steerStep s c ctx = Inr out"
  shows "derivable_from s (ctx_now ctx) out"
proof -
  obtain s1 where r: "projectAppend s [recvItem c] (ctx_now ctx) = Inr s1"
    using projectAppend_safe [of "[recvItem c]"] by auto
  then have "channelId s1 = channelId s" "openTurn s1 = openTurn s"
    using projectOne_positioned [of s _ _ s1] openTurn_projected_message [of s _ _ s1]
    by (auto simp: same_identity_def)
  with assms show ?thesis
    by (auto simp: steerStep_def Let_def derivable_prepend [OF r] split: if_splits
        intro: derivable_nextModelCall)
qed

lemma derivable_prompt:
  "promptStep s c ctx = Inr out \<Longrightarrow> derivable_from s (ctx_now ctx) out"
  by (auto simp: promptStep_def derivable_openPromptTurn split: if_splits intro: derivable_steer)

lemma derivable_interruptTurn:
  "interruptTurn s r ctx = Inr out \<Longrightarrow> derivable_from s (ctx_now ctx) out"
  by (auto simp: interruptTurn_def Let_def split: option.splits if_splits)

lemma derivable_flushStep:
  "flushStep s ctx = Inr (Some out) \<Longrightarrow> derivable_from s (ctx_now ctx) out"
  by (auto simp: flushStep_def flushSteers_def flushDeferred_def split: if_splits list.splits option.splits
      intro: derivable_promoteSteers derivable_nextModelCall derivable_promoteDeferred)

lemma derivable_interrupt:
  "interruptStep s f ctx = Inr out \<Longrightarrow> derivable_from s (ctx_now ctx) out"
  by (auto simp: interruptStep_def split: if_splits option.splits
      intro: derivable_interruptTurn derivable_flushStep)

lemma derivable_resume:
  assumes "resumeStep s m r ctx = Inr out"
  shows "derivable_from s (ctx_now ctx) out"
proof -
  have "projectAppend s [resumeMarker t m r n] (ctx_now ctx) = Inr (advanced s)" for t n
    by (simp add: projectOne_resumeMarker)
  moreover have "nextModelCall s 1 ctx [] = Inr next \<Longrightarrow> derivable_from (advanced s) (ctx_now ctx) next" for "next"
    by (rule derivable_nextModelCall) simp_all
  ultimately show ?thesis using assms
    by (auto simp: resumeStep_def derivable_prepend split: option.splits if_splits)
qed

lemma derivable_commandStep:
  assumes "wf_state s" and "commandStep s c ctx = Inr out"
  shows "derivable_from s (ctx_now ctx) out"
proof (cases c)
  case Compact
  with assms show ?thesis by (auto simp: compactStep_def Let_def safe_item_def)
qed (use assms in \<open>auto simp: editStep_def retractStep_def setConfigStep_def abortStep_def safe_item_def
      intro: derivable_prompt derivable_steer derivable_interrupt derivable_interruptTurn derivable_wake
        derivable_resume\<close>)

lemma derivable_approvalResolved:
  assumes "wf_state s" and "grant_folded s (EventAppended e)" and "env_payloadKind e = ApprovalResolved"
  shows "derivable_from s now (approvalResolvedStep s e)"
proof (cases "dget (pendingInvocations s) (causalityId e ''invocationId'')")
  case None
  then show ?thesis by (simp add: approvalResolvedStep_def)
next
  case (Some i)
  show ?thesis
  proof (cases "jget (eventPayload e) ''granted'' = JBool True")
    case True
    with Some assms have "startable s (causalityId e ''invocationId'')" by (simp add: startable_def)
    moreover have "pi_invocationId i = causalityId e ''invocationId''"
      using keyed_dgetD [OF wf_stateD(1) [OF assms(1)] Some] by simp
    ultimately show ?thesis
      using startable_derivable [OF assms(1)] Some True
      by (simp add: approvalResolvedStep_def derivable_from_def Let_def)
  next
    case False
    with Some show ?thesis by (simp add: approvalResolvedStep_def Let_def)
  qed
qed

lemma derivable_eventStep:
  assumes "wf_state s" and "grant_folded s (EventAppended e)" and "eventStep s e ctx = Inr out"
  shows "derivable_from s (ctx_now ctx) out"
proof -
  note i = derivable_nextModelCall derivable_expandToolCalls [OF assms(1)] derivable_promoteSteers
    derivable_promoteDeferred
  have "modelTerminalStep s e ctx = Inr out \<Longrightarrow> ?thesis"
    by (auto simp: modelTerminalStep_def Let_def split: option.splits if_splits intro: i)
  moreover have "turnClosedStep s ctx = Inr out \<Longrightarrow> ?thesis"
    by (auto simp: turnClosedStep_def split: list.splits if_splits intro: i)
  moreover have "modelFailedStep s e ctx = Inr out \<Longrightarrow> ?thesis"
    by (auto simp: modelFailedStep_def Let_def split: option.splits if_splits intro: i)
  moreover have "invocationTerminalStep s ctx = Inr out \<Longrightarrow> ?thesis"
    by (auto simp: invocationTerminalStep_def split: option.splits if_splits intro: i)
  moreover have "systemEventStep s e ctx = Inr out \<Longrightarrow> ?thesis"
    by (auto simp: systemEventStep_def Let_def split: option.splits if_splits intro: i)
  ultimately show ?thesis
    using assms derivable_approvalResolved [OF assms(1,2)]
    by (cases "env_payloadKind e") (auto simp: eventStep_def split: if_splits)
qed

lemma derivable_failed_cases:
  "derivable_from s now (modelCallFailed classify s eid m ctx)"
  "derivable_from s now (credentialWaitFailed s eid)"
  "derivable_from s now (approvalFormFailed s eid m)"
  "derivable_from s now (unmappedEffectFailed s eid)"
  "derivable_from s now (invocationDispatchFailed s eid m)"
  unfolding modelCallFailed_def credentialWaitFailed_def approvalFormFailed_def
      unmappedEffectFailed_def invocationDispatchFailed_def Let_def
  by (simp_all split: option.split)

lemma derivable_effectFailed: "derivable_from s now (effectFailedStep classify s eid kind m ctx)"
  by (simp add: effectFailedStep_def derivable_failed_cases)

lemma coreStep_derivable:
  assumes "wf_state s" and "grant_folded s incoming" and "coreStep classify s incoming ctx = Inr out"
  shows "derivable_from s (ctx_now ctx) out"
  using assms derivable_eventStep [OF assms(1)]
  by (cases incoming)
     (auto simp del: grant_folded.simps(1) intro: derivable_commandStep derivable_effectFailed)


definition sample_prompt :: user_command where
  "sample_prompt = \<lparr> uc_channelId = ''ch'', uc_sourceEnvelopeId = ''x1'', uc_sourceMessageId = Some ''m7'',
     uc_content = JStr ''hello'', uc_senderRef = sample_user, uc_agentHops = None, uc_metadata = None \<rparr>"

definition sample_ctx :: step_context where
  "sample_ctx = \<lparr> ctx_now = ''2026-05-20T12:00:00.000Z'', ctx_selfRef = sample_ref \<rparr>"

definition sample_classify :: classifier where
  "sample_classify i = \<lparr> mf_code = ''unknown_retryable'', mf_reason = ''failed'', mf_recoverable = True,
     mf_retryAfterMs = None, mf_resetAt = None \<rparr>"

lemma sample_prompt_step:
  "coreStep classify (initialAgentState sample_input) (CommandIn (Prompt sample_prompt)) sample_ctx
     = Inr (openPromptTurn (initialAgentState sample_input) sample_prompt sample_ctx)"
  by (simp add: promptStep_def alreadyIngested_def initialAgentState_def Let_def)


end
