(* ===== verification/StepSafety.thy ===== *)
theory StepSafety
  imports Projection
begin

text \<open>
  Safety of the step function: interrupt cleanup settles everything that is pending, the step never
  throws, and a model call starts within an open turn only when that turn may make it.
\<close>

subsection \<open>Interrupt cleanup\<close>

lemma ddel_head [simp]: "k \<notin> fst ` set d \<Longrightarrow> ddel k ((k, v) # d) = d"
  by (simp add: delete_idem)

lemma keyed_Cons: "keyed f ok ((k, v) # d) \<longleftrightarrow> f v = k \<and> ok k \<and> k \<notin> fst ` set d \<and> keyed f ok d"
  by (auto simp: keyed_def)

lemma projectOne_cancelInvocation:
  assumes "dget (pendingInvocations s) (pi_invocationId i) = Some i"
  shows "projectOne s now (cancelInvocationItem reason i) = Inr ((advanced s)\<lparr>
     pendingInvocations := ddel (pi_invocationId i) (pendingInvocations s),
     entries := entries s @ [ToolResultEntry (lastSeq s + 1) (pi_invocationId i) (pi_name i) (JStr reason) True]\<rparr>)"
  using assms by (simp add: project_unfold cancelInvocationItem_def foldInvocationTerminal_def)

lemma projectOne_denyApproval:
  assumes "dget (pendingApprovals s) (pa_approvalId a) = Some a"
  shows "projectOne s now (denyApprovalItem v reason a) = Inr ((advanced s)\<lparr>
     pendingApprovals := ddel (pa_approvalId a) (pendingApprovals s)\<rparr>)"
  using assms by (simp add: project_unfold denyApprovalItem_def foldApprovalResolved_def split: option.split)

lemma projectOne_cancelWait:
  assumes "dget (pendingCredentialWaits s) (cw_credKey w) = Some w"
  shows "projectOne s now (cancelWaitItem reason w) = Inr ((advanced s)\<lparr>
     pendingCredentialWaits := ddel (cw_credKey w) (pendingCredentialWaits s)\<rparr>)"
  using assms
  by (simp add: project_unfold cancelWaitItem_def foldSystemEvent_def foldCredentialWaitSettled_def
      detailKindOf_def eventDetails_def payloadOrDetail_def)

text \<open>The transcript results that cancelling a list of invocations leaves, from a position on.\<close>

fun cancelled_results :: "int \<Rightarrow> string \<Rightarrow> pending_invocation list \<Rightarrow> session_entry list" where
  "cancelled_results n reason [] = []"
| "cancelled_results n reason (i # invs) =
     ToolResultEntry (n + 1) (pi_invocationId i) (pi_name i) (JStr reason) True
     # cancelled_results (n + 1) reason invs"

text \<open>The fields the three cleanup passes leave alone.\<close>

definition same_rest :: "agent_state \<Rightarrow> agent_state \<Rightarrow> bool" where
  "same_rest s s' \<longleftrightarrow> openTurn s' = openTurn s \<and> inFlightModelCall s' = inFlightModelCall s \<and>
     steeringQueue s' = steeringQueue s \<and> deferredPostTurnQueue s' = deferredPostTurnQueue s \<and>
     pendingPrompt s' = pendingPrompt s \<and> config s' = config s"

lemma project_cancel_all:
  assumes "pendingInvocations s = d" and "keyed pi_invocationId ok d"
  shows "\<exists>s'. projectAppend s (map (cancelInvocationItem reason) (map snd d)) now = Inr s' \<and>
     pendingInvocations s' = [] \<and> entries s' = entries s @ cancelled_results (lastSeq s) reason (map snd d) \<and>
     pendingApprovals s' = pendingApprovals s \<and> pendingCredentialWaits s' = pendingCredentialWaits s \<and>
     same_rest s s'"
  using assms
proof (induction d arbitrary: s)
  case Nil
  then show ?case by (simp add: same_rest_def)
next
  case (Cons p d)
  obtain k i where p: "p = (k, i)" by (cases p)
  with Cons.prems have k: "pi_invocationId i = k" "k \<notin> fst ` set d" "keyed pi_invocationId ok d"
    by (simp_all add: keyed_Cons)
  let ?t = "(advanced s)\<lparr>pendingInvocations := d,
     entries := entries s @ [ToolResultEntry (lastSeq s + 1) (pi_invocationId i) (pi_name i) (JStr reason) True]\<rparr>"
  have "projectOne s now (cancelInvocationItem reason i) = Inr ?t"
    using projectOne_cancelInvocation [of s i] Cons.prems(1) k p by simp
  with Cons.IH [of ?t] k(3) p show ?case by (auto simp: same_rest_def)
qed

lemma project_deny_all:
  assumes "pendingApprovals s = d" and "keyed pa_approvalId ok d" and "pendingInvocations s = []"
  shows "\<exists>s'. projectAppend s (map (denyApprovalItem v reason) (map snd d)) now = Inr s' \<and>
     pendingApprovals s' = [] \<and> pendingInvocations s' = [] \<and> entries s' = entries s \<and>
     pendingCredentialWaits s' = pendingCredentialWaits s \<and> same_rest s s'"
  using assms
proof (induction d arbitrary: s)
  case Nil
  then show ?case by (simp add: same_rest_def)
next
  case (Cons p d)
  obtain k a where p: "p = (k, a)" by (cases p)
  with Cons.prems have k: "pa_approvalId a = k" "k \<notin> fst ` set d" "keyed pa_approvalId ok d"
    by (simp_all add: keyed_Cons)
  let ?t = "(advanced s)\<lparr>pendingApprovals := d\<rparr>"
  have "projectOne s now (denyApprovalItem v reason a) = Inr ?t"
    using projectOne_denyApproval [of s a] Cons.prems(1) k p by simp
  with Cons.IH [of ?t] k(3) p Cons.prems(3) show ?case by (auto simp: same_rest_def)
qed

lemma project_cancel_waits:
  assumes "pendingCredentialWaits s = d" and "keyed cw_credKey ok d"
  shows "\<exists>s'. projectAppend s (map (cancelWaitItem reason) (map snd d)) now = Inr s' \<and>
     pendingCredentialWaits s' = [] \<and> pendingInvocations s' = pendingInvocations s \<and>
     pendingApprovals s' = pendingApprovals s \<and> entries s' = entries s \<and> same_rest s s'"
  using assms
proof (induction d arbitrary: s)
  case Nil
  then show ?case by (simp add: same_rest_def)
next
  case (Cons p d)
  obtain k w where p: "p = (k, w)" by (cases p)
  with Cons.prems have k: "cw_credKey w = k" "k \<notin> fst ` set d" "keyed cw_credKey ok d"
    by (simp_all add: keyed_Cons)
  let ?t = "(advanced s)\<lparr>pendingCredentialWaits := d\<rparr>"
  have "projectOne s now (cancelWaitItem reason w) = Inr ?t"
    using projectOne_cancelWait [of s w] Cons.prems(1) k p by simp
  with Cons.IH [of ?t] k(3) p show ?case by (auto simp: same_rest_def)
qed

lemma cleanup_projects:
  assumes "wf_state s"
  shows "\<exists>s'. projectAppend s (interruptCleanupItems s reason) now = Inr s' \<and>
     pendingInvocations s' = [] \<and> pendingApprovals s' = [] \<and> pendingCredentialWaits s' = [] \<and>
     openTurn s' = None \<and>
     inFlightModelCall s' = (if openTurn s = None then inFlightModelCall s else None) \<and>
     entries s' = entries s @ cancelled_results (lastSeq s) reason (map snd (pendingInvocations s)) \<and>
     steeringQueue s' = steeringQueue s \<and> deferredPostTurnQueue s' = deferredPostTurnQueue s \<and>
     pendingPrompt s' = pendingPrompt s \<and> config s' = config s"
proof -
  obtain s1 where 1: "projectAppend s (map (cancelInvocationItem reason) (map snd (pendingInvocations s))) now = Inr s1"
    "pendingInvocations s1 = []" "pendingApprovals s1 = pendingApprovals s"
    "pendingCredentialWaits s1 = pendingCredentialWaits s" "same_rest s s1"
    "entries s1 = entries s @ cancelled_results (lastSeq s) reason (map snd (pendingInvocations s))"
    using project_cancel_all [OF refl wf_stateD(1) [OF assms]] by metis
  obtain s2 where 2: "projectAppend s1 (map (denyApprovalItem ''agent-loop'' reason) (map snd (pendingApprovals s))) now = Inr s2"
    "pendingApprovals s2 = []" "pendingInvocations s2 = []" "entries s2 = entries s1"
    "pendingCredentialWaits s2 = pendingCredentialWaits s" "same_rest s1 s2"
    using project_deny_all [OF 1(3) wf_stateD(2) [OF assms] 1(2)] 1(4) by metis
  obtain s3 where 3: "projectAppend s2 (map (cancelWaitItem reason) (map snd (pendingCredentialWaits s))) now = Inr s3"
    "pendingCredentialWaits s3 = []" "pendingInvocations s3 = []" "pendingApprovals s3 = []"
    "entries s3 = entries s2" "same_rest s2 s3"
    using project_cancel_waits [OF 2(5) wf_stateD(3) [OF assms]] 2(2,3) by metis
  show ?thesis
    using 1 2 3
    by (cases "openTurn s") (simp_all add: interruptCleanupItems_def projectOne_turnClosed same_rest_def)
qed

lemma no_pending_effects:
  "inFlightModelCall s = None \<Longrightarrow> pendingInvocations s = [] \<Longrightarrow> pendingApprovals s = [] \<Longrightarrow>
     pendingCredentialWaits s = [] \<Longrightarrow> derivePendingEffects s = []"
  by (simp add: derivePendingEffects_def)

lemma projectOne_interruptMarker:
  "openTurn s = Some turn \<Longrightarrow> projectOne s now (interruptMarker t reason) =
     Inr ((advanced s)\<lparr>openTurn := Some (turn\<lparr>ot_interrupted := True\<rparr>)\<rparr>)"
  by (simp add: project_unfold interruptMarker_def foldSystemEvent_def detailKindOf_def eventDetails_def)



subsection \<open>Totality\<close>

definition usable_tool_ids :: "json list \<Rightarrow> bool" where
  "usable_tool_ids blocks \<longleftrightarrow> (\<forall>b \<in> set blocks. isToolCallBlock b \<longrightarrow> block_id b \<noteq> [])"

fun entry_blocks :: "session_entry \<Rightarrow> json list" where
  "entry_blocks e = snd (assistant_message e)"

fun tool_ids_usable :: "agent_state \<Rightarrow> incoming \<Rightarrow> bool" where
  "tool_ids_usable s (EventAppended e) = usable_tool_ids (array_or_empty (jget (eventPayload e) ''blocks''))"
| "tool_ids_usable s (CommandIn Wake) = list_all (\<lambda>e. usable_tool_ids (entry_blocks e)) (entries s)"
| "tool_ids_usable s _ = True"

lemma transport_truthy: "truthy (transportForToolCall st n i)"
  by (simp add: transportForToolCall_def Let_def split: option.split)

lemma invocationStarted_total:
  "block_id b \<noteq> [] \<Longrightarrow> \<exists>q. projectOne p now (invocationStartedItem st m t b) = Inr q"
  by (cases "m = []")
     (simp_all add: project_unfold invocationStartedItem_def foldInvocationStarted_def transport_truthy)

lemma expandBlocks_total:
  "\<forall>b \<in> set blocks. block_id b \<noteq> [] \<Longrightarrow> \<exists>out. expandBlocks st m t now p blocks = Inr out"
proof (induction blocks arbitrary: p)
  case Nil
  then show ?case by simp
next
  case (Cons b blocks)
  from Cons.prems obtain q where q: "projectOne p now (invocationStartedItem st m t b) = Inr q"
    using invocationStarted_total [of b p now st m t] by auto
  with projectOne_invocationStarted(1) [OF q] Cons.prems
  obtain i where i: "dget (pendingInvocations q) (block_id b) = Some i" by (auto simp: startable_def)
  from Cons obtain r where "expandBlocks st m t now q blocks = Inr r" by auto
  with q i show ?case by (simp add: Let_def)
qed

lemma expandToolCalls_total:
  "\<forall>b \<in> set blocks. block_id b \<noteq> [] \<Longrightarrow> \<exists>out. expandToolCalls s blocks m t ctx = Inr out"
  unfolding expandToolCalls_def by (rule expandBlocks_total)

lemma nextModelCall_total: "openTurn s = Some turn \<Longrightarrow> \<exists>out. nextModelCall s k ctx f = Inr out"
  by (simp add: nextModelCall_def Let_def split: option.split prod.split)

lemma promotePendingPrompt_total: "pendingPrompt s = Some p \<Longrightarrow> \<exists>out. promotePendingPrompt s ctx pre = Inr out"
  by (simp add: promotePendingPrompt_def Let_def split: prod.split)

lemma promoteSteers_total: "steeringQueue s \<noteq> [] \<Longrightarrow> \<exists>out. promoteSteersAsTurn s ctx = Inr out"
  by (cases "steeringQueue s") (simp_all add: promoteSteersAsTurn_def Let_def split: prod.split)

lemma promotedRecv_prompt:
  assumes "projectOne s now (promotedRecvItem h n) = Inr s'" and "openTurn s = None"
  shows "\<exists>p. pendingPrompt s' = Some p"
  using assms
  by (auto simp: projectOne_def foldMessageCompleted_def foldUserCompleted_def payloadRecord_def
      promotedRecvItem_def jget_jspread protocol_prop_def Let_def split: if_splits)

lemma promoteDeferred_total:
  assumes "openTurn s = None"
  shows "\<exists>out. promoteDeferredHead s ctx h = Inr out"
proof -
  obtain s1 where r: "projectOne s (ctx_now ctx) (promotedRecvItem h (lastSeq s)) = Inr s1"
    using projectOne_safe [OF safe_items(5)] by blast
  with promotedRecv_prompt [OF r assms] promotePendingPrompt_total show ?thesis
    by (auto simp: promoteDeferredHead_def Let_def)
qed

lemma steer_total: "\<exists>out. steerStep s c ctx = Inr out"
  using nextModelCall_total [of s _ 1 ctx "fresh_ids c"]
  by (auto simp: steerStep_def Let_def split: option.split)

lemma interruptTurn_total: "\<exists>out. interruptTurn s r ctx = Inr out"
  by (cases "openTurn s") (auto simp: interruptTurn_def Let_def projectOne_interruptMarker)

lemma flushSteers_total: "steeringQueue s \<noteq> [] \<Longrightarrow> \<exists>out. flushSteers s ctx = Inr out"
  using nextModelCall_total [of s _ 0 ctx "[]"] promoteSteers_total [of s ctx]
  by (cases "openTurn s") (simp_all add: flushSteers_def)

lemma flushDeferred_total: "\<exists>out. flushDeferred s ctx h = Inr out"
  using promoteDeferred_total [of s ctx h] by (cases "openTurn s") (simp_all add: flushDeferred_def)

lemma flushStep_total: "\<exists>out. flushStep s ctx = Inr out"
  using flushSteers_total [of s ctx] flushDeferred_total [of s ctx]
  by (auto simp: flushStep_def split: list.split)

lemma interrupt_total: "\<exists>out. interruptStep s f ctx = Inr out"
proof -
  obtain r where "flushStep s ctx = Inr r" using flushStep_total by blast
  then show ?thesis
    using interruptTurn_total [of s "''user_interrupted''" ctx]
    by (cases r) (simp_all add: interruptStep_def del: bind_res_Inr_iff)
qed

lemma resume_total: "\<exists>out. resumeStep s m r ctx = Inr out"
  using nextModelCall_total [of s _ 1 ctx "[]"] by (auto simp: resumeStep_def split: option.split)

lemma wakeContinue_total: "\<exists>out. wakeContinue s items ctx = Inr out"
  using nextModelCall_total [of s _ "length items" ctx "[]"] promotePendingPrompt_total [of s _ ctx items]
  by (auto simp: wakeContinue_def split: option.split)

lemma unprocessed_usable:
  assumes "list_all (\<lambda>e. usable_tool_ids (entry_blocks e)) (entries s)"
  shows "\<forall>b \<in> set (snd (unprocessedToolCalls s)). block_id b \<noteq> []"
proof (cases "find is_assistant_entry (rev (entries s))")
  case None
  then show ?thesis by (simp add: unprocessedToolCalls_def)
next
  case (Some e)
  then have "e \<in> set (entries s)" by (metis find_Some_iff nth_mem set_rev)
  with assms have "usable_tool_ids (snd (assistant_message e))" by (simp add: list_all_iff)
  with Some show ?thesis
    by (auto simp: unprocessedToolCalls_def usable_tool_ids_def split: prod.split)
qed

lemma wake_total:
  assumes "tool_ids_usable s (CommandIn Wake)"
  shows "\<exists>out. wakeStep s ctx = Inr out"
proof -
  obtain s1 where s1: "projectAppend s (orphanItems s) (ctx_now ctx) = Inr s1"
    using projectAppend_safe [OF safe_item_lists(3)] by blast
  then have "entries s1 = entries s" using project_orphans by blast
  with assms unprocessed_usable [of s1] have u: "\<forall>b \<in> set (snd (unprocessedToolCalls s1)). block_id b \<noteq> []"
    by simp
  have "\<exists>out. wakeExpand s1 (orphanItems s) ctx = Inr out"
    using expandToolCalls_total [OF u] wakeContinue_total [of s1 "orphanItems s" ctx]
    by (fastforce simp: wakeExpand_def split: option.split prod.split)
  with s1 show ?thesis by (simp add: wakeStep_def Let_def)
qed

lemma eventStep_total:
  assumes "tool_ids_usable s (EventAppended e)"
  shows "\<exists>out. eventStep s e ctx = Inr out"
proof -
  note n = nextModelCall_total [of s _ 0 ctx "[]"]
  have x: "\<exists>out. expandToolCalls s (filter isToolCallBlock (array_or_empty (jget (eventPayload e) ''blocks''))) m t ctx = Inr out"
    for m t by (rule expandToolCalls_total) (use assms in \<open>simp add: usable_tool_ids_def\<close>)
  have "\<exists>out. modelTerminalStep s e ctx = Inr out"
    using n x by (simp add: modelTerminalStep_def Let_def split: option.split)
  moreover have "\<exists>out. turnClosedStep s ctx = Inr out"
    using promoteSteers_total [of s ctx] promoteDeferred_total [of s ctx]
    by (auto simp: turnClosedStep_def split: list.split)
  moreover have "\<exists>out. modelFailedStep s e ctx = Inr out"
    using n by (simp add: modelFailedStep_def Let_def split: option.split)
  moreover have "\<exists>out. invocationTerminalStep s ctx = Inr out"
    using n by (simp add: invocationTerminalStep_def split: option.split)
  moreover have "\<exists>out. systemEventStep s e ctx = Inr out"
    using n by (simp add: systemEventStep_def Let_def split: option.split)
  ultimately show ?thesis
    by (cases "env_payloadKind e") (simp_all add: eventStep_def)
qed

lemma commandStep_total:
  assumes "tool_ids_usable s (CommandIn c)"
  shows "\<exists>out. commandStep s c ctx = Inr out"
  using assms wake_total [of s ctx] steer_total [of s _ ctx] interrupt_total [of s _ ctx]
    interruptTurn_total [of s _ ctx] resume_total [of s _ _ ctx]
  by (cases c) (simp_all add: promptStep_def abortStep_def)


definition sample_terminal :: log_envelope where
  "sample_terminal = sample_event 6 sample_ref MessageCompleted [(''messageId'', JStr ''m:t1:0'')]
     [(''role'', JStr ''assistant''), (''blocks'', JArr [JObj [(''type'', JStr ''toolCall''),
        (''id'', JStr ''i7''), (''name'', JStr ''read''), (''arguments'', JObj [])]])]"


subsection \<open>When a model call starts\<close>

text \<open>The model calls among a step's effects.\<close>

definition model_calls :: "step_output \<Rightarrow> effect_descriptor list" where
  "model_calls out = filter (\<lambda>d. effectKind d = KModelCall) (so_effects out)"

lemma model_calls_simps [simp]:
  "model_calls EMPTY = []" "model_calls (appendOnly items) = []"
  "model_calls (prependItems items out) = model_calls out"
  by (simp_all add: model_calls_def EMPTY_def appendOnly_def prependItems_def)

lemma model_calls_readAcks [simp]:
  "filter (\<lambda>d. effectKind d = KModelCall) (readAckEffects a b c d e) = []"
  by (auto simp: filter_empty_conv dest: readAcks_publish)

text \<open>The call a turn may make next: not interrupted, within budget, with the turn's next message id.\<close>

definition next_call_of :: "agent_state \<Rightarrow> effect_descriptor \<Rightarrow> bool" where
  "next_call_of s d \<longleftrightarrow>
     (\<exists>turn. openTurn s = Some turn \<and> effectId d = ids_modelEffect (ids_messageId (ot_turnId turn) (ot_modelCallCount turn)) \<and>
        (\<forall>limit. maxModelCallsPerTurn s = Some limit \<longrightarrow> int (ot_modelCallCount turn) < limit))"

definition not_interrupted :: "agent_state \<Rightarrow> bool" where
  "not_interrupted s \<longleftrightarrow> (\<forall>turn. openTurn s = Some turn \<longrightarrow> \<not> ot_interrupted turn)"

lemma modelStart_kind:
  "modelStartItems st t n k = (item, effect) \<Longrightarrow>
     effectKind effect = KModelCall \<and> effectId effect = ids_modelEffect (ids_messageId t n)"
  by (auto simp: modelStartItems_def Let_def effectId_def mk_base_def)

lemma nextModelCall_calls:
  "nextModelCall s k ctx f = Inr out \<Longrightarrow> d \<in> set (model_calls out) \<Longrightarrow> next_call_of s d"
  by (auto simp: nextModelCall_def next_call_of_def model_calls_def Let_def appendOnly_def
      modelStartItems_def effectId_def mk_base_def split: option.splits if_splits dest!: readAcks_publish)

lemma invocationEffect_kind: "effectKind (invocationEffect s i) \<noteq> KModelCall"
  by (simp add: invocationEffect_def Let_def)

lemma expandBlocks_calls: "expandBlocks st m t now p blocks = Inr out \<Longrightarrow> model_calls out = []"
proof (induction blocks arbitrary: p out)
  case Nil
  then show ?case by auto
next
  case (Cons b blocks)
  then show ?case
    by (auto simp: Let_def model_calls_def invocationEffect_kind split: option.splits)
qed

lemma expandToolCalls_calls: "expandToolCalls s blocks m t ctx = Inr out \<Longrightarrow> model_calls out = []"
  unfolding expandToolCalls_def by (rule expandBlocks_calls)

definition starts_properly :: "agent_state \<Rightarrow> step_output \<Rightarrow> bool" where
  "starts_properly s out \<longleftrightarrow>
     (\<forall>d \<in> set (model_calls out). next_call_of s d \<and> not_interrupted s)"

lemma starts_properly_empty [simp]:
  "model_calls out = [] \<Longrightarrow> starts_properly s out"
  by (simp add: starts_properly_def)

lemma starts_properly_prepend [simp]:
  "starts_properly s (prependItems items out) = starts_properly s out"
  by (simp add: starts_properly_def)

lemma starts_properly_next:
  "nextModelCall s k ctx f = Inr out \<Longrightarrow> openTurn s = Some turn \<Longrightarrow> \<not> ot_interrupted turn \<Longrightarrow>
     starts_properly s out"
  by (simp add: starts_properly_def nextModelCall_calls not_interrupted_def)

lemma starts_properly_cong:
  assumes "openTurn s1 = openTurn s" and "config s1 = config s"
  shows "starts_properly s1 out = starts_properly s out"
  using assms by (simp add: starts_properly_def next_call_of_def not_interrupted_def maxModelCallsPerTurn_def)

lemma steer_starts:
  "openTurn s = Some turn \<Longrightarrow> steerStep s c ctx = Inr out \<Longrightarrow> starts_properly s out"
  by (auto simp: steerStep_def Let_def split: if_splits dest: starts_properly_next)

lemma flush_starts:
  "openTurn s = Some turn \<Longrightarrow> flushStep s ctx = Inr (Some out) \<Longrightarrow> starts_properly s out"
  by (auto simp: flushStep_def flushSteers_def flushDeferred_def split: if_splits list.splits
      dest: starts_properly_next)

lemma interruptTurn_starts: "interruptTurn s r ctx = Inr out \<Longrightarrow> starts_properly s out"
  by (auto simp: interruptTurn_def Let_def split: option.splits if_splits)

lemma wakeContinue_starts:
  "openTurn s = Some turn \<Longrightarrow> wakeContinue s items ctx = Inr out \<Longrightarrow> starts_properly s out"
  by (auto simp: wakeContinue_def split: if_splits dest: starts_properly_next)

lemma wake_starts:
  assumes "openTurn s = Some turn" and "wakeStep s ctx = Inr out"
  shows "starts_properly s out"
proof -
  obtain s1 where s1: "projectAppend s (orphanItems s) (ctx_now ctx) = Inr s1"
    using projectAppend_safe [OF safe_item_lists(3)] by blast
  then have e: "openTurn s1 = openTurn s" "config s1 = config s" using project_orphans by blast+
  have "starts_properly s1 out" if "wakeExpand s1 (orphanItems s) ctx = Inr out"
    using that assms(1) e
    by (auto simp: wakeExpand_def dest: expandToolCalls_calls wakeContinue_starts
        split: if_splits prod.splits)
  with assms(2) s1 show ?thesis
    by (auto simp: wakeStep_def Let_def starts_properly_cong [OF e, symmetric] split: if_splits)
qed

lemma commandStep_starts:
  assumes "openTurn s = Some turn" and "commandStep s c ctx = Inr out"
  shows "starts_properly s out"
  using assms
  by (cases c)
     (auto simp: promptStep_def editStep_def retractStep_def setConfigStep_def compactStep_def abortStep_def
        interruptStep_def resumeStep_def Let_def
        dest: steer_starts flush_starts interruptTurn_starts wake_starts starts_properly_next
        split: if_splits option.splits)

lemma eventStep_starts:
  assumes "openTurn s = Some turn" and "eventStep s e ctx = Inr out"
  shows "starts_properly s out"
proof -
  have "model_calls \<lparr> so_append = [], so_effects = [invocationEffect s inv'] \<rparr> = []" for inv'
    by (simp add: model_calls_def invocationEffect_kind)
  then have a: "starts_properly s (approvalResolvedStep s e)"
    by (simp add: approvalResolvedStep_def Let_def split: option.split)
  note i = starts_properly_next [OF _ assms(1)]
  have "modelTerminalStep s e ctx = Inr out \<Longrightarrow> ?thesis"
    using assms(1) by (auto simp: modelTerminalStep_def Let_def split: if_splits intro: i dest: expandToolCalls_calls)
  moreover have "turnClosedStep s ctx = Inr out \<Longrightarrow> ?thesis"
    using assms(1) by (auto simp: turnClosedStep_def)
  moreover have "modelFailedStep s e ctx = Inr out \<Longrightarrow> ?thesis"
    using assms(1) by (auto simp: modelFailedStep_def Let_def split: option.splits if_splits intro: i)
  moreover have "invocationTerminalStep s ctx = Inr out \<Longrightarrow> ?thesis"
    using assms(1) by (auto simp: invocationTerminalStep_def split: if_splits intro: i)
  moreover have "systemEventStep s e ctx = Inr out \<Longrightarrow> ?thesis"
    using assms(1) by (auto simp: systemEventStep_def Let_def split: if_splits intro: i)
  ultimately show ?thesis
    using assms(2) a by (cases "env_payloadKind e") (auto simp: eventStep_def split: if_splits)
qed

lemma effectFailed_calls: "model_calls (effectFailedStep classify s eid kind m ctx) = []"
  by (simp add: effectFailedStep_def modelCallFailed_def credentialWaitFailed_def approvalFormFailed_def
      unmappedEffectFailed_def invocationDispatchFailed_def Let_def split: option.split)


definition sample_busy :: agent_state where
  "sample_busy = sample_state\<lparr>config := JObj [(''model'', JStr ''openai:gpt''), (''maxModelCallsPerTurn'', JNum 3)]\<rparr>"

lemma sample_steer_step:
  "\<exists>out. coreStep sample_classify sample_busy (CommandIn (Steer sample_prompt)) sample_ctx = Inr out \<and>
     effectKind (hd (so_effects out)) = KModelCall \<and> so_effects out \<noteq> []"
  by (simp add: sample_busy_def sample_state_def sample_prompt_def sample_turn_def steerStep_def alreadyIngested_def
      deliverAfterTurn_def recvItem_def recvPayload_def initialAgentState_def nextModelCall_def
      maxModelCallsPerTurn_def ids_recvUserMessage_def prependItems_def modelStartItems_def Let_def)


end
