(* ===== verification/Delivery.thy ===== *)
theory Delivery
  imports StepSafety
begin

text \<open>
  Delivery of messages by the step function: redelivered messages, promotion of deferred messages,
  read acknowledgements; and theorems showing where the code departs from its own comments.
\<close>

subsection \<open>Redelivery, promotion, read acknowledgements\<close>

lemma recv_ingested:
  assumes "projectOne s now (recvItem c) = Inr s'"
    and "\<not> (deliverAfterTurn (uc_metadata c) \<and> openTurn s \<noteq> None)"
    and "\<forall>m. uc_metadata c = Some m \<longrightarrow> is_plain_object m"
  shows "\<exists>x. entries s' = entries s @ [x] \<and> is_user_envelope (recvIdOf c) x"
proof -
  have m: "metadataFromPayload (recvPayload c) = uc_metadata c"
    using assms(3)
    by (cases "uc_metadata c"; cases "nonempty_opt (uc_sourceMessageId c)")
       (simp_all add: metadataFromPayload_def recvPayload_def protocol_prop_def)
  have r: "jget (recvPayload c) ''role'' = JStr ''user''" "is_plain_object (recvPayload c)"
    by (simp_all add: recvPayload_def protocol_prop_def)
  show ?thesis
    using assms(1,2) m r
    by (auto simp: projectOne_def foldMessageCompleted_def foldUserCompleted_def payloadRecord_def recvItem_def
        recvIdOf_def Let_def split: option.splits)
qed

lemma later_entries_kept:
  assumes "projectOne s now item = Inr s'" and "x \<in> set (entries s)"
    and "ai_payloadKind item \<in> {TurnOpened, MessageStarted, TurnClosed, MessageCompleted}"
  shows "x \<in> set (entries s')"
  using assms
  by (auto simp: projectOne_def applyEvent_def Let_def foldTurnOpened_def foldMessageStarted_def
      foldTurnClosed_def foldMessageCompleted_def foldAssistantCompleted_def foldUserCompleted_def
      split: option.splits if_splits)

lemma later_entries_kept_all:
  assumes "projectAppend s items now = Inr s'" and "x \<in> set (entries s)"
    and "\<forall>item \<in> set items. ai_payloadKind item \<in> {TurnOpened, MessageStarted, TurnClosed, MessageCompleted}"
  shows "x \<in> set (entries s')"
  using assms
proof (induction items arbitrary: s)
  case Nil
  then show ?case by simp
next
  case (Cons item items)
  then obtain t where "projectOne s now item = Inr t" "projectAppend t items now = Inr s'" by auto
  with Cons later_entries_kept [of s now item t x] show ?case by simp
qed

lemma nextModelCall_kinds:
  "nextModelCall s k ctx f = Inr out \<Longrightarrow>
     \<forall>item \<in> set (so_append out). ai_payloadKind item \<in> {TurnOpened, MessageStarted, TurnClosed, MessageCompleted}"
  by (auto simp: nextModelCall_def Let_def modelStartItems_def appendOnly_def budgetReachedItems_def
      diagnosticItem_def turnClosedItem_def split: option.splits if_splits)

text \<open>The batch a prompt or steer appends: nothing, or its receive item and items that keep the transcript.\<close>

definition ingest_batch :: "user_command \<Rightarrow> append_item list \<Rightarrow> bool" where
  "ingest_batch c items \<longleftrightarrow> (\<exists>rest. items = recvItem c # rest \<and>
     (\<forall>item \<in> set rest. ai_payloadKind item \<in> {TurnOpened, MessageStarted, TurnClosed, MessageCompleted}))"

lemma steer_batch:
  "steerStep s c ctx = Inr out \<Longrightarrow> alreadyIngested s (recvIdOf c) \<and> out = EMPTY \<or> ingest_batch c (so_append out)"
  by (auto simp: steerStep_def Let_def recvIdOf_def recvItem_def ingest_batch_def appendOnly_def prependItems_def
      dest: nextModelCall_kinds split: if_splits option.splits)

lemma prompt_batch:
  "promptStep s c ctx = Inr out \<Longrightarrow> alreadyIngested s (recvIdOf c) \<and> out = EMPTY \<or> ingest_batch c (so_append out)"
proof -
  have "ingest_batch c (so_append (openPromptTurn s c ctx))"
    by (simp add: ingest_batch_def openPromptTurn_def Let_def modelStartItems_def turnOpenedItem_def)
  then show "promptStep s c ctx = Inr out \<Longrightarrow> ?thesis"
    by (auto simp: promptStep_def ingest_batch_def appendOnly_def split: if_splits dest: steer_batch)
qed

lemma ingested_ignored:
  "alreadyIngested s (recvIdOf c) \<Longrightarrow> steerStep s c ctx = Inr EMPTY \<and> promptStep s c ctx = Inr EMPTY"
  by (simp add: steerStep_def promptStep_def recvIdOf_def recvItem_def Let_def)

text \<open>Redelivery of a message is ignored. After a prompt or steer that is not deferred has been
  processed and its events folded, delivering the same channel message again, as a prompt or as a
  steer, appends nothing and starts nothing.\<close>

theorem redelivery_ignored:
  assumes "coreStep classify s (CommandIn cmd) ctx = Inr out" and "cmd = Prompt c \<or> cmd = Steer c"
    and "projectAppend s (so_append out) (ctx_now ctx) = Inr s'"
    and "\<not> (deliverAfterTurn (uc_metadata c) \<and> openTurn s \<noteq> None)"
    and "\<forall>m. uc_metadata c = Some m \<longrightarrow> is_plain_object m"
  shows "coreStep classify s' (CommandIn (Prompt c)) ctx' = Inr EMPTY \<and>
     coreStep classify s' (CommandIn (Steer c)) ctx' = Inr EMPTY"
proof -
  have "alreadyIngested s (recvIdOf c) \<and> out = EMPTY \<or> ingest_batch c (so_append out)"
    using assms(1,2) by (auto dest: prompt_batch steer_batch)
  then have "alreadyIngested s' (recvIdOf c)"
  proof
    assume "alreadyIngested s (recvIdOf c) \<and> out = EMPTY"
    with assms(3) show ?thesis by (simp add: EMPTY_def)
  next
    assume "ingest_batch c (so_append out)"
    then obtain rest s1 where r: "projectOne s (ctx_now ctx) (recvItem c) = Inr s1"
      "projectAppend s1 rest (ctx_now ctx) = Inr s'"
      "\<forall>item \<in> set rest. ai_payloadKind item \<in> {TurnOpened, MessageStarted, TurnClosed, MessageCompleted}"
      using assms(3) by (auto simp: ingest_batch_def)
    obtain x where x: "entries s1 = entries s @ [x]" "is_user_envelope (recvIdOf c) x"
      using recv_ingested [OF r(1) assms(4,5)] by blast
    then have "x \<in> set (entries s')" using later_entries_kept_all [OF r(2) _ r(3)] by simp
    with x(2) show ?thesis by (auto simp: alreadyIngested_def)
  qed
  then show ?thesis using ingested_ignored by simp
qed

lemma promotedRecv_folds:
  assumes "openTurn s = None" and "dp_sourceMessageId h \<noteq> []"
  shows "\<exists>s1 p x. projectOne s now (promotedRecvItem h n) = Inr s1 \<and>
      deferredPostTurnQueue s1 = filter (\<lambda>d. dp_sourceMessageId d \<noteq> dp_sourceMessageId h) (deferredPostTurnQueue s) \<and>
      entries s1 = entries s @ [x] \<and> is_user_entry_of (dp_sourceMessageId h) x \<and>
      pendingPrompt s1 = Some p \<and> pp_envelopeId p = ids_recvPromoted (dp_sourceMessageId h) n \<and>
      pp_sourceMessageId p = Some (dp_sourceMessageId h) \<and> steeringQueue s1 = steeringQueue s"
proof -
  let ?pl = "ai_payload (promotedRecvItem h n)"
  have f: "jget ?pl ''role'' = JStr ''user''" "is_plain_object ?pl"
    "sourceMessageIdFromPayload ?pl = Some (dp_sourceMessageId h)"
    using assms(2)
    by (simp_all add: promotedRecvItem_def jget_jspread protocol_prop_def Let_def sourceMessageIdFromPayload_def)
  have e: "ai_envelopeId (promotedRecvItem h n) = ids_recvPromoted (dp_sourceMessageId h) n"
    by (simp add: promotedRecvItem_def Let_def)
  show ?thesis
    using assms(1) f
    by (simp add: projectOne_def foldMessageCompleted_def foldUserCompleted_def payloadRecord_def e Let_def)
qed

lemma promotePendingPrompt_folds:
  assumes "pendingPrompt s1 = Some p" and "promotePendingPrompt s1 ctx pre = Inr out"
    and "projectAppend s pre now = Inr s1"
  shows "\<exists>s' turn. projectAppend s (so_append out) now = Inr s' \<and> openTurn s' = Some turn \<and>
     ot_turnId turn = ids_turnId (channelId s1) (pp_envelopeId p) (selfActorId ctx) \<and>
     ot_modelCallCount turn = 1 \<and>
     map_option mc_messageId (inFlightModelCall s') = Some (ids_messageId (ot_turnId turn) 0) \<and>
     pendingPrompt s' = None \<and> entries s' = entries s1 \<and>
     deferredPostTurnQueue s' = deferredPostTurnQueue s1"
proof -
  let ?t = "ids_turnId (channelId s1) (pp_envelopeId p) (selfActorId ctx)"
  let ?st = "s1\<lparr>openTurn := Some (freshTurn ?t (lastSeq s1 + 1) (pp_metadata p))\<rparr>"
  obtain item effect where m: "modelStartItems ?st ?t 0 1 = (item, effect)" by (meson surj_pair)
  obtain md where o: "projectOne s1 now (turnOpenedItem ?t (pp_metadata p)) = Inr ((advanced s1)\<lparr>
     openTurn := Some (freshTurn ?t (lastSeq s1 + 1) md), pendingPrompt := None\<rparr>)"
    using projectOne_turnOpened_weak [OF turnId_nonempty] by blast
  have "so_append out = pre @ [turnOpenedItem ?t (pp_metadata p), item]"
    using assms(1,2) m by (auto simp: promotePendingPrompt_def Let_def)
  then show ?thesis
    using assms(3) o projectOne_modelStart [OF m]
    by (simp add: modelStarted_def freshTurn_def)
qed

text \<open>One deferred message per closed turn, in order. When a turn has closed with no steers queued,
  the step promotes exactly the head of the deferred queue: its events fold to a state in which the head
  (with any copies of the same message) has left the queue and the rest keep their order, the transcript
  has gained exactly that user message, and a fresh turn is open with its first model call in flight.\<close>

theorem close_promotes_deferred_head:
  assumes "env_payloadKind e = TurnClosed" and "openTurn s = None" and "steeringQueue s = []"
    and "deferredPostTurnQueue s = h # q" and "dp_sourceMessageId h \<noteq> []"
  shows "\<exists>out s' x turn. coreStep classify s (EventAppended e) ctx = Inr out \<and>
     projectAppend s (so_append out) (ctx_now ctx) = Inr s' \<and>
     deferredPostTurnQueue s' = filter (\<lambda>d. dp_sourceMessageId d \<noteq> dp_sourceMessageId h) q \<and>
     entries s' = entries s @ [x] \<and> is_user_entry_of (dp_sourceMessageId h) x \<and>
     openTurn s' = Some turn \<and> ot_modelCallCount turn = 1 \<and>
     map_option mc_messageId (inFlightModelCall s') = Some (ids_messageId (ot_turnId turn) 0)"
proof -
  let ?r = "promotedRecvItem h (lastSeq s)"
  obtain s1 p x where s1: "projectOne s (ctx_now ctx) ?r = Inr s1"
    "deferredPostTurnQueue s1 = filter (\<lambda>d. dp_sourceMessageId d \<noteq> dp_sourceMessageId h) q"
    "entries s1 = entries s @ [x]" "is_user_entry_of (dp_sourceMessageId h) x" "pendingPrompt s1 = Some p"
    using promotedRecv_folds [OF assms(2,5), of "ctx_now ctx" "lastSeq s"] assms(4) by auto
  obtain out where out: "promotePendingPrompt s1 ctx [?r] = Inr out"
    using promotePendingPrompt_total [OF s1(5)] by blast
  from s1(1) have a: "projectAppend s [?r] (ctx_now ctx) = Inr s1" by simp
  have "coreStep classify s (EventAppended e) ctx = Inr out"
    using assms a out by (simp add: eventStep_def turnClosedStep_def promoteDeferredHead_def Let_def)
  with promotePendingPrompt_folds [OF s1(5) out a] s1(2-4) show ?thesis by auto
qed

lemma set_map_filter_iff: "y \<in> set (List.map_filter f xs) \<longleftrightarrow> (\<exists>x \<in> set xs. f x = Some y)"
  by (induction xs) (auto simp: List.map_filter_simps split: option.split)

lemma nonempty_opt_Some_iff: "nonempty_opt v = Some x \<longleftrightarrow> v = Some x \<and> x \<noteq> []"
  by (cases v) (auto simp: nonempty_opt_def)

lemma consumedIds_iff:
  "sid \<in> set (consumedIds s c fresh) \<longleftrightarrow>
     sid \<noteq> [] \<and> (sid \<in> set fresh \<or> (\<exists>x \<in> set (steeringQueue s). se_seq x \<le> c \<and> se_sourceMessageId x = Some sid))"
  by (auto simp: consumedIds_def insertion_set_def set_map_filter_iff nonempty_opt_Some_iff split: if_splits)

text \<open>Read acknowledgements are exact. When a model call starts, a \<open>message.read\<close> receipt is
  emitted for a message exactly when the call consumes it: it is one of the fresh messages of the batch,
  or it is a steered message that the folded state no longer holds in its steering queue. On a state
  whose queues follow the log the call consumes the whole steering queue.\<close>

theorem read_acks_match_consumption:
  assumes "nextModelCall s k ctx fresh = Inr out" and "openTurn s = Some turn"
    and "\<forall>limit. maxModelCallsPerTurn s = Some limit \<longrightarrow> int (ot_modelCallCount turn) < limit"
    and "projectAppend s (so_append out) now = Inr s'" and "sid \<noteq> []"
  shows "(readAckEffect (channelId s) sid (ot_turnId turn) ctx \<in> set (so_effects out)) =
       (sid \<in> set fresh \<or>
        (\<exists>x \<in> set (steeringQueue s). se_sourceMessageId x = Some sid \<and> x \<notin> set (steeringQueue s'))) \<and>
     (queues_ordered s \<longrightarrow> steeringQueue s' = [])"
proof -
  let ?c = "lastSeq s + int k"
  obtain item effect where m: "modelStartItems s (ot_turnId turn) (ot_modelCallCount turn) k = (item, effect)"
    by (meson surj_pair)
  have out: "out = \<lparr> so_append = [item], so_effects = effect # readAckEffects s ?c fresh (ot_turnId turn) ctx \<rparr>"
    using assms(1-3) m by (auto simp: nextModelCall_def Let_def split: option.splits if_splits)
  have q: "steeringQueue s' = filter (\<lambda>x. se_seq x > ?c) (steeringQueue s)"
    using assms(4) projectOne_modelStart [OF m] by (auto simp: out modelStarted_def)
  have "effectKind effect = KModelCall" using modelStart_kind [OF m] by simp
  then have ne: "readAckEffect a b t ctx \<noteq> effect" for a b t
    by (auto simp: readAckEffect_def Let_def)
  have inj: "readAckEffect a b t ctx = readAckEffect a b' t ctx \<longleftrightarrow> b = b'" for a b b' t
    by (auto simp: readAckEffect_def Let_def)
  have "readAckEffect (channelId s) sid (ot_turnId turn) ctx \<in> set (so_effects out) \<longleftrightarrow> sid \<in> set (consumedIds s ?c fresh)"
    by (auto simp: out ne readAckEffects_def inj)
  moreover have "queues_ordered s \<Longrightarrow> steeringQueue s' = []"
    unfolding q by (fastforce simp: queues_ordered_def increasing_upto_def filter_empty_conv)
  ultimately show ?thesis using assms(5) q by (auto simp: consumedIds_iff)
qed

theorem redelivery_ignored_witness:
  "\<exists>out s'. coreStep sample_classify (initialAgentState sample_input) (CommandIn (Prompt sample_prompt)) sample_ctx = Inr out \<and>
     projectAppend (initialAgentState sample_input) (so_append out) (ctx_now sample_ctx) = Inr s' \<and>
     coreStep sample_classify s' (CommandIn (Prompt sample_prompt)) sample_ctx = Inr EMPTY"
proof -
  obtain s' where s': "projectAppend (initialAgentState sample_input)
      (so_append (openPromptTurn (initialAgentState sample_input) sample_prompt sample_ctx)) (ctx_now sample_ctx) = Inr s'"
    using derivable_openPromptTurn [of "initialAgentState sample_input" "ctx_now sample_ctx" sample_prompt sample_ctx]
    by (auto simp: derivable_from_def)
  from redelivery_ignored [OF sample_prompt_step [of sample_classify] _ s', of sample_prompt sample_ctx]
  have "coreStep sample_classify s' (CommandIn (Prompt sample_prompt)) sample_ctx = Inr EMPTY"
    by (simp add: sample_prompt_def deliverAfterTurn_def)
  with s' sample_prompt_step show ?thesis by blast
qed

definition sample_deferred :: deferred_prompt where
  "sample_deferred = \<lparr> dp_sourceMessageId = ''m8'', dp_envelopeId = ''e4'', dp_seq = 4, dp_senderRef = sample_user,
     dp_content = JObj [(''role'', JStr ''user'')], dp_metadata = None, dp_agentHops = None \<rparr>"

theorem close_promotes_deferred_head_witness:
  "\<exists>out s' turn. coreStep sample_classify
       ((initialAgentState sample_input)\<lparr>deferredPostTurnQueue := [sample_deferred]\<rparr>)
       (EventAppended (sample_event 6 sample_ref TurnClosed [] [])) sample_ctx = Inr out \<and>
     projectAppend ((initialAgentState sample_input)\<lparr>deferredPostTurnQueue := [sample_deferred]\<rparr>)
       (so_append out) (ctx_now sample_ctx) = Inr s' \<and>
     deferredPostTurnQueue s' = [] \<and> openTurn s' = Some turn \<and> ot_modelCallCount turn = 1"
  using close_promotes_deferred_head [of "sample_event 6 sample_ref TurnClosed [] []"
      "(initialAgentState sample_input)\<lparr>deferredPostTurnQueue := [sample_deferred]\<rparr>"
      sample_deferred "[]" sample_classify sample_ctx]
  by (auto simp: sample_event_def sample_deferred_def initialAgentState_def Let_def)

theorem read_acks_match_consumption_witness:
  "\<exists>out s'. nextModelCall sample_state 0 sample_ctx [] = Inr out \<and>
     projectAppend sample_state (so_append out) [] = Inr s' \<and> steeringQueue s' = [] \<and>
     readAckEffect ''ch'' ''m3'' ''t1'' sample_ctx \<in> set (so_effects out)"
proof -
  have t: "openTurn sample_state = Some sample_turn" by (simp add: sample_state_def)
  obtain out where out: "nextModelCall sample_state 0 sample_ctx [] = Inr out"
    using nextModelCall_total [OF t] by blast
  then obtain s' where s': "projectAppend sample_state (so_append out) [] = Inr s'"
    using derivable_nextModelCall [OF out refl refl] by (auto simp: derivable_from_def)
  have m: "\<forall>limit. maxModelCallsPerTurn sample_state = Some limit \<longrightarrow> int (ot_modelCallCount sample_turn) < limit"
    by (simp add: maxModelCallsPerTurn_def sample_defs DEFAULT_MAX_MODEL_CALLS_PER_TURN_def)
  have q: "queues_ordered sample_state" by (simp add: queues_ordered_def increasing_upto_def sample_defs)
  from read_acks_match_consumption [OF out t m s', of "''m3''"] q out s' show ?thesis
    by (auto simp: sample_defs)
qed

subsection \<open>Where the code departs from its comments\<close>

lemma deferred_recv_folds:
  assumes "deliverAfterTurn (uc_metadata c)" and "openTurn s \<noteq> None"
    and "\<forall>m. uc_metadata c = Some m \<longrightarrow> is_plain_object m"
  shows "\<exists>s' d. projectOne s now (recvItem c) = Inr s' \<and> dp_envelopeId d = recvIdOf c \<and>
     deferredPostTurnQueue s' = deferredPostTurnQueue s @ [d] \<and> openTurn s' = openTurn s \<and>
     entries s' = entries s \<and> steeringQueue s' = steeringQueue s \<and> pendingPrompt s' = pendingPrompt s"
proof -
  have m: "metadataFromPayload (recvPayload c) = uc_metadata c"
    using assms(3)
    by (cases "uc_metadata c"; cases "nonempty_opt (uc_sourceMessageId c)")
       (simp_all add: metadataFromPayload_def recvPayload_def protocol_prop_def)
  have r: "jget (recvPayload c) ''role'' = JStr ''user''" "is_plain_object (recvPayload c)"
    by (simp_all add: recvPayload_def protocol_prop_def)
  show ?thesis
    using assms(1,2) m r
    by (simp add: projectOne_def foldMessageCompleted_def foldUserCompleted_def payloadRecord_def recvItem_def
        recvIdOf_def Let_def)
qed

text \<open>A deferred message is not recognised on redelivery. \<open>alreadyIngested\<close> looks in the prompt,
  the steering queue and the transcript; a send-after-turn message is in none of them while it is
  deferred, so delivering it again emits its receive item again, although its receive id is in the
  state's deferred queue.\<close>

theorem deferred_redelivery_repeats:
  assumes "deliverAfterTurn (uc_metadata c)" and "openTurn s \<noteq> None"
    and "\<forall>m. uc_metadata c = Some m \<longrightarrow> is_plain_object m"
    and "\<not> alreadyIngested s (recvIdOf c)"
  shows "\<exists>s' d. coreStep classify s (CommandIn (Prompt c)) ctx = Inr (appendOnly [recvItem c]) \<and>
     projectAppend s [recvItem c] (ctx_now ctx) = Inr s' \<and>
     d \<in> set (deferredPostTurnQueue s') \<and> dp_envelopeId d = recvIdOf c \<and>
     coreStep classify s' (CommandIn (Prompt c)) ctx = Inr (appendOnly [recvItem c])"
proof -
  obtain s' d where "projectOne s (ctx_now ctx) (recvItem c) = Inr s'" "dp_envelopeId d = recvIdOf c"
    "deferredPostTurnQueue s' = deferredPostTurnQueue s @ [d]" "openTurn s' = openTurn s"
    "entries s' = entries s" "steeringQueue s' = steeringQueue s" "pendingPrompt s' = pendingPrompt s"
    using deferred_recv_folds [OF assms(1-3), of "ctx_now ctx"] by blast
  moreover from this have "\<not> alreadyIngested s' (recvIdOf c)"
    using assms(4) by (simp add: alreadyIngested_def)
  ultimately show ?thesis using assms by (auto simp: promptStep_def)
qed

definition sample_after_turn :: user_command where
  "sample_after_turn = sample_prompt\<lparr>uc_metadata := Some (JObj [(''deliverAfterTurn'', JBool True)])\<rparr>"

theorem deferred_redelivery_repeats_witness:
  "\<exists>s'. projectAppend sample_state [recvItem sample_after_turn] (ctx_now sample_ctx) = Inr s' \<and>
     coreStep sample_classify s' (CommandIn (Prompt sample_after_turn)) sample_ctx
       = Inr (appendOnly [recvItem sample_after_turn])"
proof -
  have "\<not> alreadyIngested sample_state (recvIdOf sample_after_turn)" by code_simp
  moreover have "deliverAfterTurn (uc_metadata sample_after_turn)"
    "\<forall>m. uc_metadata sample_after_turn = Some m \<longrightarrow> is_plain_object m"
    by (simp_all add: sample_after_turn_def deliverAfterTurn_def)
  moreover have "openTurn sample_state \<noteq> None" by (simp add: sample_state_def)
  ultimately show ?thesis
    using deferred_redelivery_repeats [of sample_after_turn sample_state sample_classify sample_ctx] by blast
qed

text \<open>On wake with an orphaned call, the item that fails the orphan is counted twice. The restarted
  call's request has as its context snapshot the sequence number of its own \<open>message.started\<close>
  (the second item appended after the state's last sequence number), not that of the last item before it.\<close>

theorem wake_snapshot_counts_orphan_twice:
  assumes "inFlightModelCall s = Some call" and "openTurn s = Some turn"
    and "wakeStep s ctx = Inr out" and "d \<in> set (so_effects out)" and "effectKind d = KModelCall"
  shows "jget (ef_request d) ''contextThroughSeq'' = JNum (lastSeq s + 2) \<and> length (so_append out) = 2"
proof -
  obtain s1 where s1: "projectAppend s (orphanItems s) (ctx_now ctx) = Inr s1"
    using projectAppend_safe [OF safe_item_lists(3)] by blast
  have l: "length (orphanItems s) = 1" using assms(1) by (simp add: orphanItems_def)
  have o: "openTurn s1 = Some turn" "lastSeq s1 = lastSeq s + 1"
    using project_orphans [OF s1] projectAppend_positioned [OF s1] assms(2) l by simp_all
  have d: "d \<in> set (model_calls out)" using assms(4,5) by (simp add: model_calls_def)
  have "wakeContinue s1 (orphanItems s) ctx = Inr out"
    using assms(3) s1 d
    by (auto simp: wakeStep_def wakeExpand_def Let_def dest!: expandToolCalls_calls
        split: if_splits option.splits prod.splits)
  then obtain nx where nx: "nextModelCall s1 1 ctx [] = Inr nx" and out: "out = prependItems (orphanItems s) nx"
    using o l d by (auto simp: wakeContinue_def split: if_splits)
  have "d \<in> set (model_calls nx)" using d by (simp add: out)
  then show ?thesis
    using nx o l
    by (auto simp: out prependItems_def nextModelCall_def model_calls_def modelStartItems_def appendOnly_def Let_def
        split: option.splits if_splits dest!: readAcks_publish)
qed

definition sample_orphaned :: agent_state where
  "sample_orphaned = sample_state\<lparr>inFlightModelCall := Some \<lparr> mc_messageId = ''m:t1:0'', mc_attemptId = JNull,
     mc_contextThroughSeq = JNum 2, mc_request = JObj [] \<rparr>\<rparr>"

lemma sample_orphaned_wakes:
  "case wakeStep sample_orphaned sample_ctx of Inl _ \<Rightarrow> False
   | Inr out \<Rightarrow> so_effects out \<noteq> [] \<and> effectKind (hd (so_effects out)) = KModelCall"
  by code_simp

theorem wake_snapshot_counts_orphan_twice_witness:
  "\<exists>out d. wakeStep sample_orphaned sample_ctx = Inr out \<and> d \<in> set (so_effects out) \<and>
     jget (ef_request d) ''contextThroughSeq'' = JNum 7"
proof -
  obtain out where out: "wakeStep sample_orphaned sample_ctx = Inr out"
    and k: "so_effects out \<noteq> []" "effectKind (hd (so_effects out)) = KModelCall"
    using sample_orphaned_wakes by (auto split: sum.splits)
  have f: "\<exists>call. inFlightModelCall sample_orphaned = Some call" "openTurn sample_orphaned = Some sample_turn"
    "lastSeq sample_orphaned = 5"
    by (simp_all add: sample_orphaned_def sample_state_def)
  have h: "hd (so_effects out) \<in> set (so_effects out)" using k(1) by simp
  from f(1) obtain call where "inFlightModelCall sample_orphaned = Some call" by blast
  from wake_snapshot_counts_orphan_twice [OF this f(2) out h k(2)] f(3) out h show ?thesis by auto
qed

text \<open>An approval resolved as granted by somebody else is not folded, so the invocation stays gated, but
  the step for that event dispatches it all the same.\<close>

theorem foreign_grant_dispatches_gated:
  assumes "wf_state s" and "foreignAuthor s e" and "env_payloadKind e = ApprovalResolved"
    and "is_plain_object (env_payload e)" and "jget (env_payload e) ''granted'' = JBool True"
    and "dget (pendingInvocations s) (causalityId e ''invocationId'') = Some i" and "gated i"
  shows "\<exists>s' out d. applyEvent s e = Inr s' \<and> coreStep classify s' (EventAppended e) ctx = Inr out \<and>
     d \<in> set (so_effects out) \<and> effectId d \<notin> set (map effectId (derivePendingEffects s'))"
proof -
  have f: "applyEvent s e = Inr (withAdvance s e)"
    using assms(2,3) by (simp add: applyEvent_def foreign_own_handlers)
  have p: "is_object (env_payload e)" using assms(4) by (auto simp: is_plain_object_iff)
  let ?d = "invocationEffect (withAdvance s e) i"
  have out: "coreStep classify (withAdvance s e) (EventAppended e) ctx = Inr \<lparr> so_append = [], so_effects = [?d] \<rparr>"
    using assms(3,5,6) p by (simp add: eventStep_def approvalResolvedStep_def eventPayload_def)
  have k: "pi_invocationId i = causalityId e ''invocationId''"
    using keyed_dgetD [OF wf_stateD(1) [OF assms(1)] assms(6)] by simp
  have w: "wf_state (withAdvance s e)" using assms(1) by simp
  have "causalityId e ''invocationId'' \<notin> set (undispatched (withAdvance s e))"
    using undispatched_iff [OF w] assms(6,7) by simp
  then have "effectId ?d \<notin> set (map effectId (derivePendingEffects (withAdvance s e)))"
    by (auto simp: pending_effect_ids [OF w] k split: option.splits)
  with f out show ?thesis by fastforce
qed

definition sample_gated_invocation :: pending_invocation where
  "sample_gated_invocation =
     \<lparr> pi_invocationId = ''i1'', pi_turnId = ''t1'', pi_startedAtSeq = 3, pi_attemptId = None, pi_name = ''bash'',
       pi_transport = JObj [(''kind'', JStr ''local'')], pi_request = JNull, pi_requiresApproval = True,
       pi_approvalId = None, pi_approvalState = ApprovalPending \<rparr>"

definition sample_gated :: agent_state where
  "sample_gated = (initialAgentState sample_input)\<lparr>pendingInvocations := [(''i1'', sample_gated_invocation)]\<rparr>"

theorem foreign_grant_dispatches_gated_witness:
  "\<exists>s' out d. applyEvent sample_gated (sample_event 9 sample_user ApprovalResolved
       [(''invocationId'', JStr ''i1'')] [(''granted'', JBool True)]) = Inr s' \<and>
     coreStep sample_classify s' (EventAppended (sample_event 9 sample_user ApprovalResolved
       [(''invocationId'', JStr ''i1'')] [(''granted'', JBool True)])) sample_ctx = Inr out \<and>
     d \<in> set (so_effects out) \<and> effectId d \<notin> set (map effectId (derivePendingEffects s'))"
  by (rule foreign_grant_dispatches_gated [where i = sample_gated_invocation])
     (simp_all add: sample_gated_def sample_gated_invocation_def sample_defs wf_state_def keyed_def foreignAuthor_def payload_reads gated_def)

definition sample_patched :: agent_state where
  "sample_patched = sample_state\<lparr>openTurn := Some (sample_turn\<lparr>ot_modelCallCount := 5,
     ot_metadata := Some (JObj [(''loopConfigPatch'', JObj [(''maxModelCallsPerTurn'', JNum 1)])])\<rparr>)\<rparr>"

text \<open>The per-turn configuration patch does not reach the model-call budget: a turn whose metadata
  patches the limit to one call, so that its merged configuration says one, starts a sixth call.\<close>

theorem turn_patch_budget_ignored:
  "\<exists>out. jget (turnConfig sample_patched) ''maxModelCallsPerTurn'' = JNum 1 \<and>
     map_option ot_modelCallCount (openTurn sample_patched) = Some 5 \<and>
     nextModelCall sample_patched 0 sample_ctx [] = Inr out \<and> model_calls out \<noteq> []"
  by (simp add: sample_patched_def sample_defs turnConfig_def turnMetadataOf_def jget_jspread nextModelCall_def
      maxModelCallsPerTurn_def DEFAULT_MAX_MODEL_CALLS_PER_TURN_def modelStartItems_def model_calls_def)

end
