(* ===== verification/Policies.thy ===== *)
theory Policies
  imports Delivery "HOL-Library.Sublist"
begin

text \<open>
  The step policies (\<open>agent-loop/src/policies/index.ts\<close>): interceptors over the core step's
  output. \<open>channelToolsPolicy\<close> routes tools that a roster participant advertises over the channel,
  \<open>approvalGatePolicy\<close> holds back tool calls until they are approved, \<open>askUserPolicy\<close> turns
  \<open>ask_user\<close> into a feedback form, \<open>forkPolicy\<close> settles what was pending before a fork and
  \<open>silentPolicy\<close> suppresses publication. No policy throws.
\<close>

subsection \<open>Definitions\<close>

definition DEFAULT_SAFE_TOOL_NAMES :: "string list" where
  "DEFAULT_SAFE_TOOL_NAMES =
     [''read'', ''grep'', ''find'', ''ls'', ''ask_user'', ''set_title'', ''close_turn_without_response'']"

definition rosterParticipants :: "agent_state \<Rightarrow> json list" where
  "rosterParticipants state = array_or_empty (jget (jget (config state) ''roster'') ''participants'')"

text \<open>\<open>String(item.causality?.invocationId ?? "")\<close> and \<open>String(payload["name"] ?? "")\<close>\<close>

definition itemInvocationId :: "append_item \<Rightarrow> string" where
  "itemInvocationId item = string_or (jget (ai_causality item) ''invocationId'') []"

definition itemToolName :: "append_item \<Rightarrow> string" where
  "itemToolName item = string_or (jget (ai_payload item) ''name'') []"

definition isInvocationStarted :: "append_item \<Rightarrow> bool" where
  "isInvocationStarted item \<longleftrightarrow> ai_payloadKind item = InvocationStarted"

definition channelTransport :: "agent_state \<Rightarrow> json \<Rightarrow> string \<Rightarrow> json" where
  "channelTransport state target invocationId =
     JObj [(''kind'', JStr ''channel''), (''channelId'', JStr (channelId state)), (''target'', target),
       (''transportCallId'', JStr (ids_transportCallId invocationId))]"

text \<open>The first participant that advertises a method owns it.\<close>

definition methodOwner :: "agent_state \<Rightarrow> string \<Rightarrow> json" where
  "methodOwner state name =
     (case find (advertises name) (rosterParticipants state) of
        Some participant \<Rightarrow> jget participant ''ref''
      | None \<Rightarrow> JUndefined)"

definition routable :: "agent_state \<Rightarrow> append_item \<Rightarrow> bool" where
  "routable state item \<longleftrightarrow> isInvocationStarted item \<and> truthy (methodOwner state (itemToolName item)) \<and>
     jget (jget (ai_payload item) ''transport'') ''kind'' = JStr ''local''"

definition routeItem :: "agent_state \<Rightarrow> append_item \<Rightarrow> append_item" where
  "routeItem state item =
     (if routable state item then
        item\<lparr>ai_payload := JObj (jspread (own_props (ai_payload item))
          [(''invocationType'', JStr ''panel''),
           (''transport'', channelTransport state (methodOwner state (itemToolName item)) (itemInvocationId item))])\<rparr>
      else item)"

definition routeEffect :: "append_item list \<Rightarrow> effect_descriptor \<Rightarrow> effect_descriptor" where
  "routeEffect items effect =
     (case effect of
        LocalToolEffect base invocationId turnId tool args \<Rightarrow>
          (case find (\<lambda>item. isInvocationStarted item
                    \<and> js_String (jget (ai_causality item) ''invocationId'') = invocationId
                    \<and> jget (jget (ai_payload item) ''transport'') ''kind'' = JStr ''channel'') items of
             None \<Rightarrow> effect
           | Some rewritten \<Rightarrow>
               let payload = ai_payload rewritten;
                   transport = jget payload ''transport'';
                   tcid = jget transport ''transportCallId''
               in ChannelCallEffect (base\<lparr>ef_idempotencyKey := tcid\<rparr>) invocationId turnId tcid
                    (jget transport ''target'') (js_String (jget payload ''name''))
                    (jget payload ''request'') None None)
      | _ \<Rightarrow> effect)"

definition channelToolsIntercept :: intercept where
  "channelToolsIntercept state incoming ctx output =
     Inr (if rosterParticipants state = [] then output
          else if \<not> list_ex (routable state) (so_append output) then output
          else
            let items = map (routeItem state) (so_append output) in
            \<lparr> so_append = items, so_effects = map (routeEffect items) (so_effects output) \<rparr>)"

definition channelToolsPolicy :: step_policy where
  "channelToolsPolicy =
     \<lparr> pol_name = ''channel-tools'', pol_intercept = channelToolsIntercept,
       pol_transformAppend = None, pol_filterEphemeral = None \<rparr>"

text \<open>Approval gate.\<close>

definition needsApproval :: "agent_state \<Rightarrow> append_item \<Rightarrow> bool" where
  "needsApproval state item \<longleftrightarrow> isInvocationStarted item \<and>
     \<not> (jget (config state) ''approvalLevel'' = JNum 1 \<and> itemToolName item \<in> set DEFAULT_SAFE_TOOL_NAMES)"

definition approvalRequestedItem :: "step_context \<Rightarrow> append_item \<Rightarrow> append_item" where
  "approvalRequestedItem ctx item =
     (let invocationId = itemInvocationId item; approvalId = ids_approvalId invocationId in
      \<lparr> ai_envelopeId = ids_approvalRequested approvalId,
        ai_payloadKind = ApprovalRequested,
        ai_payload = JObj [protocol_prop, (''question'', JStr ''Allow tool call?''),
          (''requestedBy'', ctx_selfRef ctx),
          (''details'', JObj [(''toolName'', JStr (itemToolName item)),
             (''input'', jget (ai_payload item) ''request'')])],
        ai_causality = JObj [(''approvalId'', JStr approvalId), (''invocationId'', JStr invocationId),
          (''modelToolCallId'', JStr invocationId), (''turnId'', jget (ai_causality item) ''turnId'')],
        ai_publish = True \<rparr>)"

definition gateItem :: "agent_state \<Rightarrow> step_context \<Rightarrow> append_item \<Rightarrow> append_item list" where
  "gateItem state ctx item =
     (if needsApproval state item then
        [item\<lparr>ai_payload := JObj (jspread (own_props (ai_payload item)) [(''requiresApproval'', JBool True)])\<rparr>,
         approvalRequestedItem ctx item]
      else [item])"

definition gatedIds :: "agent_state \<Rightarrow> append_item list \<Rightarrow> string list" where
  "gatedIds state items = map itemInvocationId (filter (needsApproval state) items)"

definition isInvocationEffect :: "effect_descriptor \<Rightarrow> bool" where
  "isInvocationEffect effect \<longleftrightarrow> effectKind effect \<in> {KLocalTool, KChannelCall, KHttpCall}"

definition approvalGateIntercept :: intercept where
  "approvalGateIntercept state incoming ctx output =
     Inr (if jget (config state) ''approvalLevel'' = JNum 2 then output
          else
            let gated' = gatedIds state (so_append output) in
            if gated' = [] then output
            else \<lparr> so_append = concat (map (gateItem state ctx) (so_append output)),
                   so_effects = filter (\<lambda>effect. \<not> (isInvocationEffect effect
                     \<and> ef_invocationId effect \<in> set gated')) (so_effects output) \<rparr>)"

definition approvalGatePolicy :: step_policy where
  "approvalGatePolicy =
     \<lparr> pol_name = ''approval-gate'', pol_intercept = approvalGateIntercept,
       pol_transformAppend = None, pol_filterEphemeral = None \<rparr>"

text \<open>Asking the user.\<close>

definition nonblank_or :: "json \<Rightarrow> string \<Rightarrow> string" where
  "nonblank_or v d = (case string_opt v of Some s \<Rightarrow> if trim_string s = [] then d else s | None \<Rightarrow> d)"

definition feedbackFormArgsFromAskUser :: "json \<Rightarrow> json" where
  "feedbackFormArgsFromAskUser raw =
     (let input = (if is_object raw then raw else JObj []);
          question = nonblank_or (jget input ''question'') ''Question'';
          options = filter (\<lambda>option'. string_opt option' \<noteq> None) (array_or_empty (jget input ''options''));
          freeform = jget input ''allowFreeform'';
          multiSelect = (jget input ''multiSelect'' = JBool True)
      in if options \<noteq> [] then
           JObj [(''title'', JStr question),
             (''fields'', JArr [JObj ([(''key'', JStr ''answer''),
                (''type'', JStr (if multiSelect then ''multiSelect'' else ''select'')),
                (''label'', JStr question), (''required'', JBool True),
                (''options'', JArr (map (\<lambda>option'. JObj [(''value'', option'), (''label'', option')]) options))]
                @ (if freeform = JBool False then [(''allowFreeText'', JBool False)] else [])
                @ (if multiSelect then [] else [(''submitOnSelect'', JBool (freeform \<noteq> JBool True))]))]),
             (''hideSubmit'', JBool (if multiSelect then False else freeform \<noteq> JBool True))]
         else
           JObj [(''title'', JStr question),
             (''fields'', JArr [JObj [(''key'', JStr ''answer''), (''type'', JStr ''string''),
                (''label'', JStr question), (''required'', JBool True)]])])"

definition promptingUser :: "agent_state \<Rightarrow> json option" where
  "promptingUser state =
     find (\<lambda>p. jget p ''type'' = JStr ''panel'' \<or> jget (jget p ''ref'') ''kind'' = JStr ''user'')
       (rosterParticipants state)"

definition isAskUser :: "append_item \<Rightarrow> bool" where
  "isAskUser item \<longleftrightarrow> isInvocationStarted item \<and> jget (ai_payload item) ''name'' = JStr ''ask_user''"

definition askItem :: "agent_state \<Rightarrow> json \<Rightarrow> append_item \<Rightarrow> append_item" where
  "askItem state target item =
     (if isAskUser item then
        item\<lparr>ai_payload := JObj (jspread (own_props (ai_payload item))
          [(''name'', JStr ''feedback_form''), (''invocationType'', JStr ''user''),
           (''request'', feedbackFormArgsFromAskUser (jget (ai_payload item) ''request'')),
           (''transport'', channelTransport state target (itemInvocationId item))])\<rparr>
      else item)"

definition askEffect :: "json \<Rightarrow> string list \<Rightarrow> effect_descriptor \<Rightarrow> effect_descriptor" where
  "askEffect target rewritten effect =
     (case effect of
        LocalToolEffect base invocationId turnId tool args \<Rightarrow>
          if invocationId \<in> set rewritten then
            let tcid = JStr (ids_transportCallId invocationId) in
            ChannelCallEffect (base\<lparr>ef_idempotencyKey := tcid\<rparr>) invocationId turnId tcid target
              ''feedback_form'' (feedbackFormArgsFromAskUser args) (Some ''ask-user'') None
          else effect
      | _ \<Rightarrow> effect)"

definition askUserIntercept :: intercept where
  "askUserIntercept state incoming ctx output =
     Inr (case promptingUser state of
            None \<Rightarrow> output
          | Some user \<Rightarrow>
              let target = jget user ''ref'';
                  rewritten = map itemInvocationId (filter isAskUser (so_append output))
              in if rewritten = [] then output
                 else \<lparr> so_append = map (askItem state target) (so_append output),
                        so_effects = map (askEffect target rewritten) (so_effects output) \<rparr>)"

definition askUserPolicy :: step_policy where
  "askUserPolicy =
     \<lparr> pol_name = ''ask-user'', pol_intercept = askUserIntercept,
       pol_transformAppend = None, pol_filterEphemeral = None \<rparr>"

text \<open>Forks.\<close>

definition forkInvocationItem :: "pending_invocation \<Rightarrow> append_item" where
  "forkInvocationItem invocation =
     \<lparr> ai_envelopeId = ids_invocationTerminal (pi_invocationId invocation),
       ai_payloadKind = InvocationAbandoned,
       ai_payload = JObj [protocol_prop, (''reason'', JStr ''forked''),
         (''terminalOutcome'', JStr ''abandoned''), (''terminalReasonCode'', JStr ''forked'')],
       ai_causality = JObj [(''invocationId'', JStr (pi_invocationId invocation)),
         (''turnId'', JStr (pi_turnId invocation))],
       ai_publish = True \<rparr>"

definition preCut :: "('a \<Rightarrow> int) \<Rightarrow> agent_state \<Rightarrow> 'a dict \<Rightarrow> 'a list" where
  "preCut startedAt state d = filter (\<lambda>x. startedAt x \<le> forkSeq state) (map snd d)"

definition forkTurnItem :: "string \<Rightarrow> append_item" where
  "forkTurnItem turnId =
     \<lparr> ai_envelopeId = ids_turnClosed turnId, ai_payloadKind = TurnClosed,
       ai_payload = JObj [protocol_prop, (''reason'', JStr ''forked'')],
       ai_causality = JObj [(''turnId'', JStr turnId)], ai_publish = True \<rparr>"

definition preCutTurn :: "agent_state \<Rightarrow> open_turn option" where
  "preCutTurn state =
     (case openTurn state of
        Some turn \<Rightarrow> if ot_openedAtSeq turn \<le> forkSeq state then Some turn else None
      | None \<Rightarrow> None)"

definition forkItems :: "agent_state \<Rightarrow> append_item list" where
  "forkItems state =
     map forkInvocationItem (preCut pi_startedAtSeq state (pendingInvocations state))
     @ map (denyApprovalItem ''fork'' ''forked'') (preCut pa_startedAtSeq state (pendingApprovals state))
     @ map (cancelWaitItem ''forked'') (preCut cw_startedAtSeq state (pendingCredentialWaits state))
     @ (case preCutTurn state of Some turn \<Rightarrow> [forkTurnItem (ot_turnId turn)] | None \<Rightarrow> [])"

definition forkIntercept :: intercept where
  "forkIntercept state incoming ctx output =
     Inr (if incoming \<noteq> CommandIn Wake then output
          else if forkSeq state \<le> 0 then output
          else \<lparr> so_append = so_append output @ forkItems state,
                 so_effects = (if preCutTurn state \<noteq> None
                   then filter (\<lambda>effect. effectKind effect \<noteq> KModelCall) (so_effects output)
                   else so_effects output) \<rparr>)"

definition forkPolicy :: step_policy where
  "forkPolicy =
     \<lparr> pol_name = ''fork'', pol_intercept = forkIntercept,
       pol_transformAppend = None, pol_filterEphemeral = None \<rparr>"

text \<open>Silence.\<close>

definition silenceItem :: "append_item \<Rightarrow> append_item" where
  "silenceItem item =
     (if ai_payloadKind item = TurnOpened \<or> ai_payloadKind item = TurnClosed then item
      else item\<lparr>ai_publish := False\<rparr>)"

definition silentPolicy :: step_policy where
  "silentPolicy =
     \<lparr> pol_name = ''silent'',
       pol_intercept = (\<lambda>state incoming ctx output. Inr (output\<lparr>so_append := map silenceItem (so_append output)\<rparr>)),
       pol_transformAppend = Some (\<lambda>state items. map silenceItem items),
       pol_filterEphemeral = Some (\<lambda>state emit. None) \<rparr>"

definition defaultPolicies :: "step_policy list" where
  "defaultPolicies = [channelToolsPolicy, approvalGatePolicy, askUserPolicy, forkPolicy]"

subsection \<open>What every policy promises\<close>

text \<open>The identity of an event: its envelope id, kind and causality; payload and publication may be rewritten.\<close>

definition event_identity :: "append_item \<Rightarrow> string \<times> event_kind \<times> json" where
  "event_identity item = (ai_envelopeId item, ai_payloadKind item, ai_causality item)"

definition conservative :: "step_output \<Rightarrow> step_output \<Rightarrow> bool" where
  "conservative out out' \<longleftrightarrow>
     subseq (map event_identity (so_append out)) (map event_identity (so_append out')) \<and>
     subseq (map effectId (so_effects out')) (map effectId (so_effects out))"

lemma conservative_refl [simp]: "conservative out out"
  by (simp add: conservative_def)

lemma conservative_trans: "conservative a b \<Longrightarrow> conservative b c \<Longrightarrow> conservative a c"
  by (auto simp: conservative_def intro: subseq_order.trans)

text \<open>
  The interface of a list of policies: every intercept returns (none throws), keeps every event of
  its input in order and adds no effect. The client is the policy composition of the step.
\<close>

locale policy_stack =
  fixes policies :: "step_policy list"
  assumes intercept_returns:
      "p \<in> set policies \<Longrightarrow> \<exists>out'. pol_intercept p s incoming ctx out = Inr out' \<and> conservative out out'"
begin

lemma stack_returns:
  "set ps \<subseteq> set policies \<Longrightarrow> \<exists>out'. applyPolicies ps s incoming ctx out = Inr out' \<and> conservative out out'"
proof (induction ps arbitrary: out)
  case Nil
  then show ?case by (simp add: applyPolicies_def)
next
  case (Cons p ps)
  obtain out1 where 1: "pol_intercept p s incoming ctx out = Inr out1" "conservative out out1"
    using intercept_returns [of p s incoming ctx out] Cons.prems by auto
  obtain out2 where 2: "applyPolicies ps s incoming ctx out1 = Inr out2" "conservative out1 out2"
    using Cons.IH [of out1] Cons.prems by auto
  from 1 2 have "applyPolicies (p # ps) s incoming ctx out = Inr out2" by (simp add: applyPolicies_def)
  with 1 2 show ?case by (blast intro: conservative_trans)
qed

lemma compose_returns:
  assumes "tool_ids_usable s incoming"
  shows "\<exists>core out. coreStep classify s incoming ctx = Inr core \<and>
     composeStep classify policies s incoming ctx = Inr out \<and> conservative core out"
proof -
  obtain core where "coreStep classify s incoming ctx = Inr core"
    using eventStep_total [of s _ ctx] commandStep_total [of s _ ctx] assms by (cases incoming) auto
  with stack_returns [OF order_refl, of s incoming ctx core] show ?thesis
    by (auto simp: composeStep_def simp del: bind_res_Inr_iff)
qed

end

lemma routeItem_identity [simp]: "event_identity (routeItem s item) = event_identity item"
  by (simp add: routeItem_def event_identity_def)

lemma askItem_identity [simp]: "event_identity (askItem s t item) = event_identity item"
  by (simp add: askItem_def event_identity_def)

lemma silenceItem_identity [simp]: "event_identity (silenceItem item) = event_identity item"
  by (simp add: silenceItem_def event_identity_def)

lemma routeEffect_id [simp]: "effectId (routeEffect items d) = effectId d"
  by (cases d) (simp_all add: routeEffect_def effectId_def Let_def split: option.split)

lemma askEffect_id [simp]: "effectId (askEffect t ids d) = effectId d"
  by (cases d) (simp_all add: askEffect_def effectId_def Let_def)

lemma gateItem_identities:
  "subseq (map event_identity items) (map event_identity (concat (map (gateItem s ctx) items)))"
proof (induction items)
  case Nil
  then show ?case by simp
next
  case (Cons item items)
  then show ?case by (auto simp: gateItem_def event_identity_def)
qed

lemma map_comp_id: "(\<And>x. f (g x) = f x) \<Longrightarrow> map f (map g xs) = map f xs"
  by simp

lemma channelTools_conservative:
  "\<exists>out'. channelToolsIntercept s incoming ctx out = Inr out' \<and> conservative out out'"
  by (auto simp: channelToolsIntercept_def conservative_def Let_def comp_def)

lemma approvalGate_conservative:
  "\<exists>out'. approvalGateIntercept s incoming ctx out = Inr out' \<and> conservative out out'"
  using gateItem_identities [of "so_append out" s ctx]
  by (auto simp: approvalGateIntercept_def conservative_def Let_def intro: subseq_map)

lemma askUser_conservative:
  "\<exists>out'. askUserIntercept s incoming ctx out = Inr out' \<and> conservative out out'"
  by (auto simp: askUserIntercept_def conservative_def Let_def comp_def split: option.split)

lemma fork_conservative:
  "\<exists>out'. forkIntercept s incoming ctx out = Inr out' \<and> conservative out out'"
  by (auto simp: forkIntercept_def conservative_def intro: subseq_map)

lemma silent_conservative: "conservative out (out\<lparr>so_append := map silenceItem (so_append out)\<rparr>)"
  by (simp add: conservative_def comp_def)

interpretation default_stack: policy_stack defaultPolicies
  by unfold_locales
     (auto simp: defaultPolicies_def channelToolsPolicy_def approvalGatePolicy_def askUserPolicy_def
        forkPolicy_def channelTools_conservative approvalGate_conservative askUser_conservative fork_conservative)

interpretation silent_stack: policy_stack "defaultPolicies @ [silentPolicy]"
  by unfold_locales (auto simp: silentPolicy_def silent_conservative dest: default_stack.intercept_returns)

end
