(* ===== verification/Gating.thy ===== *)
theory Gating
  imports Policies
begin

text \<open>
  What the composed step (\<open>composeStep\<close> over \<open>defaultPolicies\<close>) folds to. The first three
  policies rewrite each \<open>invocation.started\<close> item on its own, so a batch of tool calls is followed
  item by item: an ungated call stays dispatchable, a gated one is pending with an approval request.
  The fork policy then settles what was pending before the fork.
\<close>

subsection \<open>The three rewriting policies, item by item\<close>

definition gateApplies :: "agent_state \<Rightarrow> append_item \<Rightarrow> bool" where
  "gateApplies s item \<longleftrightarrow> jget (config s) ''approvalLevel'' \<noteq> JNum 2 \<and> needsApproval s item"

definition askStep :: "agent_state \<Rightarrow> append_item \<Rightarrow> append_item" where
  "askStep s = (case promptingUser s of None \<Rightarrow> id | Some user \<Rightarrow> askItem s (jget user ''ref''))"

definition rewriteItem :: "agent_state \<Rightarrow> step_context \<Rightarrow> append_item \<Rightarrow> append_item list" where
  "rewriteItem s ctx item =
     (let routed = routeItem s item in
      map (askStep s) (if gateApplies s routed then gateItem s ctx routed else [routed]))"

lemma routeItem_started [simp]: "isInvocationStarted (routeItem s item) = isInvocationStarted item"
  by (simp add: routeItem_def isInvocationStarted_def)

lemma routeItem_causality [simp]: "ai_causality (routeItem s item) = ai_causality item"
  by (simp add: routeItem_def)

lemma routeItem_invocationId [simp]: "itemInvocationId (routeItem s item) = itemInvocationId item"
  by (simp add: itemInvocationId_def)

lemma routeItem_name [simp]: "jget (ai_payload (routeItem s item)) ''name'' = jget (ai_payload item) ''name''"
proof (cases "routable s item")
  case True
  then obtain ps where "ai_payload item = JObj ps" by (cases "ai_payload item") (auto simp: routable_def)
  with True show ?thesis by (simp add: routeItem_def jget_jspread)
next
  case False
  then show ?thesis by (simp add: routeItem_def)
qed

lemma routeItem_needsApproval [simp]: "needsApproval s (routeItem s item) = needsApproval s item"
  by (simp add: needsApproval_def itemToolName_def)

lemma routeItem_gateApplies [simp]: "gateApplies s (routeItem s item) = gateApplies s item"
  by (simp add: gateApplies_def)

lemma channelTools_items:
  "channelToolsIntercept s incoming ctx out = Inr out' \<Longrightarrow> so_append out' = map (routeItem s) (so_append out)"
proof -
  have "routeItem s item = item" if "rosterParticipants s = [] \<or> \<not> routable s item" for item
    using that by (auto simp: routeItem_def routable_def methodOwner_def)
  then have "map (routeItem s) (so_append out) = so_append out"
    if "rosterParticipants s = [] \<or> \<not> list_ex (routable s) (so_append out)"
    using that by (auto simp: list_ex_iff intro!: map_idI)
  then show "channelToolsIntercept s incoming ctx out = Inr out' \<Longrightarrow> ?thesis"
    by (auto simp: channelToolsIntercept_def Let_def split: if_splits)
qed

lemma concat_singletons: "\<forall>x \<in> set xs. f x = [x] \<Longrightarrow> concat (map f xs) = xs"
  by (induction xs) auto

lemma approvalGate_items:
  assumes "approvalGateIntercept s incoming ctx out = Inr out'"
  shows "so_append out' =
     concat (map (\<lambda>item. if gateApplies s item then gateItem s ctx item else [item]) (so_append out))"
proof -
  have "so_append out = concat (map (\<lambda>item. if gateApplies s item then gateItem s ctx item else [item]) (so_append out))"
    if "gatedIds s (so_append out) = [] \<or> jget (config s) ''approvalLevel'' = JNum 2"
    using that by (intro concat_singletons [symmetric])
       (auto simp: gatedIds_def gateApplies_def filter_empty_conv)
  moreover have "gateItem s ctx item = (if gateApplies s item then gateItem s ctx item else [item])"
    if "jget (config s) ''approvalLevel'' \<noteq> JNum 2" for item
    using that by (simp add: gateApplies_def gateItem_def)
  ultimately show ?thesis
    using assms by (auto simp: approvalGateIntercept_def Let_def split: if_splits intro!: arg_cong [of _ _ concat])
qed

lemma askUser_items:
  assumes "askUserIntercept s incoming ctx out = Inr out'"
  shows "so_append out' = map (askStep s) (so_append out)"
proof -
  have "askItem s t item = item" if "\<not> isAskUser item" for t item using that by (simp add: askItem_def)
  then have "map (askItem s t) (so_append out) = so_append out" if "filter isAskUser (so_append out) = []" for t
    using that by (auto simp: filter_empty_conv intro!: map_idI)
  with assms show ?thesis
    by (auto simp: askUserIntercept_def askStep_def Let_def split: option.splits if_splits)
qed

text \<open>The output of the composed step before the fork policy.\<close>

definition rewriting :: "step_policy list" where
  "rewriting = [channelToolsPolicy, approvalGatePolicy, askUserPolicy]"

lemma defaultPolicies_split: "defaultPolicies = rewriting @ [forkPolicy]"
  by (simp add: defaultPolicies_def rewriting_def)

lemma rewriting_items:
  assumes "applyPolicies rewriting s incoming ctx out = Inr out'"
  shows "so_append out' = concat (map (rewriteItem s ctx) (so_append out))"
proof -
  obtain o1 o2 where "channelToolsIntercept s incoming ctx out = Inr o1"
    "approvalGateIntercept s incoming ctx o1 = Inr o2" "askUserIntercept s incoming ctx o2 = Inr out'"
    using assms
    by (auto simp: applyPolicies_def rewriting_def channelToolsPolicy_def approvalGatePolicy_def askUserPolicy_def)
  then show ?thesis
    by (simp add: channelTools_items approvalGate_items askUser_items rewriteItem_def [abs_def] Let_def map_concat comp_def)
qed

lemma rewriting_identity:
  assumes "\<forall>item \<in> set (so_append out). \<not> isInvocationStarted item"
  shows "applyPolicies rewriting s incoming ctx out = Inr out"
proof -
  have "\<not> list_ex (routable s) (so_append out)" "gatedIds s (so_append out) = []"
    "filter isAskUser (so_append out) = []"
    using assms by (auto simp: list_ex_iff routable_def gatedIds_def needsApproval_def isAskUser_def filter_empty_conv)
  then show ?thesis
    by (simp add: applyPolicies_def rewriting_def channelToolsPolicy_def approvalGatePolicy_def askUserPolicy_def
        channelToolsIntercept_def approvalGateIntercept_def askUserIntercept_def Let_def split: option.split)
qed

subsection \<open>Folding a rewritten tool call\<close>

definition startedFor :: "string \<Rightarrow> append_item \<Rightarrow> bool" where
  "startedFor k item \<longleftrightarrow> isInvocationStarted item \<and> jget (ai_causality item) ''invocationId'' = JStr k \<and>
     is_plain_object (ai_payload item) \<and> truthy (jget (ai_payload item) ''transport'')"

definition requiresApprovalFlag :: "append_item \<Rightarrow> bool" where
  "requiresApprovalFlag item \<longleftrightarrow> jget (ai_payload item) ''requiresApproval'' = JBool True"

lemma startedFor_invocationId: "startedFor k item \<Longrightarrow> itemInvocationId item = k"
  by (simp add: startedFor_def itemInvocationId_def)

lemma startedFor_step: "startedFor (block_id b) (invocationStartedItem st m t b)"
  by (simp add: startedFor_def invocationStartedItem_def isInvocationStarted_def transport_truthy protocol_prop_def)

lemma step_not_flagged: "\<not> requiresApprovalFlag (invocationStartedItem st m t b)"
  by (simp add: requiresApprovalFlag_def invocationStartedItem_def protocol_prop_def)

lemma startedFor_route: "startedFor k item \<Longrightarrow> startedFor k (routeItem s item)"
  by (auto simp: startedFor_def routeItem_def isInvocationStarted_def is_plain_object_iff jget_jspread
      channelTransport_def)

lemma flag_route: "startedFor k item \<Longrightarrow> requiresApprovalFlag (routeItem s item) = requiresApprovalFlag item"
  by (auto simp: startedFor_def requiresApprovalFlag_def routeItem_def is_plain_object_iff jget_jspread)

lemma startedFor_ask: "startedFor k item \<Longrightarrow> startedFor k (askStep s item)"
  by (auto simp: startedFor_def askStep_def askItem_def isInvocationStarted_def is_plain_object_iff jget_jspread
      channelTransport_def split: option.split)

lemma flag_ask: "startedFor k item \<Longrightarrow> requiresApprovalFlag (askStep s item) = requiresApprovalFlag item"
  by (auto simp: startedFor_def requiresApprovalFlag_def askStep_def askItem_def is_plain_object_iff jget_jspread
      split: option.split)

lemma ask_other: "\<not> isInvocationStarted item \<Longrightarrow> askStep s item = item"
  by (simp add: askStep_def askItem_def isAskUser_def split: option.split)

lemma rewriteItem_ungated:
  assumes "startedFor k item" and "\<not> requiresApprovalFlag item" and "\<not> gateApplies s item"
  shows "\<exists>x. rewriteItem s ctx item = [x] \<and> startedFor k x \<and> \<not> requiresApprovalFlag x"
  using assms
  by (simp add: rewriteItem_def Let_def startedFor_ask startedFor_route flag_ask [of k] flag_route)

lemma rewriteItem_gated:
  assumes "startedFor k item" and "gateApplies s item"
  shows "\<exists>x y. rewriteItem s ctx item = [x, approvalRequestedItem ctx y] \<and> startedFor k x \<and>
     requiresApprovalFlag x \<and> itemInvocationId y = k"
proof -
  let ?r = "routeItem s item"
  let ?x = "?r\<lparr>ai_payload := JObj (jspread (own_props (ai_payload ?r)) [(''requiresApproval'', JBool True)])\<rparr>"
  have r: "startedFor k ?r" by (rule startedFor_route [OF assms(1)])
  then have x: "startedFor k ?x" "requiresApprovalFlag ?x"
    by (auto simp: startedFor_def requiresApprovalFlag_def isInvocationStarted_def is_plain_object_iff jget_jspread)
  have "\<not> isInvocationStarted (approvalRequestedItem ctx ?r)"
    by (simp add: approvalRequestedItem_def isInvocationStarted_def Let_def)
  then have "rewriteItem s ctx item = [askStep s ?x, approvalRequestedItem ctx ?r]"
    using assms(2) by (simp add: rewriteItem_def gateItem_def gateApplies_def Let_def ask_other)
  with x startedFor_invocationId [OF r] show ?thesis
    by (blast intro: startedFor_ask flag_ask [THEN iffD2])
qed

text \<open>The fields a tool call's start and approval request leave alone.\<close>

definition same_call :: "agent_state \<Rightarrow> agent_state \<Rightarrow> bool" where
  "same_call s s' \<longleftrightarrow> openTurn s' = openTurn s \<and> inFlightModelCall s' = inFlightModelCall s \<and>
     steeringQueue s' = steeringQueue s \<and> entries s' = entries s"

lemma projectOne_started:
  assumes "startedFor k item" and "k \<noteq> []"
  shows "\<exists>s' i. projectOne s now item = Inr s' \<and> pendingInvocations s' = dput k i (pendingInvocations s) \<and>
     pi_requiresApproval i = requiresApprovalFlag item \<and> pi_approvalState i = ApprovalNone \<and>
     pendingApprovals s' = pendingApprovals s \<and> same_call s s'"
proof -
  obtain ps cs where p: "ai_payload item = JObj ps" and c: "ai_causality item = JObj cs"
    using assms(1) by (cases "ai_causality item") (auto simp: startedFor_def is_plain_object_iff)
  show ?thesis
    using assms
    by (simp add: project_unfold startedFor_def isInvocationStarted_def foldInvocationStarted_def p c
        requiresApprovalFlag_def same_call_def)
       (intro exI conjI, rule refl, simp_all)
qed

lemma projectOne_approvalRequested:
  assumes "dget (pendingInvocations s) (itemInvocationId item) = Some i"
  shows "\<exists>s' i' a. projectOne s now (approvalRequestedItem ctx item) = Inr s' \<and>
     pendingInvocations s' = dput (itemInvocationId item) i' (pendingInvocations s) \<and>
     pi_requiresApproval i' = pi_requiresApproval i \<and> pi_approvalState i' = ApprovalPending \<and>
     pi_approvalId i' = Some (ids_approvalId (itemInvocationId item)) \<and>
     pendingApprovals s' = dput (ids_approvalId (itemInvocationId item)) a (pendingApprovals s) \<and>
     pa_invocationId a = itemInvocationId item \<and> same_call s s'"
  using assms
  by (simp add: project_unfold approvalRequestedItem_def foldApprovalRequested_def same_call_def
      ids_approvalId_def)
     (intro exI conjI, rule refl, simp, simp, simp, rule refl, simp)

text \<open>Pending, gated, and with an approval request of its own.\<close>

definition asked :: "agent_state \<Rightarrow> string \<Rightarrow> bool" where
  "asked s k \<longleftrightarrow> (\<exists>i a. dget (pendingInvocations s) k = Some i \<and> gated i \<and>
     dget (pendingApprovals s) (ids_approvalId k) = Some a \<and> pa_invocationId a = k)"

lemma project_rewritten:
  assumes "startedFor k item" and "k \<noteq> []" and "\<not> requiresApprovalFlag item"
  shows "\<exists>s'. projectAppend s (rewriteItem st ctx item) now = Inr s' \<and> same_call s s' \<and>
     (if gateApplies st item then asked s' k else startable s' k) \<and>
     (\<forall>j. j \<noteq> k \<longrightarrow> (startable s j \<longrightarrow> startable s' j) \<and> (asked s j \<longrightarrow> asked s' j))"
proof (cases "gateApplies st item")
  case False
  obtain x where x: "rewriteItem st ctx item = [x]" "startedFor k x" "\<not> requiresApprovalFlag x"
    using rewriteItem_ungated [OF assms(1,3) False] by blast
  obtain s' i where "projectOne s now x = Inr s'" "pendingInvocations s' = dput k i (pendingInvocations s)"
    "\<not> pi_requiresApproval i" "pendingApprovals s' = pendingApprovals s" "same_call s s'"
    using projectOne_started [OF x(2) assms(2)] x(3) by blast
  with x(1) False show ?thesis by (simp add: startable_def asked_def gated_def)
next
  case True
  obtain x y where x: "rewriteItem st ctx item = [x, approvalRequestedItem ctx y]" "startedFor k x"
    "requiresApprovalFlag x" and y: "itemInvocationId y = k"
    using rewriteItem_gated [OF assms(1) True] by blast
  obtain s1 i where s1: "projectOne s now x = Inr s1" "pendingInvocations s1 = dput k i (pendingInvocations s)"
    "pi_requiresApproval i" "pendingApprovals s1 = pendingApprovals s" "same_call s s1"
    using projectOne_started [OF x(2) assms(2)] x(3) by blast
  then have "dget (pendingInvocations s1) (itemInvocationId y) = Some i" using y by simp
  from projectOne_approvalRequested [OF this, of now ctx] obtain s' i' a where
    "projectOne s1 now (approvalRequestedItem ctx y) = Inr s'"
    "pendingInvocations s' = dput k i' (pendingInvocations s1)" "pi_requiresApproval i'"
    "pi_approvalState i' = ApprovalPending"
    "pendingApprovals s' = dput (ids_approvalId k) a (pendingApprovals s1)" "pa_invocationId a = k" "same_call s1 s'"
    unfolding y using s1(3) by metis
  with x(1) s1 True show ?thesis
    by (simp add: startable_def asked_def gated_def same_call_def ids_approvalId_def)
qed

lemma same_call_trans: "same_call a b \<Longrightarrow> same_call b c \<Longrightarrow> same_call a c"
  by (simp add: same_call_def)

text \<open>Started tool calls as the step builds them, and how the gate treats the calls of one id.\<close>

definition plain_start :: "append_item \<Rightarrow> bool" where
  "plain_start item \<longleftrightarrow> itemInvocationId item \<noteq> [] \<and> startedFor (itemInvocationId item) item \<and>
     \<not> requiresApprovalFlag item"

definition none_gated :: "agent_state \<Rightarrow> append_item list \<Rightarrow> string \<Rightarrow> bool" where
  "none_gated st items k \<longleftrightarrow> list_all (\<lambda>item. itemInvocationId item = k \<longrightarrow> \<not> gateApplies st item) items"

definition all_gated :: "agent_state \<Rightarrow> append_item list \<Rightarrow> string \<Rightarrow> bool" where
  "all_gated st items k \<longleftrightarrow> list_all (\<lambda>item. itemInvocationId item = k \<longrightarrow> gateApplies st item) items"

lemma project_rewritten_batch:
  assumes "list_all plain_start items"
  shows "\<exists>s'. projectAppend s (concat (map (rewriteItem st ctx) items)) now = Inr s' \<and> same_call s s' \<and>
     (\<forall>k. none_gated st items k \<longrightarrow> k \<in> itemInvocationId ` set items \<or> startable s k \<longrightarrow> startable s' k) \<and>
     (\<forall>k. all_gated st items k \<longrightarrow> k \<in> itemInvocationId ` set items \<or> asked s k \<longrightarrow> asked s' k)"
  using assms
proof (induction items arbitrary: s)
  case Nil
  then show ?case by (simp add: same_call_def)
next
  case (Cons item items)
  let ?j = "itemInvocationId item"
  have b: "startedFor ?j item" "?j \<noteq> []" "\<not> requiresApprovalFlag item"
    using Cons.prems by (simp_all add: plain_start_def)
  have r: "list_all plain_start items" using Cons.prems by simp
  obtain s1 where 1: "projectAppend s (rewriteItem st ctx item) now = Inr s1" "same_call s s1"
    "if gateApplies st item then asked s1 ?j else startable s1 ?j"
    "\<forall>k. k \<noteq> ?j \<longrightarrow> (startable s k \<longrightarrow> startable s1 k) \<and> (asked s k \<longrightarrow> asked s1 k)"
    using project_rewritten [OF b] by blast
  obtain s2 where 2: "projectAppend s1 (concat (map (rewriteItem st ctx) items)) now = Inr s2" "same_call s1 s2"
    and 3: "\<forall>k. none_gated st items k \<longrightarrow> k \<in> itemInvocationId ` set items \<or> startable s1 k \<longrightarrow> startable s2 k"
      "\<forall>k. all_gated st items k \<longrightarrow> k \<in> itemInvocationId ` set items \<or> asked s1 k \<longrightarrow> asked s2 k"
    using Cons.IH [OF r, of s1] by blast
  have "startable s2 k" if "none_gated st (item # items) k" "k \<in> itemInvocationId ` set (item # items) \<or> startable s k" for k
    using that 1(3,4) 3(1) by (cases "k = ?j") (auto simp: none_gated_def)
  moreover have "asked s2 k" if "all_gated st (item # items) k" "k \<in> itemInvocationId ` set (item # items) \<or> asked s k" for k
    using that 1(3,4) 3(2) by (cases "k = ?j") (auto simp: all_gated_def)
  ultimately show ?case
    using 1(1) 2 same_call_trans [OF 1(2) 2(2)] by (intro exI [of _ s2]) simp
qed

subsection \<open>The shape of a step's output\<close>

definition no_starts :: "step_output \<Rightarrow> bool" where
  "no_starts out \<longleftrightarrow> (\<forall>item \<in> set (so_append out). \<not> isInvocationStarted item)"

definition calls_only :: "step_output \<Rightarrow> bool" where
  "calls_only out \<longleftrightarrow> (\<forall>d \<in> set (so_effects out). effectKind d = KPublishEnvelope \<or>
     effectKind d = KModelCall \<and> (\<exists>m. effectId d = ids_modelEffect m))"

definition plain :: "step_output \<Rightarrow> bool" where
  "plain out \<longleftrightarrow> no_starts out \<and> calls_only out"

text \<open>A batch of tool calls, after items that cannot throw.\<close>

definition expansion :: "agent_state \<Rightarrow> step_context \<Rightarrow> json list \<Rightarrow> step_output \<Rightarrow> bool" where
  "expansion s ctx blocks out \<longleftrightarrow> (\<exists>pre s1 m t exp. list_all safe_item pre \<and>
     projectAppend s pre (ctx_now ctx) = Inr s1 \<and> openTurn s1 = openTurn s \<and>
     expandToolCalls s1 blocks m t ctx = Inr exp \<and> out = prependItems pre exp)"

lemma safe_not_started: "list_all safe_item items \<Longrightarrow> item \<in> set items \<Longrightarrow> \<not> isInvocationStarted item"
  by (auto simp: list_all_iff safe_item_def isInvocationStarted_def)

lemma plain_appendOnly [simp]: "list_all safe_item items \<Longrightarrow> plain (appendOnly items)"
  by (auto simp: plain_def no_starts_def calls_only_def appendOnly_def dest: safe_not_started)

lemma plain_EMPTY [simp]: "plain EMPTY"
  by (simp add: plain_def no_starts_def calls_only_def EMPTY_def)

lemma plain_prepend [simp]: "list_all safe_item items \<Longrightarrow> plain out \<Longrightarrow> plain (prependItems items out)"
  by (auto simp: plain_def no_starts_def calls_only_def prependItems_def dest: safe_not_started)

lemma modelStart_not_started:
  "modelStartItems st t n k = (item, effect) \<Longrightarrow> \<not> isInvocationStarted item"
  by (auto simp: modelStartItems_def isInvocationStarted_def Let_def)

lemma plain_model_start:
  assumes "modelStartItems st t n k = (item, effect)" and "list_all safe_item pre"
  shows "plain \<lparr> so_append = pre @ [item], so_effects = effect # readAckEffects a b c d e \<rparr>"
  using modelStart_kind [OF assms(1)] modelStart_not_started [OF assms(1)] safe_not_started [OF assms(2)]
    readAcks_publish [of _ a b c d e]
  by (auto simp: plain_def no_starts_def calls_only_def)

lemma plain_nextModelCall: "nextModelCall st k ctx f = Inr out \<Longrightarrow> plain out"
  using plain_model_start [where pre = "[]"]
  by (auto simp: nextModelCall_def Let_def split: option.splits if_splits prod.splits)

lemma plain_promotePendingPrompt:
  assumes "promotePendingPrompt st ctx pre = Inr out" and "list_all safe_item pre"
  shows "plain out"
  using assms plain_model_start [where pre = "pre @ [turnOpenedItem t md]" for t md]
  by (auto simp: promotePendingPrompt_def Let_def split: option.splits prod.splits)

lemma plain_promoteSteers: "promoteSteersAsTurn st ctx = Inr out \<Longrightarrow> plain out"
  using plain_model_start [where pre = "[turnOpenedItem t md]" for t md]
  by (auto simp: promoteSteersAsTurn_def Let_def split: list.splits prod.splits)

lemma plain_promoteDeferred: "promoteDeferredHead st ctx h = Inr out \<Longrightarrow> plain out"
  by (auto simp: promoteDeferredHead_def Let_def intro: plain_promotePendingPrompt)

lemma plain_openPromptTurn: "plain (openPromptTurn st c ctx)"
  using plain_model_start [where pre = "[recvItem c, turnOpenedItem t md]" for t md]
  by (auto simp: openPromptTurn_def Let_def split: prod.splits)

lemma plain_steer: "steerStep s c ctx = Inr out \<Longrightarrow> plain out"
  by (auto simp: steerStep_def Let_def split: if_splits dest: plain_nextModelCall)

lemma plain_interruptTurn: "interruptTurn s r ctx = Inr out \<Longrightarrow> plain out"
  by (auto simp: interruptTurn_def Let_def split: option.splits if_splits)

lemma plain_flushStep: "flushStep s ctx = Inr (Some out) \<Longrightarrow> plain out"
  by (auto simp: flushStep_def flushSteers_def flushDeferred_def split: if_splits list.splits option.splits
      dest: plain_promoteSteers plain_nextModelCall plain_promoteDeferred)

lemma plain_wakeContinue: "wakeContinue s items ctx = Inr out \<Longrightarrow> list_all safe_item items \<Longrightarrow> plain out"
  by (auto simp: wakeContinue_def split: option.splits if_splits
      dest: plain_nextModelCall plain_promotePendingPrompt)

lemma wake_shape:
  assumes "wakeStep s ctx = Inr out"
  shows "plain out \<or>
     (\<exists>blocks. expansion s ctx blocks out \<and> list_all (\<lambda>b. dget (pendingInvocations s) (block_id b) = None) blocks)"
proof -
  obtain s1 where s1: "projectAppend s (orphanItems s) (ctx_now ctx) = Inr s1"
    using projectAppend_safe [OF safe_item_lists(3)] by blast
  then have p: "pendingInvocations s1 = pendingInvocations s" and t: "openTurn s1 = openTurn s"
    using project_orphans by blast+
  let ?b = "snd (unprocessedToolCalls s1)"
  have u: "list_all (\<lambda>b. dget (pendingInvocations s) (block_id b) = None) ?b"
    unfolding p [symmetric]
    by (auto simp: unprocessedToolCalls_def list_all_iff split: option.split prod.split)
  have "expansion s ctx ?b (prependItems (orphanItems s) exp)" if "expandToolCalls s1 ?b m t ctx = Inr exp" for m t exp
    unfolding expansion_def using that s1 t by (intro exI conjI) simp_all
  with u have "?thesis" if "wakeExpand s1 (orphanItems s) ctx = Inr out"
    using that
    by (auto simp: wakeExpand_def split: option.splits prod.splits if_splits dest: plain_wakeContinue)
  with assms s1 show ?thesis by (auto simp: wakeStep_def Let_def split: if_splits)
qed

lemma commandStep_shape:
  assumes "commandStep s c ctx = Inr out"
  shows "plain out \<or> c = Wake \<and> (\<exists>blocks. expansion s ctx blocks out)"
proof (cases "c = Wake")
  case True
  with assms wake_shape [of s ctx out] show ?thesis by auto
next
  case False
  with assms show ?thesis
    by (cases c)
       (auto simp: promptStep_def editStep_def retractStep_def setConfigStep_def compactStep_def abortStep_def
          interruptStep_def resumeStep_def Let_def plain_openPromptTurn
          dest: plain_steer plain_flushStep plain_interruptTurn plain_nextModelCall
          split: if_splits option.splits)
qed

lemma expansion_event: "expandToolCalls s blocks m t ctx = Inr out \<Longrightarrow> expansion s ctx blocks out"
  unfolding expansion_def
  by (rule exI [of _ "[]"], rule exI [of _ s]) (auto simp: prependItems_def)

lemma eventStep_shape:
  assumes "eventStep s e ctx = Inr out"
  shows "no_starts out \<or> (\<exists>blocks. expansion s ctx blocks out)"
proof -
  have n: "plain out \<Longrightarrow> ?thesis" by (simp add: plain_def)
  have e: "no_starts EMPTY" by (simp add: no_starts_def EMPTY_def)
  have "modelTerminalStep s e ctx = Inr out \<Longrightarrow> ?thesis"
    using n by (auto simp: modelTerminalStep_def Let_def split: option.splits if_splits
        dest: plain_nextModelCall expansion_event)
  moreover have "turnClosedStep s ctx = Inr out \<Longrightarrow> ?thesis"
    using n by (auto simp: turnClosedStep_def split: list.splits if_splits
        dest: plain_promoteSteers plain_promoteDeferred)
  moreover have "modelFailedStep s e ctx = Inr out \<Longrightarrow> ?thesis"
    using n by (auto simp: modelFailedStep_def Let_def split: option.splits if_splits dest: plain_nextModelCall)
  moreover have "invocationTerminalStep s ctx = Inr out \<Longrightarrow> ?thesis"
    using n by (auto simp: invocationTerminalStep_def split: option.splits if_splits dest: plain_nextModelCall)
  moreover have "systemEventStep s e ctx = Inr out \<Longrightarrow> ?thesis"
    using n by (auto simp: systemEventStep_def Let_def split: option.splits if_splits dest: plain_nextModelCall)
  moreover have "no_starts (approvalResolvedStep s e)"
    by (simp add: approvalResolvedStep_def no_starts_def EMPTY_def appendOnly_def deniedInvocationItem_def
        isInvocationStarted_def Let_def split: option.split)
  ultimately show ?thesis
    using assms e by (cases "env_payloadKind e") (auto simp: eventStep_def split: if_splits)
qed

lemma effectFailed_shape: "plain (effectFailedStep classify s eid kind m ctx)"
  unfolding effectFailedStep_def modelCallFailed_def credentialWaitFailed_def approvalFormFailed_def
    unmappedEffectFailed_def invocationDispatchFailed_def Let_def
  by (auto split: option.split)

subsection \<open>Effects of a batch of tool calls under the policies\<close>

definition tool_effects :: "(string \<Rightarrow> bool) \<Rightarrow> step_output \<Rightarrow> bool" where
  "tool_effects K out \<longleftrightarrow> (\<forall>d \<in> set (so_effects out). isInvocationEffect d \<and>
     effectId d = ids_invocationEffect (ef_invocationId d) \<and> K (ef_invocationId d))"

lemma expandBlocks_output:
  assumes "wf_state p" and "expandBlocks st m t now p blocks = Inr out"
  shows "so_append out = map (invocationStartedItem st m t) blocks \<and>
     tool_effects (\<lambda>k. k \<in> block_id ` set blocks) out"
  using assms
proof (induction blocks arbitrary: p out)
  case Nil
  then show ?case by (auto simp: EMPTY_def tool_effects_def)
next
  case (Cons b blocks)
  let ?item = "invocationStartedItem st m t b"
  obtain q i r where q: "projectOne p now ?item = Inr q"
    and i: "dget (pendingInvocations q) (block_id b) = Some i"
    and r: "expandBlocks st m t now q blocks = Inr r"
    and out: "out = \<lparr> so_append = ?item # so_append r, so_effects = invocationEffect q i # so_effects r \<rparr>"
    using Cons.prems(2) by (auto simp: Let_def split: option.splits)
  have w: "wf_state q" by (rule projectOne_wf [OF Cons.prems(1) q])
  have "pi_invocationId i = block_id b" using keyed_dgetD [OF wf_stateD(1) [OF w] i] by simp
  then have "isInvocationEffect (invocationEffect q i) \<and> ef_invocationId (invocationEffect q i) = block_id b \<and>
      effectId (invocationEffect q i) = ids_invocationEffect (block_id b)"
    by (simp add: isInvocationEffect_def) (simp add: invocationEffect_def Let_def)
  with Cons.IH [OF w r] out show ?case by (auto simp: tool_effects_def)
qed

lemma routeEffect_tool [simp]:
  "isInvocationEffect (routeEffect items d) = isInvocationEffect d"
  "isInvocationEffect d \<Longrightarrow> ef_invocationId (routeEffect items d) = ef_invocationId d"
  by (cases d; simp add: routeEffect_def isInvocationEffect_def Let_def split: option.split)+

lemma askEffect_tool [simp]:
  "isInvocationEffect (askEffect t rs d) = isInvocationEffect d"
  "isInvocationEffect d \<Longrightarrow> ef_invocationId (askEffect t rs d) = ef_invocationId d"
  by (cases d; simp add: askEffect_def isInvocationEffect_def Let_def)+

lemma channelTools_effects:
  "channelToolsIntercept s incoming ctx out = Inr out' \<Longrightarrow> tool_effects K out \<Longrightarrow> tool_effects K out'"
  by (auto simp: channelToolsIntercept_def tool_effects_def Let_def split: if_splits)

lemma askUser_effects:
  "askUserIntercept s incoming ctx out = Inr out' \<Longrightarrow> tool_effects K out \<Longrightarrow> tool_effects K out'"
  by (auto simp: askUserIntercept_def tool_effects_def Let_def split: option.splits if_splits)

lemma approvalGate_effects:
  "approvalGateIntercept s incoming ctx out = Inr out' \<Longrightarrow> tool_effects K out \<Longrightarrow>
     tool_effects (\<lambda>k. K k \<and> none_gated s (so_append out) k) out'"
  by (auto simp: approvalGateIntercept_def tool_effects_def none_gated_def gateApplies_def gatedIds_def
      list_all_iff filter_empty_conv image_iff Let_def split: if_splits) metis

lemma none_gated_route [simp]: "none_gated s (map (routeItem s) items) k = none_gated s items k"
  by (simp add: none_gated_def list_all_iff)

lemma rewriting_effects:
  assumes "applyPolicies rewriting s incoming ctx out = Inr out'" and "tool_effects K out"
  shows "tool_effects (\<lambda>k. K k \<and> none_gated s (so_append out) k) out'"
proof -
  obtain o1 o2 where o: "channelToolsIntercept s incoming ctx out = Inr o1"
    "approvalGateIntercept s incoming ctx o1 = Inr o2" "askUserIntercept s incoming ctx o2 = Inr out'"
    using assms(1)
    by (auto simp: applyPolicies_def rewriting_def channelToolsPolicy_def approvalGatePolicy_def askUserPolicy_def)
  have "tool_effects (\<lambda>k. K k \<and> none_gated s (so_append o1) k) o2"
    by (rule approvalGate_effects [OF o(2) channelTools_effects [OF o(1) assms(2)]])
  with askUser_effects [OF o(3)] show ?thesis by (simp add: channelTools_items [OF o(1)])
qed

lemma rewriteItem_other: "\<not> isInvocationStarted item \<Longrightarrow> rewriteItem s ctx item = [item]"
  by (simp add: rewriteItem_def gateApplies_def needsApproval_def routeItem_def routable_def ask_other Let_def)

lemma rewrite_safe: "list_all safe_item pre \<Longrightarrow> concat (map (rewriteItem s ctx) pre) = pre"
  by (rule concat_singletons) (auto simp: rewriteItem_other dest: safe_not_started)

lemma plain_start_step: "block_id b \<noteq> [] \<Longrightarrow> plain_start (invocationStartedItem st m t b)"
  using startedFor_step [of b st m t]
  by (simp add: plain_start_def startedFor_invocationId step_not_flagged)

lemma safe_none_gated: "list_all safe_item pre \<Longrightarrow> none_gated s (pre @ items) k = none_gated s items k"
  by (auto simp: none_gated_def list_all_iff gateApplies_def needsApproval_def safe_item_def isInvocationStarted_def)

text \<open>The folded result of a rewritten batch: an invocation none of whose calls is gated is
  dispatchable, one whose calls are all gated waits for its approval.\<close>

lemma rewriting_expansion:
  assumes "wf_state s" and "expansion s ctx blocks out" and "applyPolicies rewriting s incoming ctx out = Inr out'"
  shows "\<exists>s'. projectAppend s (so_append out') (ctx_now ctx) = Inr s' \<and> wf_state s' \<and>
     openTurn s' = openTurn s \<and>
     tool_effects (\<lambda>k. k \<in> block_id ` set blocks \<and> none_gated s (so_append out) k \<and> startable s' k) out' \<and>
     itemInvocationId ` set (filter isInvocationStarted (so_append out)) = block_id ` set blocks \<and>
     (\<forall>k \<in> block_id ` set blocks. all_gated s (filter isInvocationStarted (so_append out)) k \<longrightarrow> asked s' k)"
proof -
  obtain pre s1 m t exp where e: "list_all safe_item pre" "projectAppend s pre (ctx_now ctx) = Inr s1"
    "expandBlocks s1 m t (ctx_now ctx) s1 blocks = Inr exp" "out = prependItems pre exp" "openTurn s1 = openTurn s"
    using assms(2) by (auto simp: expansion_def expandToolCalls_def)
  have w: "wf_state s1" by (rule projectAppend_wf [OF assms(1) e(2)])
  let ?items = "map (invocationStartedItem s1 m t) blocks"
  have x: "so_append exp = ?items" "tool_effects (\<lambda>k. k \<in> block_id ` set blocks) exp"
    using expandBlocks_output [OF w e(3)] by simp_all
  have ids: "itemInvocationId ` set ?items = block_id ` set blocks"
    using startedFor_invocationId [OF startedFor_step] by (simp add: image_comp)
  have "list_all plain_start ?items"
    using expandBlocks_nonempty_ids [OF w e(3)] by (simp add: list_all_iff plain_start_step)
  from project_rewritten_batch [OF this, of s1 s ctx "ctx_now ctx"] obtain s' where
    s': "projectAppend s1 (concat (map (rewriteItem s ctx) ?items)) (ctx_now ctx) = Inr s'"
    "\<forall>k. none_gated s ?items k \<longrightarrow> k \<in> block_id ` set blocks \<or> startable s1 k \<longrightarrow> startable s' k"
    "\<forall>k. all_gated s ?items k \<longrightarrow> k \<in> block_id ` set blocks \<or> asked s1 k \<longrightarrow> asked s' k"
    "same_call s1 s'"
    unfolding ids by blast
  have a: "so_append out = pre @ ?items" using e(4) x(1) by (simp add: prependItems_def)
  have p: "projectAppend s (so_append out') (ctx_now ctx) = Inr s'"
    unfolding rewriting_items [OF assms(3)] a using e(2) s'(1) by (simp add: rewrite_safe [OF e(1)])
  have g: "none_gated s (so_append out) k = none_gated s ?items k" for k
    unfolding a by (rule safe_none_gated [OF e(1)])
  have f: "filter isInvocationStarted (so_append out) = ?items"
    unfolding a using safe_not_started [OF e(1)]
    by (simp add: filter_empty_conv) (simp add: invocationStartedItem_def isInvocationStarted_def filter_id_conv)
  have "tool_effects (\<lambda>k. k \<in> block_id ` set blocks) out" using x(2) e(4) by (simp add: tool_effects_def prependItems_def)
  from rewriting_effects [OF assms(3) this] s'(2) have
    "tool_effects (\<lambda>k. k \<in> block_id ` set blocks \<and> none_gated s (so_append out) k \<and> startable s' k) out'"
    by (auto simp: tool_effects_def g)
  moreover have "openTurn s' = openTurn s" using s'(4) e(5) by (simp add: same_call_def)
  ultimately show ?thesis using p s'(3) projectAppend_wf [OF assms(1) p] unfolding f ids by blast
qed

subsection \<open>Settling at a fork\<close>

text \<open>Items that leave the model call and an undecided invocation alone.\<close>

definition quiet :: "string \<Rightarrow> append_item \<Rightarrow> bool" where
  "quiet k item \<longleftrightarrow> safe_item item \<and> (\<forall>s now s'. projectOne s now item = Inr s' \<longrightarrow>
     inFlightModelCall s' = inFlightModelCall s \<and> openTurn s' = openTurn s \<and> (startable s k \<longrightarrow> startable s' k))"

lemma project_quiet:
  "list_all (quiet k) items \<Longrightarrow> projectAppend s items now = Inr s' \<Longrightarrow>
     inFlightModelCall s' = inFlightModelCall s \<and> openTurn s' = openTurn s \<and> (startable s k \<longrightarrow> startable s' k)"
proof (induction items arbitrary: s)
  case Nil
  then show ?case by simp
next
  case (Cons item items)
  then obtain t where "projectOne s now item = Inr t" "projectAppend t items now = Inr s'" by auto
  with Cons show ?case by (auto simp: quiet_def)
qed

lemma safe_fork [simp]: "safe_item (forkInvocationItem i)" "safe_item (forkTurnItem t)"
  by (simp_all add: forkInvocationItem_def forkTurnItem_def)

lemma quiet_forkInvocation: "pi_invocationId i \<noteq> k \<Longrightarrow> quiet k (forkInvocationItem i)"
  by (auto simp: quiet_def project_unfold forkInvocationItem_def foldInvocationTerminal_def startable_def
      split: option.splits)

lemma quiet_deny: "quiet k (denyApprovalItem v r a)"
  by (auto simp: quiet_def)
     (auto simp: project_unfold denyApprovalItem_def foldApprovalResolved_def startable_def split: option.splits)

lemma quiet_cancelWait: "quiet k (cancelWaitItem r w)"
  by (auto simp: quiet_def)
     (auto simp: project_unfold cancelWaitItem_def foldSystemEvent_def foldCredentialWaitSettled_def
        detailKindOf_def eventDetails_def payloadOrDetail_def startable_def split: if_splits option.splits)

lemma projectAppend_then:
  "projectAppend s xs now = Inr s1 \<Longrightarrow> projectAppend s1 ys now = Inr s2 \<Longrightarrow> projectAppend s (xs @ ys) now = Inr s2"
  by simp

lemma fork_projects:
  assumes "wf_state st"
  shows "\<exists>s'. projectAppend s (forkItems st) now = Inr s' \<and>
     (\<forall>k. dget (pendingInvocations st) k = None \<longrightarrow> startable s k \<longrightarrow> startable s' k) \<and>
     (if preCutTurn st = None then inFlightModelCall s' = inFlightModelCall s
      else openTurn s = openTurn st \<longrightarrow> openTurn s' = None)"
proof -
  let ?settle = "map forkInvocationItem (preCut pi_startedAtSeq st (pendingInvocations st))
     @ map (denyApprovalItem ''fork'' ''forked'') (preCut pa_startedAtSeq st (pendingApprovals st))
     @ map (cancelWaitItem ''forked'') (preCut cw_startedAtSeq st (pendingCredentialWaits st))"
  have "pi_invocationId i \<noteq> k" if "dget (pendingInvocations st) k = None" "i \<in> snd ` set (pendingInvocations st)" for i k
    using that wf_stateD(1) [OF assms] by (force simp: keyed_def map_of_eq_None_iff)
  then have q: "list_all (quiet k) ?settle" if "dget (pendingInvocations st) k = None" for k
    using that by (auto simp: list_all_iff preCut_def quiet_deny quiet_cancelWait intro!: quiet_forkInvocation)
  have "list_all safe_item ?settle" by (auto simp: list_all_iff)
  then obtain s1 where s1: "projectAppend s ?settle now = Inr s1" using projectAppend_safe by blast
  have "dget (pendingInvocations st) [] = None"
    using keyed_dgetD [OF wf_stateD(1) [OF assms], of "[]"] by (cases "dget (pendingInvocations st) []") auto
  with project_quiet [OF q s1] have k: "inFlightModelCall s1 = inFlightModelCall s" "openTurn s1 = openTurn s"
    "\<And>k. dget (pendingInvocations st) k = None \<Longrightarrow> startable s k \<Longrightarrow> startable s1 k"
    by blast+
  have t: "\<exists>s2. projectOne s1 now (forkTurnItem t) = Inr s2 \<and> (\<forall>k. startable s1 k \<longrightarrow> startable s2 k) \<and>
      ((\<exists>turn. openTurn s1 = Some turn \<and> ot_turnId turn = t) \<longrightarrow> openTurn s2 = None)" for t
    by (auto simp: project_unfold forkTurnItem_def foldTurnClosed_def startable_def split: option.split)
  show ?thesis
  proof (cases "preCutTurn st")
    case None
    then have f: "forkItems st = ?settle" by (simp add: forkItems_def)
    show ?thesis unfolding f by (intro exI [of _ s1] conjI) (use s1 k None in simp_all)
  next
    case (Some turn)
    then have f: "forkItems st = ?settle @ [forkTurnItem (ot_turnId turn)]" by (simp add: forkItems_def)
    from Some have o: "openTurn st = Some turn" by (simp add: preCutTurn_def split: option.splits if_splits)
    obtain s2 where "projectOne s1 now (forkTurnItem (ot_turnId turn)) = Inr s2"
      "\<forall>k. startable s1 k \<longrightarrow> startable s2 k" "openTurn s = openTurn st \<longrightarrow> openTurn s2 = None"
      using t [of "ot_turnId turn"] k(2) o by auto
    then show ?thesis unfolding f using k(3) Some
      by (intro exI [of _ s2] conjI projectAppend_then [OF s1]) simp_all
  qed
qed

subsection \<open>Reconstructibility under the default policies\<close>

lemma derivable_tool_effects:
  assumes "projectAppend s (so_append out) now = Inr s'" and "wf_state s'" and "tool_effects (startable s') out"
  shows "derivable_from s now out"
  using assms startable_derivable [OF assms(2)] by (auto simp: derivable_from_def tool_effects_def)

lemma model_effect_in_flight:
  assumes "wf_state s"
  shows "ids_modelEffect m \<in> set (map effectId (derivePendingEffects s)) \<longleftrightarrow>
     (\<exists>c. inFlightModelCall s = Some c \<and> mc_messageId c = m)"
  by (cases "inFlightModelCall s") (auto simp: pending_effect_ids [OF assms(1)])

text \<open>The two shapes a wake can have survive the fork policy.\<close>

lemma fork_derivable_plain:
  assumes "wf_state s" and "plain out" and "derivable_from s now out" and "forkIntercept s incoming ctx out = Inr out'"
  shows "derivable_from s now out'"
proof (cases "out' = out")
  case False
  then have o: "so_append out' = so_append out @ forkItems s"
    "so_effects out' = (if preCutTurn s \<noteq> None then filter (\<lambda>d. effectKind d \<noteq> KModelCall) (so_effects out) else so_effects out)"
    using assms(4) by (auto simp: forkIntercept_def split: if_splits)
  obtain s1 where s1: "projectAppend s (so_append out) now = Inr s1"
    "\<forall>d \<in> set (so_effects out). effectKind d \<noteq> KPublishEnvelope \<longrightarrow> effectId d \<in> set (map effectId (derivePendingEffects s1))"
    using assms(3) by (auto simp: derivable_from_def)
  obtain s2 where s2: "projectAppend s1 (forkItems s) now = Inr s2"
    "preCutTurn s = None \<longrightarrow> inFlightModelCall s2 = inFlightModelCall s1"
    using fork_projects [OF assms(1)] by (metis (full_types))
  have w: "wf_state s1" "wf_state s2" using projectAppend_wf assms(1) s1(1) s2(1) by blast+
  have "effectId d \<in> set (map effectId (derivePendingEffects s2))"
    if d: "d \<in> set (so_effects out')" "effectKind d \<noteq> KPublishEnvelope" for d
  proof -
    from d o(2) assms(2) obtain m where m: "effectId d = ids_modelEffect m" "d \<in> set (so_effects out)" "preCutTurn s = None"
      by (fastforce simp: plain_def calls_only_def split: if_splits)
    with s1(2) d(2) have "effectId d \<in> set (map effectId (derivePendingEffects s1))" by blast
    with m s2(2) show ?thesis by (simp add: model_effect_in_flight w del: set_map)
  qed
  with s1(1) s2(1) o(1) show ?thesis by (simp add: derivable_from_def)
qed (use assms in simp)

lemma fork_derivable_tools:
  assumes "wf_state s" and "projectAppend s (so_append out) now = Inr s1"
    and "tool_effects (\<lambda>k. dget (pendingInvocations s) k = None \<and> startable s1 k) out"
    and "forkIntercept s incoming ctx out = Inr out'"
  shows "derivable_from s now out'"
proof -
  obtain s2 where s2: "projectAppend s1 (forkItems s) now = Inr s2"
    "\<forall>k. dget (pendingInvocations s) k = None \<longrightarrow> startable s1 k \<longrightarrow> startable s2 k"
    using fork_projects [OF assms(1)] by blast
  have w: "wf_state s1" "wf_state s2" using projectAppend_wf assms(1,2) s2(1) by blast+
  show ?thesis
  proof (cases "out' = out")
    case True
    with assms(2,3) w(1) show ?thesis by (intro derivable_tool_effects) (auto simp: tool_effects_def)
  next
    case False
    then have o: "so_append out' = so_append out @ forkItems s" "set (so_effects out') \<subseteq> set (so_effects out)"
      using assms(4) by (auto simp: forkIntercept_def split: if_splits)
    show ?thesis
      by (rule derivable_tool_effects [OF _ w(2)])
         (use o assms(2,3) s2 in \<open>auto simp: tool_effects_def\<close>)
  qed
qed

lemma fork_not_wake: "incoming \<noteq> CommandIn Wake \<Longrightarrow> forkIntercept s incoming ctx out = Inr out"
  by (simp add: forkIntercept_def)

lemma composed_split:
  assumes "composeStep classify defaultPolicies s incoming ctx = Inr out"
  obtains core rewritten where "coreStep classify s incoming ctx = Inr core"
    and "applyPolicies rewriting s incoming ctx core = Inr rewritten"
    and "forkIntercept s incoming ctx rewritten = Inr out"
  using assms
  by (auto simp: composeStep_def defaultPolicies_split applyPolicies_def fold_res_append forkPolicy_def)

lemma composed_derivable:
  assumes "wf_state s" and "composeStep classify defaultPolicies s incoming ctx = Inr out"
    and "\<And>core. coreStep classify s incoming ctx = Inr core \<Longrightarrow> derivable_from s (ctx_now ctx) core"
  shows "derivable_from s (ctx_now ctx) out"
proof -
  obtain core rw where c: "coreStep classify s incoming ctx = Inr core"
    "applyPolicies rewriting s incoming ctx core = Inr rw" "forkIntercept s incoming ctx rw = Inr out"
    using composed_split [OF assms(2)] by blast
  have n: "?thesis" if "no_starts core" "plain core \<or> incoming \<noteq> CommandIn Wake"
  proof -
    have "rw = core" using that(1) c(2) rewriting_identity [of core s incoming ctx] by (simp add: no_starts_def)
    with that(2) c fork_derivable_plain [OF assms(1) _ assms(3)] fork_not_wake assms(3) show ?thesis by fastforce
  qed
  have e: "?thesis" if x: "expansion s ctx blocks core"
    and f: "incoming \<noteq> CommandIn Wake \<or> list_all (\<lambda>b. dget (pendingInvocations s) (block_id b) = None) blocks" for blocks
  proof -
    obtain s1 where s1: "projectAppend s (so_append rw) (ctx_now ctx) = Inr s1" "wf_state s1"
      "tool_effects (\<lambda>k. k \<in> block_id ` set blocks \<and> none_gated s (so_append core) k \<and> startable s1 k) rw"
      using rewriting_expansion [OF assms(1) x c(2)] by blast
    show ?thesis
    proof (cases "incoming = CommandIn Wake")
      case True
      with f s1(3) have "tool_effects (\<lambda>k. dget (pendingInvocations s) k = None \<and> startable s1 k) rw"
        by (auto simp: tool_effects_def list_all_iff)
      then show ?thesis by (rule fork_derivable_tools [OF assms(1) s1(1) _ c(3)])
    next
      case False
      with c(3) fork_not_wake have "out = rw" by simp
      moreover have "derivable_from s (ctx_now ctx) rw"
        by (rule derivable_tool_effects [OF s1(1,2)]) (use s1(3) in \<open>auto simp: tool_effects_def\<close>)
      ultimately show ?thesis by simp
    qed
  qed
  show ?thesis
  proof (cases incoming)
    case (CommandIn cmd)
    with c(1) have s: "commandStep s cmd ctx = Inr core" by simp
    show ?thesis
    proof (cases "cmd = Wake")
      case True
      with s wake_shape [of s ctx core] n e show ?thesis by (auto simp: plain_def)
    next
      case False
      with commandStep_shape [OF s] n show ?thesis by (simp add: plain_def)
    qed
  next
    case (EventAppended ev)
    with c(1) eventStep_shape [of s ev ctx core] n e show ?thesis by auto
  next
    case (EffectFailed eid kind msg att)
    with c(1) effectFailed_shape n show ?thesis by (auto simp: plain_def)
  qed
qed

subsection \<open>Properties\<close>


lemma sample_state_wf: "wf_state sample_state"
  by (simp add: sample_defs wf_state_def)

lemma sample_terminal_usable: "tool_ids_usable sample_state (EventAppended sample_terminal)"
  by code_simp




lemma asked_effects:
  assumes "wf_state s" and "asked s k"
  shows "ids_invocationEffect k \<notin> set (map effectId (derivePendingEffects s)) \<and>
     ids_approvalFormEffect (ids_approvalId k) \<in> set (map effectId (derivePendingEffects s))"
proof -
  obtain i a where i: "dget (pendingInvocations s) k = Some i" "gated i"
    "dget (pendingApprovals s) (ids_approvalId k) = Some a" using assms(2) by (auto simp: asked_def)
  then have "ids_approvalId k \<in> fst ` set (pendingApprovals s)" by (metis map_of_eq_None_iff option.distinct(1))
  then have "ids_approvalFormEffect (ids_approvalId k) \<in> set (map effectId (derivePendingEffects s))"
    by (auto simp: pending_effect_ids [OF assms(1)] image_iff)
  moreover have "ids_invocationEffect k \<notin> set (map effectId (derivePendingEffects s))"
    using undispatched_iff [OF assms(1) i(1)] i(2)
    by (auto simp: pending_effect_ids [OF assms(1)] split: option.split)
  ultimately show ?thesis by blast
qed


definition sample_core :: "step_output res" where
  "sample_core = coreStep sample_classify sample_state (EventAppended sample_terminal) sample_ctx"

lemma sample_core_items:
  "case sample_core of Inl _ \<Rightarrow> False
   | Inr core \<Rightarrow> map itemInvocationId (so_append core) = [''i7''] \<and> list_all (needsApproval sample_state) (so_append core)"
  by code_simp


end
