(* ===== verification/Forks.thy ===== *)
theory Forks
  imports Gating
begin

text \<open>
  Single policies: what the fork policy settles and what it leaves running, where the channel-tools
  policy sends a tool call, and what the silent policy lets through.
\<close>

subsection \<open>What a fork settles\<close>

lemma keyed_filter_keys:
  assumes "keyed key ok d"
  shows "filter (\<lambda>p. fst p \<notin> key ` set (filter P (map snd d))) d = filter (\<lambda>p. \<not> P (snd p)) d"
proof (rule filter_cong [OF refl])
  fix p assume p: "p \<in> set d"
  obtain k v where kv: "p = (k, v)" by (cases p)
  have "k = key v" and u: "\<And>v'. (k, v') \<in> set d \<Longrightarrow> v' = v"
    using assms p kv by (auto simp: keyed_def dest: eq_key_imp_eq_value)
  have "fst p \<in> key ` set (filter P (map snd d)) \<longleftrightarrow> P v"
  proof
    assume "fst p \<in> key ` set (filter P (map snd d))"
    then obtain k' v' where "(k', v') \<in> set d" "P v'" "key v' = k" using kv by auto
    moreover from this have "k' = k" using assms by (auto simp: keyed_def)
    ultimately show "P v" using u by auto
  next
    assume "P v"
    with p kv \<open>k = key v\<close> show "fst p \<in> key ` set (filter P (map snd d))" by force
  qed
  then show "(fst p \<notin> key ` set (filter P (map snd d))) = (\<not> P (snd p))" using kv by simp
qed

lemma keep_post_cut:
  "keyed key ok d \<Longrightarrow> filter (\<lambda>p. fst p \<notin> key ` set (preCut f st d)) d = filter (\<lambda>p. f (snd p) > forkSeq st) d"
  unfolding preCut_def by (subst keyed_filter_keys, assumption) (simp add: not_le)

text \<open>The fields no settling item touches.\<close>

definition same_turn :: "agent_state \<Rightarrow> agent_state \<Rightarrow> bool" where
  "same_turn s s' \<longleftrightarrow> openTurn s' = openTurn s \<and> steeringQueue s' = steeringQueue s \<and>
     deferredPostTurnQueue s' = deferredPostTurnQueue s \<and> pendingPrompt s' = pendingPrompt s"

lemma ddel_filter: "ddel k d = filter (\<lambda>p. fst p \<noteq> k) d"
  unfolding AList.delete_eq by (rule filter_cong) auto

lemma dget_None_filter: "dget d k = None \<Longrightarrow> filter (\<lambda>p. fst p \<noteq> k) d = d"
  by (auto simp: map_of_eq_None_iff filter_id_conv)

lemma projectOne_forkInvocation:
  "\<exists>s'. projectOne s now (forkInvocationItem i) = Inr s' \<and>
     pendingInvocations s' = filter (\<lambda>p. fst p \<noteq> pi_invocationId i) (pendingInvocations s) \<and>
     pendingApprovals s' = pendingApprovals s \<and> pendingCredentialWaits s' = pendingCredentialWaits s \<and>
     same_turn s s'"
  by (cases "dget (pendingInvocations s) (pi_invocationId i)")
     (simp_all add: project_unfold forkInvocationItem_def foldInvocationTerminal_def ddel_filter
        dget_None_filter same_turn_def)

lemma projectOne_forkApproval:
  "\<exists>s'. projectOne s now (denyApprovalItem v r a) = Inr s' \<and>
     pendingApprovals s' = filter (\<lambda>p. fst p \<noteq> pa_approvalId a) (pendingApprovals s) \<and>
     pendingInvocations s' = pendingInvocations s \<and> pendingCredentialWaits s' = pendingCredentialWaits s \<and>
     same_turn s s'"
  by (cases "dget (pendingApprovals s) (pa_approvalId a)")
     (simp_all add: project_unfold denyApprovalItem_def foldApprovalResolved_def ddel_filter
        dget_None_filter same_turn_def split: option.split)

lemma projectOne_forkWait:
  "\<exists>s'. projectOne s now (cancelWaitItem r w) = Inr s' \<and>
     pendingCredentialWaits s' = filter (\<lambda>p. fst p \<noteq> cw_credKey w) (pendingCredentialWaits s) \<and>
     pendingInvocations s' = pendingInvocations s \<and> pendingApprovals s' = pendingApprovals s \<and>
     same_turn s s'"
  by (cases "dget (pendingCredentialWaits s) (cw_credKey w)")
     (simp_all add: project_unfold cancelWaitItem_def foldSystemEvent_def foldCredentialWaitSettled_def
        detailKindOf_def eventDetails_def payloadOrDetail_def ddel_filter dget_None_filter same_turn_def)

lemma same_turn_trans: "same_turn a b \<Longrightarrow> same_turn b c \<Longrightarrow> same_turn a c"
  by (simp add: same_turn_def)

lemma same_turn_refl [simp]: "same_turn a a"
  by (simp add: same_turn_def)

text \<open>
  One pass of settling: each record of a list is settled by an item that removes its key from one
  pending map and leaves the other fields alone.
\<close>

locale settling_pass =
  fixes settle :: "'r \<Rightarrow> append_item"
    and key :: "'r \<Rightarrow> string"
    and pending :: "agent_state \<Rightarrow> 'r dict"
    and rest :: "agent_state \<Rightarrow> 'o"
  assumes settles_one:
    "\<exists>s'. projectOne s now (settle r) = Inr s' \<and> pending s' = filter (\<lambda>p. fst p \<noteq> key r) (pending s) \<and>
       rest s' = rest s \<and> same_turn s s'"
begin

lemma settles_all:
  "\<exists>s'. projectAppend s (map settle rs) now = Inr s' \<and>
     pending s' = filter (\<lambda>p. fst p \<notin> key ` set rs) (pending s) \<and> rest s' = rest s \<and> same_turn s s'"
proof (induction rs arbitrary: s)
  case Nil
  then show ?case by simp
next
  case (Cons r rs)
  obtain s1 where 1: "projectOne s now (settle r) = Inr s1" "pending s1 = filter (\<lambda>p. fst p \<noteq> key r) (pending s)"
    "rest s1 = rest s" "same_turn s s1" using settles_one by blast
  obtain s2 where 2: "projectAppend s1 (map settle rs) now = Inr s2"
    "pending s2 = filter (\<lambda>p. fst p \<notin> key ` set rs) (pending s1)" "rest s2 = rest s1" "same_turn s1 s2"
    using Cons.IH by blast
  have "pending s2 = filter (\<lambda>p. fst p \<notin> key ` set (r # rs)) (pending s)"
    unfolding 2(2) 1(2) filter_filter by (rule filter_cong) auto
  with 1 2 same_turn_trans [OF 1(4) 2(4)] show ?case by simp
qed

end

interpretation invocation_pass: settling_pass forkInvocationItem pi_invocationId pendingInvocations
  "\<lambda>s. (pendingApprovals s, pendingCredentialWaits s)"
  by unfold_locales (use projectOne_forkInvocation in auto)

interpretation approval_pass: settling_pass "denyApprovalItem v r" pa_approvalId pendingApprovals
  "\<lambda>s. (pendingInvocations s, pendingCredentialWaits s)" for v r
  by unfold_locales (use projectOne_forkApproval in auto)

interpretation wait_pass: settling_pass "cancelWaitItem r" cw_credKey pendingCredentialWaits
  "\<lambda>s. (pendingInvocations s, pendingApprovals s)" for r
  by unfold_locales (use projectOne_forkWait in auto)

lemma fork_settles:
  assumes "wf_state s"
  shows "\<exists>s'. projectAppend s (forkItems s) now = Inr s' \<and>
     pendingInvocations s' = filter (\<lambda>p. pi_startedAtSeq (snd p) > forkSeq s) (pendingInvocations s) \<and>
     pendingApprovals s' = filter (\<lambda>p. pa_startedAtSeq (snd p) > forkSeq s) (pendingApprovals s) \<and>
     pendingCredentialWaits s' = filter (\<lambda>p. cw_startedAtSeq (snd p) > forkSeq s) (pendingCredentialWaits s) \<and>
     openTurn s' = (if preCutTurn s = None then openTurn s else None) \<and>
     steeringQueue s' = steeringQueue s \<and> deferredPostTurnQueue s' = deferredPostTurnQueue s \<and>
     pendingPrompt s' = pendingPrompt s"
proof -
  obtain s1 where 1: "projectAppend s (map forkInvocationItem (preCut pi_startedAtSeq s (pendingInvocations s))) now = Inr s1"
    "pendingInvocations s1 = filter (\<lambda>p. pi_startedAtSeq (snd p) > forkSeq s) (pendingInvocations s)"
    "pendingApprovals s1 = pendingApprovals s" "pendingCredentialWaits s1 = pendingCredentialWaits s" "same_turn s s1"
    using invocation_pass.settles_all [of s "preCut pi_startedAtSeq s (pendingInvocations s)" now]
    unfolding keep_post_cut [OF wf_stateD(1) [OF assms]] by auto
  obtain s2 where 2: "projectAppend s1 (map (denyApprovalItem ''fork'' ''forked'') (preCut pa_startedAtSeq s (pendingApprovals s))) now = Inr s2"
    "pendingApprovals s2 = filter (\<lambda>p. pa_startedAtSeq (snd p) > forkSeq s) (pendingApprovals s)"
    "pendingInvocations s2 = pendingInvocations s1" "pendingCredentialWaits s2 = pendingCredentialWaits s1" "same_turn s1 s2"
    using approval_pass.settles_all [of s1 "''fork''" "''forked''" "preCut pa_startedAtSeq s (pendingApprovals s)" now]
    unfolding 1(3) keep_post_cut [OF wf_stateD(2) [OF assms]] by auto
  obtain s3 where 3: "projectAppend s2 (map (cancelWaitItem ''forked'') (preCut cw_startedAtSeq s (pendingCredentialWaits s))) now = Inr s3"
    "pendingCredentialWaits s3 = filter (\<lambda>p. cw_startedAtSeq (snd p) > forkSeq s) (pendingCredentialWaits s)"
    "pendingInvocations s3 = pendingInvocations s2" "pendingApprovals s3 = pendingApprovals s2" "same_turn s2 s3"
    using wait_pass.settles_all [of s2 "''forked''" "preCut cw_startedAtSeq s (pendingCredentialWaits s)" now]
    unfolding 2(4) 1(4) keep_post_cut [OF wf_stateD(3) [OF assms]] by auto
  have t: "same_turn s s3" using same_turn_trans 1(5) 2(5) 3(5) by blast
  show ?thesis
  proof (cases "preCutTurn s")
    case None
    with 1 2 3 t show ?thesis by (simp add: forkItems_def same_turn_def)
  next
    case (Some turn)
    then have "openTurn s3 = Some turn"
      using t by (simp add: preCutTurn_def same_turn_def split: option.splits if_splits)
    then have "projectOne s3 now (forkTurnItem (ot_turnId turn)) = Inr ((advanced s3)\<lparr>openTurn := None, inFlightModelCall := None\<rparr>)"
      by (simp add: project_unfold forkTurnItem_def foldTurnClosed_def)
    with 1 2 3 t Some show ?thesis by (simp add: forkItems_def same_turn_def)
  qed
qed

text \<open>C32: On wake a forked agent settles exactly what it inherited. The fork policy appends events to
  whatever the step produced; folded onto the state they remove every pending invocation, approval and
  credential wait that started at or before the fork point and no later one, close the open turn
  exactly when it was opened at or before the fork point, and leave the message queues alone. No model
  call survives for a closed turn.\<close>

theorem fork_settles_exactly_pre_cut:
  assumes "wf_state s" and "0 < forkSeq s"
  shows "\<exists>out s' settled. pol_intercept forkPolicy s (CommandIn Wake) ctx core = Inr out \<and>
     so_append out = so_append core @ settled \<and> projectAppend s settled now = Inr s' \<and>
     pendingInvocations s' = filter (\<lambda>p. pi_startedAtSeq (snd p) > forkSeq s) (pendingInvocations s) \<and>
     pendingApprovals s' = filter (\<lambda>p. pa_startedAtSeq (snd p) > forkSeq s) (pendingApprovals s) \<and>
     pendingCredentialWaits s' = filter (\<lambda>p. cw_startedAtSeq (snd p) > forkSeq s) (pendingCredentialWaits s) \<and>
     openTurn s' = (case openTurn s of Some turn \<Rightarrow> if ot_openedAtSeq turn \<le> forkSeq s then None else Some turn
                    | None \<Rightarrow> None) \<and>
     steeringQueue s' = steeringQueue s \<and> deferredPostTurnQueue s' = deferredPostTurnQueue s \<and>
     pendingPrompt s' = pendingPrompt s \<and>
     (openTurn s \<noteq> None \<and> openTurn s' = None \<longrightarrow> model_calls out = [])"
proof -
  from fork_settles [OF assms(1), of now] obtain s' where s': "projectAppend s (forkItems s) now = Inr s'"
     "pendingInvocations s' = filter (\<lambda>p. pi_startedAtSeq (snd p) > forkSeq s) (pendingInvocations s)"
     "pendingApprovals s' = filter (\<lambda>p. pa_startedAtSeq (snd p) > forkSeq s) (pendingApprovals s)"
     "pendingCredentialWaits s' = filter (\<lambda>p. cw_startedAtSeq (snd p) > forkSeq s) (pendingCredentialWaits s)"
     "openTurn s' = (if preCutTurn s = None then openTurn s else None)"
     "steeringQueue s' = steeringQueue s" "deferredPostTurnQueue s' = deferredPostTurnQueue s"
     "pendingPrompt s' = pendingPrompt s" by blast
  let ?out = "\<lparr> so_append = so_append core @ forkItems s, so_effects = (if preCutTurn s \<noteq> None
     then filter (\<lambda>d. effectKind d \<noteq> KModelCall) (so_effects core) else so_effects core) \<rparr>"
  have "pol_intercept forkPolicy s (CommandIn Wake) ctx core = Inr ?out"
    using assms(2) by (simp add: forkPolicy_def forkIntercept_def)
  moreover have "openTurn s' = (case openTurn s of Some turn \<Rightarrow> if ot_openedAtSeq turn \<le> forkSeq s then None else Some turn
                    | None \<Rightarrow> None)"
    using s'(5) by (simp add: preCutTurn_def split: option.splits if_splits)
  moreover have "openTurn s \<noteq> None \<and> openTurn s' = None \<longrightarrow> model_calls ?out = []"
    using s'(5) by (auto simp: model_calls_def)
  ultimately show ?thesis using s' by (intro exI [of _ ?out] exI [of _ s'] exI [of _ "forkItems s"]) simp
qed

definition sample_forked :: agent_state where
  "sample_forked = sample_state\<lparr>forkSeq := 4, pendingApprovals :=
     [(''a4'', \<lparr> pa_approvalId = ''a4'', pa_invocationId = ''i4'', pa_turnId = ''t1'', pa_startedAtSeq = 4,
         pa_question = ''q'', pa_toolName = JStr ''write'', pa_input = JUndefined \<rparr>),
      (''a5'', \<lparr> pa_approvalId = ''a5'', pa_invocationId = ''i5'', pa_turnId = ''t1'', pa_startedAtSeq = 5,
         pa_question = ''q'', pa_toolName = JStr ''write'', pa_input = JUndefined \<rparr>)]\<rparr>"

theorem fork_settles_exactly_pre_cut_witness:
  "\<exists>out s' settled. pol_intercept forkPolicy sample_forked (CommandIn Wake) sample_ctx EMPTY = Inr out \<and>
     so_append out = settled \<and> projectAppend sample_forked settled ''now'' = Inr s' \<and>
     map fst (pendingApprovals s') = [''a5''] \<and> openTurn s' = None"
proof -
  have "wf_state sample_forked" "0 < forkSeq sample_forked"
    by (simp_all add: sample_forked_def sample_defs wf_state_def keyed_def)
  from fork_settles_exactly_pre_cut [OF this, of sample_ctx EMPTY "''now''"] obtain out s' settled where
    f: "pol_intercept forkPolicy sample_forked (CommandIn Wake) sample_ctx EMPTY = Inr out"
      "so_append out = so_append EMPTY @ settled" "projectAppend sample_forked settled ''now'' = Inr s'"
      "pendingApprovals s' = filter (\<lambda>p. pa_startedAtSeq (snd p) > forkSeq sample_forked) (pendingApprovals sample_forked)"
      "openTurn s' = (case openTurn sample_forked of Some turn \<Rightarrow>
         if ot_openedAtSeq turn \<le> forkSeq sample_forked then None else Some turn | None \<Rightarrow> None)" by blast
  have "map fst (pendingApprovals s') = [''a5'']" "openTurn s' = None"
    unfolding f(4,5) by (simp_all add: sample_forked_def sample_defs)
  with f(1,2,3) show ?thesis by (intro exI [of _ out] exI [of _ s'] exI [of _ settled]) (simp add: EMPTY_def)
qed

subsection \<open>Tools restarted across a fork\<close>

lemma rewriting_level_two:
  assumes "jget (config s) ''approvalLevel'' = JNum 2" and "applyPolicies rewriting s incoming ctx core = Inr rw"
  shows "map effectId (so_effects rw) = map effectId (so_effects core)"
  using assms
  by (auto simp: applyPolicies_def rewriting_def channelToolsPolicy_def approvalGatePolicy_def askUserPolicy_def
      channelToolsIntercept_def approvalGateIntercept_def askUserIntercept_def Let_def comp_def
      split: option.splits if_splits)

lemma wake_expands:
  assumes "openTurn s = Some turn" and "\<not> ot_interrupted turn" and "inFlightModelCall s = None"
    and "unprocessedToolCalls s = (m, blocks)" and "blocks \<noteq> []"
  shows "coreStep classify s (CommandIn Wake) ctx = expandToolCalls s blocks m (ot_turnId turn) ctx"
  using assms
  by (cases "expandToolCalls s blocks m (ot_turnId turn) ctx")
     (simp_all add: wakeStep_def orphanItems_def wakeExpand_def prependItems_def Let_def)

text \<open>A tool call restarted on the wake of a fork survives the fork. When the inherited turn still has
  tool calls that were never expanded and approvals are off, the wake both starts them and closes the
  turn: after the events are folded no turn is open, and yet the calls are pending and dispatched. The
  policy only withdraws the wake's model call.\<close>

theorem forked_wake_dispatches_tools:
  assumes "wf_state s" and "0 < forkSeq s" and "openTurn s = Some turn" and "ot_openedAtSeq turn \<le> forkSeq s"
    and "\<not> ot_interrupted turn" and "inFlightModelCall s = None"
    and "jget (config s) ''approvalLevel'' = JNum 2"
    and "unprocessedToolCalls s = (m, blocks)" and "blocks \<noteq> []" and "list_all (\<lambda>b. block_id b \<noteq> []) blocks"
  shows "\<exists>out s'. composeStep classify defaultPolicies s (CommandIn Wake) ctx = Inr out \<and>
     projectAppend s (so_append out) (ctx_now ctx) = Inr s' \<and> openTurn s' = None \<and>
     (\<forall>b \<in> set blocks. ids_invocationEffect (block_id b) \<in> set (map effectId (so_effects out)) \<and>
        ids_invocationEffect (block_id b) \<in> set (map effectId (derivePendingEffects s')))"
proof -
  let ?w = "CommandIn Wake"
  obtain core where c: "coreStep classify s ?w ctx = Inr core"
    using wake_expands [OF assms(3,5,6,8,9)] expandToolCalls_total [of blocks s m "ot_turnId turn" ctx] assms(10)
    by (auto simp: list_all_iff)
  then have e: "expandToolCalls s blocks m (ot_turnId turn) ctx = Inr core"
    using wake_expands [OF assms(3,5,6,8,9)] by simp
  obtain rw where r: "applyPolicies rewriting s ?w ctx core = Inr rw"
    using default_stack.stack_returns [of rewriting s ?w ctx core] by (auto simp: defaultPolicies_split)
  from rewriting_expansion [OF assms(1) expansion_event [OF e] r] obtain s1 where s1:
    "projectAppend s (so_append rw) (ctx_now ctx) = Inr s1" "wf_state s1" "openTurn s1 = openTurn s"
    "tool_effects (\<lambda>k. k \<in> block_id ` set blocks \<and> none_gated s (so_append core) k \<and> startable s1 k) rw" by blast
  have ids: "map effectId (so_effects rw) = map (ids_invocationEffect \<circ> block_id) blocks"
    using rewriting_level_two [OF assms(7) r] expandBlocks_startable [OF assms(1)] e
    unfolding expandToolCalls_def by metis
  have p: "preCutTurn s = Some turn" using assms(3,4) by (simp add: preCutTurn_def)
  from fork_projects [OF assms(1), of s1 "ctx_now ctx"] obtain s2 where s2:
    "projectAppend s1 (forkItems s) (ctx_now ctx) = Inr s2" "openTurn s2 = None"
    "\<forall>k. dget (pendingInvocations s) k = None \<longrightarrow> startable s1 k \<longrightarrow> startable s2 k"
    using p s1(3) by auto
  let ?out = "\<lparr> so_append = so_append rw @ forkItems s, so_effects = filter (\<lambda>d. effectKind d \<noteq> KModelCall) (so_effects rw) \<rparr>"
  have "composeStep classify defaultPolicies s ?w ctx = Inr ?out"
    using c r assms(2) p
    by (auto simp: composeStep_def defaultPolicies_split applyPolicies_def fold_res_append forkPolicy_def forkIntercept_def)
  moreover have "projectAppend s (so_append ?out) (ctx_now ctx) = Inr s2" using s1(1) s2(1) by simp
  moreover have "ids_invocationEffect (block_id b) \<in> set (map effectId (so_effects ?out)) \<and>
      ids_invocationEffect (block_id b) \<in> set (map effectId (derivePendingEffects s2))" if b: "b \<in> set blocks" for b
  proof -
    have "ids_invocationEffect (block_id b) \<in> set (map effectId (so_effects rw))" unfolding ids using b by simp
    then obtain d where d: "d \<in> set (so_effects rw)" "effectId d = ids_invocationEffect (block_id b)" by auto
    with s1(4) have k: "isInvocationEffect d" "startable s1 (block_id b)" by (auto simp: tool_effects_def)
    have "dget (pendingInvocations s) (block_id b) = None"
      using assms(8) b by (auto simp: unprocessedToolCalls_def split: option.splits prod.splits)
    with k(2) s2(3) have "startable s2 (block_id b)" by blast
    moreover have "d \<in> set (so_effects ?out)" using d(1) k(1) by (auto simp: isInvocationEffect_def)
    ultimately show ?thesis
      using d(2) startable_derivable [OF projectAppend_wf [OF s1(2) s2(1)]] by (metis image_eqI set_map)
  qed
  ultimately show ?thesis using s2(2) by blast
qed

definition sample_forked_tools :: agent_state where
  "sample_forked_tools = sample_state\<lparr>forkSeq := 4, config := JObj [(''approvalLevel'', JNum 2)],
     entries := [AssistantEntry 3 ''m:t1:0'' None [JObj [(''type'', JStr ''toolCall''), (''id'', JStr ''i7''),
       (''name'', JStr ''read''), (''arguments'', JObj [])]] None]\<rparr>"

lemma sample_unprocessed:
  "map block_id (snd (unprocessedToolCalls sample_forked_tools)) = [''i7'']"
  by code_simp

theorem forked_wake_dispatches_tools_witness:
  "\<exists>out s'. composeStep sample_classify defaultPolicies sample_forked_tools (CommandIn Wake) sample_ctx = Inr out \<and>
     projectAppend sample_forked_tools (so_append out) (ctx_now sample_ctx) = Inr s' \<and> openTurn s' = None \<and>
     ids_invocationEffect ''i7'' \<in> set (map effectId (derivePendingEffects s'))"
proof -
  obtain m blocks where u: "unprocessedToolCalls sample_forked_tools = (m, blocks)" by (meson surj_pair)
  then have i: "map block_id blocks = [''i7'']" using sample_unprocessed by simp
  then have b: "blocks \<noteq> []" "list_all (\<lambda>b. block_id b \<noteq> []) blocks" by (auto simp: map_eq_Cons_conv)
  obtain x where x: "x \<in> set blocks" "block_id x = ''i7''" using i by (auto simp: map_eq_Cons_conv)
  have w: "wf_state sample_forked_tools" "0 < forkSeq sample_forked_tools"
    "openTurn sample_forked_tools = Some sample_turn" "ot_openedAtSeq sample_turn \<le> forkSeq sample_forked_tools"
    "\<not> ot_interrupted sample_turn" "inFlightModelCall sample_forked_tools = None"
    "jget (config sample_forked_tools) ''approvalLevel'' = JNum 2"
    by (simp_all add: sample_forked_tools_def sample_defs wf_state_def)
  from forked_wake_dispatches_tools [OF w u b, of sample_classify sample_ctx] x show ?thesis by metis
qed

subsection \<open>Silence\<close>

text \<open>A silent agent publishes nothing but the opening and closing of its turns. With the silent policy
  composed last, every event of a step's output that is marked for publication is a \<open>turn.opened\<close> or
  a \<open>turn.closed\<close>; the same filter applies to the events of effect outcomes, and no ephemeral
  emission passes.\<close>

theorem silent_publishes_only_turns:
  assumes "composeStep classify (policies @ [silentPolicy]) s incoming ctx = Inr out"
  shows "(\<forall>item \<in> set (so_append out). ai_publish item \<longrightarrow> ai_payloadKind item \<in> {TurnOpened, TurnClosed}) \<and>
     (\<exists>transform. pol_transformAppend silentPolicy = Some transform \<and>
        (\<forall>item \<in> set (transform s items). ai_publish item \<longrightarrow> ai_payloadKind item \<in> {TurnOpened, TurnClosed}) \<and>
        map event_identity (transform s items) = map event_identity items) \<and>
     (\<exists>keep. pol_filterEphemeral silentPolicy = Some keep \<and> keep s emission = None)"
proof -
  have k: "ai_publish (silenceItem x) \<Longrightarrow> ai_payloadKind (silenceItem x) = TurnOpened \<or> ai_payloadKind (silenceItem x) = TurnClosed" for x
    by (simp add: silenceItem_def split: if_splits)
  have "\<exists>xs. so_append out = map silenceItem xs"
    using assms by (auto simp: composeStep_def applyPolicies_def fold_res_append silentPolicy_def)
  then show ?thesis by (auto simp: silentPolicy_def comp_def dest: k)
qed

theorem silent_publishes_only_turns_witness:
  "\<exists>out. composeStep sample_classify (defaultPolicies @ [silentPolicy]) sample_state (EventAppended sample_terminal) sample_ctx = Inr out \<and>
     list_all (\<lambda>item. ai_publish item \<longrightarrow> ai_payloadKind item \<in> {TurnOpened, TurnClosed}) (so_append out)"
proof -
  obtain out where out: "composeStep sample_classify (defaultPolicies @ [silentPolicy]) sample_state
      (EventAppended sample_terminal) sample_ctx = Inr out"
    using silent_stack.compose_returns [OF sample_terminal_usable] by blast
  note d = silent_publishes_only_turns [OF out, of "[]" JUndefined]
  show ?thesis unfolding list_all_iff by (intro exI conjI) (rule out, rule conjunct1 [OF d])
qed

subsection \<open>Routing\<close>

lemma expandBlocks_local:
  assumes "wf_state p" and "expandBlocks st m t now p blocks = Inr out"
    and "LocalToolEffect b k turn tool args \<in> set (so_effects out)"
  shows "\<exists>item \<in> set (so_append out). startedFor k item \<and> itemToolName item = tool \<and>
     jget (jget (ai_payload item) ''transport'') ''kind'' = JStr ''local''"
  using assms
proof (induction blocks arbitrary: p out)
  case Nil
  then show ?case by (auto simp: EMPTY_def)
next
  case (Cons x blocks)
  let ?item = "invocationStartedItem st m t x"
  obtain q i r where q: "projectOne p now ?item = Inr q"
    and i: "dget (pendingInvocations q) (block_id x) = Some i"
    and r: "expandBlocks st m t now q blocks = Inr r"
    and out: "out = \<lparr> so_append = ?item # so_append r, so_effects = invocationEffect q i # so_effects r \<rparr>"
    using Cons.prems(2) by (auto simp: Let_def split: option.splits)
  have w: "wf_state q" by (rule projectOne_wf [OF Cons.prems(1) q])
  have x: "block_id x \<noteq> []" using keyed_dgetD [OF wf_stateD(1) [OF w] i] by simp
  have n: "pi_invocationId i = block_id x \<and> pi_name i = block_name x \<and>
      pi_transport i = transportForToolCall st (block_name x) (block_id x)"
    using q i x transport_truthy [of st "block_name x" "block_id x"]
    by (cases "m = []")
       (auto simp: project_unfold invocationStartedItem_def foldInvocationStarted_def split: if_splits)
  show ?case
  proof (cases "LocalToolEffect b k turn tool args = invocationEffect q i")
    case True
    with n have "k = block_id x" "tool = block_name x" "jget (pi_transport i) ''kind'' = JStr ''local''"
      by (auto simp: invocationEffect_def Let_def split: if_splits)
    with n out startedFor_step [of x st m t] show ?thesis
      by (simp add: itemToolName_def invocationStartedItem_def protocol_prop_def)
  next
    case False
    with Cons.prems(3) out have "LocalToolEffect b k turn tool args \<in> set (so_effects r)" by simp
    with Cons.IH [OF w r] out show ?thesis by auto
  qed
qed

lemma routed_not_local:
  assumes "channelToolsIntercept s incoming ctx out = Inr out'"
    and "LocalToolEffect b k turn tool args \<in> set (so_effects out')"
  shows "LocalToolEffect b k turn tool args \<in> set (so_effects out) \<and>
     (\<forall>item \<in> set (so_append out). startedFor k item \<longrightarrow> \<not> routable s item)"
proof (cases "rosterParticipants s = [] \<or> \<not> list_ex (routable s) (so_append out)")
  case True
  with assms show ?thesis
    by (auto simp: channelToolsIntercept_def list_ex_iff routable_def methodOwner_def split: if_splits)
next
  case False
  let ?items = "map (routeItem s) (so_append out)"
  obtain d where d: "d \<in> set (so_effects out)" "routeEffect ?items d = LocalToolEffect b k turn tool args"
    using assms False by (auto simp: channelToolsIntercept_def Let_def)
  then have e: "d = LocalToolEffect b k turn tool args" and
    n: "find (\<lambda>item. isInvocationStarted item \<and> js_String (jget (ai_causality item) ''invocationId'') = k
           \<and> jget (jget (ai_payload item) ''transport'') ''kind'' = JStr ''channel'') ?items = None"
    by (auto simp: routeEffect_def Let_def split: effect_descriptor.splits option.splits)
  have "\<not> routable s item" if "item \<in> set (so_append out)" "startedFor k item" for item
  proof
    assume r: "routable s item"
    then have "jget (jget (ai_payload (routeItem s item)) ''transport'') ''kind'' = JStr ''channel''"
      by (simp add: routeItem_def jget_jspread channelTransport_def)
    with n that show False by (auto simp: find_None_iff startedFor_def)
  qed
  with d e show ?thesis by simp
qed

lemma later_policies_local:
  assumes "approvalGateIntercept s incoming ctx o1 = Inr o2" and "askUserIntercept s incoming ctx o2 = Inr o3"
    and "forkIntercept s incoming ctx o3 = Inr out" and "LocalToolEffect b k turn tool args \<in> set (so_effects out)"
  shows "LocalToolEffect b k turn tool args \<in> set (so_effects o1)"
proof -
  have "LocalToolEffect b k turn tool args \<in> set (so_effects o3)"
    using assms(3,4) by (auto simp: forkIntercept_def split: if_splits)
  then have "LocalToolEffect b k turn tool args \<in> set (so_effects o2)"
    using assms(2)
    by (auto simp: askUserIntercept_def askEffect_def Let_def
        split: option.splits if_splits effect_descriptor.splits)
  then show ?thesis using assms(1) by (auto simp: approvalGateIntercept_def Let_def split: if_splits)
qed

lemma starts_expansion:
  assumes "coreStep classify s incoming ctx = Inr core" and "\<not> no_starts core"
  shows "\<exists>blocks. expansion s ctx blocks core"
proof (cases incoming)
  case (CommandIn c)
  with assms commandStep_shape [of s c ctx core] show ?thesis by (auto simp: plain_def)
next
  case (EventAppended e)
  with assms eventStep_shape [of s e ctx core] show ?thesis by auto
next
  case (EffectFailed eid kind m n)
  with assms effectFailed_shape [of classify s eid kind m ctx] show ?thesis by (auto simp: plain_def)
qed

text \<open>A tool runs in process only when no roster participant advertises it. Whenever the composed
  step expands tool calls, a local dispatch among its effects is for a tool without an owner in the
  roster, whether or not the tool is in \<open>activeToolNames\<close>: the channel-tools policy takes a
  configured local tool over as soon as a participant advertises the same name.\<close>

theorem local_dispatch_only_unadvertised:
  assumes "wf_state s" and "coreStep classify s incoming ctx = Inr core"
    and "composeStep classify defaultPolicies s incoming ctx = Inr out"
    and "started \<in> set (so_append core)" and "ai_payloadKind started = InvocationStarted"
    and "LocalToolEffect b k turn tool args \<in> set (so_effects out)"
  shows "\<not> truthy (methodOwner s tool)"
proof -
  obtain o1 o2 o3 where o: "channelToolsIntercept s incoming ctx core = Inr o1"
    "approvalGateIntercept s incoming ctx o1 = Inr o2" "askUserIntercept s incoming ctx o2 = Inr o3"
    "forkIntercept s incoming ctx o3 = Inr out"
    using assms(2,3)
    by (auto simp: composeStep_def applyPolicies_def defaultPolicies_def channelToolsPolicy_def
        approvalGatePolicy_def askUserPolicy_def forkPolicy_def)
  have "\<not> no_starts core" using assms(4,5) by (auto simp: no_starts_def isInvocationStarted_def)
  then obtain blocks where "expansion s ctx blocks core" using starts_expansion [OF assms(2)] by blast
  then obtain pre s1 m t exp where e: "projectAppend s pre (ctx_now ctx) = Inr s1"
    "expandBlocks s1 m t (ctx_now ctx) s1 blocks = Inr exp" "core = prependItems pre exp"
    by (auto simp: expansion_def expandToolCalls_def)
  note l = routed_not_local [OF o(1) later_policies_local [OF o(2,3,4) assms(6)]]
  then have "LocalToolEffect b k turn tool args \<in> set (so_effects exp)" using e(3) by (simp add: prependItems_def)
  from expandBlocks_local [OF projectAppend_wf [OF assms(1) e(1)] e(2) this] obtain item where
    "item \<in> set (so_append core)" "startedFor k item" "itemToolName item = tool"
    "jget (jget (ai_payload item) ''transport'') ''kind'' = JStr ''local''"
    using e(3) by (auto simp: prependItems_def)
  with l show ?thesis by (auto simp: routable_def startedFor_def)
qed

definition sample_ungated :: agent_state where
  "sample_ungated = sample_state\<lparr>config := JObj [(''approvalLevel'', JNum 2), (''roster'', JObj [(''participants'',
     JArr [JObj [(''ref'', sample_user), (''methods'', JArr [JObj [(''name'', JStr ''eval'')]])]])])]\<rparr>"

lemma sample_ungated_steps:
  "case coreStep sample_classify sample_ungated (EventAppended sample_terminal) sample_ctx of Inl _ \<Rightarrow> False
   | Inr core \<Rightarrow> list_ex (\<lambda>item. ai_payloadKind item = InvocationStarted) (so_append core)"
  "case composeStep sample_classify defaultPolicies sample_ungated (EventAppended sample_terminal) sample_ctx of Inl _ \<Rightarrow> False
   | Inr out \<Rightarrow> list_ex (\<lambda>d. effectKind d = KLocalTool \<and> ef_tool d = ''read'') (so_effects out)"
  by code_simp+

theorem local_dispatch_only_unadvertised_witness:
  "\<exists>out b k turn args. composeStep sample_classify defaultPolicies sample_ungated (EventAppended sample_terminal) sample_ctx = Inr out \<and>
     LocalToolEffect b k turn ''read'' args \<in> set (so_effects out) \<and> \<not> truthy (methodOwner sample_ungated ''read'')"
proof -
  obtain core started where c: "coreStep sample_classify sample_ungated (EventAppended sample_terminal) sample_ctx = Inr core"
    "started \<in> set (so_append core)" "ai_payloadKind started = InvocationStarted"
    using sample_ungated_steps(1) by (auto simp: list_ex_iff split: sum.splits)
  have l: "effectKind d = KLocalTool \<Longrightarrow> \<exists>b k turn args. d = LocalToolEffect b k turn (ef_tool d) args" for d
    by (cases d) simp_all
  obtain out b k turn args where o: "composeStep sample_classify defaultPolicies sample_ungated (EventAppended sample_terminal) sample_ctx = Inr out"
    "LocalToolEffect b k turn ''read'' args \<in> set (so_effects out)"
    using sample_ungated_steps(2) by (auto simp: list_ex_iff split: sum.splits) (metis l)
  have w: "wf_state sample_ungated" by (simp add: sample_ungated_def sample_defs wf_state_def)
  note d = local_dispatch_only_unadvertised [OF w c(1) o(1) c(2,3) o(2)]
  show ?thesis by (intro exI conjI) (rule o(1), rule o(2), rule d)
qed

end
