(* ===== verification/Scenario.thy ===== *)
theory Scenario
  imports Forks "HOL-Library.Char_ord" "HOL-Library.List_Lexorder"
begin

text \<open>
  The scenario harness (\<open>agent-loop/src/scenario.ts\<close>): the loop run against an in-memory log. A
  step's events are appended and folded, the pending effects re-derived, and each appended event fed
  back to the step, as the driver does. \<open>classify\<close> stands for the failure classification of
  \<open>model-errors.ts\<close>.

  The cascade of a dispatch recurses through the step of every appended event. It takes a fuel
  argument, the depth of the cascade, and \<open>None\<close> says that the depth was not enough; a result does
  not change with more fuel.
\<close>

subsection \<open>Definitions\<close>

record scenario_row =
  sr_seq :: int
  sr_envelopeId :: string
  sr_payloadKind :: event_kind
  sr_payload :: json
  sr_causality :: json
  sr_publish :: bool

type_synonym step_fn = "agent_state \<Rightarrow> incoming \<Rightarrow> step_context \<Rightarrow> step_output res"

record scenario =
  sc_state :: agent_state
  sc_log :: "scenario_row list"
  sc_effects :: "effect_descriptor dict"
  sc_outputs :: "step_output list"
  sc_ctx :: step_context
  sc_step :: step_fn
  sc_policies :: "step_policy list"

definition createScenario ::
  "classifier \<Rightarrow> agent_state \<Rightarrow> step_policy list option \<Rightarrow> string option \<Rightarrow> scenario" where
  "createScenario classify state policies now =
     \<lparr> sc_state = state, sc_log = [], sc_effects = [], sc_outputs = [],
       sc_ctx = \<lparr> ctx_now = option_or now ''2026-05-20T12:00:00.000Z'',
         ctx_selfRef = JObj [(''kind'', JStr ''agent''), (''id'', JStr ''agent:self''),
           (''participantId'', JStr ''agent:self'')] \<rparr>,
       sc_step = composeStep classify (option_or policies []),
       sc_policies = option_or policies [] \<rparr>"

definition scenarioEnvelope :: "scenario \<Rightarrow> append_item \<Rightarrow> log_envelope" where
  "scenarioEnvelope scenario item =
     (let state = sc_state scenario; seq = lastSeq state + 1 in
      \<lparr> env_logId = logId state, env_head = head state, env_seq = seq,
        env_envelopeId = ai_envelopeId item, env_actor = ctx_selfRef (sc_ctx scenario),
        env_payloadKind = ai_payloadKind item, env_payload = ai_payload item,
        env_causality = (if truthy (ai_causality item) then ai_causality item else JUndefined),
        env_appendedAt = ctx_now (sc_ctx scenario), env_prevHash = lastHash state,
        env_hash = ''h:'' @ logId state @ '':'' @ show_int seq \<rparr>)"

definition scenarioRow :: "scenario \<Rightarrow> append_item \<Rightarrow> scenario_row" where
  "scenarioRow scenario item =
     \<lparr> sr_seq = lastSeq (sc_state scenario) + 1, sr_envelopeId = ai_envelopeId item,
       sr_payloadKind = ai_payloadKind item, sr_payload = ai_payload item,
       sr_causality = ai_causality item, sr_publish = ai_publish item \<rparr>"

fun applyAppend :: "scenario \<Rightarrow> append_item list \<Rightarrow> (scenario \<times> log_envelope list) res" where
  "applyAppend scenario [] = Inr (scenario, [])"
| "applyAppend scenario (item # items) =
     (if \<exists>row \<in> set (sc_log scenario). sr_envelopeId row = ai_envelopeId item then applyAppend scenario items
      else
        let envelope = scenarioEnvelope scenario item;
            logged = scenario\<lparr>sc_log := sc_log scenario @ [scenarioRow scenario item]\<rparr>
        in bind_res (applyEvent (sc_state scenario) envelope) (\<lambda>state'.
             bind_res (applyAppend (logged\<lparr>sc_state := state'\<rparr>) items) (\<lambda>(scenario', envelopes).
               Inr (scenario', envelope # envelopes))))"

text \<open>\<open>new Map(derived.map(...))\<close>\<close>

definition effectMap :: "effect_descriptor list \<Rightarrow> effect_descriptor dict" where
  "effectMap derived = fold (\<lambda>effect. dput (effectId effect) effect) derived []"

definition registerEffects :: "scenario \<Rightarrow> effect_descriptor list \<Rightarrow> scenario res" where
  "registerEffects scenario emitted =
     (let derived = derivePendingEffects (sc_state scenario);
          derivable = map effectId derived
      in case find (\<lambda>effect. effectKind effect \<noteq> KPublishEnvelope \<and> effectId effect \<notin> set derivable) emitted of
           Some effect \<Rightarrow> Inl (NotDerivable (effectId effect))
         | None \<Rightarrow> Inr (scenario\<lparr>sc_effects := effectMap derived\<rparr>))"

text \<open>One step, its append and its registration; then the cascade over the appended events.\<close>

definition runStep :: "scenario \<Rightarrow> incoming \<Rightarrow> (scenario \<times> log_envelope list) res" where
  "runStep scenario incoming =
     bind_res (sc_step scenario (sc_state scenario) incoming (sc_ctx scenario)) (\<lambda>output.
       bind_res (applyAppend (scenario\<lparr>sc_outputs := sc_outputs scenario @ [output]\<rparr>) (so_append output))
         (\<lambda>(appended, envelopes).
           bind_res (registerEffects appended (so_effects output)) (\<lambda>registered.
             Inr (registered, envelopes))))"

fun dispatch :: "nat \<Rightarrow> scenario \<Rightarrow> incoming \<Rightarrow> scenario res option"
  and cascade :: "nat \<Rightarrow> scenario \<Rightarrow> log_envelope list \<Rightarrow> scenario res option" where
  "dispatch 0 scenario incoming = None"
| "dispatch (Suc fuel) scenario incoming =
     (case runStep scenario incoming of
        Inl e \<Rightarrow> Some (Inl e)
      | Inr (scenario', envelopes) \<Rightarrow> cascade fuel scenario' envelopes)"
| "cascade fuel scenario [] = Some (Inr scenario)"
| "cascade fuel scenario (envelope # envelopes) =
     (case dispatch fuel scenario (EventAppended envelope) of
        None \<Rightarrow> None
      | Some (Inl e) \<Rightarrow> Some (Inl e)
      | Some (Inr scenario') \<Rightarrow> cascade fuel scenario' envelopes)"

definition transformItems :: "step_policy list \<Rightarrow> agent_state \<Rightarrow> append_item list \<Rightarrow> append_item list" where
  "transformItems policies state items =
     foldl (\<lambda>acc policy. case pol_transformAppend policy of Some f \<Rightarrow> f state acc | None \<Rightarrow> acc) items policies"

definition settleEffect ::
  "classifier \<Rightarrow> scenario \<Rightarrow> string \<Rightarrow> effect_outcome \<Rightarrow> (scenario \<times> log_envelope list) res" where
  "settleEffect classify scenario eid outcome =
     (case dget (sc_effects scenario) eid of
        None \<Rightarrow> Inl (NoPendingEffect eid)
      | Some descriptor \<Rightarrow>
          bind_res (outcomeEvents classify descriptor outcome (ctx_now (sc_ctx scenario))) (\<lambda>items.
            bind_res (applyAppend (scenario\<lparr>sc_effects := ddel eid (sc_effects scenario)\<rparr>)
                        (transformItems (sc_policies scenario) (sc_state scenario) items)) (\<lambda>(appended, envelopes).
              bind_res (registerEffects appended []) (\<lambda>registered. Inr (registered, envelopes)))))"

definition resolveEffect ::
  "classifier \<Rightarrow> nat \<Rightarrow> scenario \<Rightarrow> string \<Rightarrow> effect_outcome \<Rightarrow> scenario res option" where
  "resolveEffect classify fuel scenario eid outcome =
     (case settleEffect classify scenario eid outcome of
        Inl e \<Rightarrow> Some (Inl e)
      | Inr (scenario', envelopes) \<Rightarrow> cascade fuel scenario' envelopes)"

definition pendingEffectIds :: "scenario \<Rightarrow> string list" where
  "pendingEffectIds scenario = sort (map fst (sc_effects scenario))"

definition kinds :: "scenario \<Rightarrow> event_kind list" where
  "kinds scenario = map sr_payloadKind (sc_log scenario)"

subsection \<open>More fuel\<close>

lemma more_fuel:
  "dispatch fuel scenario incoming = Some r \<Longrightarrow> dispatch (Suc fuel) scenario incoming = Some r"
  "cascade fuel scenario envelopes = Some r \<Longrightarrow> cascade (Suc fuel) scenario envelopes = Some r"
proof (induction fuel scenario incoming and fuel scenario envelopes
    arbitrary: r and r rule: dispatch_cascade.induct)
  case (2 fuel scenario incoming)
  then show ?case by (auto split: sum.splits simp del: dispatch.simps(2)) (auto split: sum.splits)
next
  case (4 fuel scenario envelope envelopes)
  then show ?case by (auto split: option.splits sum.splits simp del: dispatch.simps(2))
qed simp_all

subsection \<open>The log determines the state\<close>

definition rowEnvelope :: "step_context \<Rightarrow> agent_state \<Rightarrow> scenario_row \<Rightarrow> log_envelope" where
  "rowEnvelope ctx state row =
     \<lparr> env_logId = logId state, env_head = head state, env_seq = sr_seq row,
       env_envelopeId = sr_envelopeId row, env_actor = ctx_selfRef ctx,
       env_payloadKind = sr_payloadKind row, env_payload = sr_payload row,
       env_causality = (if truthy (sr_causality row) then sr_causality row else JUndefined),
       env_appendedAt = ctx_now ctx, env_prevHash = lastHash state,
       env_hash = ''h:'' @ logId state @ '':'' @ show_int (sr_seq row) \<rparr>"

definition replayRows :: "step_context \<Rightarrow> agent_state \<Rightarrow> scenario_row list \<Rightarrow> agent_state res" where
  "replayRows ctx init rows = fold_res (\<lambda>s row. applyEvent s (rowEnvelope ctx s row)) init rows"

lemma scenarioEnvelope_row: "scenarioEnvelope sc item = rowEnvelope (sc_ctx sc) (sc_state sc) (scenarioRow sc item)"
  by (simp add: scenarioEnvelope_def rowEnvelope_def scenarioRow_def Let_def)

text \<open>The log replays to the state, envelope ids are unique, and sequence numbers are consecutive.\<close>

definition sourced :: "agent_state \<Rightarrow> scenario \<Rightarrow> bool" where
  "sourced init sc \<longleftrightarrow> replayRows (sc_ctx sc) init (sc_log sc) = Inr (sc_state sc) \<and>
     distinct (map sr_envelopeId (sc_log sc)) \<and>
     map sr_seq (sc_log sc) = map (\<lambda>n. lastSeq init + 1 + int n) [0..<length (sc_log sc)] \<and>
     lastSeq (sc_state sc) = lastSeq init + int (length (sc_log sc))"

definition same_setup :: "scenario \<Rightarrow> scenario \<Rightarrow> bool" where
  "same_setup sc sc' \<longleftrightarrow> sc_ctx sc' = sc_ctx sc \<and> sc_step sc' = sc_step sc \<and> sc_policies sc' = sc_policies sc"

lemma same_setup_refl [simp]: "same_setup sc sc"
  by (simp add: same_setup_def)

lemma same_setup_trans: "same_setup a b \<Longrightarrow> same_setup b c \<Longrightarrow> same_setup a c"
  by (simp add: same_setup_def)

text \<open>One item that is not yet in the log.\<close>

definition appendOne :: "scenario \<Rightarrow> append_item \<Rightarrow> scenario res" where
  "appendOne sc item = bind_res (applyEvent (sc_state sc) (scenarioEnvelope sc item)) (\<lambda>state'.
     Inr (sc\<lparr>sc_log := sc_log sc @ [scenarioRow sc item], sc_state := state'\<rparr>))"

lemma applyAppend_fresh:
  "ai_envelopeId item \<notin> sr_envelopeId ` set (sc_log sc) \<Longrightarrow>
     applyAppend sc (item # items) = bind_res (appendOne sc item) (\<lambda>sc1.
       bind_res (applyAppend sc1 items) (\<lambda>(sc', es). Inr (sc', scenarioEnvelope sc item # es)))"
  by (auto simp: appendOne_def bind_res_assoc image_iff Let_def split: sum.splits)

lemma applyAppend_known:
  "ai_envelopeId item \<in> sr_envelopeId ` set (sc_log sc) \<Longrightarrow> applyAppend sc (item # items) = applyAppend sc items"
  by auto

lemma appendOne_sourced:
  assumes "sourced init sc" and "appendOne sc item = Inr sc1"
    and "ai_envelopeId item \<notin> sr_envelopeId ` set (sc_log sc)"
  shows "sourced init sc1 \<and> same_setup sc sc1 \<and> sc_outputs sc1 = sc_outputs sc \<and> sc_effects sc1 = sc_effects sc \<and>
     set (map sr_envelopeId (sc_log sc1)) = insert (ai_envelopeId item) (set (map sr_envelopeId (sc_log sc)))"
proof -
  obtain s' where s': "applyEvent (sc_state sc) (scenarioEnvelope sc item) = Inr s'"
    and sc1: "sc1 = sc\<lparr>sc_log := sc_log sc @ [scenarioRow sc item], sc_state := s'\<rparr>"
    using assms(2) by (auto simp: appendOne_def)
  have "lastSeq s' = lastSeq (sc_state sc) + 1"
    using applyEvent_positioned [OF s'] by (simp add: positioned_def scenarioEnvelope_def Let_def)
  moreover have "sr_envelopeId (scenarioRow sc item) = ai_envelopeId item"
    "sr_seq (scenarioRow sc item) = lastSeq (sc_state sc) + 1" by (simp_all add: scenarioRow_def)
  ultimately show ?thesis
    using assms(1,3) s' unfolding sc1 scenarioEnvelope_row
    by (auto simp: sourced_def same_setup_def replayRows_def fold_res_append)
qed

lemma applyAppend_sourced:
  assumes "sourced init sc" and "applyAppend sc items = Inr (sc', es)"
  shows "sourced init sc' \<and> same_setup sc sc' \<and> sc_outputs sc' = sc_outputs sc \<and>
     ai_envelopeId ` set items \<subseteq> set (map sr_envelopeId (sc_log sc')) \<and>
     set (map sr_envelopeId (sc_log sc)) \<subseteq> set (map sr_envelopeId (sc_log sc'))"
  using assms
proof (induction items arbitrary: sc es)
  case Nil
  then show ?case by simp
next
  case (Cons item items)
  show ?case
  proof (cases "ai_envelopeId item \<in> sr_envelopeId ` set (sc_log sc)")
    case True
    with Cons.prems have "applyAppend sc items = Inr (sc', es)" by (simp only: applyAppend_known)
    with Cons.IH [OF Cons.prems(1)] True show ?thesis by auto
  next
    case False
    obtain sc1 es1 where 1: "appendOne sc item = Inr sc1" "applyAppend sc1 items = Inr (sc', es1)"
      using Cons.prems(2) unfolding applyAppend_fresh [OF False] by auto
    note o = appendOne_sourced [OF Cons.prems(1) 1(1) False]
    from Cons.IH [OF _ 1(2)] o same_setup_trans show ?thesis by auto
  qed
qed

lemma applyAppend_idem:
  "ai_envelopeId ` set items \<subseteq> sr_envelopeId ` set (sc_log sc) \<Longrightarrow> applyAppend sc items = Inr (sc, [])"
  by (induction items) auto

lemma sourced_cong:
  "sc_ctx sc' = sc_ctx sc \<Longrightarrow> sc_log sc' = sc_log sc \<Longrightarrow> sc_state sc' = sc_state sc \<Longrightarrow>
     sourced init sc' = sourced init sc"
  by (simp add: sourced_def)

definition registered :: "scenario \<Rightarrow> bool" where
  "registered sc \<longleftrightarrow> sc_effects sc = effectMap (derivePendingEffects (sc_state sc))"

lemma registerEffects_registered:
  "registerEffects sc emitted = Inr sc' \<Longrightarrow> registered sc' \<and> same_setup sc sc' \<and>
     sc_log sc' = sc_log sc \<and> sc_state sc' = sc_state sc \<and> sc_outputs sc' = sc_outputs sc"
  by (auto simp: registerEffects_def registered_def same_setup_def Let_def split: option.splits)

text \<open>What every operation keeps, from any scenario that satisfies it.\<close>

definition consistent :: "agent_state \<Rightarrow> scenario \<Rightarrow> bool" where
  "consistent init sc \<longleftrightarrow> sourced init sc \<and> registered sc"

lemma appended_registered:
  assumes "sourced init sc" and "applyAppend sc items = Inr (sc1, es)" and "registerEffects sc1 emitted = Inr sc2"
  shows "consistent init sc2 \<and> same_setup sc sc2"
proof -
  from applyAppend_sourced [OF assms(1,2)] have "sourced init sc1" "same_setup sc sc1" by simp_all
  moreover from registerEffects_registered [OF assms(3)] have "registered sc2" "same_setup sc1 sc2"
    "sc_log sc2 = sc_log sc1" "sc_state sc2 = sc_state sc1" by simp_all
  moreover from this have "sourced init sc2 = sourced init sc1"
    by (intro sourced_cong) (simp_all add: same_setup_def)
  ultimately show ?thesis using same_setup_trans by (auto simp: consistent_def)
qed

lemma runStep_consistent:
  assumes "sourced init sc" and "runStep sc incoming = Inr (sc', es)"
  shows "consistent init sc' \<and> same_setup sc sc'"
proof -
  obtain out' sc1 where "applyAppend (sc\<lparr>sc_outputs := sc_outputs sc @ [out']\<rparr>) (so_append out') = Inr (sc1, es)"
    "registerEffects sc1 (so_effects out') = Inr sc'"
    using assms(2) by (auto simp: runStep_def)
  from appended_registered [OF _ this] assms(1) sourced_cong [of "sc\<lparr>sc_outputs := sc_outputs sc @ [out']\<rparr>" sc]
  show ?thesis by (simp add: same_setup_def)
qed

lemma consistent_sourced: "consistent init sc \<Longrightarrow> sourced init sc"
  by (simp add: consistent_def)

lemma dispatch_consistent:
  "dispatch fuel sc incoming = Some (Inr sc') \<Longrightarrow> sourced init sc \<Longrightarrow> consistent init sc' \<and> same_setup sc sc'"
  "cascade fuel sc envelopes = Some (Inr sc') \<Longrightarrow> consistent init sc \<Longrightarrow> consistent init sc' \<and> same_setup sc sc'"
proof (induction fuel sc incoming and fuel sc envelopes arbitrary: sc' and sc' rule: dispatch_cascade.induct)
  case (2 fuel scenario incoming)
  then obtain sc1 es where 1: "runStep scenario incoming = Inr (sc1, es)" "cascade fuel sc1 es = Some (Inr sc')"
    by (auto split: sum.splits prod.splits)
  from runStep_consistent [OF 2(3) 1(1)] 2(1) [OF 1(1) refl 1(2)] same_setup_trans show ?case by blast
next
  case (4 fuel scenario envelope envelopes)
  then obtain sc1 where 1: "dispatch fuel scenario (EventAppended envelope) = Some (Inr sc1)"
    "cascade fuel sc1 envelopes = Some (Inr sc')"
    by (auto split: option.splits sum.splits)
  from 4(1) [OF 1(1) consistent_sourced [OF 4(4)]] 4(2) [OF 1(1) refl 1(2)] same_setup_trans show ?case by blast
qed simp_all

lemma settle_consistent:
  assumes "sourced init sc" and "settleEffect classify sc eid outcome = Inr (sc', es)"
  shows "consistent init sc' \<and> same_setup sc sc'"
proof -
  obtain items sc1 where "applyAppend (sc\<lparr>sc_effects := ddel eid (sc_effects sc)\<rparr>)
       (transformItems (sc_policies sc) (sc_state sc) items) = Inr (sc1, es)" "registerEffects sc1 [] = Inr sc'"
    using assms(2) by (auto simp: settleEffect_def split: option.splits)
  from appended_registered [OF _ this] assms(1) sourced_cong [of "sc\<lparr>sc_effects := ddel eid (sc_effects sc)\<rparr>" sc]
  show ?thesis by (simp add: same_setup_def)
qed

text \<open>The scenarios an initial one can reach: commands, external events and effect outcomes in any order.\<close>

inductive reaches :: "classifier \<Rightarrow> scenario \<Rightarrow> scenario \<Rightarrow> bool" for classify sc0 where
  started: "dispatch fuel sc0 incoming = Some (Inr sc) \<Longrightarrow> reaches classify sc0 sc"
| dispatched: "reaches classify sc0 sc \<Longrightarrow> dispatch fuel sc incoming = Some (Inr sc') \<Longrightarrow> reaches classify sc0 sc'"
| resolved: "reaches classify sc0 sc \<Longrightarrow> resolveEffect classify fuel sc eid outcome = Some (Inr sc') \<Longrightarrow>
     reaches classify sc0 sc'"

lemma created_sourced: "sourced state (createScenario classify state policies now)"
  by (simp add: sourced_def createScenario_def replayRows_def)

lemma resolve_consistent:
  assumes "sourced init sc" and "resolveEffect classify fuel sc eid outcome = Some (Inr sc')"
  shows "consistent init sc'"
proof -
  obtain sc1 es where "settleEffect classify sc eid outcome = Inr (sc1, es)" "cascade fuel sc1 es = Some (Inr sc')"
    using assms(2) by (auto simp: resolveEffect_def split: sum.splits prod.splits)
  then show ?thesis using settle_consistent [OF assms(1)] dispatch_consistent(2) by blast
qed

lemma reaches_consistent:
  "reaches classify sc0 sc \<Longrightarrow> sourced init sc0 \<Longrightarrow> consistent init sc"
  by (induction rule: reaches.induct)
     (use dispatch_consistent(1) resolve_consistent consistent_sourced in blast)+

lemma effectMap_distinct:
  assumes "distinct (map effectId ds)"
  shows "effectMap ds = map (\<lambda>d. (effectId d, d)) ds"
proof -
  have "dput k v acc = acc @ [(k, v)]" if "k \<notin> fst ` set acc" for k v and acc :: "effect_descriptor dict"
    using that by (induction acc) auto
  then have "fold (\<lambda>d. dput (effectId d) d) ds acc = acc @ map (\<lambda>d. (effectId d, d)) ds"
    if "distinct (map effectId ds)" "effectId ` set ds \<inter> fst ` set acc = {}" for acc
    using that by (induction ds arbitrary: acc) auto
  from this [OF assms] show ?thesis by (simp add: effectMap_def)
qed

lemma replay_wf: "replayRows ctx init rows = Inr s \<Longrightarrow> wf_state init \<Longrightarrow> wf_state s"
proof (induction rows arbitrary: init)
  case Nil
  then show ?case by (simp add: replayRows_def)
next
  case (Cons row rows)
  then show ?case by (auto simp: replayRows_def intro: applyEvent_wf)
qed

declare applyAppend.simps(2) [simp del]

subsection \<open>A turn from prompt to close\<close>

definition idle :: "agent_state \<Rightarrow> bool" where
  "idle s \<longleftrightarrow> selfId s = Some ''agent:self'' \<and> openTurn s = None \<and> inFlightModelCall s = None \<and>
     pendingInvocations s = [] \<and> pendingApprovals s = [] \<and> pendingCredentialWaits s = [] \<and>
     steeringQueue s = [] \<and> deferredPostTurnQueue s = []"

lemma composed_plain:
  assumes "coreStep classify s incoming ctx = Inr core" and "no_starts core" and "incoming \<noteq> CommandIn Wake"
  shows "composeStep classify defaultPolicies s incoming ctx = Inr core"
  using assms rewriting_identity [of core s incoming ctx] fork_not_wake [OF assms(3)]
  by (simp add: composeStep_def defaultPolicies_split applyPolicies_def fold_res_append forkPolicy_def no_starts_def
      del: bind_res_Inr_iff)

text \<open>Scenarios of a single agent under the default policies.\<close>

definition standard :: "classifier \<Rightarrow> scenario \<Rightarrow> bool" where
  "standard classify sc \<longleftrightarrow> sc_step sc = composeStep classify defaultPolicies \<and> sc_policies sc = defaultPolicies \<and>
     jget (ctx_selfRef (sc_ctx sc)) ''id'' = JStr ''agent:self''"

lemma registered_step:
  "standard classify sc \<Longrightarrow> registered sc \<Longrightarrow> coreStep classify (sc_state sc) (EventAppended e) (sc_ctx sc) = Inr EMPTY \<Longrightarrow>
     dispatch (Suc fuel) sc (EventAppended e) = Some (Inr (sc\<lparr>sc_outputs := sc_outputs sc @ [EMPTY]\<rparr>))"
  using composed_plain [of classify "sc_state sc" "EventAppended e" "sc_ctx sc" EMPTY]
  by (simp add: runStep_def standard_def registered_def registerEffects_def no_starts_def EMPTY_def Let_def)

text \<open>A cascade whose events the step ignores changes nothing but the recorded outputs.\<close>

lemma quiet_cascade:
  assumes "standard classify sc" and "registered sc"
    and "list_all (\<lambda>e. coreStep classify (sc_state sc) (EventAppended e) (sc_ctx sc) = Inr EMPTY) es"
  shows "\<exists>outs. cascade (Suc fuel) sc es = Some (Inr (sc\<lparr>sc_outputs := outs\<rparr>))"
  using assms
proof (induction es arbitrary: sc)
  case Nil
  have "cascade (Suc fuel) sc [] = Some (Inr (sc\<lparr>sc_outputs := sc_outputs sc\<rparr>))" by simp
  then show ?case by blast
next
  case (Cons e es)
  let ?sc = "sc\<lparr>sc_outputs := sc_outputs sc @ [EMPTY]\<rparr>"
  have d: "dispatch (Suc fuel) sc (EventAppended e) = Some (Inr ?sc)"
    using registered_step [OF Cons.prems(1,2)] Cons.prems(3) by simp
  have "standard classify ?sc" "registered ?sc" using Cons.prems(1,2) by (simp_all add: standard_def registered_def)
  from Cons.IH [OF this] Cons.prems(3) obtain outs where "cascade (Suc fuel) ?sc es = Some (Inr (?sc\<lparr>sc_outputs := outs\<rparr>))"
    by auto
  with d show ?case by (auto simp del: dispatch.simps)
qed

lemma scenarioEnvelope_fields [simp]:
  "env_seq (scenarioEnvelope sc item) = lastSeq (sc_state sc) + 1"
  "env_payloadKind (scenarioEnvelope sc item) = ai_payloadKind item"
  "env_payload (scenarioEnvelope sc item) = ai_payload item"
  "env_envelopeId (scenarioEnvelope sc item) = ai_envelopeId item"
  "truthy (ai_causality item) \<Longrightarrow> env_causality (scenarioEnvelope sc item) = ai_causality item"
  by (simp_all add: scenarioEnvelope_def Let_def)

lemma scenario_not_foreign:
  "standard classify sc \<Longrightarrow> selfId s = Some ''agent:self'' \<Longrightarrow> \<not> foreignAuthor s (scenarioEnvelope sc item)"
  by (simp add: foreignAuthor_def scenarioEnvelope_def standard_def Let_def)

text \<open>The states a turn without tools passes through.\<close>

definition in_turn :: "string \<Rightarrow> nat \<Rightarrow> agent_state \<Rightarrow> bool" where
  "in_turn t n s \<longleftrightarrow> idle (s\<lparr>openTurn := None, inFlightModelCall := None\<rparr>) \<and>
     (\<exists>turn. openTurn s = Some turn \<and> ot_turnId turn = t \<and> ot_modelCallCount turn = n \<and> \<not> ot_interrupted turn)"

text \<open>Appending one fresh item whose fold is known.\<close>

definition logIds :: "scenario \<Rightarrow> string list" where
  "logIds sc = map sr_envelopeId (sc_log sc)"

definition added :: "scenario \<Rightarrow> append_item \<Rightarrow> agent_state \<Rightarrow> scenario" where
  "added sc item s' = sc\<lparr>sc_log := sc_log sc @ [scenarioRow sc item], sc_state := s'\<rparr>"

lemma added_fields [simp]:
  "sc_state (added sc item s') = s'" "sc_ctx (added sc item s') = sc_ctx sc"
  "logIds (added sc item s') = logIds sc @ [ai_envelopeId item]"
  "kinds (added sc item s') = kinds sc @ [ai_payloadKind item]"
  "standard classify (added sc item s') = standard classify sc" "same_setup sc (added sc item s')"
  by (simp_all add: added_def logIds_def kinds_def scenarioRow_def standard_def same_setup_def)

lemma applyAppend_added:
  assumes "ai_envelopeId item \<notin> set (logIds sc)"
    and "applyEvent (sc_state sc) (scenarioEnvelope sc item) = Inr s'"
    and "applyAppend (added sc item s') items = Inr (sc', es)"
  shows "applyAppend sc (item # items) = Inr (sc', scenarioEnvelope sc item # es)"
  using assms applyAppend_fresh [of item sc items]
  by (simp add: appendOne_def logIds_def added_def del: applyAppend.simps(2))

lemma fold_recv:
  assumes "idle (sc_state sc)"
  shows "\<exists>s'. applyEvent (sc_state sc) (scenarioEnvelope sc (recvItem c)) = Inr s' \<and> idle s' \<and>
     channelId s' = channelId (sc_state sc) \<and> lastSeq s' = lastSeq (sc_state sc) + 1"
proof -
  have p: "ai_payload (recvItem c) = recvPayload c" "ai_payloadKind (recvItem c) = MessageCompleted"
    by (simp_all add: recvItem_def)
  have "jget (recvPayload c) ''role'' = JStr ''user''" "is_plain_object (recvPayload c)"
    by (simp_all add: recvPayload_def protocol_prop_def)
  then show ?thesis
    using assms
    by (simp add: applyEvent_def Let_def p foldMessageCompleted_def foldUserCompleted_def payloadRecord_def
        idle_def split: option.split)
qed

lemma fold_turnOpened:
  assumes "standard classify sc" and "idle (sc_state sc)" and "t \<noteq> []"
  shows "\<exists>s'. applyEvent (sc_state sc) (scenarioEnvelope sc (turnOpenedItem t md)) = Inr s' \<and> in_turn t 0 s' \<and>
     inFlightModelCall s' = None \<and> channelId s' = channelId (sc_state sc) \<and> lastSeq s' = lastSeq (sc_state sc) + 1"
  using assms scenario_not_foreign [OF assms(1), of "sc_state sc" "turnOpenedItem t md"]
  by (simp add: applyEvent_def Let_def foldTurnOpened_def idle_def in_turn_def turnOpenedItem_def
      causalityTurnId_def causalityRecord_def)

lemma fold_modelStart:
  assumes "standard classify sc" and "in_turn t n (sc_state sc)" and "modelStartItems st t k j = (item, effect)"
  shows "\<exists>s' call. applyEvent (sc_state sc) (scenarioEnvelope sc item) = Inr s' \<and> in_turn t (n + 1) s' \<and>
     inFlightModelCall s' = Some call \<and> mc_messageId call = ids_messageId t k \<and> mc_request call = modelRequest st t k j \<and>
     channelId s' = channelId (sc_state sc)"
proof -
  have s: "selfId (sc_state sc) = Some ''agent:self''" using assms(2) by (simp add: in_turn_def idle_def)
  show ?thesis
    using assms scenario_not_foreign [OF assms(1) s, of item]
    by (auto simp: applyEvent_def Let_def foldMessageStarted_def modelStartItems_def payload_reads protocol_prop_def
        idle_def in_turn_def)
qed

lemma in_turn_effects:
  "in_turn t n s \<Longrightarrow> derivePendingEffects s =
     (case inFlightModelCall s of Some call \<Rightarrow> [modelCallEffect s call] | None \<Rightarrow> [])"
  by (simp add: in_turn_def idle_def derivePendingEffects_def)

lemma prompt_step:
  assumes "idle s" and "\<not> alreadyIngested s (recvIdOf c)"
  shows "composeStep classify defaultPolicies s (CommandIn (Prompt c)) ctx = Inr (openPromptTurn s c ctx)"
proof (rule composed_plain)
  show "coreStep classify s (CommandIn (Prompt c)) ctx = Inr (openPromptTurn s c ctx)"
    using assms by (simp add: promptStep_def idle_def)
  show "no_starts (openPromptTurn s c ctx)" using plain_openPromptTurn by (simp add: plain_def)
qed simp

lemma prompt_ids_distinct:
  "recvIdOf c \<noteq> ids_turnOpened t" "recvIdOf c \<noteq> ids_messageStarted m" "ids_turnOpened t \<noteq> ids_messageStarted m"
  by (simp_all add: recvIdOf_def id_simps)

definition promptTurnId :: "user_command \<Rightarrow> step_context \<Rightarrow> string" where
  "promptTurnId c ctx = ids_turnId (uc_channelId c) (uc_sourceEnvelopeId c) (selfActorId ctx)"

lemma prompt_appends:
  assumes "standard classify sc" and "idle (sc_state sc)" and "sc_log sc = []"
  shows "\<exists>sc1 e1 e2 e3 call. applyAppend sc (so_append (openPromptTurn (sc_state sc) c (sc_ctx sc))) = Inr (sc1, [e1, e2, e3]) \<and>
     same_setup sc sc1 \<and> in_turn (promptTurnId c (sc_ctx sc)) 1 (sc_state sc1) \<and>
     inFlightModelCall (sc_state sc1) = Some call \<and> mc_messageId call = ids_messageId (promptTurnId c (sc_ctx sc)) 0 \<and>
     logIds sc1 = [recvIdOf c, ids_turnOpened (promptTurnId c (sc_ctx sc)),
       ids_messageStarted (ids_messageId (promptTurnId c (sc_ctx sc)) 0)] \<and>
     kinds sc1 = [MessageCompleted, TurnOpened, MessageStarted] \<and>
     env_payloadKind e1 = MessageCompleted \<and> jget (eventPayload e1) ''role'' = JStr ''user'' \<and>
     env_payloadKind e2 = TurnOpened \<and> env_payloadKind e3 = MessageStarted"
proof -
  let ?t = "promptTurnId c (sc_ctx sc)"
  let ?opened = "turnOpenedItem ?t (uc_metadata c)"
  let ?st = "(sc_state sc)\<lparr>openTurn := Some (freshTurn ?t (lastSeq (sc_state sc) + 2) (uc_metadata c))\<rparr>"
  obtain item effect where m: "modelStartItems ?st ?t 0 2 = (item, effect)" by (meson surj_pair)
  have a: "so_append (openPromptTurn (sc_state sc) c (sc_ctx sc)) = [recvItem c, ?opened, item]"
    using m by (simp add: openPromptTurn_def promptTurnId_def Let_def)
  have i: "ai_envelopeId (recvItem c) = recvIdOf c" "ai_envelopeId ?opened = ids_turnOpened ?t"
    "ai_envelopeId item = ids_messageStarted (ids_messageId ?t 0)"
    "ai_payloadKind ?opened = TurnOpened" "ai_payloadKind item = MessageStarted"
    using m by (auto simp: recvItem_def recvIdOf_def turnOpenedItem_def modelStartItems_def Let_def)
  have l: "logIds sc = []" "kinds sc = []" using assms(3) by (simp_all add: logIds_def kinds_def)
  obtain s1 where 1: "applyEvent (sc_state sc) (scenarioEnvelope sc (recvItem c)) = Inr s1" "idle s1"
    using fold_recv [OF assms(2)] by blast
  let ?sc1 = "added sc (recvItem c) s1"
  obtain s2 where 2: "applyEvent (sc_state ?sc1) (scenarioEnvelope ?sc1 ?opened) = Inr s2" "in_turn ?t 0 s2"
    using fold_turnOpened [of classify ?sc1 ?t "uc_metadata c"] assms(1) 1(2) by (auto simp: promptTurnId_def)
  let ?sc2 = "added ?sc1 ?opened s2"
  obtain s3 call where 3: "applyEvent (sc_state ?sc2) (scenarioEnvelope ?sc2 item) = Inr s3" "in_turn ?t 1 s3"
    "inFlightModelCall s3 = Some call" "mc_messageId call = ids_messageId ?t 0"
    using fold_modelStart [of classify ?sc2 ?t 0 ?st 0 2 item effect] assms(1) 2(2) m by auto
  let ?sc3 = "added ?sc2 item s3"
  have "applyAppend sc [recvItem c, ?opened, item] =
      Inr (?sc3, [scenarioEnvelope sc (recvItem c), scenarioEnvelope ?sc1 ?opened, scenarioEnvelope ?sc2 item])"
    by (rule applyAppend_added [OF _ 1(1)], simp add: l,
        rule applyAppend_added [OF _ 2(1)], simp add: l i prompt_ids_distinct [symmetric],
        rule applyAppend_added [OF _ 3(1)], simp add: l i prompt_ids_distinct [symmetric], simp)
  moreover have "jget (eventPayload (scenarioEnvelope sc (recvItem c))) ''role'' = JStr ''user''"
    by (simp add: eventPayload_def recvItem_def recvPayload_def protocol_prop_def)
  moreover have "same_setup sc ?sc3" by (simp add: same_setup_def added_def)
  ultimately show ?thesis
    unfolding a using 3(2,3,4) i l by (intro exI [of _ ?sc3]) simp
qed

lemma registerEffects_ok:
  assumes "\<forall>d \<in> set emitted. effectKind d \<noteq> KPublishEnvelope \<longrightarrow> effectId d \<in> set (map effectId (derivePendingEffects (sc_state sc)))"
  shows "registerEffects sc emitted = Inr (sc\<lparr>sc_effects := effectMap (derivePendingEffects (sc_state sc))\<rparr>)"
proof -
  have "find (\<lambda>d. effectKind d \<noteq> KPublishEnvelope \<and> effectId d \<notin> set (map effectId (derivePendingEffects (sc_state sc)))) emitted = None"
    unfolding find_None_iff using assms by blast
  then show ?thesis by (simp add: registerEffects_def Let_def del: set_map)
qed

lemma prompt_effects:
  "\<forall>d \<in> set (so_effects (openPromptTurn s c ctx)). effectKind d \<noteq> KPublishEnvelope \<longrightarrow>
     effectId d = ids_modelEffect (ids_messageId (promptTurnId c ctx) 0)"
  by (auto simp: openPromptTurn_def promptTurnId_def Let_def split: prod.splits dest: readAcks_publish modelStart_kind)

lemma quiet_events:
  "env_payloadKind e = MessageCompleted \<Longrightarrow> jget (eventPayload e) ''role'' = JStr ''user'' \<Longrightarrow>
     coreStep classify s (EventAppended e) ctx = Inr EMPTY"
  "env_payloadKind e = TurnOpened \<Longrightarrow> coreStep classify s (EventAppended e) ctx = Inr EMPTY"
  "env_payloadKind e = MessageStarted \<Longrightarrow> coreStep classify s (EventAppended e) ctx = Inr EMPTY"
  by (simp_all add: eventStep_def)

lemma prompt_dispatch:
  assumes "standard classify sc" and "idle (sc_state sc)" and "sc_log sc = []"
    and "\<not> alreadyIngested (sc_state sc) (recvIdOf c)"
  shows "\<exists>sc1 call. dispatch 2 sc (CommandIn (Prompt c)) = Some (Inr sc1) \<and> same_setup sc sc1 \<and> registered sc1 \<and>
     in_turn (promptTurnId c (sc_ctx sc)) 1 (sc_state sc1) \<and> inFlightModelCall (sc_state sc1) = Some call \<and>
     mc_messageId call = ids_messageId (promptTurnId c (sc_ctx sc)) 0 \<and>
     logIds sc1 = [recvIdOf c, ids_turnOpened (promptTurnId c (sc_ctx sc)),
       ids_messageStarted (ids_messageId (promptTurnId c (sc_ctx sc)) 0)] \<and>
     kinds sc1 = [MessageCompleted, TurnOpened, MessageStarted]"
proof -
  let ?t = "promptTurnId c (sc_ctx sc)"
  let ?out = "openPromptTurn (sc_state sc) c (sc_ctx sc)"
  let ?sc0 = "sc\<lparr>sc_outputs := sc_outputs sc @ [?out]\<rparr>"
  have "standard classify ?sc0" "idle (sc_state ?sc0)" "sc_log ?sc0 = []" using assms by (simp_all add: standard_def)
  from prompt_appends [OF this, of c] obtain sc1 e1 e2 e3 call where
    a: "applyAppend ?sc0 (so_append ?out) = Inr (sc1, [e1, e2, e3])" "same_setup ?sc0 sc1" "in_turn ?t 1 (sc_state sc1)"
      "inFlightModelCall (sc_state sc1) = Some call" "mc_messageId call = ids_messageId ?t 0"
      "logIds sc1 = [recvIdOf c, ids_turnOpened ?t, ids_messageStarted (ids_messageId ?t 0)]"
      "kinds sc1 = [MessageCompleted, TurnOpened, MessageStarted]"
    and e: "env_payloadKind e1 = MessageCompleted" "jget (eventPayload e1) ''role'' = JStr ''user''"
      "env_payloadKind e2 = TurnOpened" "env_payloadKind e3 = MessageStarted"
    by auto
  let ?sc2 = "sc1\<lparr>sc_effects := effectMap (derivePendingEffects (sc_state sc1))\<rparr>"
  have "registerEffects sc1 (so_effects ?out) = Inr ?sc2"
    by (rule registerEffects_ok)
       (use prompt_effects [of "sc_state sc" c "sc_ctx sc"] in_turn_effects [OF a(3)] a(4,5) in auto)
  then have r: "runStep sc (CommandIn (Prompt c)) = Inr (?sc2, [e1, e2, e3])"
    using prompt_step [OF assms(2,4), of classify "sc_ctx sc"] assms(1) a(1) by (simp add: runStep_def standard_def)
  have "standard classify ?sc2" "registered ?sc2"
    using assms(1) a(2) by (simp_all add: standard_def registered_def same_setup_def)
  from quiet_cascade [OF this, of "[e1, e2, e3]" 0] quiet_events e obtain outs where
    "cascade 1 ?sc2 [e1, e2, e3] = Some (Inr (?sc2\<lparr>sc_outputs := outs\<rparr>))" by auto
  then have "dispatch 2 sc (CommandIn (Prompt c)) = Some (Inr (?sc2\<lparr>sc_outputs := outs\<rparr>))"
    using r by (simp add: numeral_2_eq_2)
  then show ?thesis
    using a by (intro exI [of _ "?sc2\<lparr>sc_outputs := outs\<rparr>"] exI [of _ call])
      (simp add: same_setup_def registered_def logIds_def kinds_def)
qed

text \<open>The model's answer, and the close of the turn it leads to.\<close>

lemma fold_answer:
  assumes "standard classify sc" and "in_turn t n (sc_state sc)" and "inFlightModelCall (sc_state sc) = Some call"
    and "modelCompletedEvents (mc_messageId call) request blocks stop oc usage = [item]"
  shows "\<exists>s'. applyEvent (sc_state sc) (scenarioEnvelope sc item) = Inr s' \<and> in_turn t n s' \<and> inFlightModelCall s' = None"
proof -
  have s: "selfId (sc_state sc) = Some ''agent:self''" using assms(2) by (simp add: in_turn_def idle_def)
  show ?thesis
    using assms scenario_not_foreign [OF assms(1) s, of item]
    by (auto simp: applyEvent_def Let_def modelCompletedEvents_def foldMessageCompleted_def foldAssistantCompleted_def
        payload_reads protocol_prop_def idle_def in_turn_def)
qed

lemma fold_turnClosed:
  assumes "standard classify sc" and "in_turn t n (sc_state sc)"
  shows "\<exists>s'. applyEvent (sc_state sc) (scenarioEnvelope sc (turnClosedItem t None None)) = Inr s' \<and> idle s'"
proof -
  have s: "selfId (sc_state sc) = Some ''agent:self''" using assms(2) by (simp add: in_turn_def idle_def)
  show ?thesis
    using assms scenario_not_foreign [OF assms(1) s, of "turnClosedItem t None None"]
    by (auto simp: applyEvent_def Let_def turnClosedItem_def foldTurnClosed_def payload_reads idle_def in_turn_def)
qed

lemma answer_step:
  assumes "in_turn t n s" and "env_payloadKind e = MessageCompleted"
    and "eventPayload e = payload" and "jget payload ''role'' = JStr ''assistant''"
    and "string_or (jget payload ''outcome'') ''completed'' \<noteq> ''interrupted''"
    and "filter isToolCallBlock (array_or_empty (jget payload ''blocks'')) = []"
  shows "coreStep classify s (EventAppended e) ctx = Inr (appendOnly [turnClosedItem t None None])"
  using assms by (auto simp: eventStep_def modelTerminalStep_def Let_def in_turn_def idle_def)

lemma close_dispatch:
  assumes "standard classify sc" and "in_turn t n (sc_state sc)" and "ids_turnClosed t \<notin> set (logIds sc)"
    and "coreStep classify (sc_state sc) (EventAppended e) (sc_ctx sc) = Inr (appendOnly [turnClosedItem t None None])"
  shows "\<exists>sc'. dispatch 2 sc (EventAppended e) = Some (Inr sc') \<and> idle (sc_state sc') \<and> sc_effects sc' = [] \<and>
     kinds sc' = kinds sc @ [TurnClosed]"
proof -
  let ?item = "turnClosedItem t None None"
  let ?sc0 = "sc\<lparr>sc_outputs := sc_outputs sc @ [appendOnly [?item]]\<rparr>"
  have st: "standard classify ?sc0" "in_turn t n (sc_state ?sc0)" using assms(1,2) by (simp_all add: standard_def)
  obtain s' where s': "applyEvent (sc_state ?sc0) (scenarioEnvelope ?sc0 ?item) = Inr s'" "idle s'"
    using fold_turnClosed [OF st] by blast
  let ?e' = "scenarioEnvelope ?sc0 ?item"
  have k: "ai_payloadKind ?item = TurnClosed" "ai_envelopeId ?item = ids_turnClosed t" by (simp_all add: turnClosedItem_def)
  have a: "applyAppend ?sc0 [?item] = Inr (added ?sc0 ?item s', [?e'])"
    by (rule applyAppend_added [OF _ s'(1)]) (use assms(3) k in \<open>simp_all add: logIds_def\<close>)
  let ?sc1 = "(added ?sc0 ?item s')\<lparr>sc_effects := []\<rparr>"
  have d: "derivePendingEffects s' = []" using s'(2) by (simp add: idle_def derivePendingEffects_def)
  have "composeStep classify defaultPolicies (sc_state sc) (EventAppended e) (sc_ctx sc) = Inr (appendOnly [?item])"
    by (rule composed_plain [OF assms(4)]) (simp_all add: no_starts_def appendOnly_def isInvocationStarted_def k)
  then have r: "runStep sc (EventAppended e) = Inr (?sc1, [?e'])"
    using assms(1) a registerEffects_ok [of "[]" "added ?sc0 ?item s'"] d
    by (simp add: runStep_def standard_def appendOnly_def effectMap_def)
  have "standard classify ?sc1" "registered ?sc1"
    using assms(1) d by (simp_all add: standard_def registered_def added_def effectMap_def)
  moreover have "coreStep classify (sc_state ?sc1) (EventAppended ?e') (sc_ctx ?sc1) = Inr EMPTY"
    using s'(2) k by (simp add: eventStep_def turnClosedStep_def idle_def)
  ultimately obtain outs where "cascade 1 ?sc1 [?e'] = Some (Inr (?sc1\<lparr>sc_outputs := outs\<rparr>))"
    using quiet_cascade [of classify ?sc1 "[?e']" 0] by auto
  then have "dispatch 2 sc (EventAppended e) = Some (Inr (?sc1\<lparr>sc_outputs := outs\<rparr>))"
    using r by (simp add: numeral_2_eq_2)
  then show ?thesis using s'(2) k by (intro exI [of _ "?sc1\<lparr>sc_outputs := outs\<rparr>"]) (simp add: added_def kinds_def scenarioRow_def)
qed

lemma default_transform: "transformItems defaultPolicies s items = items"
  by (simp add: transformItems_def defaultPolicies_def channelToolsPolicy_def approvalGatePolicy_def
      askUserPolicy_def forkPolicy_def)

lemma answer_not_interrupted: "classifyModelOutcome blocks StopCompleted None \<noteq> ''interrupted''"
  by (simp add: classifyModelOutcome_def nonempty_opt_def)

lemma answer_resolve:
  assumes "standard classify sc" and "registered sc" and "in_turn t n (sc_state sc)"
    and "inFlightModelCall (sc_state sc) = Some call" and "filter isToolCallBlock blocks = []"
    and "ids_messageTerminal (mc_messageId call) \<notin> set (logIds sc)" and "ids_turnClosed t \<notin> set (logIds sc)"
    and "ids_turnClosed t \<noteq> ids_messageTerminal (mc_messageId call)"
  shows "\<exists>sc'. resolveEffect classify 2 sc (ids_modelEffect (mc_messageId call))
       (ModelOutcome blocks StopCompleted None usage None None None) = Some (Inr sc') \<and>
     idle (sc_state sc') \<and> sc_effects sc' = [] \<and> kinds sc' = kinds sc @ [MessageCompleted, TurnClosed]"
proof -
  let ?m = "mc_messageId call"
  obtain item where i: "modelCompletedEvents ?m (mc_request call) blocks StopCompleted None usage = [item]"
    by (simp add: modelCompletedEvents_def Let_def)
  have f: "ai_envelopeId item = ids_messageTerminal ?m" "ai_payloadKind item = MessageCompleted"
    "is_plain_object (ai_payload item)" "jget (ai_payload item) ''role'' = JStr ''assistant''"
    "jget (ai_payload item) ''blocks'' = JArr blocks"
    "jget (ai_payload item) ''outcome'' = JStr (classifyModelOutcome blocks StopCompleted None)"
    using i by (auto simp: modelCompletedEvents_def protocol_prop_def Let_def)
  let ?sc0 = "sc\<lparr>sc_effects := []\<rparr>"
  have st: "standard classify ?sc0" "in_turn t n (sc_state ?sc0)" "inFlightModelCall (sc_state ?sc0) = Some call"
    using assms(1,3,4) by (simp_all add: standard_def)
  obtain s' where s': "applyEvent (sc_state ?sc0) (scenarioEnvelope ?sc0 item) = Inr s'" "in_turn t n s'" "inFlightModelCall s' = None"
    using fold_answer [OF st i] by blast
  let ?e = "scenarioEnvelope ?sc0 item"
  let ?sc1 = "added ?sc0 item s'"
  have a: "applyAppend ?sc0 [item] = Inr (?sc1, [?e])"
    by (rule applyAppend_added [OF _ s'(1)]) (use assms(6) f in \<open>simp_all add: logIds_def\<close>)
  have d: "derivePendingEffects s' = []" using in_turn_effects [OF s'(2)] s'(3) by simp
  have e: "sc_effects sc = [(ids_modelEffect ?m, modelCallEffect (sc_state sc) call)]"
    using assms(2,4) in_turn_effects [OF assms(3)] by (simp add: registered_def effectMap_def)
  have o: "outcomeEvents classify (modelCallEffect (sc_state sc) call)
      (ModelOutcome blocks StopCompleted None usage None None None) now = Inr [item]" for now
    using i by (simp add: modelCallEffect_def)
  have g: "registerEffects ?sc1 [] = Inr (?sc1\<lparr>sc_effects := []\<rparr>)"
    using registerEffects_ok [of "[]" ?sc1] d by (simp add: effectMap_def)
  have "settleEffect classify sc (ids_modelEffect ?m) (ModelOutcome blocks StopCompleted None usage None None None)
      = Inr (?sc1\<lparr>sc_effects := []\<rparr>, [?e])"
    using e o a g assms(1) by (simp add: settleEffect_def standard_def default_transform)
  moreover have p: "eventPayload ?e = ai_payload item"
    using f(3) by (auto simp: eventPayload_def is_plain_object_iff)
  have c: "coreStep classify s' (EventAppended ?e) ctx = Inr (appendOnly [turnClosedItem t None None])" for ctx
    by (rule answer_step [OF s'(2) _ p f(4)]) (use f assms(5) answer_not_interrupted in simp_all)
  have "\<exists>sc'. dispatch 2 (?sc1\<lparr>sc_effects := []\<rparr>) (EventAppended ?e) = Some (Inr sc') \<and> idle (sc_state sc') \<and>
      sc_effects sc' = [] \<and> kinds sc' = kinds (?sc1\<lparr>sc_effects := []\<rparr>) @ [TurnClosed]"
    by (rule close_dispatch [where classify = classify and t = t and n = n])
       (use assms(1,7,8) s'(2) c f in \<open>simp_all add: standard_def logIds_def added_def scenarioRow_def\<close>)
  ultimately show ?thesis
    using f(2) by (auto simp: resolveEffect_def kinds_def added_def scenarioRow_def simp del: dispatch.simps)
qed

lemma created_standard: "standard classify (createScenario classify s (Some defaultPolicies) now)"
  by (simp add: standard_def createScenario_def option_or_def)

lemma dispatch_more: "fuel \<le> fuel' \<Longrightarrow> dispatch fuel sc incoming = Some r \<Longrightarrow> dispatch fuel' sc incoming = Some r"
  by (induction fuel' rule: dec_induct) (simp_all add: more_fuel del: dispatch.simps)

lemma cascade_more: "fuel \<le> fuel' \<Longrightarrow> cascade fuel sc es = Some r \<Longrightarrow> cascade fuel' sc es = Some r"
  by (induction fuel' rule: dec_induct) (simp_all add: more_fuel)

lemma resolve_more_fuel:
  "resolveEffect classify fuel sc eid outcome = Some r \<Longrightarrow> fuel \<le> fuel' \<Longrightarrow>
     resolveEffect classify fuel' sc eid outcome = Some r"
  by (auto simp: resolveEffect_def split: sum.splits intro: cascade_more)

subsection \<open>Properties\<close>

text \<open>C3: The loop is event-sourced. In every scenario reachable from a fresh one by commands, external
  events and effect outcomes in any order and number, replaying the log from the initial state gives
  exactly the current state; envelope ids are unique and sequence numbers consecutive; the state is
  well-formed; and the effect registry is exactly the pending effects derived from that state.\<close>

theorem scenario_event_sourced:
  assumes "wf_state init" and "reaches classify (createScenario classify init policies now) sc"
  shows "replayRows (sc_ctx sc) init (sc_log sc) = Inr (sc_state sc) \<and>
     distinct (map sr_envelopeId (sc_log sc)) \<and>
     map sr_seq (sc_log sc) = map (\<lambda>n. lastSeq init + 1 + int n) [0..<length (sc_log sc)] \<and>
     wf_state (sc_state sc) \<and>
     sc_effects sc = map (\<lambda>d. (effectId d, d)) (derivePendingEffects (sc_state sc))"
proof -
  have "consistent init sc" by (rule reaches_consistent [OF assms(2) created_sourced])
  then have c: "sourced init sc" "registered sc" by (simp_all add: consistent_def)
  then have "wf_state (sc_state sc)" using replay_wf assms(1) by (auto simp: sourced_def)
  with c show ?thesis
    by (simp add: sourced_def registered_def effectMap_distinct [OF pending_ids_distinct])
qed

definition sample_idle :: agent_state where
  "sample_idle = (initialAgentState sample_input)\<lparr>selfId := Some ''agent:self''\<rparr>"

definition sample_scenario :: scenario where
  "sample_scenario = createScenario sample_classify sample_idle (Some defaultPolicies) None"

lemma sample_idle_facts:
  "idle sample_idle" "wf_state sample_idle" "\<not> alreadyIngested sample_idle (recvIdOf sample_prompt)"
  by (simp_all add: sample_idle_def idle_def initialAgentState_def Let_def wf_state_def alreadyIngested_def)

lemma sample_scenario_facts:
  "standard sample_classify sample_scenario" "idle (sc_state sample_scenario)" "sc_log sample_scenario = []"
  "\<not> alreadyIngested (sc_state sample_scenario) (recvIdOf sample_prompt)"
  using sample_idle_facts created_standard by (simp_all add: sample_scenario_def) (simp_all add: createScenario_def)

theorem scenario_event_sourced_witness:
  "\<exists>sc. kinds sc = [MessageCompleted, TurnOpened, MessageStarted] \<and>
     replayRows (sc_ctx sc) sample_idle (sc_log sc) = Inr (sc_state sc) \<and>
     sc_effects sc = map (\<lambda>d. (effectId d, d)) (derivePendingEffects (sc_state sc))"
proof -
  obtain sc where d: "dispatch 2 sample_scenario (CommandIn (Prompt sample_prompt)) = Some (Inr sc)"
    and k: "kinds sc = [MessageCompleted, TurnOpened, MessageStarted]"
    using prompt_dispatch [OF sample_scenario_facts] by blast
  from scenario_event_sourced [OF sample_idle_facts(2) reaches.started [OF d [unfolded sample_scenario_def]]] k
  show ?thesis by blast
qed

text \<open>Appending a batch twice is the same as appending it once. Once a batch has been appended, appending
  it again returns no envelope and leaves the log and the state alone.\<close>

theorem append_idempotent:
  assumes "sourced init sc" and "applyAppend sc items = Inr (sc', envelopes)"
  shows "applyAppend sc' items = Inr (sc', [])"
  using applyAppend_sourced [OF assms] by (intro applyAppend_idem) simp

theorem append_idempotent_witness:
  "\<exists>sc es. applyAppend sample_scenario (so_append (openPromptTurn (sc_state sample_scenario) sample_prompt (sc_ctx sample_scenario))) = Inr (sc, es) \<and>
     length es = 3 \<and>
     applyAppend sc (so_append (openPromptTurn (sc_state sample_scenario) sample_prompt (sc_ctx sample_scenario))) = Inr (sc, [])"
proof -
  let ?items = "so_append (openPromptTurn (sc_state sample_scenario) sample_prompt (sc_ctx sample_scenario))"
  obtain sc es where a: "applyAppend sample_scenario ?items = Inr (sc, es)" and l: "length es = 3"
    using prompt_appends [OF sample_scenario_facts(1-3), of sample_prompt] by fastforce
  have "sourced sample_idle sample_scenario" unfolding sample_scenario_def by (rule created_sourced)
  note i = append_idempotent [OF this a]
  show ?thesis by (intro exI conjI) (rule a, rule l, rule i)
qed

text \<open>C7: A turn without tool calls runs to completion. From any idle agent with a fresh log under the default
  policies, and for any message not yet ingested, dispatching it as a prompt returns with exactly one pending effect, the
  turn's first model call; resolving that effect with any answer that has no tool call returns with the
  turn closed, no effect pending and the five expected events in the log. Fuel two is enough, and any
  more gives the same results.\<close>

theorem plain_turn_completes:
  assumes "idle s" and "\<not> alreadyIngested s (recvIdOf c)" and "filter isToolCallBlock blocks = []" and "2 \<le> fuel"
  shows "\<exists>sc1 eid sc2. dispatch fuel (createScenario classify s (Some defaultPolicies) now) (CommandIn (Prompt c)) = Some (Inr sc1) \<and>
     pendingEffectIds sc1 = [eid] \<and> derivedTurnStatus (sc_state sc1) = RunningModel \<and>
     resolveEffect classify fuel sc1 eid (ModelOutcome blocks StopCompleted None usage None None None) = Some (Inr sc2) \<and>
     openTurn (sc_state sc2) = None \<and> pendingEffectIds sc2 = [] \<and>
     kinds sc2 = [MessageCompleted, TurnOpened, MessageStarted, MessageCompleted, TurnClosed]"
proof -
  let ?sc = "createScenario classify s (Some defaultPolicies) now"
  let ?t = "promptTurnId c (sc_ctx ?sc)"
  have c: "idle (sc_state ?sc)" "sc_log ?sc = []" "\<not> alreadyIngested (sc_state ?sc) (recvIdOf c)"
    using assms(1,2) by (simp_all add: createScenario_def)
  obtain sc1 call where p: "dispatch 2 ?sc (CommandIn (Prompt c)) = Some (Inr sc1)" "same_setup ?sc sc1" "registered sc1"
    "in_turn ?t 1 (sc_state sc1)" "inFlightModelCall (sc_state sc1) = Some call" "mc_messageId call = ids_messageId ?t 0"
    "logIds sc1 = [recvIdOf c, ids_turnOpened ?t, ids_messageStarted (ids_messageId ?t 0)]"
    "kinds sc1 = [MessageCompleted, TurnOpened, MessageStarted]"
    using prompt_dispatch [OF created_standard c] by blast
  have "standard classify sc1" using created_standard [of classify s now] p(2) by (simp add: standard_def same_setup_def)
  from answer_resolve [OF this p(3,4,5) assms(3), of usage] p(6,7) obtain sc2 where
    r: "resolveEffect classify 2 sc1 (ids_modelEffect (mc_messageId call)) (ModelOutcome blocks StopCompleted None usage None None None) = Some (Inr sc2)"
      "idle (sc_state sc2)" "sc_effects sc2 = []" "kinds sc2 = kinds sc1 @ [MessageCompleted, TurnClosed]"
    by (auto simp: id_simps recvIdOf_def)
  have e: "map fst (sc_effects sc1) = [ids_modelEffect (mc_messageId call)]"
    using p(3,5) in_turn_effects [OF p(4)] by (simp add: registered_def effectMap_def)
  have "derivedTurnStatus (sc_state sc1) = RunningModel"
    using p(4,5) by (auto simp: derivedTurnStatus_def in_turn_def)
  then show ?thesis
    using dispatch_more [OF assms(4) p(1)] resolve_more_fuel [OF r(1) assms(4)] r(2,3,4) e p(8)
    by (intro exI [of _ sc1] exI [of _ "ids_modelEffect (mc_messageId call)"] exI [of _ sc2])
       (simp add: pendingEffectIds_def idle_def del: dispatch.simps)
qed

theorem plain_turn_completes_witness:
  "\<exists>sc1 eid sc2. dispatch 2 sample_scenario (CommandIn (Prompt sample_prompt)) = Some (Inr sc1) \<and>
     pendingEffectIds sc1 = [eid] \<and>
     resolveEffect sample_classify 2 sc1 eid (ModelOutcome [JObj [(''type'', JStr ''text''), (''content'', JStr ''hi'')]]
       StopCompleted None JUndefined None None None) = Some (Inr sc2) \<and>
     openTurn (sc_state sc2) = None \<and> pendingEffectIds sc2 = []"
proof -
  have "filter isToolCallBlock [JObj [(''type'', JStr ''text''), (''content'', JStr ''hi'')]] = []"
    by (simp add: isToolCallBlock_def)
  from plain_turn_completes [OF sample_idle_facts(1,3) this order_refl, of sample_classify None JUndefined]
  show ?thesis unfolding sample_scenario_def by blast
qed

end
