(* ===== verification/Context.thy ===== *)
theory Context
  imports Fold
begin

text \<open>
  The model context (\<open>agent-loop/src/context.ts\<close>): the folded session entries up to a sequence
  number, as messages for the model. Messages of other participants are attributed, so that the model
  does not read them as its own. An absent property of a message is \<open>undefined\<close>; the message of an
  entry of no known kind is \<open>None\<close> (the source's switch returns nothing).

  A raw compaction element takes part with the properties it has; its \<open>seq\<close> is compared as a
  number, and a comparison with anything else is false.
\<close>

subsection \<open>Definitions\<close>

datatype message_role = RoleUser | RoleAssistant | RoleToolResult

record model_message =
  mm_role :: message_role
  mm_content :: json
  mm_blocks :: json
  mm_toolCallId :: json
  mm_toolName :: json
  mm_isError :: json

definition user_message :: "json \<Rightarrow> model_message" where
  "user_message content =
     \<lparr> mm_role = RoleUser, mm_content = content, mm_blocks = JUndefined, mm_toolCallId = JUndefined,
       mm_toolName = JUndefined, mm_isError = JUndefined \<rparr>"

definition participantLabel :: "json \<Rightarrow> string" where
  "participantLabel ref =
     (let displayName = option_or (string_opt (jget ref ''displayName'')) [];
          handle = option_or (string_opt (jget (jget ref ''metadata'') ''handle'')) []
      in if displayName \<noteq> [] then displayName
         else if handle \<noteq> [] then handle
         else js_String (jget ref ''id''))"

definition blockText :: "json \<Rightarrow> string option" where
  "blockText raw =
     (if is_object raw \<and> jget raw ''type'' = JStr ''text''
      then string_opt (case string_opt (jget raw ''content'') of
             Some content \<Rightarrow> JStr content | None \<Rightarrow> jget raw ''text'')
      else None)"

definition assistantBlocksToText :: "json list \<Rightarrow> string" where
  "assistantBlocksToText blocks =
     (let text = trim_string (join_with [char_of (10::nat)] (List.map_filter blockText blocks))
      in if text = [] then ''(no text content)'' else text)"

text \<open>\<open>for (const raw of blocks)\<close>: what iterates, and a \<open>TypeError\<close> for what does not.\<close>

fun iterate :: "json \<Rightarrow> json list res" where
  "iterate (JArr xs) = Inr xs"
| "iterate (JStr s) = Inr (map (\<lambda>c. JStr [c]) s)"
| "iterate _ = Inl (TypeError ''blocks is not iterable'')"

definition foreignSpeaker :: "json \<Rightarrow> string option \<Rightarrow> bool" where
  "foreignSpeaker author self =
     (case self of
        None \<Rightarrow> False
      | Some i \<Rightarrow> i \<noteq> [] \<and> truthy (jget author ''id'') \<and> jget author ''id'' \<noteq> JStr i)"

definition assistantMessage :: "json \<Rightarrow> json \<Rightarrow> string option \<Rightarrow> model_message res" where
  "assistantMessage author blocks self =
     (if foreignSpeaker author self then
        bind_res (iterate blocks) (\<lambda>bs.
          Inr (user_message (JStr (''['' @ participantLabel author @ '']: '' @ assistantBlocksToText bs))))
      else Inr \<lparr> mm_role = RoleAssistant, mm_content = JUndefined, mm_blocks = blocks,
                 mm_toolCallId = JUndefined, mm_toolName = JUndefined, mm_isError = JUndefined \<rparr>)"

definition toolResultMessage :: "json \<Rightarrow> json \<Rightarrow> json \<Rightarrow> json \<Rightarrow> model_message" where
  "toolResultMessage invocationId name result isError =
     \<lparr> mm_role = RoleToolResult, mm_content = result, mm_blocks = JUndefined, mm_toolCallId = invocationId,
       mm_toolName = name, mm_isError = isError \<rparr>"

definition noteMessage :: "json \<Rightarrow> model_message" where
  "noteMessage text = user_message (JObj [(''note'', text)])"

fun modelMessageFromEntry :: "session_entry \<Rightarrow> string option \<Rightarrow> model_message option res" where
  "modelMessageFromEntry (UserEntry _ _ _ _ content _) self = Inr (Some (user_message content))"
| "modelMessageFromEntry (AssistantEntry _ _ sender blocks _) self =
     bind_res (assistantMessage (option_or sender JUndefined) (JArr blocks) self) (\<lambda>m. Inr (Some m))"
| "modelMessageFromEntry (ToolResultEntry _ invocationId name result isError) self =
     Inr (Some (toolResultMessage (JStr invocationId) (JStr name) result (JBool isError)))"
| "modelMessageFromEntry (NoteEntry _ text) self = Inr (Some (noteMessage (JStr text)))"
| "modelMessageFromEntry (RawEntry j) self =
     (if jget j ''kind'' = JStr ''user'' then Inr (Some (user_message (jget j ''content'')))
      else if jget j ''kind'' = JStr ''assistant'' then
        bind_res (assistantMessage (jget j ''senderRef'') (jget j ''blocks'') self) (\<lambda>m. Inr (Some m))
      else if jget j ''kind'' = JStr ''tool-result'' then
        Inr (Some (toolResultMessage (jget j ''invocationId'') (jget j ''name'') (jget j ''result'') (jget j ''isError'')))
      else if jget j ''kind'' = JStr ''note'' then Inr (Some (noteMessage (jget j ''text'')))
      else Inr None)"

text \<open>\<open>entry.seq > contextThroughSeq\<close>; \<open>None\<close> is the default, positive infinity.\<close>

definition beyond :: "int option \<Rightarrow> session_entry \<Rightarrow> bool" where
  "beyond contextThroughSeq entry =
     (case (number_opt (entry_seq entry), contextThroughSeq) of
        (Some n, Some c) \<Rightarrow> n > c
      | _ \<Rightarrow> False)"

fun contextLoop :: "string option \<Rightarrow> int option \<Rightarrow> session_entry list \<Rightarrow> model_message option list res" where
  "contextLoop self contextThroughSeq [] = Inr []"
| "contextLoop self contextThroughSeq (entry # es) =
     (if beyond contextThroughSeq entry then Inr []
      else bind_res (modelMessageFromEntry entry self) (\<lambda>m.
        bind_res (contextLoop self contextThroughSeq es) (\<lambda>ms. Inr (m # ms))))"

definition buildModelContext :: "agent_state \<Rightarrow> int option \<Rightarrow> model_message option list res" where
  "buildModelContext state contextThroughSeq = contextLoop (selfId state) contextThroughSeq (entries state)"

subsection \<open>Lemmas\<close>

fun well_shaped :: "session_entry \<Rightarrow> bool" where
  "well_shaped (RawEntry _) = False"
| "well_shaped _ = True"

text \<open>The author of an assistant entry.\<close>

fun speaker :: "session_entry \<Rightarrow> json option" where
  "speaker (AssistantEntry _ _ sender _ _) = Some (option_or sender JUndefined)"
| "speaker (RawEntry j) = (if jget j ''kind'' = JStr ''assistant'' then Some (jget j ''senderRef'') else None)"
| "speaker _ = None"

lemma shaped_message: "well_shaped e \<Longrightarrow> \<exists>m. modelMessageFromEntry e self = Inr (Some m)"
  by (cases e) (simp_all add: assistantMessage_def)

lemma shaped_beyond: "well_shaped e \<Longrightarrow> beyond (Some c) e \<longleftrightarrow> entry_num e > c"
  by (cases e) (simp_all add: beyond_def)

lemma message_voice:
  "modelMessageFromEntry e self = Inr (Some m) \<Longrightarrow>
     mm_role m = RoleAssistant \<longleftrightarrow> (\<exists>author. speaker e = Some author \<and> \<not> foreignSpeaker author self)"
  by (cases e)
     (auto simp: assistantMessage_def user_message_def toolResultMessage_def noteMessage_def split: if_splits)

lemma foreign_message:
  "modelMessageFromEntry e self = Inr (Some m) \<Longrightarrow> speaker e = Some author \<Longrightarrow> foreignSpeaker author self \<Longrightarrow>
     mm_role m = RoleUser \<and> (\<exists>text. mm_content m = JStr (''['' @ participantLabel author @ '']: '' @ text))"
  by (cases e) (auto simp: assistantMessage_def user_message_def split: if_splits)

lemma contextLoop_length:
  "contextLoop self c es = Inr ms \<Longrightarrow>
     length ms = length (takeWhile (\<lambda>e. \<not> beyond c e) es) \<and>
     list_all2 (\<lambda>e m. modelMessageFromEntry e self = Inr m) (take (length ms) es) ms"
  by (induction es arbitrary: ms) (auto split: if_splits)

lemma contextLoop_shaped:
  "list_all well_shaped es \<Longrightarrow> \<exists>ms. contextLoop self c es = Inr ms"
proof (induction es)
  case Nil
  then show ?case by simp
next
  case (Cons e es)
  then show ?case using shaped_message [of e self] by auto
qed

lemma contextLoop_stable:
  "list_all (beyond c) extra \<Longrightarrow> contextLoop self c (es @ extra) = contextLoop self c es"
proof (induction es)
  case Nil
  then show ?case by (cases extra) simp_all
next
  case (Cons e es)
  then show ?case by simp
qed

text \<open>Events that can change the transcript below their own position.\<close>

definition rewrites_transcript :: "event_kind \<Rightarrow> bool" where
  "rewrites_transcript kind \<longleftrightarrow> kind \<in> {CompactionRecorded, MessageEdited, MessageRetracted}"

lemma handlers_append:
  "\<exists>extra. entries (foldMessageCompleted s e) = entries s @ extra \<and> list_all (\<lambda>x. entry_seq x = JNum (env_seq e)) extra"
  "\<exists>extra. entries (foldInvocationTerminal s e) = entries s @ extra \<and> list_all (\<lambda>x. entry_seq x = JNum (env_seq e)) extra"
  by (auto simp: foldMessageCompleted_def foldAssistantCompleted_def foldUserCompleted_def foldInvocationTerminal_def
      Let_def split: option.split)

lemma handlers_keep_entries [simp]:
  "entries (foldTurnOpened s e) = entries s" "entries (foldTurnClosed s e) = entries s"
  "entries (foldTurnWaiting s e) = entries s" "entries (foldMessageFailed s e) = entries s"
  "entries (foldApprovalRequested s e) = entries s" "entries (foldApprovalResolved s e) = entries s"
  "entries (foldCredentialWaitStarted s e) = entries s" "entries (foldCredentialWaitSettled s e) = entries s"
  by (simp_all add: foldTurnOpened_def foldTurnClosed_def foldTurnWaiting_def foldMessageFailed_def
      foldApprovalRequested_def foldApprovalResolved_def foldCredentialWaitStarted_def
      foldCredentialWaitSettled_def Let_def split: option.split)

lemma foldSystemEvent_keeps_entries [simp]: "entries (foldSystemEvent s e) = entries s"
  unfolding foldSystemEvent_def Let_def by (simp split: option.split)

lemma throwing_handlers_keep_entries:
  "foldMessageStarted s e = Inr s' \<Longrightarrow> entries s' = entries s"
  "foldInvocationStarted s e = Inr s' \<Longrightarrow> entries s' = entries s"
  by (auto simp: foldMessageStarted_def foldInvocationStarted_def Let_def split: if_splits)

lemma applyEvent_appends:
  assumes "applyEvent s e = Inr s'" and "\<not> rewrites_transcript (env_payloadKind e)"
  shows "\<exists>extra. entries s' = entries s @ extra \<and> list_all (\<lambda>x. entry_seq x = JNum (env_seq e)) extra"
proof -
  have "entries s' = entries s \<Longrightarrow> ?thesis" by simp
  then show ?thesis
    using assms handlers_append [of "withAdvance s e" e] throwing_handlers_keep_entries [of "withAdvance s e" e s']
    by (cases "env_payloadKind e") (auto simp: rewrites_transcript_def applyEvent_def Let_def)
qed

lemma applyEvent_context:
  assumes "applyEvent s e = Inr s'" and "\<not> rewrites_transcript (env_payloadKind e)" and "env_seq e > c"
  shows "buildModelContext s' (Some c) = buildModelContext s (Some c)"
proof -
  obtain extra where x: "entries s' = entries s @ extra" "list_all (\<lambda>x. entry_seq x = JNum (env_seq e)) extra"
    using applyEvent_appends [OF assms(1,2)] by blast
  then have "list_all (beyond (Some c)) extra" using assms(3) by (auto simp: list_all_iff beyond_def)
  moreover have "selfId s' = selfId s"
    using applyEvent_positioned [OF assms(1)] by (simp add: positioned_def same_identity_def)
  ultimately show ?thesis using x(1) by (simp add: buildModelContext_def contextLoop_stable)
qed

text \<open>Replaying later events keeps the context of a snapshot.\<close>

definition later_event :: "int \<Rightarrow> log_envelope \<Rightarrow> bool" where
  "later_event c e \<longleftrightarrow> env_seq e > c \<and> \<not> rewrites_transcript (env_payloadKind e)"

interpretation snapshot: guarded_replay applyEvent "\<lambda>s e. later_event c e"
  "\<lambda>s. buildModelContext s (Some c) = ms" for c ms
  by unfold_locales (simp add: later_event_def applyEvent_context)

lemma guarded_list_all: "list_all P es \<Longrightarrow> guarded f (\<lambda>s e. P e) s es"
  by (induction es arbitrary: s) (auto split: sum.split)

lemma filter_sorted_takeWhile:
  "sorted (map f xs) \<Longrightarrow> filter (\<lambda>x. f x \<le> (c::int)) xs = takeWhile (\<lambda>x. f x \<le> c) xs"
proof (induction xs)
  case Nil
  then show ?case by simp
next
  case (Cons x xs)
  then have "\<not> f y \<le> c" if "\<not> f x \<le> c" "y \<in> set xs" for y using that by force
  then have "filter (\<lambda>x. f x \<le> c) xs = []" if "\<not> f x \<le> c" using that by (simp add: filter_empty_conv)
  with Cons show ?case by auto
qed

subsection \<open>Properties\<close>

text \<open>The model never hears another participant in its own voice. Whenever the context is built, the
  message at a position has the assistant role exactly when the transcript entry there is an assistant
  message of this agent (its author carries the agent's id, or no id at all); an assistant message of
  anyone else becomes a user message that starts with the speaker's label in brackets.\<close>

theorem assistant_voice_is_own:
  assumes "selfId s = Some self" and "self \<noteq> []" and "buildModelContext s c = Inr ms"
    and "n < length ms" and "ms ! n = Some m"
  shows "(mm_role m = RoleAssistant \<longleftrightarrow>
      (\<exists>author. speaker (entries s ! n) = Some author \<and>
         (\<not> truthy (jget author ''id'') \<or> jget author ''id'' = JStr self))) \<and>
    (\<forall>author. speaker (entries s ! n) = Some author \<and> truthy (jget author ''id'') \<and> jget author ''id'' \<noteq> JStr self \<longrightarrow>
      mm_role m = RoleUser \<and> (\<exists>text. mm_content m = JStr (''['' @ participantLabel author @ '']: '' @ text)))"
proof -
  have "list_all2 (\<lambda>e m. modelMessageFromEntry e (selfId s) = Inr m) (take (length ms) (entries s)) ms"
    using contextLoop_length assms(3) unfolding buildModelContext_def by blast
  then have e: "modelMessageFromEntry (entries s ! n) (Some self) = Inr (Some m)"
    using assms(1,4,5) by (auto simp: list_all2_conv_all_nth)
  show ?thesis
    using message_voice [OF e] foreign_message [OF e] assms(2) by (auto simp: foreignSpeaker_def)
qed

definition sample_talk :: agent_state where
  "sample_talk = sample_state\<lparr>entries :=
     [AssistantEntry 1 ''m1'' (Some sample_ref) [JObj [(''type'', JStr ''text''), (''content'', JStr ''mine'')]] None,
      AssistantEntry 2 ''m2'' (Some (JObj [(''kind'', JStr ''agent''), (''id'', JStr ''a2''), (''displayName'', JStr ''Bo'')]))
        [JObj [(''type'', JStr ''text''), (''content'', JStr ''theirs'')]] None,
      NoteEntry 9 ''late'']\<rparr>"

lemma sample_talk_context:
  "buildModelContext sample_talk (Some 5) = Inr
     [Some \<lparr> mm_role = RoleAssistant, mm_content = JUndefined,
        mm_blocks = JArr [JObj [(''type'', JStr ''text''), (''content'', JStr ''mine'')]],
        mm_toolCallId = JUndefined, mm_toolName = JUndefined, mm_isError = JUndefined \<rparr>,
      Some (user_message (JStr ''[Bo]: theirs''))]"
  by code_simp

theorem assistant_voice_is_own_witness:
  "\<exists>ms m. buildModelContext sample_talk (Some 5) = Inr ms \<and> ms ! 1 = Some m \<and> mm_role m = RoleUser \<and>
     (\<exists>text. mm_content m = JStr (''[Bo]: '' @ text))"
proof -
  let ?author = "JObj [(''kind'', JStr ''agent''), (''id'', JStr ''a2''), (''displayName'', JStr ''Bo'')]"
  have s: "selfId sample_talk = Some ''a1''" by (simp add: sample_talk_def sample_defs)
  have a: "speaker (entries sample_talk ! 1) = Some ?author" by (simp add: sample_talk_def option_or_def)
  have l: "participantLabel ?author = ''Bo''" by (simp add: participantLabel_def option_or_def)
  from assistant_voice_is_own [OF s _ sample_talk_context, of 1] a have
    "mm_role (user_message (JStr ''[Bo]: theirs'')) = RoleUser \<and>
       (\<exists>text. mm_content (user_message (JStr ''[Bo]: theirs'')) = JStr (''['' @ participantLabel ?author @ '']: '' @ text))"
    by simp
  then show ?thesis unfolding l sample_talk_context by simp
qed


definition sample_late :: "log_envelope list" where
  "sample_late = [sample_event 6 sample_user MessageCompleted [] [(''role'', JStr ''user'')]]"


text \<open>The context is complete. On a transcript of well-formed entries in log order, building the
  context through \<open>c\<close> succeeds and gives one message for each entry with a sequence number up to
  \<open>c\<close>, in order, and none for a later one.\<close>

theorem context_is_complete:
  assumes "list_all well_shaped (entries s)" and "sorted (map entry_num (entries s))"
  shows "\<exists>ms. buildModelContext s (Some c) = Inr ms \<and>
     list_all2 (\<lambda>e m. modelMessageFromEntry e (selfId s) = Inr m)
       (filter (\<lambda>e. entry_num e \<le> c) (entries s)) ms"
proof -
  obtain ms where ms: "contextLoop (selfId s) (Some c) (entries s) = Inr ms"
    using contextLoop_shaped [OF assms(1)] by blast
  have "takeWhile (\<lambda>e. \<not> beyond (Some c) e) (entries s) = filter (\<lambda>e. entry_num e \<le> c) (entries s)"
    unfolding filter_sorted_takeWhile [OF assms(2)]
    by (rule takeWhile_cong [OF refl]) (use assms(1) in \<open>simp add: list_all_iff shaped_beyond not_less\<close>)
  with contextLoop_length [OF ms] show ?thesis
    unfolding buildModelContext_def using ms by (metis takeWhile_eq_take)
qed

theorem context_is_complete_witness:
  "\<exists>ms. buildModelContext sample_talk (Some 5) = Inr ms \<and> length ms = 2"
proof -
  have f: "map entry_num (filter (\<lambda>e. entry_num e \<le> 5) (entries sample_talk)) = [1, 2]"
    by (simp add: sample_talk_def)
  have "list_all well_shaped (entries sample_talk)" "sorted (map entry_num (entries sample_talk))"
    by (simp_all add: sample_talk_def)
  from context_is_complete [OF this, of 5] obtain ms where "buildModelContext sample_talk (Some 5) = Inr ms"
    "length (filter (\<lambda>e. entry_num e \<le> 5) (entries sample_talk)) = length ms"
    using list_all2_lengthD by blast
  with arg_cong [OF f, of length] show ?thesis by auto
qed

end
