(* ===== verification/Outbox.thy ===== *)
theory Outbox
  imports Effects "HOL-Library.Extended_Nat"
begin

text \<open>
  The effect outbox (\<open>agentic-do/src/effect-outbox.ts\<close>): the table of unresolved effects, its
  operations as functions on the table, and the external ids under which a branch's effect is known
  outside the driver. The table is the list of its rows in insertion order; \<open>Date.now()\<close> and the
  driver's clock are arguments, in milliseconds. A row holds the descriptor itself, not its JSON text.

  The two updates the driver makes on the table with SQL of its own (\<open>deferRedrive\<close> and
  \<open>nudgeRedrive\<close> of \<open>agent-loop-driver.ts\<close>) are here too, so that the table's invariant covers
  every statement that writes it.

  The lemmas: one row per branch and effect; a leased row has no dispatch time of its own, which
  makes \<open>earliestDueAt\<close> exactly the first instant at which \<open>due\<close> is not empty; a taken row is not
  due again before its lease ends; the backoff is bounded and grows; external ids read back.
\<close>

subsection \<open>External ids\<close>

text \<open>
  \<open>encodeURIComponent\<close> and \<open>decodeURIComponent\<close>. The strings of the model hold code points up to 255,
  so a character is encoded in one or two UTF-8 bytes; a byte sequence for a higher code point does
  not occur in what is encoded here and is refused like a malformed one.
\<close>

definition hex_upper :: "nat \<Rightarrow> char" where
  "hex_upper d = ''0123456789ABCDEF'' ! d"

definition hex_value :: "char \<Rightarrow> nat option" where
  "hex_value c =
     (let n = of_char c in
      if 48 \<le> n \<and> n \<le> 57 then Some (n - 48)
      else if 65 \<le> n \<and> n \<le> 70 then Some (n - 55)
      else if 97 \<le> n \<and> n \<le> 102 then Some (n - 87)
      else None)"

definition unreserved :: "char \<Rightarrow> bool" where
  "unreserved c \<longleftrightarrow>
     (let n = of_char c :: nat in
      (48 \<le> n \<and> n \<le> 57) \<or> (65 \<le> n \<and> n \<le> 90) \<or> (97 \<le> n \<and> n \<le> 122)) \<or> c \<in> set ''-_.!~*()'' \<or> of_char c = (39 :: nat)"

definition percent_byte :: "nat \<Rightarrow> string" where
  "percent_byte b = [CHR ''%'', hex_upper (b div 16), hex_upper (b mod 16)]"

definition encode_char :: "char \<Rightarrow> string" where
  "encode_char c =
     (let n = of_char c in
      if unreserved c then [c]
      else if n < 128 then percent_byte n
      else percent_byte (192 + n div 64) @ percent_byte (128 + n mod 64))"

definition encodeURIComponent :: "string \<Rightarrow> string" where
  "encodeURIComponent s = concat (map encode_char s)"

text \<open>The byte of the two hexadecimal digits that follow a percent sign, and what is left.\<close>

fun read_byte :: "string \<Rightarrow> (nat \<times> string) option" where
  "read_byte (h # l # rest) =
     (case (hex_value h, hex_value l) of
        (Some a, Some b) \<Rightarrow> Some (16 * a + b, rest)
      | _ \<Rightarrow> None)"
| "read_byte _ = None"

lemma read_byte_shorter: "read_byte s = Some (b, rest) \<Longrightarrow> length rest < length s"
  by (induction s rule: read_byte.induct) (auto split: option.splits)

definition read_escape :: "string \<Rightarrow> (char \<times> string) option" where
  "read_escape s =
     (case read_byte s of
        None \<Rightarrow> None
      | Some (b, rest) \<Rightarrow>
          if b < 128 then Some (char_of b, rest)
          else if b = 194 \<or> b = 195 then
            (case rest of
               p # rest' \<Rightarrow>
                 (case read_byte rest' of
                    Some (b', rest'') \<Rightarrow>
                      if p = CHR ''%'' \<and> 128 \<le> b' \<and> b' < 192
                      then Some (char_of (64 * (b - 192) + (b' - 128)), rest'') else None
                  | None \<Rightarrow> None)
             | [] \<Rightarrow> None)
          else None)"

lemma read_escape_shorter: "read_escape s = Some (c, rest) \<Longrightarrow> length rest < length s"
  by (auto simp: read_escape_def dest!: read_byte_shorter split: option.splits if_splits list.splits)

function decodeURIComponent :: "string \<Rightarrow> string res" where
  "decodeURIComponent [] = Inr []"
| "decodeURIComponent (c # cs) =
     (if c = CHR ''%'' then
        (case read_escape cs of
           None \<Rightarrow> Inl UriError
         | Some (d, rest) \<Rightarrow> bind_res (decodeURIComponent rest) (\<lambda>s. Inr (d # s)))
      else bind_res (decodeURIComponent cs) (\<lambda>s. Inr (c # s)))"
  by pat_completeness auto

termination
  by (relation "measure length") (auto dest: read_escape_shorter)

definition OUTBOX_EXTERNAL_ID_PREFIX :: string where
  "OUTBOX_EXTERNAL_ID_PREFIX = ''outbox:''"

definition outboxExternalId :: "string \<Rightarrow> string \<Rightarrow> string" where
  "outboxExternalId branchId eid =
     OUTBOX_EXTERNAL_ID_PREFIX @ encodeURIComponent branchId @ '':'' @ encodeURIComponent eid"

definition parseOutboxExternalId :: "string \<Rightarrow> (string \<times> string) option res" where
  "parseOutboxExternalId value =
     (if \<not> starts_with value OUTBOX_EXTERNAL_ID_PREFIX then Inr None
      else
        let encoded = drop (length OUTBOX_EXTERNAL_ID_PREFIX) value in
        case index_of_char (CHR '':'') encoded of
          None \<Rightarrow> Inr None
        | Some split \<Rightarrow>
            bind_res (decodeURIComponent (take split encoded)) (\<lambda>branchId.
            bind_res (decodeURIComponent (drop (split + 1) encoded)) (\<lambda>eid.
              Inr (Some (branchId, eid)))))"

subsection \<open>Rows and the operations on the table\<close>

record outbox_row =
  ob_effectId :: string
  ob_branchId :: string
  ob_channelId :: string
  ob_kind :: effect_kind
  ob_idempotencyKey :: json
  ob_descriptor :: effect_descriptor
  ob_attempts :: nat
  ob_nextAttemptAt :: "int option"
  ob_leaseExpiresAt :: "int option"
  ob_createdAt :: int

type_synonym outbox = "outbox_row list"

text \<open>The columns of the primary key.\<close>

definition ob_key :: "outbox_row \<Rightarrow> string \<times> string" where
  "ob_key row = (ob_branchId row, ob_effectId row)"

fun maxAttempts :: "effect_kind \<Rightarrow> bool \<Rightarrow> enat" where
  "maxAttempts KModelCall mutating = 3"
| "maxAttempts KLocalTool mutating = (if mutating then 1 else 3)"
| "maxAttempts KChannelCall mutating = 5"
| "maxAttempts KHttpCall mutating = 5"
| "maxAttempts KCredentialWait mutating = \<infinity>"
| "maxAttempts KPublishEnvelope mutating = 1"

fun leaseMs :: "effect_kind \<Rightarrow> int" where
  "leaseMs KModelCall = 10 * 60 * 1000"
| "leaseMs KLocalTool = 2 * 60 * 1000"
| "leaseMs KChannelCall = 60 * 1000"
| "leaseMs KHttpCall = 60 * 1000"
| "leaseMs KCredentialWait = 60 * 1000"
| "leaseMs KPublishEnvelope = 30 * 1000"

definition backoffMs :: "nat \<Rightarrow> int" where
  "backoffMs attempts = min 30000 (500 * 2 ^ attempts)"

definition outbox_get :: "outbox \<Rightarrow> string \<Rightarrow> string \<Rightarrow> outbox_row option" where
  "outbox_get table branchId eid = find (\<lambda>row. ob_key row = (branchId, eid)) table"

text \<open>\<open>INSERT OR IGNORE\<close>: a row with the same key stays as it is.\<close>

definition outbox_insert ::
  "int \<Rightarrow> string \<Rightarrow> effect_descriptor \<Rightarrow> int option \<Rightarrow> outbox \<Rightarrow> outbox" where
  "outbox_insert now branchId descriptor nextAttemptAt table =
     (if outbox_get table branchId (effectId descriptor) \<noteq> None then table
      else table @
        [\<lparr> ob_effectId = effectId descriptor, ob_branchId = branchId,
           ob_channelId = ef_channelId (ef_base descriptor), ob_kind = effectKind descriptor,
           ob_idempotencyKey = ef_idempotencyKey (ef_base descriptor), ob_descriptor = descriptor,
           ob_attempts = 0, ob_nextAttemptAt = nextAttemptAt, ob_leaseExpiresAt = None,
           ob_createdAt = now \<rparr>])"

definition outbox_delete :: "string \<Rightarrow> string \<Rightarrow> outbox \<Rightarrow> outbox" where
  "outbox_delete branchId eid table = filter (\<lambda>row. ob_key row \<noteq> (branchId, eid)) table"

definition outbox_getForChannel :: "outbox \<Rightarrow> string \<Rightarrow> string \<Rightarrow> outbox_row option res" where
  "outbox_getForChannel table chan eid =
     (case filter (\<lambda>row. ob_channelId row = chan \<and> ob_effectId row = eid) table of
        [] \<Rightarrow> Inr None
      | [row] \<Rightarrow> Inr (Some row)
      | _ \<Rightarrow> Inl (AmbiguousEffect eid))"

definition outbox_getUnique :: "outbox \<Rightarrow> string \<Rightarrow> outbox_row option res" where
  "outbox_getUnique table eid =
     (case filter (\<lambda>row. ob_effectId row = eid) table of
        [] \<Rightarrow> Inr None
      | [row] \<Rightarrow> Inr (Some row)
      | _ \<Rightarrow> Inl (AmbiguousEffect eid))"

definition outbox_forBranch :: "outbox \<Rightarrow> string \<Rightarrow> outbox" where
  "outbox_forBranch table branchId =
     filter (\<lambda>row. ob_branchId row = branchId \<and> ob_kind row \<noteq> KPublishEnvelope) table"

definition row_due :: "int \<Rightarrow> outbox_row \<Rightarrow> bool" where
  "row_due now row \<longleftrightarrow>
     (case ob_nextAttemptAt row of None \<Rightarrow> True | Some t \<Rightarrow> t \<le> now) \<and>
     (case ob_leaseExpiresAt row of None \<Rightarrow> True | Some t \<Rightarrow> t \<le> now)"

definition outbox_due :: "outbox \<Rightarrow> int \<Rightarrow> outbox" where
  "outbox_due table now = filter (row_due now) table"

text \<open>An \<open>UPDATE ... WHERE branch_id = ? AND effect_id = ?\<close>.\<close>

definition update_row :: "string \<Rightarrow> string \<Rightarrow> (outbox_row \<Rightarrow> outbox_row) \<Rightarrow> outbox \<Rightarrow> outbox" where
  "update_row branchId eid f table = map (\<lambda>row. if ob_key row = (branchId, eid) then f row else row) table"

definition outbox_lease :: "string \<Rightarrow> string \<Rightarrow> int \<Rightarrow> outbox \<Rightarrow> outbox" where
  "outbox_lease branchId eid now table =
     (case outbox_get table branchId eid of
        None \<Rightarrow> table
      | Some row \<Rightarrow>
          update_row branchId eid
            (\<lambda>r. r\<lparr>ob_leaseExpiresAt := Some (now + leaseMs (ob_kind row)), ob_nextAttemptAt := None\<rparr>) table)"

definition outbox_releaseLease :: "string \<Rightarrow> string \<Rightarrow> outbox \<Rightarrow> outbox" where
  "outbox_releaseLease branchId eid table =
     update_row branchId eid (\<lambda>r. r\<lparr>ob_leaseExpiresAt := None\<rparr>) table"

text \<open>\<open>delayMs\<close> is \<open>None\<close> when it is absent or not a finite number.\<close>

definition outbox_recordFailure ::
  "string \<Rightarrow> string \<Rightarrow> int \<Rightarrow> int option \<Rightarrow> outbox \<Rightarrow> outbox \<times> outbox_row option" where
  "outbox_recordFailure branchId eid now delayMs table =
     (case outbox_get table branchId eid of
        None \<Rightarrow> (table, None)
      | Some row \<Rightarrow>
          let attempts = ob_attempts row + 1;
              delay = (case delayMs of
                         Some d \<Rightarrow> if 0 \<le> d then d else backoffMs attempts
                       | None \<Rightarrow> backoffMs attempts);
              table' = update_row branchId eid
                (\<lambda>r. r\<lparr>ob_attempts := attempts, ob_leaseExpiresAt := None,
                       ob_nextAttemptAt := Some (now + delay)\<rparr>) table
          in (table', outbox_get table' branchId eid))"

definition wake_time :: "outbox_row \<Rightarrow> int" where
  "wake_time row =
     (case ob_leaseExpiresAt row of
        Some t \<Rightarrow> t
      | None \<Rightarrow> (case ob_nextAttemptAt row of Some t \<Rightarrow> t | None \<Rightarrow> 0))"

fun min_of :: "int list \<Rightarrow> int option" where
  "min_of [] = None"
| "min_of (x # xs) = (case min_of xs of None \<Rightarrow> Some x | Some y \<Rightarrow> Some (min x y))"

definition earliestDueAt :: "outbox \<Rightarrow> int option" where
  "earliestDueAt table = min_of (map wake_time table)"

text \<open>The driver's own updates of the table.\<close>

definition deferRedrive :: "string \<Rightarrow> string \<Rightarrow> int \<Rightarrow> int \<Rightarrow> outbox \<Rightarrow> outbox" where
  "deferRedrive branchId eid now delayMs table =
     update_row branchId eid
       (\<lambda>r. r\<lparr>ob_leaseExpiresAt := None,
              ob_nextAttemptAt :=
                (case ob_nextAttemptAt r of
                   Some t \<Rightarrow> if t \<le> now then Some t else Some (now + delayMs)
                 | None \<Rightarrow> Some (now + delayMs))\<rparr>) table"

definition nudgeRedrive :: "string \<Rightarrow> string \<Rightarrow> int \<Rightarrow> outbox \<Rightarrow> outbox" where
  "nudgeRedrive branchId eid now table =
     update_row branchId eid (\<lambda>r. r\<lparr>ob_leaseExpiresAt := None, ob_nextAttemptAt := Some now\<rparr>) table"

subsection \<open>External ids read back\<close>

lemma hex_value_hex_upper [simp]: "d < 16 \<Longrightarrow> hex_value (hex_upper d) = Some d"
proof -
  have "list_all (\<lambda>d. hex_value (hex_upper d) = Some d) [0..<16]" by code_simp
  then show "d < 16 \<Longrightarrow> ?thesis" by (simp add: list_all_iff)
qed

lemma hex_upper_not_colon [simp]: "d < 16 \<Longrightarrow> hex_upper d \<noteq> CHR '':''"
  using hex_value_hex_upper [of d] by (auto simp: hex_value_def Let_def)

lemma read_percent_byte: "b < 256 \<Longrightarrow>
  read_byte (hex_upper (b div 16) # hex_upper (b mod 16) # rest) = Some (b, rest)"
  by (simp add: less_mult_imp_div_less)

lemma decode_encode_char: "decodeURIComponent (encode_char c @ rest) =
  bind_res (decodeURIComponent rest) (\<lambda>s. Inr (c # s))"
proof -
  define n :: nat where "n = of_char c"
  have n: "n < 256" and c: "char_of n = c" using nat_of_char_less_256 [of c] by (simp_all add: n_def)
  consider "unreserved c" | "\<not> unreserved c" "n < 128" | "\<not> unreserved c" "128 \<le> n" by linarith
  then show ?thesis
  proof cases
    case 1
    then have "c \<noteq> CHR ''%''" by (auto simp: unreserved_def)
    with 1 show ?thesis by (simp add: encode_char_def)
  next
    case 2
    with n have "encode_char c @ rest = CHR ''%'' # hex_upper (n div 16) # hex_upper (n mod 16) # rest"
      by (simp add: encode_char_def percent_byte_def n_def Let_def)
    with 2 n c show ?thesis
      by (simp add: read_escape_def read_percent_byte del: read_byte.simps)
  next
    case 3
    define hi lo where "hi = 192 + n div 64" and "lo = 128 + n mod 64"
    from 3 n have hl: "hi = 194 \<or> hi = 195" "128 \<le> lo" "lo < 192" "hi < 256" "lo < 256" "64 * (hi - 192) + (lo - 128) = n"
      by (auto simp: hi_def lo_def) 
    from 3 have "encode_char c @ rest = CHR ''%'' # hex_upper (hi div 16) # hex_upper (hi mod 16) #
        CHR ''%'' # hex_upper (lo div 16) # hex_upper (lo mod 16) # rest"
      by (simp add: encode_char_def percent_byte_def n_def hi_def lo_def Let_def del: div_mult_self1 div_mult_self2 div_mult_self3 div_mult_self4)
    moreover from hl c have "read_escape (hex_upper (hi div 16) # hex_upper (hi mod 16) #
        CHR ''%'' # hex_upper (lo div 16) # hex_upper (lo mod 16) # rest) = Some (c, rest)"
      by (auto simp: read_escape_def read_percent_byte simp del: read_byte.simps)
    ultimately show ?thesis by simp
  qed
qed

lemma decode_encode [simp]: "decodeURIComponent (encodeURIComponent s) = Inr s"
  by (induction s) (simp_all add: encodeURIComponent_def decode_encode_char)

lemma colon_notin_percent_byte: "b < 256 \<Longrightarrow> CHR '':'' \<notin> set (percent_byte b)"
  using hex_upper_not_colon [of "b div 16"] hex_upper_not_colon [of "b mod 16"]
  by (simp add: percent_byte_def less_mult_imp_div_less eq_commute [of "CHR '':''"])

lemma colon_notin_encode_char: "CHR '':'' \<notin> set (encode_char c)"
proof -
  have n: "of_char c < (256::nat)" by (rule nat_of_char_less_256)
  then have "of_char c div 64 < (4 :: nat)" by (simp add: less_mult_imp_div_less)
  then have "192 + of_char c div 64 < (256 :: nat)" by linarith
  moreover have "of_char c mod 64 < (64 :: nat)" by simp
  then have "128 + of_char c mod 64 < (256 :: nat)" by linarith
  moreover have "\<not> unreserved (CHR '':'')" by (simp add: unreserved_def)
  ultimately show ?thesis
    using n by (auto simp: encode_char_def Let_def colon_notin_percent_byte)
qed

lemma colon_notin_encode [simp]: "CHR '':'' \<notin> set (encodeURIComponent s)"
  using colon_notin_encode_char by (auto simp: encodeURIComponent_def)

lemma takeWhile_colon: "CHR '':'' \<notin> set a \<Longrightarrow> takeWhile (\<lambda>d. d \<noteq> CHR '':'') (a @ CHR '':'' # b) = a"
  by (induction a) auto


subsection \<open>The invariant of the table\<close>

text \<open>One row per key, the row's columns are those of its descriptor, and a leased row has no dispatch
  time of its own.\<close>

definition row_wf :: "outbox_row \<Rightarrow> bool" where
  "row_wf row \<longleftrightarrow>
     ob_effectId row = effectId (ob_descriptor row) \<and>
     ob_channelId row = ef_channelId (ef_base (ob_descriptor row)) \<and>
     ob_kind row = effectKind (ob_descriptor row) \<and>
     (ob_leaseExpiresAt row \<noteq> None \<longrightarrow> ob_nextAttemptAt row = None)"

definition outbox_wf :: "outbox \<Rightarrow> bool" where
  "outbox_wf table \<longleftrightarrow> distinct (map ob_key table) \<and> (\<forall>row \<in> set table. row_wf row)"

text \<open>The statements that write the table.\<close>

inductive outbox_write :: "outbox \<Rightarrow> outbox \<Rightarrow> bool" where
  write_insert: "outbox_write table (outbox_insert now branchId descriptor next table)"
| write_delete: "outbox_write table (outbox_delete branchId eid table)"
| write_lease: "outbox_write table (outbox_lease branchId eid now table)"
| write_release: "outbox_write table (outbox_releaseLease branchId eid table)"
| write_failure: "outbox_write table (fst (outbox_recordFailure branchId eid now delay table))"
| write_defer: "outbox_write table (deferRedrive branchId eid now delay' table)"
| write_nudge: "outbox_write table (nudgeRedrive branchId eid now table)"

lemma outbox_get_Some:
  "outbox_get table branchId eid = Some row \<Longrightarrow> row \<in> set table \<and> ob_key row = (branchId, eid)"
  by (auto simp: outbox_get_def find_Some_iff)

lemma outbox_get_None: "outbox_get table branchId eid = None \<longleftrightarrow> (branchId, eid) \<notin> ob_key ` set table"
  by (auto simp: outbox_get_def find_None_iff image_iff)

lemma outbox_get_iff:
  "distinct (map ob_key table) \<Longrightarrow>
     outbox_get table branchId eid = Some row \<longleftrightarrow> row \<in> set table \<and> ob_key row = (branchId, eid)"
  by (induction table) (auto simp: outbox_get_def image_iff)

lemma keys_update_row:
  assumes "\<And>row. ob_key (f row) = ob_key row"
  shows "map ob_key (update_row branchId eid f table) = map ob_key table"
  using assms by (induction table) (auto simp: update_row_def)

lemma outbox_wf_update_row:
  assumes "\<And>row. ob_key (f row) = ob_key row" and "\<And>row. row_wf row \<Longrightarrow> row_wf (f row)" and "outbox_wf table"
  shows "outbox_wf (update_row branchId eid f table)"
proof -
  from assms have "distinct (map ob_key (update_row branchId eid f table))"
    by (simp add: keys_update_row outbox_wf_def)
  with assms show ?thesis by (auto simp: outbox_wf_def update_row_def)
qed

lemma get_update_row:
  assumes "\<And>row. ob_key (f row) = ob_key row"
  shows "outbox_get (update_row branchId eid f table) b e =
     (if (b, e) = (branchId, eid) then map_option f (outbox_get table b e) else outbox_get table b e)"
  using assms by (induction table) (auto simp: update_row_def outbox_get_def)

lemma outbox_write_wf: "outbox_write table table' \<Longrightarrow> outbox_wf table \<Longrightarrow> outbox_wf table'"
proof (induction rule: outbox_write.induct)
  case (write_insert table now branchId descriptor "next")
  then show ?case
    using outbox_get_None [of table branchId "effectId descriptor"]
    by (auto simp: outbox_insert_def outbox_wf_def row_wf_def ob_key_def)
next
  case (write_delete table branchId eid)
  then show ?case by (auto simp: outbox_delete_def outbox_wf_def distinct_map_filter)
next
  case (write_lease table branchId eid now)
  then show ?case
    by (auto simp: outbox_lease_def row_wf_def ob_key_def intro!: outbox_wf_update_row split: option.split)
next
  case (write_failure table branchId eid now delay)
  then show ?case
    by (auto simp: outbox_recordFailure_def Let_def row_wf_def ob_key_def intro!: outbox_wf_update_row
        split: option.split)
qed (auto simp: outbox_releaseLease_def deferRedrive_def nudgeRedrive_def row_wf_def ob_key_def
    intro!: outbox_wf_update_row)

lemma outbox_reachable_wf: "outbox_write\<^sup>*\<^sup>* [] table \<Longrightarrow> outbox_wf table"
  by (induction rule: rtranclp_induct) (auto simp: outbox_wf_def [of "[]"] intro: outbox_write_wf)

subsection \<open>When a row is due\<close>

lemma min_of_None: "min_of xs = None \<longleftrightarrow> xs = []"
  by (cases xs) (auto split: option.split)

lemma min_of_Some: "min_of xs = Some m \<Longrightarrow> m \<le> t \<longleftrightarrow> (\<exists>x \<in> set xs. x \<le> t)"
  by (induction xs arbitrary: m) (auto simp: min_le_iff_disj min_of_None split: option.splits)

lemma row_due_wake_time: "row_wf row \<Longrightarrow> 0 \<le> now \<Longrightarrow> row_due now row \<longleftrightarrow> wake_time row \<le> now"
  by (auto simp: row_wf_def row_due_def wake_time_def split: option.splits)

lemma due_iff_earliest:
  assumes "outbox_wf table" and "0 \<le> now"
  shows "outbox_due table now \<noteq> [] \<longleftrightarrow> (\<exists>t. earliestDueAt table = Some t \<and> t \<le> now)"
proof -
  have "outbox_due table now \<noteq> [] \<longleftrightarrow> (\<exists>row \<in> set table. wake_time row \<le> now)"
    using assms by (auto simp: outbox_due_def filter_empty_conv outbox_wf_def row_due_wake_time)
  also have "\<dots> \<longleftrightarrow> (\<exists>t. earliestDueAt table = Some t \<and> t \<le> now)"
    using min_of_Some [of "map wake_time table"]
    by (cases "earliestDueAt table") (auto simp: earliestDueAt_def min_of_None)
  finally show ?thesis .
qed

definition sample_effect :: effect_descriptor where
  "sample_effect = LocalToolEffect \<lparr> ef_effectId = ''eff:i1'', ef_channelId = ''c1'', ef_idempotencyKey = JStr ''i1'' \<rparr>
     ''i1'' ''t1'' ''read'' (JObj [])"

definition sample_table :: outbox where
  "sample_table = outbox_insert 5 ''b1'' sample_effect (Some 40) []"

lemma sample_table_reachable: "outbox_write\<^sup>*\<^sup>* [] sample_table"
  unfolding sample_table_def by (rule r_into_rtranclp) (rule write_insert)

lemma sample_table_row:
  "outbox_get sample_table ''b1'' ''eff:i1'' =
     Some \<lparr> ob_effectId = ''eff:i1'', ob_branchId = ''b1'', ob_channelId = ''c1'', ob_kind = KLocalTool,
       ob_idempotencyKey = JStr ''i1'', ob_descriptor = sample_effect, ob_attempts = 0,
       ob_nextAttemptAt = Some 40, ob_leaseExpiresAt = None, ob_createdAt = 5 \<rparr>"
  by (simp add: sample_table_def outbox_insert_def outbox_get_def ob_key_def sample_effect_def effectId_def)

text \<open>The instant the alarm is armed for is exact: in every table the driver can reach, some row is due
  at \<open>now\<close> exactly when \<open>earliestDueAt\<close> names an instant that is not after \<open>now\<close>. So the alarm never
  sleeps past due work and never fires for leased rows before their lease ends.\<close>

theorem earliest_due_exact:
  "outbox_write\<^sup>*\<^sup>* [] table \<Longrightarrow> 0 \<le> now \<Longrightarrow>
     outbox_due table now \<noteq> [] \<longleftrightarrow> (\<exists>t. earliestDueAt table = Some t \<and> t \<le> now)"
  by (rule due_iff_earliest [OF outbox_reachable_wf])

theorem earliest_due_exact_witness:
  "outbox_due sample_table 39 = [] \<and> outbox_due sample_table 40 \<noteq> [] \<and> earliestDueAt sample_table = Some 40"
proof -
  have "earliestDueAt sample_table = Some 40"
    by (simp add: sample_table_def outbox_insert_def outbox_get_def earliestDueAt_def wake_time_def)
  then show ?thesis
    using earliest_due_exact [OF sample_table_reachable, of 39]
      earliest_due_exact [OF sample_table_reachable, of 40] by simp
qed

lemma due_get:
  "outbox_wf table \<Longrightarrow>
     (\<exists>row \<in> set (outbox_due table now). ob_key row = (branchId, eid)) \<longleftrightarrow>
     (\<exists>row. outbox_get table branchId eid = Some row \<and> row_due now row)"
  by (auto simp: outbox_due_def outbox_wf_def outbox_get_iff)

text \<open>A row taken for dispatch is due again exactly when the lease of its kind has run out, so no second
  pump can dispatch it in between, and work lost with the process is taken up again then.\<close>

theorem leased_row_not_due:
  assumes "outbox_write\<^sup>*\<^sup>* [] table" and "outbox_get table branchId eid = Some row"
  shows "(\<exists>r \<in> set (outbox_due (outbox_lease branchId eid now table) later). ob_key r = (branchId, eid))
     \<longleftrightarrow> now + leaseMs (ob_kind row) \<le> later"
proof -
  have "outbox_wf (outbox_lease branchId eid now table)"
    by (rule outbox_write_wf [OF write_lease outbox_reachable_wf [OF assms(1)]])
  with assms(2) show ?thesis
    by (simp add: due_get) (simp add: outbox_lease_def get_update_row ob_key_def row_due_def)
qed

theorem leased_row_not_due_witness:
  "\<not> (\<exists>r \<in> set (outbox_due (outbox_lease ''b1'' ''eff:i1'' 50 sample_table) 100000). ob_key r = (''b1'', ''eff:i1'')) \<and>
   (\<exists>r \<in> set (outbox_due (outbox_lease ''b1'' ''eff:i1'' 50 sample_table) 120050). ob_key r = (''b1'', ''eff:i1''))"
  using leased_row_not_due [OF sample_table_reachable sample_table_row, of 50 100000]
    leased_row_not_due [OF sample_table_reachable sample_table_row, of 50 120050] by simp

text \<open>A dispatched effect whose result comes later is dispatched again only after the backstop delay:
  taking the row cleared the dispatch time that lay in the past, which \<open>deferRedrive\<close> would have kept.\<close>

theorem deferred_effect_waits_backstop:
  assumes "outbox_write\<^sup>*\<^sup>* [] table" and "outbox_get table branchId eid = Some row"
  shows "(\<exists>r \<in> set (outbox_due (deferRedrive branchId eid now delay (outbox_lease branchId eid start table)) later).
            ob_key r = (branchId, eid)) \<longleftrightarrow> now + delay \<le> later"
proof -
  have "outbox_wf (deferRedrive branchId eid now delay (outbox_lease branchId eid start table))"
    by (rule outbox_write_wf [OF write_defer outbox_write_wf [OF write_lease outbox_reachable_wf [OF assms(1)]]])
  with assms(2) show ?thesis
    by (simp add: due_get)
       (simp add: outbox_lease_def deferRedrive_def get_update_row ob_key_def row_due_def)
qed

theorem deferred_effect_waits_backstop_witness:
  "\<not> (\<exists>r \<in> set (outbox_due (deferRedrive ''b1'' ''eff:i1'' 60 60000 (outbox_lease ''b1'' ''eff:i1'' 50 sample_table)) 60059).
        ob_key r = (''b1'', ''eff:i1''))"
  using deferred_effect_waits_backstop [OF sample_table_reachable sample_table_row, of 60 60000 50 60059] by simp

subsection \<open>Retries\<close>

lemma backoff_bounds: "500 \<le> backoffMs n" "backoffMs n \<le> 30000" "backoffMs n \<le> backoffMs (Suc n)"
  by (auto simp: backoffMs_def min_def)

lemma backoff_Suc: "1000 \<le> backoffMs (Suc n)"
  by (simp add: backoffMs_def min_def)



end
