(* ===== verification/Participants.thy ===== *)
theory Participants
  imports Json
begin

text \<open>
  Participant references as they may be published (\<open>agentic-protocol/src/participant-ref.ts\<close>) and the
  sanitizers of the log store built on them (\<open>gad-store/index.ts\<close>: audiences, roster snapshots): what
  an event says of a participant is reduced to a fixed set of keys and method summaries before it is
  journaled. References are JSON objects read by property access; where the source relies on a field
  being an object (its types and its schema check say so), the model does too.

  The lemmas: a sanitized reference holds nothing but public keys, everything else of the reference is
  kept, and sanitizing is idempotent, which is what lets a retried append compare equal to the stored
  event.
\<close>

subsection \<open>Public metadata\<close>

definition PUBLIC_METADATA_KEYS :: "string list" where
  "PUBLIC_METADATA_KEYS =
     [''kind'', ''type'', ''name'', ''displayName'', ''handle'', ''typing'', ''executionMode'', ''activeModel'']"

text \<open>\<open>typeof v === "string" || typeof v === "number" || typeof v === "boolean"\<close>\<close>

fun is_primitive :: "json \<Rightarrow> bool" where
  "is_primitive (JStr _) = True"
| "is_primitive (JNum _) = True"
| "is_primitive (JBool _) = True"
| "is_primitive _ = False"

fun boolean_opt :: "json \<Rightarrow> bool option" where
  "boolean_opt (JBool b) = Some b"
| "boolean_opt _ = None"

text \<open>\<open>k in v\<close>\<close>

definition has_key :: "json \<Rightarrow> string \<Rightarrow> bool" where
  "has_key v k \<longleftrightarrow> k \<in> fst ` set (own_props v)"

definition publicMethodSummary :: "json \<Rightarrow> json list" where
  "publicMethodSummary method =
     (if \<not> is_plain_object method then []
      else
        case string_opt (jget method ''name'') of
          None \<Rightarrow> []
        | Some name \<Rightarrow>
            [JObj ([(''name'', JStr name)]
               @ opt_prop ''streaming'' JBool (boolean_opt (jget method ''streaming''))
               @ (if is_plain_object (jget method ''menu'') then [(''menu'', jget method ''menu'')] else []))])"

definition publicMethodSummaries :: "json \<Rightarrow> json list" where
  "publicMethodSummaries value = concat (map publicMethodSummary (array_or_empty value))"

definition publicKeys :: "json \<Rightarrow> json dict" where
  "publicKeys metadata =
     map (\<lambda>k. (k, jget metadata k)) (filter (\<lambda>k. is_primitive (jget metadata k)) PUBLIC_METADATA_KEYS)"

definition publicParticipantMetadata :: "json \<Rightarrow> json option" where
  "publicParticipantMetadata metadata =
     (if \<not> truthy metadata then None
      else
        let methods = publicMethodSummaries (jget metadata ''methods'');
            out = publicKeys metadata @ (if methods \<noteq> [] then [(''methods'', JArr methods)] else [])
        in if out \<noteq> [] then Some (JObj out) else None)"

subsection \<open>References\<close>

definition actorKindFromMetadata :: "string \<Rightarrow> json \<Rightarrow> string" where
  "actorKindFromMetadata participantId declaredKind =
     (case string_opt declaredKind of
        Some k \<Rightarrow>
          if k \<in> {''user'', ''agent'', ''system'', ''panel'', ''external''} then k
          else if participantId = ''system'' then ''system''
          else if starts_with participantId ''panel:'' then ''panel''
          else if starts_with participantId ''do:'' then ''agent''
          else ''external''
      | None \<Rightarrow>
          if participantId = ''system'' then ''system''
          else if starts_with participantId ''panel:'' then ''panel''
          else if starts_with participantId ''do:'' then ''agent''
          else ''external'')"

definition participantRefFromMetadata :: "string \<Rightarrow> json \<Rightarrow> json" where
  "participantRefFromMetadata participantId metadata =
     (let publicMetadata = publicParticipantMetadata metadata;
          field = (\<lambda>k. case publicMetadata of Some v \<Rightarrow> jget v k | None \<Rightarrow> JUndefined);
          displayName =
            (case string_opt (field ''name'') of
               Some s \<Rightarrow> Some s
             | None \<Rightarrow> string_opt (field ''displayName''))
      in JObj ([(''kind'', JStr (actorKindFromMetadata participantId (coalesce (field ''kind'') (field ''type'')))),
          (''id'', JStr participantId), (''participantId'', JStr participantId)]
          @ (case displayName of Some s \<Rightarrow> if s = [] then [] else [(''displayName'', JStr s)] | None \<Rightarrow> [])
          @ opt_prop ''metadata'' id publicMetadata))"

definition publicActorRef :: "json \<Rightarrow> json" where
  "publicActorRef actor =
     JObj (ddel ''metadata'' (own_props actor)
       @ opt_prop ''metadata'' id (publicParticipantMetadata (jget actor ''metadata'')))"

definition publicParticipantRef :: "json \<Rightarrow> json" where
  "publicParticipantRef participant = publicActorRef participant"

subsection \<open>References in event payloads\<close>

text \<open>\<open>{ ...payload, k: v }\<close>\<close>

definition with_prop :: "json \<Rightarrow> string \<Rightarrow> json \<Rightarrow> json" where
  "with_prop payload k v = JObj (jspread (own_props payload) [(k, v)])"

definition sanitizeInvocationPayload :: "json \<Rightarrow> json" where
  "sanitizeInvocationPayload payload =
     (let transport = jget payload ''transport'' in
      if \<not> has_key payload ''transport'' \<or> jget transport ''kind'' \<noteq> JStr ''channel'' then payload
      else with_prop payload ''transport''
             (with_prop transport ''target'' (publicParticipantRef (jget transport ''target''))))"

definition isParticipantRef :: "json \<Rightarrow> bool" where
  "isParticipantRef value \<longleftrightarrow> is_object value \<and> has_key value ''id''"

definition with_public_ref :: "json \<Rightarrow> string \<Rightarrow> bool \<Rightarrow> json" where
  "with_public_ref payload k present =
     (if present then with_prop payload k (publicActorRef (jget payload k)) else JObj (own_props payload))"

definition sanitizeApprovalPayload :: "json \<Rightarrow> json" where
  "sanitizeApprovalPayload payload =
     (if has_key payload ''question'' then
        with_public_ref (with_public_ref payload ''requestedBy'' (truthy (jget payload ''requestedBy'')))
          ''approver'' (isParticipantRef (jget payload ''approver''))
      else with_public_ref payload ''resolvedBy'' True)"

definition sanitizePayloadParticipantRefs :: "string \<Rightarrow> json \<Rightarrow> json" where
  "sanitizePayloadParticipantRefs kind payload =
     (if kind = ''invocation.started'' then sanitizeInvocationPayload payload
      else if kind = ''approval.requested'' \<or> kind = ''approval.resolved'' then sanitizeApprovalPayload payload
      else if kind = ''messageType.registered'' then
        with_public_ref payload ''registeredBy'' (truthy (jget payload ''registeredBy''))
      else if kind = ''custom.started'' then with_public_ref payload ''by'' (truthy (jget payload ''by''))
      else if kind = ''external.envelope_observed'' then with_public_ref payload ''from'' True
      else if kind = ''external.participant_observed'' then with_public_ref payload ''participant'' True
      else payload)"

definition sanitizeAgenticEventParticipantRefs :: "json \<Rightarrow> json" where
  "sanitizeAgenticEventParticipantRefs event =
     with_prop (with_prop event ''actor'' (publicActorRef (jget event ''actor'')))
       ''payload'' (sanitizePayloadParticipantRefs (string_or (jget event ''kind'') []) (jget event ''payload''))"

subsection \<open>Audiences and roster snapshots in the log store\<close>

text \<open>An absent or null audience is \<open>undefined\<close>.\<close>

definition sanitizeAudience :: "json \<Rightarrow> json" where
  "sanitizeAudience audience =
     (if nullish audience then JUndefined
      else case audience of JArr xs \<Rightarrow> JArr (map publicParticipantRef xs) | _ \<Rightarrow> audience)"

definition sanitizeRosterMethodSummaries :: "json \<Rightarrow> json" where
  "sanitizeRosterMethodSummaries methods =
     (case publicParticipantMetadata (JObj [(''methods'', methods)]) of
        Some out \<Rightarrow> coalesce (jget out ''methods'') (JArr [])
      | None \<Rightarrow> JArr [])"

definition sanitizeRosterParticipant :: "json \<Rightarrow> json" where
  "sanitizeRosterParticipant participant =
     (if \<not> is_plain_object participant then participant
      else
        let ref = jget participant ''ref'';
            base = (if is_plain_object ref then with_prop participant ''ref'' (publicParticipantRef ref) else participant)
        in with_prop base ''methods'' (sanitizeRosterMethodSummaries (jget participant ''methods'')))"

definition sanitizeRosterSnapshotPayload :: "json \<Rightarrow> json" where
  "sanitizeRosterSnapshotPayload payload =
     (let details = jget payload ''details''; roster = jget details ''roster'' in
      if \<not> is_plain_object payload \<or> \<not> is_plain_object details then payload
      else if jget details ''kind'' \<noteq> JStr ''roster.snapshot'' \<and> jget payload ''kind'' \<noteq> JStr ''roster.snapshot'' then payload
      else if \<not> is_plain_object roster then payload
      else
        case jget roster ''participants'' of
          JArr participants \<Rightarrow>
            with_prop payload ''details''
              (with_prop details ''roster''
                (with_prop roster ''participants'' (JArr (map sanitizeRosterParticipant participants))))
        | _ \<Rightarrow> payload)"

subsection \<open>Sanitizing twice\<close>

lemma publicMethodSummary_twice: "s \<in> set (publicMethodSummary method) \<Longrightarrow> publicMethodSummary s = [s]"
  by (cases "boolean_opt (jget method ''streaming'')"; cases "string_opt (jget method ''name'')")
     (auto simp: publicMethodSummary_def split: if_splits)

lemma publicMethodSummaries_twice: "publicMethodSummaries (JArr (publicMethodSummaries value)) = publicMethodSummaries value"
proof -
  have "concat (map publicMethodSummary ss) = ss" if "\<forall>s \<in> set ss. publicMethodSummary s = [s]" for ss
    using that by (induction ss) auto
  moreover have "\<forall>s \<in> set (publicMethodSummaries value). publicMethodSummary s = [s]"
    using publicMethodSummary_twice by (auto simp: publicMethodSummaries_def)
  ultimately show ?thesis by (simp add: publicMethodSummaries_def [of "JArr _"])
qed

lemma keys_publicKeys: "fst ` set (publicKeys metadata) \<subseteq> set PUBLIC_METADATA_KEYS"
  by (auto simp: publicKeys_def)

lemma methods_not_public [simp]: "''methods'' \<notin> set PUBLIC_METADATA_KEYS"
  by (simp add: PUBLIC_METADATA_KEYS_def)

lemma map_of_map_self: "map_of (map (\<lambda>k. (k, f k)) ks) k = (if k \<in> set ks then Some (f k) else None)"
  by (induction ks) auto

lemma jget_publicKeys:
  "jget (JObj (publicKeys metadata @ rest)) k =
     (if k \<in> set PUBLIC_METADATA_KEYS \<and> is_primitive (jget metadata k) then jget metadata k else jget (JObj rest) k)"
proof -
  have "k \<in> fst ` set (publicKeys metadata) \<longleftrightarrow> k \<in> set PUBLIC_METADATA_KEYS \<and> is_primitive (jget metadata k)"
    by (auto simp: publicKeys_def image_iff)
  then show ?thesis
    by (simp add: jget.simps(1) publicKeys_def map_of_map_self map_add_def split: option.splits)
qed

lemma publicKeys_twice:
  assumes "\<forall>k \<in> set PUBLIC_METADATA_KEYS. jget (JObj rest) k = JUndefined"
  shows "publicKeys (JObj (publicKeys metadata @ rest)) = publicKeys metadata"
proof -
  have "filter (\<lambda>k. is_primitive (jget (JObj (publicKeys metadata @ rest)) k)) PUBLIC_METADATA_KEYS
      = filter (\<lambda>k. is_primitive (jget metadata k)) PUBLIC_METADATA_KEYS"
    using assms by (intro filter_cong) (auto simp: jget_publicKeys simp del: jget_JObj_append)
  then show ?thesis
    unfolding publicKeys_def [of "JObj _"] by (auto simp: publicKeys_def [of metadata, symmetric] jget_publicKeys simp del: jget_JObj_append)
       (simp add: publicKeys_def)
qed

lemma publicParticipantMetadata_Some:
  "publicParticipantMetadata metadata = Some out \<Longrightarrow>
     \<exists>ms. out = JObj (publicKeys metadata @ (if ms \<noteq> [] then [(''methods'', JArr ms)] else [])) \<and>
       ms = publicMethodSummaries (jget metadata ''methods'')"
  by (auto simp: publicParticipantMetadata_def Let_def split: if_splits)

lemma publicParticipantMetadata_twice:
  assumes "publicParticipantMetadata metadata = Some out"
  shows "publicParticipantMetadata out = Some out"
proof -
  define ms where "ms = publicMethodSummaries (jget metadata ''methods'')"
  define rest where "rest = (if ms \<noteq> [] then [(''methods'', JArr ms)] else [])"
  have out: "out = JObj (publicKeys metadata @ rest)"
    using publicParticipantMetadata_Some [OF assms] by (simp add: rest_def ms_def)
  have keys: "publicKeys out = publicKeys metadata"
    unfolding out by (rule publicKeys_twice) (auto simp: rest_def PUBLIC_METADATA_KEYS_def)
  have "jget out ''methods'' = (if ms \<noteq> [] then JArr ms else JUndefined)"
    unfolding out jget_publicKeys by (simp add: rest_def)
  then have methods: "publicMethodSummaries (jget out ''methods'') = ms"
    using publicMethodSummaries_twice by (auto simp: ms_def) (simp add: publicMethodSummaries_def)
  have "publicKeys metadata @ rest \<noteq> []"
    using assms by (auto simp: publicParticipantMetadata_def Let_def rest_def ms_def split: if_splits)
  then show ?thesis
    unfolding publicParticipantMetadata_def [of out] Let_def keys methods by (simp add: out rest_def [symmetric])
qed

lemma ddel_append: "ddel k (xs @ ys) = ddel k xs @ ddel k ys"
  by (simp add: AList.delete_eq)

lemma metadata_publicActorRef:
  "jget (publicActorRef actor) ''metadata'' =
     (case publicParticipantMetadata (jget actor ''metadata'') of Some v \<Rightarrow> v | None \<Rightarrow> JUndefined)"
proof -
  have "''metadata'' \<notin> fst ` set (ddel ''metadata'' (own_props actor))"
    using map_of_eq_None_iff [of "ddel ''metadata'' (own_props actor)" "''metadata''"] by simp
  then show ?thesis by (simp add: publicActorRef_def split: option.split)
qed

text \<open>Sanitizing a reference again changes nothing, so a retried append presents exactly the reference that
  was stored the first time.\<close>

theorem publicActorRef_idempotent: "publicActorRef (publicActorRef actor) = publicActorRef actor"
proof -
  have "publicParticipantMetadata (jget (publicActorRef actor) ''metadata'') =
      publicParticipantMetadata (jget actor ''metadata'')"
    using publicParticipantMetadata_twice
    by (auto simp: metadata_publicActorRef split: option.split) (simp add: publicParticipantMetadata_def)
  then show ?thesis
    unfolding publicActorRef_def [of "publicActorRef actor"]
    by (simp add: publicActorRef_def ddel_append AList.delete_eq split: option.split) (cases "publicParticipantMetadata (jget actor ''metadata'')"; simp)
qed

definition public_metadata :: "json \<Rightarrow> bool" where
  "public_metadata v \<longleftrightarrow>
     v = JUndefined \<or>
     (is_plain_object v \<and> fst ` set (own_props v) \<subseteq> insert ''methods'' (set PUBLIC_METADATA_KEYS) \<and>
      (\<forall>method \<in> set (array_or_empty (jget v ''methods'')).
         fst ` set (own_props method) \<subseteq> {''name'', ''streaming'', ''menu''}))"

text \<open>C37: What a published reference says of a participant is public: its metadata is absent or an object with
  only the public keys, whose methods are reduced to name, streaming flag and menu; every other property
  of the reference is kept.\<close>

theorem published_reference_is_public:
  "public_metadata (jget (publicActorRef actor) ''metadata'') \<and>
   (\<forall>k. k \<noteq> ''metadata'' \<longrightarrow> jget (publicActorRef actor) k = jget (JObj (own_props actor)) k)"
proof (intro conjI allI impI)
  show "public_metadata (jget (publicActorRef actor) ''metadata'')"
  proof (cases "publicParticipantMetadata (jget actor ''metadata'')")
    case (Some out)
    then obtain ms where out: "out = JObj (publicKeys (jget actor ''metadata'') @ (if ms \<noteq> [] then [(''methods'', JArr ms)] else []))"
      and ms: "ms = publicMethodSummaries (jget (jget actor ''metadata'') ''methods'')"
      using publicParticipantMetadata_Some by blast
    have "fst ` set (own_props summary) \<subseteq> {''name'', ''streaming'', ''menu''}" if "summary \<in> set ms" for summary
      using that unfolding ms publicMethodSummaries_def
      by (auto simp: publicMethodSummary_def opt_prop_def split: if_splits option.splits)
    moreover have "jget out ''methods'' = (if ms \<noteq> [] then JArr ms else JUndefined)"
      unfolding out jget_publicKeys by simp
    ultimately show ?thesis
      using Some keys_publicKeys [of "jget actor ''metadata''"]
      by (auto simp: public_metadata_def metadata_publicActorRef out split: if_splits)
  qed (simp add: public_metadata_def metadata_publicActorRef)
next
  fix k :: string
  assume "k \<noteq> ''metadata''"
  then show "jget (publicActorRef actor) k = jget (JObj (own_props actor)) k"
    by (cases "publicParticipantMetadata (jget actor ''metadata'')")
       (auto simp: publicActorRef_def jget.simps(1) map_add_def split: option.splits)
qed

theorem published_reference_is_public_witness:
  "public_metadata (jget (publicActorRef (JObj [(''id'', JStr ''p1''), (''metadata'', JObj [(''secret'', JStr ''x''), (''name'', JStr ''P'')])])) ''metadata'') \<and>
   jget (publicActorRef (JObj [(''id'', JStr ''p1''), (''metadata'', JObj [(''secret'', JStr ''x''), (''name'', JStr ''P'')])])) ''id'' = JStr ''p1''"
  using published_reference_is_public [of "JObj [(''id'', JStr ''p1''), (''metadata'', JObj [(''secret'', JStr ''x''), (''name'', JStr ''P'')])]"]
  by simp

end
