(* ===== verification/LogStore.thy ===== *)
theory LogStore
  imports Participants "HOL-Library.Char_ord" "HOL-Library.List_Lexorder" "HOL-Library.Product_Lexorder"
begin

text \<open>
  The unified log core of the log store (\<open>workers/gad-store/index.ts\<close>), on which trajectories and channels
  are journaled, with the envelope hashing of the protocol package (\<open>log-envelope.ts\<close>,
  \<open>canonical-json.ts\<close>). The state is the pair of tables \<open>log_heads\<close> and \<open>log_events\<close>, rows in insertion
  order, and the worktree heads that archiving consults. An operation is one transaction: it returns the new
  tables or the error that rolled it back.

  Not part of the tables here: \<open>created_at\<close> columns, blob references, and the projection tables, which the
  log core never reads. What the operations take from elsewhere is in \<open>store_env\<close>: the SHA-256 of a string,
  the clock and the random ids, the schema check of an agentic event, the check that its values are encoded,
  the existence of a worktree state, and whether the projection of an event accepts it.
\<close>

subsection \<open>Canonical JSON and envelope hashes\<close>

fun sortForCanonicalJson :: "json \<Rightarrow> json" where
  "sortForCanonicalJson (JArr xs) = JArr (map sortForCanonicalJson xs)"
| "sortForCanonicalJson (JObj ps) =
     JObj (sort_key fst (map (\<lambda>p. (fst p, sortForCanonicalJson (snd p))) (filter (\<lambda>p. snd p \<noteq> JUndefined) ps)))"
| "sortForCanonicalJson v = v"

definition canonicalJson :: "json \<Rightarrow> string" where
  "canonicalJson value = json_text (sortForCanonicalJson value)"

definition GENESIS_EVENT_HASH :: string where
  "GENESIS_EVENT_HASH = replicate 64 (CHR ''0'')"

text \<open>\<open>LogEnvelopeSemanticInput\<close>; an absent field is \<open>JUndefined\<close>.\<close>

record semantic_input =
  si_envelopeId :: string
  si_actor :: json
  si_to :: json
  si_payloadKind :: string
  si_payload :: json
  si_annotations :: json
  si_causality :: json
  si_appendedAt :: string

definition present_prop :: "string \<Rightarrow> json \<Rightarrow> json dict" where
  "present_prop k v = (if v \<noteq> JUndefined then [(k, v)] else [])"

definition logEnvelopeSemantic :: "'a semantic_input_scheme \<Rightarrow> json" where
  "logEnvelopeSemantic envelope =
     JObj ([(''envelopeId'', JStr (si_envelopeId envelope)), (''actor'', si_actor envelope)]
       @ present_prop ''to'' (si_to envelope)
       @ [(''payloadKind'', JStr (si_payloadKind envelope)), (''payload'', si_payload envelope)]
       @ present_prop ''annotations'' (si_annotations envelope)
       @ present_prop ''causality'' (si_causality envelope)
       @ [(''appendedAt'', JStr (si_appendedAt envelope))])"

definition LOG_ENVELOPE_HASH_FORMAT :: nat where
  "LOG_ENVELOPE_HASH_FORMAT = 2"

definition newline :: char where
  "newline = CHR 0x0A"

definition logEnvelopeHashPreimage :: "string \<Rightarrow> string \<Rightarrow> string \<Rightarrow> int \<Rightarrow> json \<Rightarrow> string" where
  "logEnvelopeHashPreimage prevHash lid hd' seq semantic =
     join_with [newline]
       [''gadlog:'' @ show_nat LOG_ENVELOPE_HASH_FORMAT, prevHash,
        show_nat (length lid) @ '':'' @ lid,
        show_nat (length hd') @ '':'' @ hd',
        show_int seq, canonicalJson semantic]"

subsection \<open>Rows and tables\<close>

record prepared_event = semantic_input +
  pe_appendedAtExplicit :: bool
  pe_publish :: "(string \<times> json) list"

record stored_event = semantic_input +
  ev_logId :: string
  ev_head :: string
  ev_seq :: int
  ev_prevHash :: string
  ev_hash :: string

record log_head_row =
  lh_logId :: string
  lh_head :: string
  lh_logKind :: string
  lh_owner :: json
  lh_parentLogId :: "string option"
  lh_parentHead :: "string option"
  lh_forkSeq :: "int option"
  lh_forkHash :: "string option"
  lh_currentSeq :: int
  lh_currentHash :: string
  lh_currentEnvelopeId :: "string option"

record store =
  st_heads :: "log_head_row list"
  st_events :: "stored_event list"
  st_worktreeHeads :: "((string \<times> string) \<times> string) list"

record store_env =
  sx_sha256 :: "string \<Rightarrow> string"
  sx_nowIso :: string
  sx_randomUUID :: "nat \<Rightarrow> string"
  sx_parseEvent :: "json \<Rightarrow> json res"
  sx_valuesEncoded :: "json \<Rightarrow> bool"
  sx_stateExists :: "string \<Rightarrow> bool"
  sx_project :: "string \<Rightarrow> stored_event \<Rightarrow> bool"

definition empty_store :: store where
  "empty_store = \<lparr> st_heads = [], st_events = [], st_worktreeHeads = [] \<rparr>"

definition lh_key :: "log_head_row \<Rightarrow> string \<times> string" where
  "lh_key row = (lh_logId row, lh_head row)"

definition ev_key :: "stored_event \<Rightarrow> string \<times> string" where
  "ev_key event = (ev_logId event, ev_head event)"

definition CHANNEL_LOG_HEAD :: string where
  "CHANNEL_LOG_HEAD = ''main''"

definition AGENTIC_LOG_KINDS :: "string list" where
  "AGENTIC_LOG_KINDS = [''trajectory'', ''vcs'']"

definition STATE_TRANSITION_KINDS :: "string list" where
  "STATE_TRANSITION_KINDS =
     [''state.file_mutation_applied'', ''state.transition_recorded'', ''state.snapshot_ingested'',
      ''state.merge_applied'']"

definition STORED_EVENT_KINDS :: "string list" where
  "STORED_EVENT_KINDS =
     [''message.started'', ''message.delta'', ''message.completed'', ''message.failed'',
      ''invocation.started'', ''invocation.progress'', ''invocation.output'', ''invocation.completed'',
      ''invocation.failed'', ''invocation.cancelled'', ''invocation.abandoned'',
      ''approval.requested'', ''approval.resolved'', ''ui.inline_rendered'', ''ui.action_bar.updated'',
      ''ui.feedback'', ''messageType.registered'', ''messageType.cleared'', ''custom.started'',
      ''custom.updated'', ''state.file_observed'', ''state.file_mutation_intended'',
      ''state.file_mutation_applied'', ''state.transition_recorded'', ''state.snapshot_ingested'',
      ''state.merge_applied'', ''external.envelope_published'', ''external.envelope_observed'',
      ''external.participant_observed'', ''branch.created'', ''branch.forked'', ''branch.head_changed'',
      ''turn.opened'', ''turn.waiting'', ''turn.closed'', ''system.event'',
      ''system.compaction_recorded'', ''memory.recalled'', ''build.completed'',
      ''knowledge.claim_recorded'', ''knowledge.claim_updated'', ''knowledge.claim_retracted'']"

definition AGENTIC_EVENT_KIND :: string where
  "AGENTIC_EVENT_KIND = ''agentic.trajectory.v1/event''"

subsection \<open>Heads and lineage\<close>

definition logHeadRow :: "store \<Rightarrow> string \<Rightarrow> string \<Rightarrow> log_head_row option" where
  "logHeadRow store lid hd' = find (\<lambda>row. lh_key row = (lid, hd')) (st_heads store)"

text \<open>The current sequence number, hash and envelope of a head, or the genesis baseline.\<close>

definition headPointer :: "store \<Rightarrow> string \<Rightarrow> string \<Rightarrow> int \<times> string \<times> string option" where
  "headPointer store lid hd' =
     (case logHeadRow store lid hd' of
        Some row \<Rightarrow> (lh_currentSeq row, lh_currentHash row, lh_currentEnvelopeId row)
      | None \<Rightarrow> (0, GENESIS_EVENT_HASH, None))"

record log_head_info =
  hi_logKind :: string
  hi_seq :: int
  hi_hash :: string
  hi_envelopeId :: "string option"
  hi_forkSeq :: "int option"
  hi_forkHash :: "string option"
  hi_parentLogId :: "string option"
  hi_parentHead :: "string option"

definition getLogHead :: "store \<Rightarrow> string \<Rightarrow> string \<Rightarrow> log_head_info option" where
  "getLogHead store lid hd' =
     (case logHeadRow store lid hd' of
        None \<Rightarrow> None
      | Some row \<Rightarrow>
          let (seq, hash, eid) = headPointer store lid hd' in
          Some \<lparr> hi_logKind = lh_logKind row, hi_seq = seq, hi_hash = hash, hi_envelopeId = eid,
            hi_forkSeq = lh_forkSeq row, hi_forkHash = lh_forkHash row,
            hi_parentLogId = lh_parentLogId row, hi_parentHead = lh_parentHead row \<rparr>)"

text \<open>\<open>LineageSegment\<close>; \<open>None\<close> is an unbounded \<open>throughSeq\<close>.\<close>

record lineage_segment =
  ls_logId :: string
  ls_head :: string
  ls_throughSeq :: "int option"

definition min_cap :: "int option \<Rightarrow> int \<Rightarrow> int option" where
  "min_cap cap n = (case cap of None \<Rightarrow> Some n | Some c \<Rightarrow> Some (min c n))"

definition within :: "int option \<Rightarrow> int \<Rightarrow> bool" where
  "within cap n \<longleftrightarrow> (case cap of None \<Rightarrow> True | Some c \<Rightarrow> n \<le> c)"

text \<open>The parent a head row names, when all three columns are set.\<close>

definition parentOf :: "log_head_row \<Rightarrow> (string \<times> string \<times> int) option" where
  "parentOf row =
     (case (lh_parentLogId row, lh_parentHead row, lh_forkSeq row) of
        (Some pl, Some ph, Some n) \<Rightarrow> if pl = [] \<or> ph = [] then None else Some (pl, ph, n)
      | _ \<Rightarrow> None)"

lemma logHeadRow_Some:
  "logHeadRow store lid hd' = Some row \<Longrightarrow> row \<in> set (st_heads store) \<and> lh_key row = (lid, hd')"
  by (auto simp: logHeadRow_def find_Some_iff)

function lineageFrom ::
  "store \<Rightarrow> (string \<times> string) list \<Rightarrow> int option \<Rightarrow> string \<Rightarrow> string \<Rightarrow> lineage_segment list res" where
  "lineageFrom store seen cap lid hd' =
     (if (lid, hd') \<in> set seen then Inl (StoreError ''log lineage cycle'')
      else
        let segment = \<lparr> ls_logId = lid, ls_head = hd', ls_throughSeq = cap \<rparr> in
        case logHeadRow store lid hd' of
          None \<Rightarrow> Inr [segment]
        | Some row \<Rightarrow>
            (case parentOf row of
               None \<Rightarrow> Inr [segment]
             | Some (pl, ph, n) \<Rightarrow>
                 bind_res (lineageFrom store ((lid, hd') # seen) (min_cap cap n) pl ph)
                   (\<lambda>rest. Inr (segment # rest))))"
  by pat_completeness auto

termination lineageFrom
proof (relation "measure (\<lambda>(store, seen, _). length (filter (\<lambda>row. lh_key row \<notin> set seen) (st_heads store)))")
  fix store :: store and seen cap lid hd' segment row pair pl rest ph and n :: int
  assume "(lid, hd') \<notin> set seen" and "logHeadRow store lid hd' = Some row"
  moreover from this have "row \<in> set (st_heads store)" "lh_key row = (lid, hd')" using logHeadRow_Some by auto
  ultimately have "length (filter (\<lambda>row. lh_key row \<notin> set ((lid, hd') # seen)) (st_heads store))
      < length (filter (\<lambda>row. lh_key row \<notin> set seen) (st_heads store))"
    by (intro filter_shorter [of row]) auto
  then show "((store, (lid, hd') # seen, min_cap cap n, pl, ph), (store, seen, cap, lid, hd'))
      \<in> measure (\<lambda>(store, seen, _). length (filter (\<lambda>row. lh_key row \<notin> set seen) (st_heads store)))"
    by simp
qed simp_all

declare lineageFrom.simps [simp del]

definition logLineage :: "store \<Rightarrow> string \<Rightarrow> string \<Rightarrow> lineage_segment list res" where
  "logLineage store lid hd' = lineageFrom store [] None lid hd'"

text \<open>The rows of a segment that its descendant sees.\<close>

definition in_segment :: "lineage_segment \<Rightarrow> stored_event \<Rightarrow> bool" where
  "in_segment segment event \<longleftrightarrow>
     ev_key event = (ls_logId segment, ls_head segment) \<and> within (ls_throughSeq segment) (ev_seq event)"

definition segment_rows :: "store \<Rightarrow> lineage_segment \<Rightarrow> stored_event list" where
  "segment_rows store segment = filter (in_segment segment) (st_events store)"

subsection \<open>Reading\<close>

record read_input =
  ri_afterSeq :: "int option"
  ri_beforeSeq :: "int option"
  ri_limit :: "int option"
  ri_payloadKind :: "string option"

definition logEventWhere :: "read_input \<Rightarrow> stored_event \<Rightarrow> bool" where
  "logEventWhere input event \<longleftrightarrow>
     option_or (ri_afterSeq input) 0 < ev_seq event \<and>
     (case ri_beforeSeq input of Some n \<Rightarrow> ev_seq event < n | None \<Rightarrow> True) \<and>
     (case ri_payloadKind input of Some k \<Rightarrow> k = [] \<or> si_payloadKind event = k | None \<Rightarrow> True)"

text \<open>\<open>SELECT ... WHERE ... ORDER BY seq ASC\<close> over one segment.\<close>

definition select_rows :: "store \<Rightarrow> read_input \<Rightarrow> lineage_segment \<Rightarrow> stored_event list" where
  "select_rows store input segment = sort_key ev_seq (filter (logEventWhere input) (segment_rows store segment))"

text \<open>Root first, until the limit is reached.\<close>

fun collectSegments ::
  "store \<Rightarrow> read_input \<Rightarrow> nat option \<Rightarrow> stored_event list \<Rightarrow> lineage_segment list \<Rightarrow> stored_event list" where
  "collectSegments store input limit collected [] = collected"
| "collectSegments store input limit collected (segment # segments) =
     (case limit of
        None \<Rightarrow> collectSegments store input limit (collected @ select_rows store input segment) segments
      | Some n \<Rightarrow>
          if n - length collected = 0 then collected
          else collectSegments store input limit
                 (collected @ take (n - length collected) (select_rows store input segment)) segments)"

definition positive_limit :: "int option \<Rightarrow> nat option" where
  "positive_limit limit = (case limit of Some n \<Rightarrow> if 0 < n then Some (nat n) else None | None \<Rightarrow> None)"

definition readLog :: "store \<Rightarrow> string \<Rightarrow> string \<Rightarrow> read_input \<Rightarrow> stored_event list res" where
  "readLog store lid hd' input =
     bind_res (logLineage store lid hd') (\<lambda>segments.
       Inr (collectSegments store input (positive_limit (ri_limit input)) [] (rev segments)))"

text \<open>Self first, newest first, then turned around.\<close>

fun collectTail ::
  "store \<Rightarrow> read_input \<Rightarrow> nat \<Rightarrow> stored_event list \<Rightarrow> lineage_segment list \<Rightarrow> stored_event list" where
  "collectTail store input n collected [] = collected"
| "collectTail store input n collected (segment # segments) =
     (if n - length collected = 0 then collected
      else collectTail store input n
             (collected @ take (n - length collected) (rev (select_rows store input segment))) segments)"

definition readLogTail :: "store \<Rightarrow> string \<Rightarrow> string \<Rightarrow> read_input \<Rightarrow> stored_event list res" where
  "readLogTail store lid hd' input =
     (case ri_limit input of
        None \<Rightarrow> readLog store lid hd' input
      | Some n \<Rightarrow>
          if n \<le> 0 then Inr []
          else bind_res (logLineage store lid hd') (\<lambda>segments.
                 Inr (rev (collectTail store input (nat n) [] segments))))"

text \<open>The number of visible rows and the lowest sequence number among them.\<close>

fun segmentStats :: "store \<Rightarrow> read_input \<Rightarrow> lineage_segment list \<Rightarrow> nat \<times> int option" where
  "segmentStats store input [] = (0, None)"
| "segmentStats store input (segment # segments) =
     (let rows = select_rows store input segment; (count, firstSeq) = segmentStats store input segments in
      (length rows + count,
       case rows of
         [] \<Rightarrow> firstSeq
       | row # _ \<Rightarrow> Some (case firstSeq of None \<Rightarrow> ev_seq row | Some n \<Rightarrow> min (ev_seq row) n)))"

definition lineageEventStats :: "store \<Rightarrow> string \<Rightarrow> string \<Rightarrow> read_input \<Rightarrow> (nat \<times> int option) res" where
  "lineageEventStats store lid hd' input =
     bind_res (logLineage store lid hd') (\<lambda>segments. Inr (segmentStats store input segments))"

definition find_in_segments :: "store \<Rightarrow> (stored_event \<Rightarrow> bool) \<Rightarrow> lineage_segment list \<Rightarrow> stored_event option" where
  "find_in_segments store P segments = find P (concat (map (segment_rows store) segments))"

definition lineageEventRow :: "store \<Rightarrow> string \<Rightarrow> string \<Rightarrow> string \<Rightarrow> stored_event option res" where
  "lineageEventRow store lid hd' eid =
     bind_res (logLineage store lid hd') (\<lambda>segments.
       Inr (find_in_segments store (\<lambda>event. si_envelopeId event = eid) segments))"

definition getLogEvent :: "store \<Rightarrow> string \<Rightarrow> string \<Rightarrow> string \<Rightarrow> stored_event option res" where
  "getLogEvent store lid hd' eid = lineageEventRow store lid hd' eid"

definition lineageEventBySeq :: "store \<Rightarrow> string \<Rightarrow> string \<Rightarrow> int \<Rightarrow> stored_event option res" where
  "lineageEventBySeq store lid hd' seq =
     bind_res (logLineage store lid hd') (\<lambda>segments.
       Inr (find_in_segments store (\<lambda>event. ev_seq event = seq) segments))"

definition lineageEventCountThrough :: "store \<Rightarrow> string \<Rightarrow> string \<Rightarrow> int \<Rightarrow> nat res" where
  "lineageEventCountThrough store lid hd' throughSeq =
     bind_res (logLineage store lid hd') (\<lambda>segments.
       Inr (sum_list (map (\<lambda>segment.
         length (filter (\<lambda>event. ev_seq event \<le> throughSeq) (segment_rows store segment))) segments)))"

subsection \<open>Preparing an event\<close>

record append_event =
  ae_envelopeId :: "string option"
  ae_actor :: json
  ae_to :: json
  ae_payloadKind :: string
  ae_payload :: json
  ae_causality :: json
  ae_annotations :: json
  ae_appendedAt :: "string option"
  ae_publish :: "(string \<times> json) list"

definition undefined_if_nullish :: "json \<Rightarrow> json" where
  "undefined_if_nullish v = (if nullish v then JUndefined else v)"

definition isStoredEventKind :: "string \<Rightarrow> bool" where
  "isStoredEventKind payloadKind \<longleftrightarrow> payloadKind \<in> set STORED_EVENT_KINDS"

definition isAgenticEventPayload :: "json \<Rightarrow> bool" where
  "isAgenticEventPayload payload \<longleftrightarrow>
     is_plain_object payload \<and> string_opt (jget payload ''kind'') \<noteq> None \<and>
     (is_object (jget payload ''actor'') \<or> jget payload ''actor'' = JNull) \<and>
     string_opt (jget payload ''createdAt'') \<noteq> None"

text \<open>Only the keys of a trajectory's own causality; \<open>JUndefined\<close> when none is left.\<close>

definition agenticCausality :: "json \<Rightarrow> json" where
  "agenticCausality causality =
     (if \<not> truthy causality then JUndefined
      else
        let rest = fold ddel [''originLogId'', ''originHead'', ''originEnvelopeId'', ''turnId''] (own_props causality)
        in if rest \<noteq> [] then JObj rest else JUndefined)"

definition truthy_field :: "string \<Rightarrow> json \<Rightarrow> json dict" where
  "truthy_field k v = (if truthy v then [(k, v)] else [])"

definition agenticEvent :: "string \<Rightarrow> json \<Rightarrow> json \<Rightarrow> json \<Rightarrow> string \<Rightarrow> json" where
  "agenticEvent kind actor causality payload createdAt =
     JObj ([(''kind'', JStr kind), (''actor'', actor)]
       @ truthy_field ''turnId'' (jget causality ''turnId'')
       @ truthy_field ''causality'' (agenticCausality causality)
       @ [(''payload'', payload), (''createdAt'', JStr createdAt)])"

definition agenticEventFromEnvelope :: "stored_event \<Rightarrow> json" where
  "agenticEventFromEnvelope envelope =
     agenticEvent (si_payloadKind envelope) (si_actor envelope) (si_causality envelope)
       (si_payload envelope) (si_appendedAt envelope)"

definition assertStateTransitionPayloadValid :: "store_env \<Rightarrow> string \<Rightarrow> json \<Rightarrow> unit res" where
  "assertStateTransitionPayloadValid env payloadKind payload =
     (if payloadKind = ''state.file_mutation_applied'' then Inr ()
      else
        case (if is_plain_object payload then string_opt (jget payload ''outputStateHash'') else None) of
          Some h \<Rightarrow> if h \<noteq> [] \<and> sx_stateExists env h then Inr () else Inl (StoreError ''outputStateHash'')
        | None \<Rightarrow> Inl (StoreError ''outputStateHash''))"

definition checkedEvent :: "store_env \<Rightarrow> json \<Rightarrow> json res" where
  "checkedEvent env event =
     bind_res (sx_parseEvent env event) (\<lambda>parsed.
       let sanitized = sanitizeAgenticEventParticipantRefs parsed in
       if sx_valuesEncoded env sanitized then Inr sanitized else Inl (StoreError ''stored values''))"

definition preparePayload :: "store_env \<Rightarrow> string \<Rightarrow> append_event \<Rightarrow> string \<Rightarrow> json res" where
  "preparePayload env logKind input appendedAt =
     (let kind = ae_payloadKind input; payload = ae_payload input; causality = undefined_if_nullish (ae_causality input) in
      if logKind \<in> set AGENTIC_LOG_KINDS \<and> isStoredEventKind kind then
        bind_res (checkedEvent env (agenticEvent kind (ae_actor input) causality payload appendedAt)) (\<lambda>sanitized.
          let payload' = sanitizeRosterSnapshotPayload (jget sanitized ''payload'') in
          if kind \<in> set STATE_TRANSITION_KINDS
          then bind_res (assertStateTransitionPayloadValid env kind payload') (\<lambda>_. Inr payload')
          else Inr payload')
      else if kind = AGENTIC_EVENT_KIND then
        (if \<not> isAgenticEventPayload payload then Inl (StoreError ''agentic channel payload'')
         else bind_res (checkedEvent env payload) (\<lambda>sanitized.
           Inr (with_prop sanitized ''payload'' (sanitizeRosterSnapshotPayload (jget sanitized ''payload'')))))
      else Inr payload)"

definition prepareAnnotations :: "json \<Rightarrow> json" where
  "prepareAnnotations annotations =
     (let a = undefined_if_nullish annotations in
      if truthy a \<and> \<not> nullish (jget a ''metadata'')
      then with_prop a ''metadata''
             (case publicParticipantMetadata (jget a ''metadata'') of Some v \<Rightarrow> v | None \<Rightarrow> JUndefined)
      else a)"

definition prepareLogEvent :: "store_env \<Rightarrow> string \<Rightarrow> nat \<Rightarrow> append_event \<Rightarrow> prepared_event res" where
  "prepareLogEvent env logKind index input =
     (if ae_payloadKind input = [] then Inl (StoreError ''appendLogEvent requires payloadKind'')
      else
        let appendedAt = option_or (ae_appendedAt input) (sx_nowIso env) in
        bind_res (preparePayload env logKind input appendedAt) (\<lambda>payload.
          Inr \<lparr> si_envelopeId = option_or (ae_envelopeId input) (sx_randomUUID env index),
                si_actor = publicParticipantRef (ae_actor input), si_to = sanitizeAudience (ae_to input),
                si_payloadKind = ae_payloadKind input, si_payload = payload,
                si_annotations = prepareAnnotations (ae_annotations input),
                si_causality = undefined_if_nullish (ae_causality input), si_appendedAt = appendedAt,
                pe_appendedAtExplicit = (ae_appendedAt input \<noteq> None), pe_publish = ae_publish input \<rparr>))"

fun prepareAll :: "store_env \<Rightarrow> string \<Rightarrow> nat \<Rightarrow> append_event list \<Rightarrow> prepared_event list res" where
  "prepareAll env logKind index [] = Inr []"
| "prepareAll env logKind index (input # inputs) =
     bind_res (prepareLogEvent env logKind index input) (\<lambda>e.
       bind_res (prepareAll env logKind (Suc index) inputs) (\<lambda>es. Inr (e # es)))"

subsection \<open>Appending\<close>

record append_input =
  ap_logId :: string
  ap_head :: string
  ap_logKind :: string
  ap_owner :: json
  ap_expectedHeadHash :: "string option option"
  ap_idempotentById :: bool
  ap_events :: "append_event list"

type_synonym publication = "string \<times> string \<times> string"

record append_result =
  ar_headSeq :: int
  ar_headHash :: string
  ar_envelopes :: "stored_event list"
  ar_published :: "publication list"

definition computeEnvelopeHash :: "store_env \<Rightarrow> string \<Rightarrow> string \<Rightarrow> int \<Rightarrow> string \<Rightarrow> json \<Rightarrow> string" where
  "computeEnvelopeHash env lid hd' seq prevHash semantic =
     sx_sha256 env (logEnvelopeHashPreimage prevHash lid hd' seq semantic)"

text \<open>The longest already applied prefix of the batch, as it was stored.\<close>

fun replayPrefix :: "store \<Rightarrow> append_input \<Rightarrow> prepared_event list \<Rightarrow> stored_event list res" where
  "replayPrefix store input [] = Inr []"
| "replayPrefix store input (event # events) =
     (if logHeadRow store (ap_logId input) (ap_head input) = None then Inr []
      else
        bind_res (lineageEventRow store (ap_logId input) (ap_head input) (si_envelopeId event)) (\<lambda>existing.
          case existing of
            None \<Rightarrow> Inr []
          | Some stored \<Rightarrow>
              let incoming = logEnvelopeSemantic (event\<lparr>si_appendedAt :=
                    (if pe_appendedAtExplicit event then si_appendedAt event else si_appendedAt stored)\<rparr>)
              in if canonicalJson incoming \<noteq> canonicalJson (logEnvelopeSemantic stored) \<and> \<not> ap_idempotentById input
                 then Inl (GadAppendError IdCollision)
                 else bind_res (replayPrefix store input events) (\<lambda>rest. Inr (stored # rest))))"

text \<open>No event after the prefix may be stored already.\<close>

fun checkSuffixNew :: "store \<Rightarrow> append_input \<Rightarrow> prepared_event list \<Rightarrow> unit res" where
  "checkSuffixNew store input [] = Inr ()"
| "checkSuffixNew store input (event # events) =
     (if logHeadRow store (ap_logId input) (ap_head input) = None then Inr ()
      else
        bind_res (lineageEventRow store (ap_logId input) (ap_head input) (si_envelopeId event)) (\<lambda>existing.
          if existing \<noteq> None then Inl (GadAppendError ReplayMismatch) else checkSuffixNew store input events))"

definition publicationsForOrigin :: "store \<Rightarrow> string \<Rightarrow> string \<Rightarrow> string \<Rightarrow> publication list" where
  "publicationsForOrigin store lid hd' eid =
     map (\<lambda>event. (eid, ev_logId event, si_envelopeId event))
       (sort_key (\<lambda>event. (ev_logId event, ev_seq event))
         (filter (\<lambda>event. jget (si_causality event) ''originLogId'' = JStr lid \<and>
                   jget (si_causality event) ''originHead'' = JStr hd' \<and>
                   jget (si_causality event) ''originEnvelopeId'' = JStr eid) (st_events store)))"

definition opens_turn :: "json \<Rightarrow> stored_event \<Rightarrow> bool" where
  "opens_turn turnId event \<longleftrightarrow> si_payloadKind event = ''turn.opened'' \<and> jget (si_causality event) ''turnId'' = turnId"

definition assertTurnNotOpened ::
  "store \<Rightarrow> string \<Rightarrow> string \<Rightarrow> json \<Rightarrow> stored_event list \<Rightarrow> unit res" where
  "assertTurnNotOpened store lid hd' turnId pendingBatch =
     (if \<exists>event \<in> set pendingBatch. opens_turn turnId event then Inl (StoreError ''duplicate turn.opened'')
      else
        bind_res (logLineage store lid hd') (\<lambda>segments.
          if find_in_segments store (opens_turn turnId) segments \<noteq> None
          then Inl (StoreError ''duplicate turn.opened'') else Inr ()))"

text \<open>The insert, with the constraints of the table: primary key, unique envelope id per head, unique hash.\<close>

definition insertLogEvent :: "store \<Rightarrow> stored_event \<Rightarrow> store res" where
  "insertLogEvent store envelope =
     (if \<exists>event \<in> set (st_events store).
           (ev_key event = ev_key envelope \<and>
              (ev_seq event = ev_seq envelope \<or> si_envelopeId event = si_envelopeId envelope)) \<or>
           ev_hash event = ev_hash envelope
      then Inl (ConstraintError ''log_events'')
      else Inr (store\<lparr>st_events := st_events store @ [envelope]\<rparr>))"

definition newHeadRow :: "append_input \<Rightarrow> log_head_row" where
  "newHeadRow input =
     \<lparr> lh_logId = ap_logId input, lh_head = ap_head input, lh_logKind = ap_logKind input, lh_owner = ap_owner input,
       lh_parentLogId = None, lh_parentHead = None, lh_forkSeq = None, lh_forkHash = None,
       lh_currentSeq = 0, lh_currentHash = GENESIS_EVENT_HASH, lh_currentEnvelopeId = None \<rparr>"

definition ensureHead :: "store \<Rightarrow> append_input \<Rightarrow> store" where
  "ensureHead store input =
     (if logHeadRow store (ap_logId input) (ap_head input) = None
      then store\<lparr>st_heads := st_heads store @ [newHeadRow input]\<rparr> else store)"

definition mkEnvelope :: "store_env \<Rightarrow> string \<Rightarrow> string \<Rightarrow> int \<Rightarrow> string \<Rightarrow> prepared_event \<Rightarrow> stored_event" where
  "mkEnvelope env lid hd' seq prevHash event =
     \<lparr> si_envelopeId = si_envelopeId event, si_actor = si_actor event, si_to = si_to event,
       si_payloadKind = si_payloadKind event, si_payload = si_payload event,
       si_annotations = si_annotations event, si_causality = si_causality event,
       si_appendedAt = si_appendedAt event, ev_logId = lid, ev_head = hd', ev_seq = seq,
       ev_prevHash = prevHash,
       ev_hash = computeEnvelopeHash env lid hd' seq prevHash (logEnvelopeSemantic event) \<rparr>"

definition publicationId :: "prepared_event \<Rightarrow> string \<Rightarrow> string" where
  "publicationId event chan = ''pub:'' @ si_envelopeId event @ '':'' @ chan"

type_synonym publisher = "store \<Rightarrow> stored_event \<Rightarrow> string \<times> json \<Rightarrow> store res"

text \<open>The new events, one after the other; \<open>publish\<close> appends a publication to its channel.\<close>

fun appendEvents ::
  "store_env \<Rightarrow> publisher \<Rightarrow> string \<Rightarrow> string \<Rightarrow> string \<Rightarrow> store \<Rightarrow> int \<Rightarrow> string \<Rightarrow> stored_event list \<Rightarrow>
   prepared_event list \<Rightarrow> (store \<times> stored_event list) res" where
  "appendEvents env publish logKind lid hd' store seq prevHash appended [] = Inr (store, appended)"
| "appendEvents env publish logKind lid hd' store seq prevHash appended (event # events) =
     bind_res
       (if logKind \<in> set AGENTIC_LOG_KINDS \<and> si_payloadKind event = ''turn.opened'' \<and>
           truthy (jget (si_causality event) ''turnId'')
        then assertTurnNotOpened store lid hd' (jget (si_causality event) ''turnId'') appended else Inr ()) (\<lambda>_.
     let envelope = mkEnvelope env lid hd' (seq + 1) prevHash event in
     bind_res (insertLogEvent store envelope) (\<lambda>inserted.
     if \<not> sx_project env logKind envelope then Inl (StoreError ''projection'')
     else
       bind_res (fold_res (\<lambda>st target. publish st envelope target) inserted (pe_publish event)) (\<lambda>published.
         appendEvents env publish logKind lid hd' published (seq + 1) (ev_hash envelope)
           (appended @ [envelope]) events)))"

definition moveHead :: "store \<Rightarrow> string \<Rightarrow> string \<Rightarrow> stored_event \<Rightarrow> store" where
  "moveHead store lid hd' event =
     store\<lparr>st_heads := map (\<lambda>row. if lh_key row = (lid, hd')
        then row\<lparr>lh_currentSeq := ev_seq event, lh_currentHash := ev_hash event,
                  lh_currentEnvelopeId := Some (si_envelopeId event)\<rparr>
        else row) (st_heads store)\<rparr>"

definition appendWith :: "store_env \<Rightarrow> publisher \<Rightarrow> store \<Rightarrow> append_input \<Rightarrow> (store \<times> append_result) res" where
  "appendWith env publish store input =
     (let lid = ap_logId input; hd' = ap_head input; existingHead = logHeadRow store lid hd' in
      if lid = [] then Inl (StoreError ''appendLogEvent requires logId'')
      else if hd' = [] then Inl (StoreError ''appendLogEvent requires head'')
      else if ap_events input = [] then Inl (StoreError ''appendLogEvent requires at least one event'')
      else if (case existingHead of Some row \<Rightarrow> lh_logKind row \<noteq> ap_logKind input | None \<Rightarrow> False)
      then Inl (StoreError ''log kind mismatch'')
      else
        bind_res (prepareAll env (ap_logKind input) 0 (ap_events input)) (\<lambda>prepared.
        bind_res (replayPrefix store input prepared) (\<lambda>replayed.
        let remaining = drop (length replayed) prepared in
        bind_res (checkSuffixNew store input remaining) (\<lambda>_.
        let headed = ensureHead store input; pointer = headPointer headed lid hd'; hash = fst (snd pointer) in
        if replayed = [] \<and> (case ap_expectedHeadHash input of
             Some expected \<Rightarrow> option_or expected GENESIS_EVENT_HASH \<noteq> hash | None \<Rightarrow> False)
        then Inl (GadAppendError HeadConflict)
        else if remaining \<noteq> [] \<and> replayed \<noteq> [] \<and> ev_hash (last replayed) \<noteq> hash
        then Inl (GadAppendError ReplayMismatch)
        else
          bind_res (appendEvents env publish (ap_logKind input) lid hd' headed (fst pointer) hash [] remaining)
            (\<lambda>(stored, appended).
            let moved = (if appended \<noteq> [] then moveHead stored lid hd' (last appended) else stored);
                final = headPointer moved lid hd'
            in Inr (moved,
                 \<lparr> ar_headSeq = fst final, ar_headHash = fst (snd final), ar_envelopes = replayed @ appended,
                   ar_published =
                     concat (map (\<lambda>envelope. publicationsForOrigin headed lid hd' (si_envelopeId envelope)) replayed)
                     @ concat (map (\<lambda>event. map (\<lambda>target.
                         (si_envelopeId event, fst target, publicationId event (fst target))) (pe_publish event)) remaining) \<rparr>))))))"

text \<open>A publication carries no publication targets of its own, so the publisher of the channel append is
  never called.\<close>

definition publicationInput :: "stored_event \<Rightarrow> string \<times> json \<Rightarrow> append_input" where
  "publicationInput envelope target =
     \<lparr> ap_logId = fst target, ap_head = CHANNEL_LOG_HEAD, ap_logKind = ''channel'', ap_owner = JNull,
       ap_expectedHeadHash = None, ap_idempotentById = False,
       ap_events =
         [\<lparr> ae_envelopeId = Some (''pub:'' @ si_envelopeId envelope @ '':'' @ fst target),
            ae_actor = si_actor envelope, ae_to = coalesce (snd target) JNull,
            ae_payloadKind = AGENTIC_EVENT_KIND, ae_payload = agenticEventFromEnvelope envelope,
            ae_causality = JObj [(''originLogId'', JStr (ev_logId envelope)), (''originHead'', JStr (ev_head envelope)),
              (''originEnvelopeId'', JStr (si_envelopeId envelope))],
            ae_annotations = JUndefined, ae_appendedAt = Some (si_appendedAt envelope), ae_publish = [] \<rparr>] \<rparr>"

definition publishToChannel :: "store_env \<Rightarrow> publisher" where
  "publishToChannel env store envelope target =
     bind_res (appendWith env (\<lambda>st _ _. Inr st) store (publicationInput envelope target)) (\<lambda>(store', _). Inr store')"

definition appendLogEvent :: "store_env \<Rightarrow> store \<Rightarrow> append_input \<Rightarrow> (store \<times> append_result) res" where
  "appendLogEvent env store input = appendWith env (publishToChannel env) store input"

subsection \<open>Forking\<close>

record fork_input =
  fk_fromLogId :: string
  fk_fromHead :: string
  fk_toLogId :: string
  fk_toHead :: string
  fk_atSeq :: "int option"
  fk_owner :: json

record fork_result =
  fr_forkSeq :: int
  fr_forkHash :: string
  fr_inherited :: nat

text \<open>The hash and envelope at the fork position.\<close>

definition forkPoint :: "store \<Rightarrow> fork_input \<Rightarrow> int \<Rightarrow> (string \<times> string option) res" where
  "forkPoint store input seq =
     (if 0 < seq then
        bind_res (lineageEventBySeq store (fk_fromLogId input) (fk_fromHead input) seq) (\<lambda>found.
          case found of
            None \<Rightarrow> Inl (StoreError ''forkLog atSeq not found in source lineage'')
          | Some event \<Rightarrow> Inr (ev_hash event, Some (si_envelopeId event)))
      else Inr (GENESIS_EVENT_HASH, None))"

definition forkRow :: "fork_input \<Rightarrow> log_head_row \<Rightarrow> int \<Rightarrow> string \<Rightarrow> string option \<Rightarrow> log_head_row" where
  "forkRow input source seq hash eid =
     \<lparr> lh_logId = fk_toLogId input, lh_head = fk_toHead input, lh_logKind = lh_logKind source,
       lh_owner = coalesce (fk_owner input) (lh_owner source),
       lh_parentLogId = Some (fk_fromLogId input), lh_parentHead = Some (fk_fromHead input),
       lh_forkSeq = Some seq, lh_forkHash = Some hash, lh_currentSeq = seq, lh_currentHash = hash,
       lh_currentEnvelopeId = eid \<rparr>"

definition read_everything :: read_input where
  "read_everything = \<lparr> ri_afterSeq = None, ri_beforeSeq = None, ri_limit = Some 0, ri_payloadKind = None \<rparr>"

definition forkLog :: "store_env \<Rightarrow> store \<Rightarrow> fork_input \<Rightarrow> (store \<times> fork_result) res" where
  "forkLog env store input =
     (if fk_fromLogId input = [] \<or> fk_fromHead input = [] then Inl (StoreError ''forkLog requires a source'')
      else if fk_toLogId input = [] \<or> fk_toHead input = [] then Inl (StoreError ''forkLog requires a target'')
      else if fk_fromLogId input = fk_toLogId input \<and> fk_fromHead input = fk_toHead input
      then Inl (StoreError ''forkLog requires distinct source and target'')
      else
        case logHeadRow store (fk_fromLogId input) (fk_fromHead input) of
          None \<Rightarrow> Inl (StoreError ''forkLog source does not exist'')
        | Some source \<Rightarrow>
            let seq = option_or (fk_atSeq input) (lh_currentSeq source) in
            if lh_currentSeq source < seq then Inl (StoreError ''forkLog atSeq is beyond the source head'')
            else
              bind_res (forkPoint store input seq) (\<lambda>(hash, eid).
                case logHeadRow store (fk_toLogId input) (fk_toHead input) of
                  Some existing \<Rightarrow>
                    if lh_parentLogId existing \<noteq> Some (fk_fromLogId input) \<or>
                       lh_parentHead existing \<noteq> Some (fk_fromHead input) \<or>
                       option_or (lh_forkSeq existing) 0 \<noteq> seq \<or> lh_forkHash existing \<noteq> Some hash
                    then Inl (StoreError ''target log already exists with different fork lineage'')
                    else
                      bind_res (lineageEventCountThrough store (fk_toLogId input) (fk_toHead input) seq) (\<lambda>inherited.
                        Inr (store, \<lparr> fr_forkSeq = seq, fr_forkHash = hash, fr_inherited = inherited \<rparr>))
                | None \<Rightarrow>
                    let forked = store\<lparr>st_heads := st_heads store @ [forkRow input source seq hash eid]\<rparr> in
                    bind_res (readLog forked (fk_toLogId input) (fk_toHead input) read_everything) (\<lambda>inherited.
                      if \<forall>event \<in> set inherited. sx_project env (lh_logKind source)
                           (event\<lparr>ev_logId := fk_toLogId input, ev_head := fk_toHead input\<rparr>)
                      then Inr (forked, \<lparr> fr_forkSeq = seq, fr_forkHash = hash, fr_inherited = length inherited \<rparr>)
                      else Inl (StoreError ''projection''))))"

subsection \<open>Integrity\<close>

datatype integrity_error =
    SeqGap string string
  | PrevHashUnlinked string string
  | HashMismatch string string
  | HeadPointerDisagrees string string

text \<open>\<open>startSeq\<close> and \<open>startHash\<close> of a head.\<close>

definition chainStart :: "log_head_row \<Rightarrow> int \<times> string" where
  "chainStart row = (option_or (lh_forkSeq row) 0, option_or (lh_forkHash row) GENESIS_EVENT_HASH)"

fun checkRows :: "store_env \<Rightarrow> int \<Rightarrow> string \<Rightarrow> stored_event list \<Rightarrow> integrity_error list" where
  "checkRows env expectedSeq prevHash [] = []"
| "checkRows env expectedSeq prevHash (envelope # rows) =
     (if ev_seq envelope \<noteq> expectedSeq + 1 then [SeqGap (ev_logId envelope) (ev_head envelope)] else [])
     @ (if ev_prevHash envelope \<noteq> prevHash then [PrevHashUnlinked (ev_logId envelope) (ev_head envelope)] else [])
     @ (if computeEnvelopeHash env (ev_logId envelope) (ev_head envelope) (ev_seq envelope) (ev_prevHash envelope)
             (logEnvelopeSemantic envelope) \<noteq> ev_hash envelope
        then [HashMismatch (ev_logId envelope) (ev_head envelope)] else [])
     @ checkRows env (ev_seq envelope) (ev_hash envelope) rows"

definition own_rows :: "store \<Rightarrow> string \<times> string \<Rightarrow> stored_event list" where
  "own_rows store key = filter (\<lambda>event. ev_key event = key) (st_events store)"

definition checkHead :: "store_env \<Rightarrow> store \<Rightarrow> log_head_row \<Rightarrow> integrity_error list" where
  "checkHead env store row =
     (let rows = sort_key ev_seq (own_rows store (lh_key row)); (startSeq, startHash) = chainStart row;
          lastSeq = (if rows \<noteq> [] then ev_seq (last rows) else startSeq);
          lastHash = (if rows \<noteq> [] then ev_hash (last rows) else startHash)
      in checkRows env startSeq startHash rows
         @ (if lh_currentSeq row \<noteq> lastSeq \<or> lh_currentHash row \<noteq> lastHash
            then [HeadPointerDisagrees (lh_logId row) (lh_head row)] else []))"

text \<open>The errors of the selected heads; \<open>ok\<close> is that there are none.\<close>

definition checkLogIntegrity ::
  "store_env \<Rightarrow> store \<Rightarrow> string option \<Rightarrow> string option \<Rightarrow> integrity_error list" where
  "checkLogIntegrity env store lid hd' =
     concat (map (checkHead env store)
       (sort_key lh_key
         (filter (\<lambda>row. (case lid of Some l \<Rightarrow> l = [] \<or> lh_logId row = l | None \<Rightarrow> True) \<and>
                     (case hd' of Some h \<Rightarrow> h = [] \<or> lh_head row = h | None \<Rightarrow> True)) (st_heads store))))"

subsection \<open>Retiring and archiving a head\<close>

definition deleteLogHead :: "store \<Rightarrow> string \<Rightarrow> string \<Rightarrow> store \<times> bool" where
  "deleteLogHead store lid hd' =
     (\<lparr> st_heads = filter (\<lambda>row. lh_key row \<noteq> (lid, hd')) (st_heads store),
        st_events = filter (\<lambda>event. ev_key event \<noteq> (lid, hd')) (st_events store),
        st_worktreeHeads = filter (\<lambda>w. fst w \<noteq> (lid, hd')) (st_worktreeHeads store) \<rparr>,
      logHeadRow store lid hd' \<noteq> None)"

definition resolveWorktreeHead :: "store \<Rightarrow> string \<Rightarrow> string \<Rightarrow> string option" where
  "resolveWorktreeHead store lid hd' = map_of (st_worktreeHeads store) (lid, hd')"

text \<open>\<open>UPDATE ... SET head = ? WHERE log_id = ? AND head = ?\<close> on the three tables, whose keys must stay
  unique.\<close>

definition rekeyed :: "store \<Rightarrow> string \<Rightarrow> string \<Rightarrow> string \<Rightarrow> store" where
  "rekeyed store lid from to =
     \<lparr> st_heads = map (\<lambda>row. if lh_key row = (lid, from) then row\<lparr>lh_head := to\<rparr> else row) (st_heads store),
       st_events = map (\<lambda>event. if ev_key event = (lid, from) then event\<lparr>ev_head := to\<rparr> else event) (st_events store),
       st_worktreeHeads = map (\<lambda>w. if fst w = (lid, from) then ((lid, to), snd w) else w) (st_worktreeHeads store) \<rparr>"

definition rekeyHead :: "store \<Rightarrow> string \<Rightarrow> string \<Rightarrow> string \<Rightarrow> store res" where
  "rekeyHead store lid from to =
     (let moved = rekeyed store lid from to in
      if distinct (map lh_key (st_heads moved)) \<and> distinct (map (\<lambda>e. (ev_key e, ev_seq e)) (st_events moved)) \<and>
         distinct (map (\<lambda>e. (ev_key e, si_envelopeId e)) (st_events moved))
      then Inr moved else Inl (ConstraintError ''log_heads''))"

record archive_result =
  ax_moved :: bool
  ax_stateHash :: "string option"
  ax_headHash :: "string option"

definition archiveRepoMain :: "store \<Rightarrow> string \<Rightarrow> string \<Rightarrow> (store \<times> archive_result) res" where
  "archiveRepoMain store lid archiveHead =
     (if archiveHead = [] \<or> archiveHead = ''main'' then Inl (StoreError ''archiveRepoMain: invalid archive head'')
      else
        case resolveWorktreeHead store lid ''main'' of
          None \<Rightarrow> Inr (store, \<lparr> ax_moved = False, ax_stateHash = None, ax_headHash = None \<rparr>)
        | Some stateHash \<Rightarrow>
            if logHeadRow store lid archiveHead \<noteq> None \<or> resolveWorktreeHead store lid archiveHead \<noteq> None
            then Inl (StoreError ''archiveRepoMain: archive head already exists'')
            else
              let (seq, hash, eid) = headPointer store lid ''main'' in
              bind_res (rekeyHead store lid ''main'' archiveHead) (\<lambda>moved.
                Inr (moved, \<lparr> ax_moved = True, ax_stateHash = Some stateHash, ax_headHash = Some hash \<rparr>)))"

definition restoreRepoMain :: "store \<Rightarrow> string \<Rightarrow> string \<Rightarrow> (store \<times> archive_result) res" where
  "restoreRepoMain store lid archiveHead =
     (if archiveHead = [] \<or> archiveHead = ''main'' then Inl (StoreError ''restoreRepoMain: invalid archive head'')
      else if resolveWorktreeHead store lid ''main'' \<noteq> None then Inl (StoreError ''restoreRepoMain: live main'')
      else
        case resolveWorktreeHead store lid archiveHead of
          None \<Rightarrow> Inr (store, \<lparr> ax_moved = False, ax_stateHash = None, ax_headHash = None \<rparr>)
        | Some stateHash \<Rightarrow>
            let (seq, hash, eid) = headPointer store lid archiveHead in
            bind_res (rekeyHead store lid archiveHead ''main'') (\<lambda>moved.
              Inr (moved, \<lparr> ax_moved = True, ax_stateHash = Some stateHash, ax_headHash = Some hash \<rparr>)))"

end
