(* ===== verification/LogChain.thy ===== *)
theory LogChain
  imports LogStore
begin

text \<open>
  The integrity of the log store: appending and forking keep every log a hash chain that its head row ends,
  so \<open>checkLogIntegrity\<close> finds nothing to report. The append of a batch publishes into channel logs in the
  middle of its own transaction; the locale \<open>framed_publisher\<close> states what such a nested append may do, and
  both appends the code makes (the one of a batch and the one of a publication) are instances of it.

  Also here: two envelopes in different places never share a hash preimage, and what archiving a repository
  does to its chain.
\<close>

declare split_paired_All [simp del]

subsection \<open>Hash chains\<close>

definition hash_ok :: "(string \<Rightarrow> string) \<Rightarrow> stored_event \<Rightarrow> bool" where
  "hash_ok sha event \<longleftrightarrow>
     ev_hash event = sha (logEnvelopeHashPreimage (ev_prevHash event) (ev_logId event) (ev_head event)
       (ev_seq event) (logEnvelopeSemantic event))"

fun chain :: "(string \<Rightarrow> string) \<Rightarrow> int \<Rightarrow> string \<Rightarrow> stored_event list \<Rightarrow> bool" where
  "chain sha seq prev [] = True"
| "chain sha seq prev (event # events) =
     (ev_seq event = seq + 1 \<and> ev_prevHash event = prev \<and> hash_ok sha event \<and>
      chain sha (seq + 1) (ev_hash event) events)"

definition chain_end :: "int \<Rightarrow> string \<Rightarrow> stored_event list \<Rightarrow> int \<times> string" where
  "chain_end seq prev events = (if events = [] then (seq, prev) else (ev_seq (last events), ev_hash (last events)))"

lemma chain_end_simps [simp]:
  "chain_end seq prev [] = (seq, prev)"
  "chain_end seq prev (events @ [event]) = (ev_seq event, ev_hash event)"
  by (simp_all add: chain_end_def)

lemma chain_end_Cons: "chain sha seq prev (event # events) \<Longrightarrow>
  chain_end seq prev (event # events) = chain_end (seq + 1) (ev_hash event) events"
  by (simp add: chain_end_def)

lemma chain_end_seq: "chain sha seq prev events \<Longrightarrow> fst (chain_end seq prev events) = seq + int (length events)"
proof (induction events arbitrary: seq prev)
  case (Cons event events)
  then show ?case using chain_end_Cons [OF Cons.prems] by simp
qed simp

lemma chain_append:
  "chain sha seq prev (xs @ ys) \<longleftrightarrow>
     chain sha seq prev xs \<and> chain sha (fst (chain_end seq prev xs)) (snd (chain_end seq prev xs)) ys"
proof (induction xs arbitrary: seq prev)
  case (Cons x xs)
  show ?case
  proof (cases "chain sha seq prev (x # xs)")
    case True
    then show ?thesis using chain_end_Cons [OF True] Cons.IH by auto
  next
    case False
    then show ?thesis using Cons.IH by auto
  qed
qed simp

lemma chain_snoc:
  "chain sha seq prev (events @ [event]) \<longleftrightarrow>
     chain sha seq prev events \<and> ev_seq event = fst (chain_end seq prev events) + 1 \<and>
     ev_prevHash event = snd (chain_end seq prev events) \<and> hash_ok sha event"
  by (auto simp: chain_append)

lemma chain_end_append:
  "chain_end seq prev (xs @ ys) =
     chain_end (fst (chain_end seq prev xs)) (snd (chain_end seq prev xs)) ys"
  by (simp add: chain_end_def)

lemma chain_seqs: "chain sha seq prev events \<Longrightarrow> map ev_seq events = map (\<lambda>i. seq + 1 + int i) [0..<length events]"
proof (induction events rule: rev_induct)
  case (snoc event events)
  then show ?case using chain_end_seq [of sha seq prev events] by (simp add: chain_snoc)
qed simp

lemma chain_seq_bounds:
  "chain sha seq prev events \<Longrightarrow> event \<in> set events \<Longrightarrow> seq < ev_seq event \<and> ev_seq event \<le> fst (chain_end seq prev events)"
proof -
  assume c: "chain sha seq prev events" and "event \<in> set events"
  then have "ev_seq event \<in> set (map (\<lambda>i. seq + 1 + int i) [0..<length events])"
    using chain_seqs [OF c] by (metis image_eqI set_map)
  then show ?thesis using chain_end_seq [OF c] by auto
qed

lemma chain_has_seq:
  "chain sha seq prev events \<Longrightarrow> seq < n \<Longrightarrow> n \<le> fst (chain_end seq prev events) \<Longrightarrow> \<exists>event \<in> set events. ev_seq event = n"
proof -
  assume c: "chain sha seq prev events" and n: "seq < n" "n \<le> fst (chain_end seq prev events)"
  then have "n \<in> set (map (\<lambda>i. seq + 1 + int i) [0..<length events])"
    using chain_end_seq [OF c] by (auto simp: image_iff intro!: bexI [of _ "nat (n - seq - 1)"])
  then show ?thesis unfolding chain_seqs [OF c, symmetric] by auto
qed

lemma chain_sorted: "chain sha seq prev events \<Longrightarrow> sorted (map ev_seq events)"
  by (simp add: chain_seqs sorted_iff_nth_mono)

lemma sort_key_sorted: "sorted (map f xs) \<Longrightarrow> sort_key f xs = xs"
  by (induction xs) (auto simp: insort_is_Cons)

lemma chain_select: "chain sha seq prev events \<Longrightarrow> sort_key ev_seq (filter P events) = filter P events"
  by (rule sort_key_sorted) (meson chain_sorted sorted_filter)

lemma checkRows_chain: 
  "chain (sx_sha256 env) seq prev events \<Longrightarrow> checkRows env seq prev events = []"
  by (induction events arbitrary: seq prev) (auto simp: hash_ok_def computeEnvelopeHash_def)

subsection \<open>The invariant of the tables\<close>

definition head_chain :: "(string \<Rightarrow> string) \<Rightarrow> log_head_row \<Rightarrow> stored_event list \<Rightarrow> bool" where
  "head_chain sha row rows \<longleftrightarrow> chain sha (fst (chainStart row)) (snd (chainStart row)) rows"

definition head_end :: "log_head_row \<Rightarrow> stored_event list \<Rightarrow> int \<times> string" where
  "head_end row rows = chain_end (fst (chainStart row)) (snd (chainStart row)) rows"

definition head_at :: "store \<Rightarrow> string \<times> string \<Rightarrow> log_head_row option" where
  "head_at store key = logHeadRow store (fst key) (snd key)"

definition log_ok :: "(string \<Rightarrow> string) \<Rightarrow> store \<Rightarrow> string \<times> string \<Rightarrow> bool" where
  "log_ok sha store key \<longleftrightarrow>
     (case head_at store key of
        None \<Rightarrow> own_rows store key = []
      | Some row \<Rightarrow> head_chain sha row (own_rows store key) \<and>
          (lh_currentSeq row, lh_currentHash row) = head_end row (own_rows store key))"

definition distinct_heads :: "store \<Rightarrow> bool" where
  "distinct_heads store \<longleftrightarrow> distinct (map lh_key (st_heads store))"

definition store_ok :: "(string \<Rightarrow> string) \<Rightarrow> store \<Rightarrow> bool" where
  "store_ok sha store \<longleftrightarrow> distinct_heads store \<and> (\<forall>key. log_ok sha store key)"

lemma store_okD: "store_ok sha store \<Longrightarrow> log_ok sha store key"
  by (simp add: store_ok_def)

lemma log_ok_None: "log_ok sha store key \<Longrightarrow> head_at store key = None \<Longrightarrow> own_rows store key = []"
  by (simp add: log_ok_def)

definition same_log :: "store \<Rightarrow> store \<Rightarrow> string \<times> string \<Rightarrow> bool" where
  "same_log store store' key \<longleftrightarrow> own_rows store' key = own_rows store key \<and> head_at store' key = head_at store key"

lemma same_log_refl [simp]: "same_log store store key"
  by (simp add: same_log_def)

lemma same_log_trans: "same_log a b key \<Longrightarrow> same_log b c key \<Longrightarrow> same_log a c key"
  by (simp add: same_log_def)

lemma log_ok_same: "same_log store store' key \<Longrightarrow> log_ok sha store' key \<longleftrightarrow> log_ok sha store key"
  by (auto simp: same_log_def log_ok_def split: option.split)

lemma head_at_Some: "head_at store key = Some row \<Longrightarrow> row \<in> set (st_heads store) \<and> lh_key row = key"
  using logHeadRow_Some [of store "fst key" "snd key" row] by (simp add: head_at_def)

lemma head_at_None: "head_at store key = None \<longleftrightarrow> key \<notin> lh_key ` set (st_heads store)"
  by (auto simp: head_at_def logHeadRow_def find_None_iff image_iff)

lemma head_at_row: "distinct_heads store \<Longrightarrow> row \<in> set (st_heads store) \<Longrightarrow> head_at store (lh_key row) = Some row"
proof -
  have "distinct (map lh_key rows) \<Longrightarrow> row \<in> set rows \<Longrightarrow> find (\<lambda>r. lh_key r = lh_key row) rows = Some row" for rows
    by (induction rows) (auto simp: image_iff)
  then show "distinct_heads store \<Longrightarrow> row \<in> set (st_heads store) \<Longrightarrow> ?thesis"
    by (simp add: distinct_heads_def head_at_def logHeadRow_def)
qed

lemma checkHead_ok: "log_ok (sx_sha256 env) store (lh_key row) \<Longrightarrow> head_at store (lh_key row) = Some row \<Longrightarrow> checkHead env store row = []"
proof -
  assume ok: "log_ok (sx_sha256 env) store (lh_key row)" and row: "head_at store (lh_key row) = Some row"
  define rows where "rows = own_rows store (lh_key row)"
  obtain s p where start: "chainStart row = (s, p)" by (cases "chainStart row")
  from ok row have c: "chain (sx_sha256 env) s p rows"
    and e: "(lh_currentSeq row, lh_currentHash row) = chain_end s p rows"
    by (auto simp: log_ok_def head_chain_def head_end_def start rows_def)
  have "sort_key ev_seq rows = rows" using c chain_sorted sort_key_sorted by blast
  with c e show ?thesis
    by (simp add: checkHead_def rows_def [symmetric] start checkRows_chain chain_end_def Let_def split: if_splits)
qed

lemma store_ok_integrity: "store_ok (sx_sha256 env) store \<Longrightarrow> checkLogIntegrity env store lid hd' = []"
  by (auto simp: checkLogIntegrity_def store_ok_def head_at_row intro!: checkHead_ok simp del: split_paired_All)

subsection \<open>One event, one head\<close>

lemma own_rows_insert:
  "insertLogEvent store envelope = Inr store' \<Longrightarrow>
     own_rows store' key = own_rows store key @ (if ev_key envelope = key then [envelope] else [])"
  by (auto simp: insertLogEvent_def own_rows_def split: if_splits)

lemma heads_insert: "insertLogEvent store envelope = Inr store' \<Longrightarrow> st_heads store' = st_heads store"
  by (auto simp: insertLogEvent_def split: if_splits)

lemma same_heads: "st_heads store' = st_heads store \<Longrightarrow> head_at store' key = head_at store key"
  by (simp add: head_at_def logHeadRow_def)

lemma find_snoc: "find P (xs @ [x]) = (case find P xs of Some r \<Rightarrow> Some r | None \<Rightarrow> if P x then Some x else None)"
  by (induction xs) auto

lemma head_at_add:
  "head_at (store\<lparr>st_heads := st_heads store @ [row]\<rparr>) key =
     (case head_at store key of Some r \<Rightarrow> Some r | None \<Rightarrow> if lh_key row = key then Some row else None)"
  by (simp add: head_at_def logHeadRow_def find_snoc)

lemma own_rows_heads [simp]: "own_rows (store\<lparr>st_heads := rows\<rparr>) key = own_rows store key"
  by (simp add: own_rows_def)

lemma distinct_heads_add:
  "distinct_heads store \<Longrightarrow> head_at store (lh_key row) = None \<Longrightarrow> distinct_heads (store\<lparr>st_heads := st_heads store @ [row]\<rparr>)"
  by (auto simp: distinct_heads_def head_at_None)

definition advanced_row :: "stored_event \<Rightarrow> log_head_row \<Rightarrow> log_head_row" where
  "advanced_row event row = row\<lparr>lh_currentSeq := ev_seq event, lh_currentHash := ev_hash event,
     lh_currentEnvelopeId := Some (si_envelopeId event)\<rparr>"

lemma advanced_row_simps [simp]:
  "lh_key (advanced_row event row) = lh_key row" "chainStart (advanced_row event row) = chainStart row"
  "lh_currentSeq (advanced_row event row) = ev_seq event" "lh_currentHash (advanced_row event row) = ev_hash event"
  "parentOf (advanced_row event row) = parentOf row"
  by (simp_all add: advanced_row_def lh_key_def chainStart_def parentOf_def)

lemma moveHead_advanced:
  "moveHead store lid hd' event =
     store\<lparr>st_heads := map (\<lambda>row. if lh_key row = (lid, hd') then advanced_row event row else row) (st_heads store)\<rparr>"
  by (simp add: moveHead_def advanced_row_def)

lemma head_at_moveHead:
  "head_at (moveHead store lid hd' event) key =
     (if key = (lid, hd') then map_option (advanced_row event) (head_at store key) else head_at store key)"
proof -
  have "find (\<lambda>row. lh_key row = key) (map (\<lambda>row. if lh_key row = (lid, hd') then advanced_row event row else row) rows) =
      (if key = (lid, hd') then map_option (advanced_row event) (find (\<lambda>row. lh_key row = key) rows)
       else find (\<lambda>row. lh_key row = key) rows)" for rows
    by (induction rows) auto
  then show ?thesis by (simp add: head_at_def logHeadRow_def moveHead_advanced)
qed

lemma own_rows_moveHead [simp]: "own_rows (moveHead store lid hd' event) key = own_rows store key"
  by (simp add: moveHead_def own_rows_def)

lemma distinct_heads_moveHead [simp]: "distinct_heads (moveHead store lid hd' event) = distinct_heads store"
proof -
  have "map lh_key (map (\<lambda>row. if lh_key row = (lid, hd') then advanced_row event row else row) rows) = map lh_key rows" for rows
    by (induction rows) auto
  then show ?thesis by (simp add: distinct_heads_def moveHead_advanced del: map_map)
qed

lemma mkEnvelope_simps [simp]:
  "ev_key (mkEnvelope env lid hd' seq prev event) = (lid, hd')"
  "ev_seq (mkEnvelope env lid hd' seq prev event) = seq"
  "ev_prevHash (mkEnvelope env lid hd' seq prev event) = prev"
  "si_envelopeId (mkEnvelope env lid hd' seq prev event) = si_envelopeId event"
  "hash_ok (sx_sha256 env) (mkEnvelope env lid hd' seq prev event)"
  by (simp_all add: mkEnvelope_def ev_key_def hash_ok_def computeEnvelopeHash_def logEnvelopeSemantic_def)

text \<open>An event is stored with the content it was prepared with.\<close>

definition same_content :: "prepared_event \<Rightarrow> stored_event \<Rightarrow> bool" where
  "same_content event stored \<longleftrightarrow> semantic_input.truncate stored = semantic_input.truncate event"

lemma same_contentD:
  assumes "same_content event stored"
  shows "si_envelopeId stored = si_envelopeId event" "si_appendedAt stored = si_appendedAt event"
    "logEnvelopeSemantic stored = logEnvelopeSemantic event"
  using assms by (cases event; cases stored; simp add: same_content_def semantic_input.truncate_def logEnvelopeSemantic_def)+

lemma mkEnvelope_content: "same_content event (mkEnvelope env lid hd' seq prev event)"
  by (simp add: same_content_def mkEnvelope_def semantic_input.truncate_def)

lemma insert_new_id:
  "insertLogEvent store envelope = Inr store' \<Longrightarrow> si_envelopeId envelope \<notin> si_envelopeId ` set (own_rows store (ev_key envelope))"
  by (auto simp: insertLogEvent_def own_rows_def split: if_splits)

subsection \<open>Appending keeps the invariant\<close>

text \<open>The log holds an event beyond the position its head row still names: an append is under way.\<close>

definition under_way :: "store \<Rightarrow> string \<times> string \<Rightarrow> bool" where
  "under_way store key \<longleftrightarrow>
     (\<exists>row event. head_at store key = Some row \<and> event \<in> set (own_rows store key) \<and> ev_seq event = lh_currentSeq row + 1)"

definition others_ok :: "(string \<Rightarrow> string) \<Rightarrow> store \<Rightarrow> string \<times> string \<Rightarrow> bool" where
  "others_ok sha store key \<longleftrightarrow> distinct_heads store \<and> (\<forall>key'. key' \<noteq> key \<longrightarrow> log_ok sha store key')"

lemma others_ok_frame:
  "others_ok sha store key \<Longrightarrow> (\<And>key'. key' \<noteq> key \<Longrightarrow> same_log store store' key') \<Longrightarrow> distinct_heads store' \<Longrightarrow>
     others_ok sha store' key"
  unfolding others_ok_def using log_ok_same by metis

text \<open>The contract of a publisher: called in the middle of an append to one log, it leaves that log alone and
  keeps what is known (\<open>ok\<close>) of the others.\<close>

locale framed_publisher =
  fixes env :: store_env and publish :: publisher and ok :: "store \<Rightarrow> string \<times> string \<Rightarrow> bool"
  assumes ok_distinct: "ok store key \<Longrightarrow> distinct_heads store"
    and ok_frame: "ok store key \<Longrightarrow> (\<And>key'. key' \<noteq> key \<Longrightarrow> same_log store store' key') \<Longrightarrow>
       distinct_heads store' \<Longrightarrow> ok store' key"
    and publish_frame:
    "publish store envelope target = Inr store' \<Longrightarrow> ok store key \<Longrightarrow> under_way store key \<Longrightarrow>
       same_log store store' key \<and> ok store' key"
begin

lemma publish_all_frame:
  "fold_res (\<lambda>st target. publish st envelope target) store targets = Inr store' \<Longrightarrow>
     ok store key \<Longrightarrow> under_way store key \<Longrightarrow>
     same_log store store' key \<and> ok store' key"
proof (induction targets arbitrary: store)
  case (Cons target targets)
  then obtain st where st: "publish store envelope target = Inr st"
    and rest: "fold_res (\<lambda>st target. publish st envelope target) st targets = Inr store'"
    by auto
  from publish_frame [OF st Cons.prems(2,3)] have "same_log store st key" "ok st key" by auto
  moreover from this Cons.prems(3) have "under_way st key" by (simp add: under_way_def same_log_def)
  ultimately show ?case using Cons.IH [OF rest] same_log_trans by blast
qed simp

lemma appendEvents_chain:
  assumes "appendEvents env publish logKind lid hd' store seq prev appended events = Inr (store', appended')"
    and "ok store (lid, hd')" and "head_at store (lid, hd') = Some row"
    and "head_chain (sx_sha256 env) row (own_rows store (lid, hd'))"
    and "head_end row (own_rows store (lid, hd')) = (seq, prev)"
    and "fst (chainStart row) \<le> lh_currentSeq row" and "lh_currentSeq row \<le> seq"
  shows "ok store' (lid, hd') \<and> head_at store' (lid, hd') = Some row \<and>
     (\<exists>new. appended' = appended @ new \<and> own_rows store' (lid, hd') = own_rows store (lid, hd') @ new \<and>
        list_all2 same_content events new \<and> distinct (map si_envelopeId new) \<and>
        si_envelopeId ` set new \<inter> si_envelopeId ` set (own_rows store (lid, hd')) = {}) \<and>
     head_chain (sx_sha256 env) row (own_rows store' (lid, hd'))"
  using assms
proof (induction events arbitrary: store seq prev appended)
  case (Cons event events)
  define envelope where "envelope = mkEnvelope env lid hd' (seq + 1) prev event"
  from Cons.prems(1) obtain inserted published where
    ins: "insertLogEvent store envelope = Inr inserted"
    and pub: "fold_res (\<lambda>st target. publish st envelope target) inserted (pe_publish event) = Inr published"
    and rest: "appendEvents env publish logKind lid hd' published (seq + 1) (ev_hash envelope) (appended @ [envelope]) events
        = Inr (store', appended')"
    by (auto simp: envelope_def Let_def split: if_splits)
  have rows: "own_rows inserted (lid, hd') = own_rows store (lid, hd') @ [envelope]"
    using own_rows_insert [OF ins] by (simp add: envelope_def)
  have head: "head_at inserted key = head_at store key" for key
    by (rule same_heads [OF heads_insert [OF ins]])
  have others: "ok inserted (lid, hd')"
  proof -
    have "same_log store inserted key" if "key \<noteq> (lid, hd')" for key
      using own_rows_insert [OF ins, of key] head that by (simp add: same_log_def envelope_def)
    moreover have "distinct_heads inserted"
      using ok_distinct [OF Cons.prems(2)] heads_insert [OF ins] by (simp add: distinct_heads_def)
    ultimately show ?thesis by (rule ok_frame [OF Cons.prems(2)])
  qed
  have ch: "head_chain (sx_sha256 env) row (own_rows inserted (lid, hd'))"
    using Cons.prems(4,5) by (simp add: rows head_chain_def head_end_def chain_snoc envelope_def)
  have en: "head_end row (own_rows inserted (lid, hd')) = (seq + 1, ev_hash envelope)"
    by (simp add: rows head_end_def envelope_def)
  have "under_way inserted (lid, hd')"
  proof -
    have "\<exists>event \<in> set (own_rows inserted (lid, hd')). ev_seq event = lh_currentSeq row + 1"
      using chain_has_seq [OF ch [unfolded head_chain_def], of "lh_currentSeq row + 1"] en Cons.prems(6,7)
      by (simp add: head_end_def)
    then show ?thesis using Cons.prems(3) head by (auto simp: under_way_def)
  qed
  from publish_all_frame [OF pub others this]
  have frame: "same_log inserted published (lid, hd')" "ok published (lid, hd')" by auto
  have "head_at published (lid, hd') = Some row" "own_rows published (lid, hd') = own_rows inserted (lid, hd')"
    using frame(1) Cons.prems(3) head by (auto simp: same_log_def)
  with Cons.IH [OF rest frame(2)] ch en Cons.prems(6,7) obtain new where
    new: "appended' = appended @ envelope # new" "own_rows store' (lid, hd') = own_rows inserted (lid, hd') @ new"
      "list_all2 same_content events new" "distinct (map si_envelopeId new)"
      "si_envelopeId ` set new \<inter> si_envelopeId ` set (own_rows inserted (lid, hd')) = {}"
    and res: "ok store' (lid, hd')" "head_at store' (lid, hd') = Some row"
      "head_chain (sx_sha256 env) row (own_rows store' (lid, hd'))"
    by auto
  have "si_envelopeId envelope \<notin> si_envelopeId ` set (own_rows store (lid, hd'))"
    using insert_new_id [OF ins] by (simp add: envelope_def)
  then show ?case
    using new res rows mkEnvelope_content [of event env lid hd' "seq + 1" prev]
    by (intro conjI exI [of _ "envelope # new"]) (auto simp: envelope_def)
qed simp

end

lemma appendWithE:
  assumes "appendWith env publish store input = Inr (store', result)"
  obtains prepared replayed stored appended where
    "prepareAll env (ap_logKind input) 0 (ap_events input) = Inr prepared"
    "replayPrefix store input prepared = Inr replayed"
    "checkSuffixNew store input (drop (length replayed) prepared) = Inr ()"
    "appendEvents env publish (ap_logKind input) (ap_logId input) (ap_head input) (ensureHead store input)
       (fst (headPointer (ensureHead store input) (ap_logId input) (ap_head input)))
       (fst (snd (headPointer (ensureHead store input) (ap_logId input) (ap_head input)))) []
       (drop (length replayed) prepared) = Inr (stored, appended)"
    "store' = (if appended \<noteq> [] then moveHead stored (ap_logId input) (ap_head input) (last appended) else stored)"
    "ar_envelopes result = replayed @ appended"
    "ap_events input \<noteq> []"
    "replayed = [] \<longrightarrow> (\<forall>expected. ap_expectedHeadHash input = Some expected \<longrightarrow>
       option_or expected GENESIS_EVENT_HASH = fst (snd (headPointer (ensureHead store input) (ap_logId input) (ap_head input))))"
    "ap_logId input \<noteq> []" "ap_head input \<noteq> []"
    "case logHeadRow store (ap_logId input) (ap_head input) of Some row \<Rightarrow> lh_logKind row = ap_logKind input | None \<Rightarrow> True"
  using assms
  by (auto simp: appendWith_def Let_def split: if_splits prod.splits option.splits
      simp del: appendEvents.simps drop_eq_Nil intro!: that)

lemma ensureHead_head:
  "head_at (ensureHead store input) (ap_logId input, ap_head input) =
     Some (case head_at store (ap_logId input, ap_head input) of Some row \<Rightarrow> row | None \<Rightarrow> newHeadRow input)"
proof -
  have "logHeadRow store (ap_logId input) (ap_head input) = head_at store (ap_logId input, ap_head input)"
    by (simp add: head_at_def)
  then show ?thesis
    by (simp add: ensureHead_def head_at_add newHeadRow_def lh_key_def split: option.split)
qed

lemma ensureHead_same:
  "key \<noteq> (ap_logId input, ap_head input) \<Longrightarrow> same_log store (ensureHead store input) key"
  by (auto simp: ensureHead_def same_log_def head_at_add newHeadRow_def lh_key_def split: option.split)

lemma own_rows_ensureHead [simp]: "own_rows (ensureHead store input) key = own_rows store key"
  by (simp add: ensureHead_def)

lemma distinct_heads_ensureHead: "distinct_heads store \<Longrightarrow> distinct_heads (ensureHead store input)"
  using distinct_heads_add [of store "newHeadRow input"]
  by (simp add: ensureHead_def head_at_def newHeadRow_def lh_key_def)

lemma ensureHead_log_ok:
  "log_ok sha store (ap_logId input, ap_head input) \<Longrightarrow> log_ok sha (ensureHead store input) (ap_logId input, ap_head input)"
  using ensureHead_head [of store input]
  by (auto simp: log_ok_def head_chain_def head_end_def newHeadRow_def chainStart_def option_or_def split: option.splits)

lemma head_end_start: "head_chain sha row rows \<Longrightarrow> fst (chainStart row) \<le> fst (head_end row rows)"
  using chain_end_seq by (fastforce simp: head_chain_def head_end_def)

context framed_publisher
begin

lemma appendWith_run:
  assumes app: "appendWith env publish store input = Inr (store', result)"
    and others: "ok store (ap_logId input, ap_head input)"
    and log: "log_ok (sx_sha256 env) store (ap_logId input, ap_head input)"
  obtains row prepared replayed stored appended where
    "head_at (ensureHead store input) (ap_logId input, ap_head input) = Some row"
    "ap_logId input \<noteq> [] \<and> ap_head input \<noteq> [] \<and> lh_logKind row = ap_logKind input"
    "checkSuffixNew store input (drop (length replayed) prepared) = Inr ()"
    "prepareAll env (ap_logKind input) 0 (ap_events input) = Inr prepared" "ap_events input \<noteq> []"
    "replayPrefix store input prepared = Inr replayed" "ar_envelopes result = replayed @ appended"
    "replayed = [] \<longrightarrow> (\<forall>expected. ap_expectedHeadHash input = Some expected \<longrightarrow>
       option_or expected GENESIS_EVENT_HASH = lh_currentHash row)"
    "list_all2 same_content (drop (length replayed) prepared) appended" "distinct (map si_envelopeId appended)"
    "si_envelopeId ` set appended \<inter> si_envelopeId ` set (own_rows store (ap_logId input, ap_head input)) = {}"
    "ok stored (ap_logId input, ap_head input)" "head_at stored (ap_logId input, ap_head input) = Some row"
    "own_rows stored (ap_logId input, ap_head input) = own_rows store (ap_logId input, ap_head input) @ appended"
    "head_chain (sx_sha256 env) row (own_rows stored (ap_logId input, ap_head input))"
    "(lh_currentSeq row, lh_currentHash row) = head_end row (own_rows store (ap_logId input, ap_head input))"
    "store' = (if appended \<noteq> [] then moveHead stored (ap_logId input) (ap_head input) (last appended) else stored)"
proof (rule appendWithE [OF app])
  let ?key = "(ap_logId input, ap_head input)" and ?headed = "ensureHead store input"
  fix prepared replayed stored appended
  assume suffix: "checkSuffixNew store input (drop (length replayed) prepared) = Inr ()"
    and guards: "ap_logId input \<noteq> []" "ap_head input \<noteq> []"
      "case logHeadRow store (ap_logId input) (ap_head input) of Some row \<Rightarrow> lh_logKind row = ap_logKind input | None \<Rightarrow> True"
    and prep: "prepareAll env (ap_logKind input) 0 (ap_events input) = Inr prepared" "ap_events input \<noteq> []"
    "replayPrefix store input prepared = Inr replayed" "ar_envelopes result = replayed @ appended"
    and events: "appendEvents env publish (ap_logKind input) (ap_logId input) (ap_head input) ?headed
       (fst (headPointer ?headed (ap_logId input) (ap_head input)))
       (fst (snd (headPointer ?headed (ap_logId input) (ap_head input)))) []
       (drop (length replayed) prepared) = Inr (stored, appended)"
    and store': "store' = (if appended \<noteq> [] then moveHead stored (ap_logId input) (ap_head input) (last appended) else stored)"
    and expected: "replayed = [] \<longrightarrow> (\<forall>expected. ap_expectedHeadHash input = Some expected \<longrightarrow>
       option_or expected GENESIS_EVENT_HASH = fst (snd (headPointer ?headed (ap_logId input) (ap_head input))))"
  obtain row where row: "head_at ?headed ?key = Some row" by (simp add: ensureHead_head)
  have kind: "ap_logId input \<noteq> [] \<and> ap_head input \<noteq> [] \<and> lh_logKind row = ap_logKind input"
    using guards row unfolding ensureHead_head by (auto simp: head_at_def newHeadRow_def split: option.splits)
  have ptr: "headPointer ?headed (ap_logId input) (ap_head input) = (lh_currentSeq row, lh_currentHash row, lh_currentEnvelopeId row)"
    using row by (simp add: headPointer_def head_at_def)
  have ch: "head_chain (sx_sha256 env) row (own_rows ?headed ?key)"
    and en: "head_end row (own_rows ?headed ?key) = (lh_currentSeq row, lh_currentHash row)"
    using ensureHead_log_ok [OF log] by (auto simp: log_ok_def row)
  have hothers: "ok ?headed ?key"
    using ok_frame [OF others ensureHead_same] distinct_heads_ensureHead [OF ok_distinct [OF others]] by simp
  from appendEvents_chain [OF events [unfolded ptr fst_conv snd_conv] hothers row ch en] head_end_start [OF ch] en
  show thesis
    using that [OF row kind suffix prep(1,2,3,4) expected [unfolded ptr fst_conv snd_conv] _ _ _ _ _ _ _ _ store'] en by auto
qed

lemma appendWith_ok:
  assumes "appendWith env publish store input = Inr (store', result)"
    and "ok store (ap_logId input, ap_head input)"
    and "log_ok (sx_sha256 env) store (ap_logId input, ap_head input)"
  shows "ok store' (ap_logId input, ap_head input) \<and>
     log_ok (sx_sha256 env) store' (ap_logId input, ap_head input)"
proof (rule appendWith_run [OF assms])
  let ?key = "(ap_logId input, ap_head input)"
  fix row :: log_head_row and stored appended
  assume res: "ok stored ?key" "head_at stored ?key = Some row"
      "own_rows stored ?key = own_rows store ?key @ appended" "head_chain (sx_sha256 env) row (own_rows stored ?key)"
      "(lh_currentSeq row, lh_currentHash row) = head_end row (own_rows store ?key)"
    and store': "store' = (if appended \<noteq> [] then moveHead stored (ap_logId input) (ap_head input) (last appended) else stored)"
  show ?thesis
  proof (cases "appended = []")
    case True
    with res store' show ?thesis by (simp add: log_ok_def)
  next
    case False
    have rows: "own_rows store' k = own_rows stored k" for k using False store' by simp
    have head: "head_at store' ?key = Some (advanced_row (last appended) row)"
      using False store' res(2) by (simp add: head_at_moveHead)
    have "log_ok (sx_sha256 env) store' ?key"
      unfolding log_ok_def head rows using res(3,4) False
      by (simp add: head_chain_def head_end_def chain_end_def)
    moreover have "same_log stored store' k" if "k \<noteq> ?key" for k
      using that False store' by (simp add: same_log_def head_at_moveHead)
    then have "ok store' ?key"
      using ok_frame [OF res(1)] ok_distinct [OF res(1)] False store' by simp
    ultimately show ?thesis by simp
  qed
qed

end

text \<open>A batch without publications touches one log only.\<close>

lemma leaf_append_frame:
  "appendEvents env (\<lambda>st _ _. Inr st) logKind lid hd' store seq prev appended events = Inr (store', appended') \<Longrightarrow>
     st_heads store' = st_heads store \<and> (\<forall>key. key \<noteq> (lid, hd') \<longrightarrow> own_rows store' key = own_rows store key)"
proof (induction events arbitrary: store seq prev appended)
  case (Cons event events)
  define envelope where "envelope = mkEnvelope env lid hd' (seq + 1) prev event"
  have "fold_res (\<lambda>st target. Inr st) st targets = Inr st" for st :: store and targets :: "(string \<times> json) list"
    by (induction targets) auto
  with Cons.prems obtain inserted where
    ins: "insertLogEvent store envelope = Inr inserted"
    and rest: "appendEvents env (\<lambda>st _ _. Inr st) logKind lid hd' inserted (seq + 1) (ev_hash envelope) (appended @ [envelope]) events
        = Inr (store', appended')"
    by (auto simp: envelope_def Let_def split: if_splits)
  show ?case
    using Cons.IH [OF rest] heads_insert [OF ins] own_rows_insert [OF ins] by (simp add: envelope_def)
qed simp

lemma leaf_appendWith_frame:
  assumes "appendWith env (\<lambda>st _ _. Inr st) store input = Inr (store', result)"
    and "key \<noteq> (ap_logId input, ap_head input)"
  shows "same_log store store' key"
proof -
  from assms(1) obtain remaining stored appended seq prev where
    events: "appendEvents env (\<lambda>st _ _. Inr st) (ap_logKind input) (ap_logId input) (ap_head input) (ensureHead store input)
       seq prev [] remaining = Inr (stored, appended)"
    and store': "store' = (if appended \<noteq> [] then moveHead stored (ap_logId input) (ap_head input) (last appended) else stored)"
    by (rule appendWithE) (rule that)
  have "same_log (ensureHead store input) stored key"
    using leaf_append_frame [OF events] assms(2) same_heads [of stored "ensureHead store input" key] by (simp add: same_log_def)
  moreover have "same_log stored store' key"
    using assms(2) store' by (simp add: same_log_def head_at_moveHead)
  ultimately show ?thesis using ensureHead_same [OF assms(2)] same_log_trans by blast
qed

text \<open>While an append to a log is under way, a publication into the same log can only be a replay.\<close>

lemma append_under_way:
  assumes "appendWith env publish store input = Inr (store', result)"
    and "under_way store (ap_logId input, ap_head input)"
  shows "store' = store"
proof -
  from assms(2) obtain row event where row: "head_at store (ap_logId input, ap_head input) = Some row"
    and event: "event \<in> set (own_rows store (ap_logId input, ap_head input))" "ev_seq event = lh_currentSeq row + 1"
    by (auto simp: under_way_def)
  have headed: "ensureHead store input = store" using row by (simp add: ensureHead_def head_at_def)
  have ptr: "fst (headPointer store (ap_logId input) (ap_head input)) = lh_currentSeq row"
    using row by (simp add: headPointer_def head_at_def)
  from assms(1) obtain remaining stored appended where
    events: "appendEvents env publish (ap_logKind input) (ap_logId input) (ap_head input) (ensureHead store input)
       (fst (headPointer (ensureHead store input) (ap_logId input) (ap_head input)))
       (fst (snd (headPointer (ensureHead store input) (ap_logId input) (ap_head input)))) [] remaining = Inr (stored, appended)"
    and store': "store' = (if appended \<noteq> [] then moveHead stored (ap_logId input) (ap_head input) (last appended) else stored)"
    by (rule appendWithE) (rule that)
  define prev where "prev = fst (snd (headPointer store (ap_logId input) (ap_head input)))"
  note events = events [unfolded headed ptr prev_def [symmetric]]
  show ?thesis
  proof (cases remaining)
    case Nil
    with events store' show ?thesis by simp
  next
    case (Cons e es)
    then obtain inserted where
      "insertLogEvent store (mkEnvelope env (ap_logId input) (ap_head input) (lh_currentSeq row + 1) prev e) = Inr inserted"
      using events by (auto simp: Let_def split: if_splits)
    then show ?thesis
      using event by (auto simp: insertLogEvent_def own_rows_def split: if_splits)
  qed
qed

interpretation leaf: framed_publisher env "\<lambda>st _ _. Inr st" "\<lambda>st _. distinct_heads st" for env
  by unfold_locales auto

interpretation channel: framed_publisher env "publishToChannel env" "others_ok (sx_sha256 env)" for env
proof unfold_locales
  fix store envelope target store' key
  assume "publishToChannel env store envelope target = Inr store'"
    and others: "others_ok (sx_sha256 env) store key" and way: "under_way store key"
  then obtain result where
    app: "appendWith env (\<lambda>st _ _. Inr st) store (publicationInput envelope target) = Inr (store', result)"
    by (auto simp: publishToChannel_def)
  let ?chan = "(ap_logId (publicationInput envelope target), ap_head (publicationInput envelope target))"
  show "same_log store store' key \<and> others_ok (sx_sha256 env) store' key"
  proof (cases "key = ?chan")
    case True
    then show ?thesis using append_under_way [OF app] way others by simp
  next
    case False
    have same: "same_log store store' k" if "k \<noteq> ?chan" for k
      by (rule leaf_appendWith_frame [OF app that])
    have ok: "distinct_heads store" "log_ok (sx_sha256 env) store ?chan"
      using others False by (auto simp: others_ok_def)
    have "distinct_heads store'" "log_ok (sx_sha256 env) store' ?chan"
      using leaf.appendWith_ok [OF app ok] by auto
    moreover have "log_ok (sx_sha256 env) store' k" if "k \<noteq> key" "k \<noteq> ?chan" for k
      using log_ok_same [OF same [OF that(2)]] others that(1) by (simp add: others_ok_def)
    ultimately show ?thesis using same [OF False] unfolding others_ok_def by blast
  qed
next
  show "others_ok (sx_sha256 env) store key \<Longrightarrow> distinct_heads store" for store key env
    by (simp add: others_ok_def)
qed (rule others_ok_frame)

lemma appendLogEvent_ok:
  assumes "appendLogEvent env store input = Inr (store', result)" and "store_ok (sx_sha256 env) store"
  shows "store_ok (sx_sha256 env) store'"
proof -
  let ?key = "(ap_logId input, ap_head input)"
  have "others_ok (sx_sha256 env) store ?key" "log_ok (sx_sha256 env) store ?key"
    using assms(2) by (simp_all add: store_ok_def others_ok_def)
  from channel.appendWith_ok [OF assms(1) [unfolded appendLogEvent_def] this]
  have res: "others_ok (sx_sha256 env) store' ?key" "log_ok (sx_sha256 env) store' ?key" by simp_all
  have "log_ok (sx_sha256 env) store' k" for k
    using res by (cases "k = ?key") (simp_all add: others_ok_def)
  with res(1) show ?thesis by (simp add: store_ok_def others_ok_def)
qed

lemma forkLog_ok:
  assumes fork: "forkLog env store input = Inr (store', result)" and ok: "store_ok sha store"
  shows "store_ok sha store'"
proof (cases "head_at store (fk_toLogId input, fk_toHead input)")
  case (Some row)
  with fork have "store' = store"
    by (auto simp: forkLog_def Let_def head_at_def split: if_splits option.splits)
  with ok show ?thesis by simp
next
  case None
  with fork obtain source seq hash eid where
    store': "store' = store\<lparr>st_heads := st_heads store @ [forkRow input source seq hash eid]\<rparr>"
    by (auto simp: forkLog_def Let_def head_at_def split: if_splits option.splits)
  have key: "lh_key (forkRow input source seq hash eid) = (fk_toLogId input, fk_toHead input)"
    by (simp add: forkRow_def lh_key_def)
  have "log_ok sha store' k" for k
  proof (cases "k = (fk_toLogId input, fk_toHead input)")
    case True
    have "own_rows store k = []" using log_ok_None [OF store_okD [OF ok]] None True by blast
    then show ?thesis
      using None True key
      by (simp add: log_ok_def store' head_at_add head_chain_def head_end_def) (simp add: forkRow_def chainStart_def option_or_def)
  next
    case False
    then have "same_log store store' k" using key by (auto simp: same_log_def store' head_at_add split: option.split)
    then show ?thesis using ok log_ok_same by (auto simp: store_ok_def)
  qed
  moreover have "distinct_heads store'"
    using ok None key by (simp add: store' store_ok_def distinct_heads_add)
  ultimately show ?thesis by (simp add: store_ok_def)
qed

lemma deleteLogHead_ok: "store_ok sha store \<Longrightarrow> store_ok sha (fst (deleteLogHead store lid hd'))"
proof -
  assume ok: "store_ok sha store"
  have rows: "own_rows (fst (deleteLogHead store lid hd')) k = (if k = (lid, hd') then [] else own_rows store k)" for k
    by (auto simp: deleteLogHead_def own_rows_def intro: filter_cong)
  have "find P (filter Q xs) = find P xs" if "\<And>x. P x \<Longrightarrow> Q x" for P Q :: "log_head_row \<Rightarrow> bool" and xs
    using that by (induction xs) auto
  then have head: "head_at (fst (deleteLogHead store lid hd')) k = (if k = (lid, hd') then None else head_at store k)" for k
    by (auto simp: deleteLogHead_def head_at_def logHeadRow_def find_None_iff)
  have "log_ok sha (fst (deleteLogHead store lid hd')) k" for k
  proof (cases "k = (lid, hd')")
    case True
    then show ?thesis by (simp add: log_ok_def rows head)
  next
    case False
    then have "same_log store (fst (deleteLogHead store lid hd')) k" by (simp add: same_log_def rows head)
    then show ?thesis using store_okD [OF ok] log_ok_same by blast
  qed
  moreover have "distinct_heads (fst (deleteLogHead store lid hd'))"
    using ok by (simp add: store_ok_def distinct_heads_def deleteLogHead_def distinct_map_filter)
  ultimately show ?thesis by (simp add: store_ok_def)
qed

text \<open>The transactions on the log tables, archiving apart; every run of the store uses one hash function.\<close>

inductive store_step :: "(string \<Rightarrow> string) \<Rightarrow> store \<Rightarrow> store \<Rightarrow> bool" for sha where
  step_append: "appendLogEvent env store input = Inr (store', result) \<Longrightarrow> sx_sha256 env = sha \<Longrightarrow> store_step sha store store'"
| step_fork: "forkLog env store input = Inr (store', result') \<Longrightarrow> sx_sha256 env = sha \<Longrightarrow> store_step sha store store'"
| step_delete: "store_step sha store (fst (deleteLogHead store lid hd'))"

lemma store_step_ok: "store_step sha store store' \<Longrightarrow> store_ok sha store \<Longrightarrow> store_ok sha store'"
  by (induction rule: store_step.induct) (auto intro: appendLogEvent_ok forkLog_ok deleteLogHead_ok)

lemma store_ok_empty: "store_ok sha empty_store"
  by (auto simp: store_ok_def distinct_heads_def log_ok_def empty_store_def head_at_def logHeadRow_def own_rows_def)

lemma reachable_store_ok: "(store_step sha)\<^sup>*\<^sup>* empty_store store \<Longrightarrow> store_ok sha store"
  by (induction rule: rtranclp_induct) (auto intro: store_ok_empty store_step_ok)

subsection \<open>Preimages\<close>

lemma char_split:
  "c \<notin> set a \<Longrightarrow> c \<notin> set b \<Longrightarrow> a @ c # x = b @ c # y \<Longrightarrow> a = b \<and> x = y"
proof (induction a arbitrary: b)
  case Nil
  then show ?case by (cases b) auto
next
  case (Cons d a)
  then show ?case by (cases b) auto
qed

lemma length_prefix_split:
  assumes "show_nat (length a) @ CHR '':'' # a @ x = show_nat (length b) @ CHR '':'' # b @ y"
  shows "a = b \<and> x = y"
proof -
  from char_split [OF colon_notin_show_nat colon_notin_show_nat assms]
  have "length a = length b" "a @ x = b @ y" by auto
  then show ?thesis by simp
qed

lemma newline_notin_show_nat [simp]: "newline \<notin> set (show_nat n)"
  using set_show_nat [of n] by (auto simp: newline_def)

lemma newline_notin_show_int [simp]: "newline \<notin> set (show_int n)"
  by (simp add: show_int_def) (simp add: newline_def)

text \<open>The hash preimage of an envelope determines the previous hash, the log, the head, the position and the
  canonical form of the content, so that two envelopes never share a preimage by a shifted field boundary.\<close>

theorem hash_preimage_unambiguous:
  assumes "newline \<notin> set prev" and "newline \<notin> set prev'"
    and eq: "logEnvelopeHashPreimage prev lid hd' seq semantic = logEnvelopeHashPreimage prev' lid' hd'' seq' semantic'"
  shows "prev = prev' \<and> lid = lid' \<and> hd' = hd'' \<and> seq = seq' \<and> canonicalJson semantic = canonicalJson semantic'"
proof -
  from eq have 1: "prev @ newline # show_nat (length lid) @ CHR '':'' # lid @ newline # show_nat (length hd') @ CHR '':'' # hd' @
      newline # show_int seq @ newline # canonicalJson semantic =
    prev' @ newline # show_nat (length lid') @ CHR '':'' # lid' @ newline # show_nat (length hd'') @ CHR '':'' # hd'' @
      newline # show_int seq' @ newline # canonicalJson semantic'"
    by (simp add: logEnvelopeHashPreimage_def)
  from char_split [OF assms(1,2) 1]
  have "prev = prev'" and 2: "show_nat (length lid) @ CHR '':'' # lid @ newline # show_nat (length hd') @ CHR '':'' # hd' @
      newline # show_int seq @ newline # canonicalJson semantic =
    show_nat (length lid') @ CHR '':'' # lid' @ newline # show_nat (length hd'') @ CHR '':'' # hd'' @
      newline # show_int seq' @ newline # canonicalJson semantic'" by auto
  moreover from length_prefix_split [OF 2]
  have "lid = lid'" and 3: "show_nat (length hd') @ CHR '':'' # hd' @ newline # show_int seq @ newline # canonicalJson semantic =
    show_nat (length hd'') @ CHR '':'' # hd'' @ newline # show_int seq' @ newline # canonicalJson semantic'" by auto
  moreover from length_prefix_split [OF 3]
  have "hd' = hd''" and 4: "show_int seq @ newline # canonicalJson semantic = show_int seq' @ newline # canonicalJson semantic'" by auto
  moreover from char_split [OF newline_notin_show_int newline_notin_show_int 4]
  have "seq = seq'" "canonicalJson semantic = canonicalJson semantic'" by auto
  ultimately show ?thesis by simp
qed

theorem hash_preimage_unambiguous_witness:
  "logEnvelopeHashPreimage ''ab'' ''l'' ''1:main'' 1 JNull \<noteq> logEnvelopeHashPreimage ''ab'' ''l1:'' ''main'' 1 JNull"
proof
  assume "logEnvelopeHashPreimage ''ab'' ''l'' ''1:main'' 1 JNull = logEnvelopeHashPreimage ''ab'' ''l1:'' ''main'' 1 JNull"
  from hash_preimage_unambiguous [OF _ _ this] show False by (simp add: newline_def)
qed

lemma preimage_head:
  assumes "logEnvelopeHashPreimage prev lid hd' seq semantic = logEnvelopeHashPreimage prev lid hd'' seq semantic"
  shows "hd' = hd''"
proof -
  from assms have "show_nat (length hd') @ CHR '':'' # hd' @ newline # show_int seq @ newline # canonicalJson semantic =
      show_nat (length hd'') @ CHR '':'' # hd'' @ newline # show_int seq @ newline # canonicalJson semantic"
    by (simp add: logEnvelopeHashPreimage_def)
  then show ?thesis using length_prefix_split by blast
qed

subsection \<open>Archiving\<close>

lemma mismatch_reported:
  "event \<in> set rows \<Longrightarrow>
   computeEnvelopeHash env (ev_logId event) (ev_head event) (ev_seq event) (ev_prevHash event) (logEnvelopeSemantic event) \<noteq> ev_hash event \<Longrightarrow>
   HashMismatch (ev_logId event) (ev_head event) \<in> set (checkRows env seq prev rows)"
  by (induction rows arbitrary: seq prev) auto

text \<open>C36: Archiving a repository breaks the integrity of its log: the hash of an event covers the name of its head,
  and archiving renames the head without rehashing. After archiving a log that has an event of its own,
  \<open>checkLogIntegrity\<close> reports a hash mismatch, for every injective hash. (The comment on \<open>archiveRepoMain\<close> holds
  the move to be integrity-safe.)\<close>

theorem archive_breaks_integrity:
  assumes arch: "archiveRepoMain store lid archiveHead = Inr (store', result)" and moved: "ax_moved result"
    and ok: "store_ok (sx_sha256 env) store" and rows: "own_rows store (lid, ''main'') \<noteq> []"
    and inj: "inj (sx_sha256 env)"
  shows "HashMismatch lid archiveHead \<in> set (checkLogIntegrity env store' None None)"
proof -
  from arch moved have store': "store' = rekeyed store lid ''main'' archiveHead" and free: "head_at store (lid, archiveHead) = None"
    and name: "archiveHead \<noteq> ''main''"
    by (auto simp: archiveRepoMain_def rekeyHead_def Let_def head_at_def split: if_splits option.splits prod.splits)
  from rows obtain event where event: "event \<in> set (own_rows store (lid, ''main''))" by (cases "own_rows store (lid, ''main'')") auto
  obtain row where row: "head_at store (lid, ''main'') = Some row"
    using log_ok_None [OF store_okD [OF ok]] rows by (cases "head_at store (lid, ''main'')") auto
  then have hash: "hash_ok (sx_sha256 env) event"
  proof -
    have "chain sha n p es \<Longrightarrow> e \<in> set es \<Longrightarrow> hash_ok sha e" for sha n p es e
      by (induction es arbitrary: n p) auto
    then show ?thesis using store_okD [OF ok, of "(lid, ''main'')"] row event by (auto simp: log_ok_def head_chain_def)
  qed
  define row' event' where "row' = row\<lparr>lh_head := archiveHead\<rparr>" and "event' = event\<lparr>ev_head := archiveHead\<rparr>"
  have key: "ev_key event = (lid, ''main'')" "event \<in> set (st_events store)" using event by (auto simp: own_rows_def)
  have "row' \<in> set (st_heads store')"
    using head_at_Some [OF row] by (auto simp: store' rekeyed_def row'_def image_iff intro!: bexI [of _ row])
  moreover have key': "lh_key row' = (lid, archiveHead)"
    using head_at_Some [OF row] by (simp add: row'_def lh_key_def)
  moreover have "event' \<in> set (own_rows store' (lid, archiveHead))"
    using key by (auto simp: own_rows_def store' rekeyed_def event'_def ev_key_def image_iff intro!: bexI [of _ event])
  moreover have "computeEnvelopeHash env (ev_logId event') (ev_head event') (ev_seq event') (ev_prevHash event')
      (logEnvelopeSemantic event') \<noteq> ev_hash event'"
  proof
    assume "computeEnvelopeHash env (ev_logId event') (ev_head event') (ev_seq event') (ev_prevHash event')
      (logEnvelopeSemantic event') = ev_hash event'"
    with hash inj have "logEnvelopeHashPreimage (ev_prevHash event) (ev_logId event) archiveHead (ev_seq event) (logEnvelopeSemantic event)
      = logEnvelopeHashPreimage (ev_prevHash event) (ev_logId event) (ev_head event) (ev_seq event) (logEnvelopeSemantic event)"
      by (simp add: event'_def hash_ok_def computeEnvelopeHash_def logEnvelopeSemantic_def inj_eq)
    from preimage_head [OF this] key name show False by (simp add: ev_key_def)
  qed
  moreover have "ev_logId event' = lid" "ev_head event' = archiveHead" using key by (simp_all add: event'_def ev_key_def)
  ultimately have "HashMismatch lid archiveHead \<in> set (checkHead env store' row')"
    using mismatch_reported [of event' "sort_key ev_seq (own_rows store' (lh_key row'))" env]
    by (cases "chainStart row'") (auto simp: checkHead_def Let_def)
  with \<open>row' \<in> set (st_heads store')\<close> show ?thesis by (auto simp: checkLogIntegrity_def)
qed


subsection \<open>Samples\<close>

definition sample_env :: store_env where
  "sample_env = \<lparr> sx_sha256 = (\<lambda>s. s), sx_nowIso = ''2026-05-20T12:00:00.000Z'', sx_randomUUID = (\<lambda>n. ''uuid-'' @ show_nat n),
     sx_parseEvent = Inr, sx_valuesEncoded = (\<lambda>_. True), sx_stateExists = (\<lambda>_. True), sx_project = (\<lambda>_ _. True) \<rparr>"

definition sample_append_event :: append_event where
  "sample_append_event =
     \<lparr> ae_envelopeId = Some ''e1'', ae_actor = JObj [(''kind'', JStr ''agent''), (''id'', JStr ''a'')], ae_to = JUndefined,
       ae_payloadKind = ''turn.opened'', ae_payload = JObj [(''reason'', JStr ''user'')],
       ae_causality = JObj [(''turnId'', JStr ''t1'')], ae_annotations = JUndefined, ae_appendedAt = None,
       ae_publish = [(''c1'', JUndefined)] \<rparr>"

definition sample_append :: append_input where
  "sample_append =
     \<lparr> ap_logId = ''log'', ap_head = ''main'', ap_logKind = ''trajectory'', ap_owner = JNull,
       ap_expectedHeadHash = Some None, ap_idempotentById = False, ap_events = [sample_append_event] \<rparr>"

lemma sample_append_ok: "\<exists>store result. appendLogEvent sample_env empty_store sample_append = Inr (store, result) \<and>
  length (st_events store) = 2 \<and> own_rows store (''log'', ''main'') \<noteq> []"
proof -
  have "(case appendLogEvent sample_env empty_store sample_append of Inl _ \<Rightarrow> False
     | Inr (store, result) \<Rightarrow> length (st_events store) = 2 \<and> own_rows store (''log'', ''main'') \<noteq> [])"
    by code_simp
  then show ?thesis by (auto split: sum.splits prod.splits)
qed

text \<open>C12: Every log stays intact: whatever appends, publications, forks and deletions of heads the store has run,
  \<open>checkLogIntegrity\<close> reports nothing (positions consecutive from the fork point, each event linked to the one
  before and hashed over its content, the head row naming the last one).\<close>

theorem reachable_log_integrity:
  "(store_step (sx_sha256 env))\<^sup>*\<^sup>* empty_store store \<Longrightarrow> checkLogIntegrity env store lid hd' = []"
  by (rule store_ok_integrity [OF reachable_store_ok])

theorem reachable_log_integrity_witness:
  "\<exists>store. length (st_events store) = 2 \<and> checkLogIntegrity sample_env store None None = []"
proof -
  obtain store result where app: "appendLogEvent sample_env empty_store sample_append = Inr (store, result)"
    and events: "length (st_events store) = 2"
    using sample_append_ok by blast
  have "(store_step (sx_sha256 sample_env))\<^sup>*\<^sup>* empty_store store"
    by (rule r_into_rtranclp, rule step_append [OF app refl])
  from reachable_log_integrity [OF this] events show ?thesis by blast
qed

lemma own_rows_worktrees [simp]: "own_rows (store\<lparr>st_worktreeHeads := w\<rparr>) key = own_rows store key"
  by (simp add: own_rows_def)

lemma store_ok_worktrees [simp]: "store_ok sha (store\<lparr>st_worktreeHeads := w\<rparr>) = store_ok sha store"
proof -
  have "same_log store (store\<lparr>st_worktreeHeads := w\<rparr>) key" for key
    by (simp add: same_log_def head_at_def logHeadRow_def)
  then have "log_ok sha (store\<lparr>st_worktreeHeads := w\<rparr>) key = log_ok sha store key" for key
    using log_ok_same by blast
  then show ?thesis by (simp add: store_ok_def distinct_heads_def)
qed

definition sample_worktrees :: "((string \<times> string) \<times> string) list" where
  "sample_worktrees = [((''log'', ''main''), ''state-1'')]"

lemma sample_archive_ok:
  "\<exists>store result store' result'. appendLogEvent sample_env empty_store sample_append = Inr (store, result) \<and>
     own_rows store (''log'', ''main'') \<noteq> [] \<and>
     archiveRepoMain (store\<lparr>st_worktreeHeads := sample_worktrees\<rparr>) ''log'' ''archive/x'' = Inr (store', result') \<and>
     ax_moved result'"
proof -
  have "(case appendLogEvent sample_env empty_store sample_append of Inl _ \<Rightarrow> False
     | Inr (store, result) \<Rightarrow> own_rows store (''log'', ''main'') \<noteq> [] \<and>
       (case archiveRepoMain (store\<lparr>st_worktreeHeads := sample_worktrees\<rparr>) ''log'' ''archive/x'' of
          Inl _ \<Rightarrow> False | Inr (store', result') \<Rightarrow> ax_moved result'))"
    by code_simp
  then show ?thesis by (auto split: sum.splits prod.splits)
qed

theorem archive_breaks_integrity_witness:
  "\<exists>store store' result. archiveRepoMain store ''log'' ''archive/x'' = Inr (store', result) \<and>
     checkLogIntegrity sample_env store None None = [] \<and>
     HashMismatch ''log'' ''archive/x'' \<in> set (checkLogIntegrity sample_env store' None None)"
proof -
  obtain store result store' result' where app: "appendLogEvent sample_env empty_store sample_append = Inr (store, result)"
    and rows: "own_rows store (''log'', ''main'') \<noteq> []"
    and arch: "archiveRepoMain (store\<lparr>st_worktreeHeads := sample_worktrees\<rparr>) ''log'' ''archive/x'' = Inr (store', result')"
    and moved: "ax_moved result'"
    using sample_archive_ok by blast
  have "store_ok (sx_sha256 sample_env) (store\<lparr>st_worktreeHeads := sample_worktrees\<rparr>)"
    using appendLogEvent_ok [OF app store_ok_empty] by simp
  moreover have "inj (sx_sha256 sample_env)" by (simp add: sample_env_def)
  ultimately show ?thesis
    using archive_breaks_integrity [OF arch moved] rows arch store_ok_integrity by (intro exI conjI) auto
qed
end
