(* ===== verification/LogView.thy ===== *)
theory LogView
  imports LogChain
begin

text \<open>
  What a head of the log store reads. A fork copies nothing: its reads walk the lineage, the rows of each
  ancestor capped at the fork positions on the way. The lemmas give every head a view, the prefix inherited
  from its parent followed by its own rows, show that reads return it (filters, limits and order included),
  that it is one hash chain, and how appends and forks change it. The locale \<open>growing_publisher\<close> is the part of
  the publisher's contract that this needs.
\<close>

subsection \<open>The tables only grow\<close>

definition static_row :: "log_head_row \<Rightarrow> log_head_row" where
  "static_row row = row\<lparr>lh_currentSeq := 0, lh_currentHash := [], lh_currentEnvelopeId := None\<rparr>"

lemma static_row_simps [simp]:
  "lh_key (static_row row) = lh_key row" "parentOf (static_row row) = parentOf row"
  "chainStart (static_row row) = chainStart row" "static_row (advanced_row event row) = static_row row"
  by (simp_all add: static_row_def lh_key_def parentOf_def chainStart_def advanced_row_def)

lemma static_row_eqD:
  "static_row row = static_row row' \<Longrightarrow> lh_key row = lh_key row' \<and> parentOf row = parentOf row' \<and> chainStart row = chainStart row'"
  by (metis static_row_simps(1-3))

definition root_row :: "log_head_row \<Rightarrow> bool" where
  "root_row row \<longleftrightarrow> parentOf row = None \<and> chainStart row = (0, GENESIS_EVENT_HASH)"

definition grown :: "store \<Rightarrow> store \<Rightarrow> bool" where
  "grown store store' \<longleftrightarrow>
     (\<exists>events. st_events store' = st_events store @ events) \<and>
     (\<exists>rows. map static_row (st_heads store') = map static_row (st_heads store) @ map static_row rows \<and>
        (\<forall>row \<in> set rows. root_row row))"

lemma grown_refl: "grown store store"
  by (force simp: grown_def)

lemma grown_trans: "grown a b \<Longrightarrow> grown b c \<Longrightarrow> grown a c"
proof -
  assume "grown a b" "grown b c"
  then obtain es fs rows rows' where "st_events b = st_events a @ es" "st_events c = st_events b @ fs"
    "map static_row (st_heads b) = map static_row (st_heads a) @ map static_row rows"
    "map static_row (st_heads c) = map static_row (st_heads b) @ map static_row rows'"
    "\<forall>row \<in> set (rows @ rows'). root_row row"
    unfolding grown_def by (metis UnE set_append)
  then show ?thesis
    unfolding grown_def by (intro conjI exI [of _ "es @ fs"] exI [of _ "rows @ rows'"]) auto
qed

lemma grown_ensureHead: "grown store (ensureHead store input)"
  by (auto simp: grown_def ensureHead_def root_row_def parentOf_def chainStart_def newHeadRow_def option_or_def
      intro!: exI [of _ "[newHeadRow input]"])

lemma grown_moveHead: "grown store (moveHead store lid hd' event)"
proof -
  have "map static_row (map (\<lambda>row. if lh_key row = (lid, hd') then advanced_row event row else row) rows) = map static_row rows" for rows
    by (induction rows) auto
  then show ?thesis by (force simp: grown_def moveHead_advanced simp del: map_map)
qed

lemma grown_insert: "insertLogEvent store envelope = Inr store' \<Longrightarrow> grown store store'"
  by (auto simp: grown_def insertLogEvent_def split: if_splits)

locale growing_publisher =
  fixes env :: store_env and publish :: publisher
  assumes publish_grows: "publish store envelope target = Inr store' \<Longrightarrow> grown store store'"
begin

lemma publish_all_grows:
  "fold_res (\<lambda>st target. publish st envelope target) store targets = Inr store' \<Longrightarrow> grown store store'"
  by (induction targets arbitrary: store) (auto intro: grown_refl publish_grows grown_trans)

lemma appendEvents_grows:
  "appendEvents env publish logKind lid hd' store seq prev appended events = Inr (store', appended') \<Longrightarrow> grown store store'"
proof (induction events arbitrary: store seq prev appended)
  case (Cons event events)
  then obtain inserted published prev' appended1 where
    "insertLogEvent store (mkEnvelope env lid hd' (seq + 1) prev event) = Inr inserted"
    "fold_res (\<lambda>st target. publish st (mkEnvelope env lid hd' (seq + 1) prev event) target) inserted (pe_publish event) = Inr published"
    "appendEvents env publish logKind lid hd' published (seq + 1) prev' appended1 events = Inr (store', appended')"
    by (auto simp: Let_def split: if_splits)
  then show ?case using Cons.IH grown_insert publish_all_grows grown_trans by metis
qed (simp add: grown_refl)

lemma appendWith_grown_headed:
  assumes "appendWith env publish store input = Inr (store', result)"
  shows "grown (ensureHead store input) store'"
proof -
  from assms obtain remaining stored appended seq prev where
    events: "appendEvents env publish (ap_logKind input) (ap_logId input) (ap_head input) (ensureHead store input)
       seq prev [] remaining = Inr (stored, appended)"
    and store': "store' = (if appended \<noteq> [] then moveHead stored (ap_logId input) (ap_head input) (last appended) else stored)"
    by (rule appendWithE) (rule that)
  have "grown stored store'" using store' grown_moveHead grown_refl by simp
  then show ?thesis using appendEvents_grows [OF events] grown_trans by blast
qed

lemma appendWith_grows: "appendWith env publish store input = Inr (store', result) \<Longrightarrow> grown store store'"
  by (rule grown_trans [OF grown_ensureHead appendWith_grown_headed])

end

interpretation leaf_grows: growing_publisher env "\<lambda>st _ _. Inr st" for env
  by unfold_locales (simp add: grown_refl)

interpretation channel_grows: growing_publisher env "publishToChannel env" for env
  by unfold_locales (auto simp: publishToChannel_def dest: leaf_grows.appendWith_grows)

lemma appendLogEvent_grows: "appendLogEvent env store input = Inr (store', result) \<Longrightarrow> grown store store'"
  unfolding appendLogEvent_def by (rule channel_grows.appendWith_grows)

subsection \<open>What a head sees\<close>

definition upto_seq :: "int \<Rightarrow> stored_event list \<Rightarrow> stored_event list" where
  "upto_seq n events = filter (\<lambda>event. ev_seq event \<le> n) events"

definition inherited :: "(string \<times> string \<Rightarrow> stored_event list) \<Rightarrow> log_head_row \<Rightarrow> stored_event list" where
  "inherited view row = (case parentOf row of None \<Rightarrow> [] | Some (pl, ph, n) \<Rightarrow> upto_seq n (view (pl, ph)))"

definition forked_below :: "store \<Rightarrow> nat \<Rightarrow> log_head_row \<Rightarrow> bool" where
  "forked_below store i row \<longleftrightarrow>
     (case parentOf row of
        None \<Rightarrow> True
      | Some (pl, ph, n) \<Rightarrow> \<exists>j < i. lh_key (st_heads store ! j) = (pl, ph) \<and> 0 \<le> n \<and> n \<le> lh_currentSeq (st_heads store ! j))"

text \<open>Every head sees the inherited prefix of its parent followed by its own rows, and what it sees is one chain
  from genesis to its current position.\<close>

definition lineage_ok :: "(string \<Rightarrow> string) \<Rightarrow> store \<Rightarrow> (string \<times> string \<Rightarrow> stored_event list) \<Rightarrow> bool" where
  "lineage_ok sha store view \<longleftrightarrow>
     (\<forall>i < length (st_heads store). let row = st_heads store ! i in
        view (lh_key row) = inherited view row @ own_rows store (lh_key row) \<and>
        chain sha 0 GENESIS_EVENT_HASH (view (lh_key row)) \<and>
        chain_end 0 GENESIS_EVENT_HASH (view (lh_key row)) = (lh_currentSeq row, lh_currentHash row) \<and>
        forked_below store i row)"

lemma filter_within_min: "filter (\<lambda>e. within cap (ev_seq e)) (upto_seq n es) = filter (\<lambda>e. within (min_cap cap n) (ev_seq e)) es"
  by (auto simp: upto_seq_def within_def min_cap_def intro: filter_cong split: option.split)

lemma segment_rows_own:
  "segment_rows store \<lparr> ls_logId = lid, ls_head = hd', ls_throughSeq = cap \<rparr> =
     filter (\<lambda>e. within cap (ev_seq e)) (own_rows store (lid, hd'))"
  by (auto simp: segment_rows_def own_rows_def in_segment_def intro: filter_cong)

lemma distinct_heads_nth:
  "distinct_heads store \<Longrightarrow> i < length (st_heads store) \<Longrightarrow> j < length (st_heads store) \<Longrightarrow>
     lh_key (st_heads store ! i) = lh_key (st_heads store ! j) \<Longrightarrow> i = j"
  using nth_eq_iff_index_eq [of "map lh_key (st_heads store)" i j] by (simp add: distinct_heads_def)

lemma lineage_segments:
  assumes ok: "lineage_ok sha store view" and dist: "distinct_heads store"
    and "i < length (st_heads store)" and "lh_key (st_heads store ! i) = (lid, hd')"
    and "\<forall>j \<le> i. lh_key (st_heads store ! j) \<notin> set seen"
  shows "\<exists>segments. lineageFrom store seen cap lid hd' = Inr segments \<and>
     concat (map (segment_rows store) (rev segments)) = filter (\<lambda>e. within cap (ev_seq e)) (view (lid, hd')) \<and>
     (\<forall>segment \<in> set segments. sorted (map ev_seq (segment_rows store segment)))"
  using assms(3-)
proof (induction i arbitrary: lid hd' seen cap rule: less_induct)
  case (less i)
  define row where "row = st_heads store ! i"
  have key: "lh_key row = (lid, hd')" using less.prems(2) by (simp add: row_def)
  have at: "logHeadRow store lid hd' = Some row"
    using head_at_row [OF dist, of row] key less.prems(1) by (simp add: row_def head_at_def)
  from ok less.prems(1) have view: "view (lid, hd') = inherited view row @ own_rows store (lid, hd')"
    and ch: "chain sha 0 GENESIS_EVENT_HASH (view (lid, hd'))" and below: "forked_below store i row"
    by (auto simp: lineage_ok_def Let_def row_def [symmetric] key)
  define self where "self = \<lparr> ls_logId = lid, ls_head = hd', ls_throughSeq = cap \<rparr>"
  have sorted: "sorted (map ev_seq (segment_rows store self))"
    using chain_sorted [OF ch] unfolding view self_def segment_rows_own by (simp add: sorted_append sorted_filter)
  have fresh: "(lid, hd') \<notin> set seen" using less.prems(2,3) by auto
  show ?case
  proof (cases "parentOf row")
    case None
    then have "lineageFrom store seen cap lid hd' = Inr [self]"
      using fresh at by (simp add: lineageFrom.simps self_def)
    with sorted view None show ?thesis by (simp add: segment_rows_own self_def inherited_def)
  next
    case (Some p)
    then obtain pl ph n where p: "parentOf row = Some (pl, ph, n)" by (cases p) auto
    from below p obtain j where j: "j < i" "lh_key (st_heads store ! j) = (pl, ph)" by (auto simp: forked_below_def)
    have "lh_key (st_heads store ! j') \<noteq> (lid, hd')" if "j' \<le> j" for j'
      using distinct_heads_nth [OF dist less.prems(1), of j'] less.prems(1,2) j(1) that by auto
    then have "\<forall>j' \<le> j. lh_key (st_heads store ! j') \<notin> set ((lid, hd') # seen)"
      using less.prems(3) j(1) by auto
    then obtain rest where rest: "lineageFrom store ((lid, hd') # seen) (min_cap cap n) pl ph = Inr rest"
      "concat (map (segment_rows store) (rev rest)) = filter (\<lambda>e. within (min_cap cap n) (ev_seq e)) (view (pl, ph))"
      "\<forall>segment \<in> set rest. sorted (map ev_seq (segment_rows store segment))"
      using less.IH [OF j(1) _ j(2)] j(1) less.prems(1) by fastforce
    then have "lineageFrom store seen cap lid hd' = Inr (self # rest)"
      using fresh at p by (simp add: lineageFrom.simps self_def)
    moreover have "concat (map (segment_rows store) (rev (self # rest))) = filter (\<lambda>e. within cap (ev_seq e)) (view (lid, hd'))"
      using rest(2) p by (simp add: view inherited_def segment_rows_own self_def filter_within_min)
    ultimately show ?thesis using rest(3) sorted by auto
  qed
qed

lemma collectSegments_all:
  "\<forall>segment \<in> set segments. sorted (map ev_seq (segment_rows store segment)) \<Longrightarrow>
   collectSegments store input None collected segments =
     collected @ filter (logEventWhere input) (concat (map (segment_rows store) segments))"
  by (induction segments arbitrary: collected)
     (simp_all add: select_rows_def sort_key_sorted sorted_filter)

lemma collectSegments_limit:
  "length collected \<le> n \<Longrightarrow>
   collectSegments store input (Some n) collected segments =
     take n (collectSegments store input None collected segments)"
proof (induction segments arbitrary: collected)
  case (Cons segment segments)
  have extends: "\<exists>more. collectSegments store input None acc segs = acc @ more" for acc segs
    by (induction segs arbitrary: acc) (fastforce, simp, metis append.assoc)
  show ?case
  proof (cases "n - length collected = 0")
    case True
    with Cons.prems extends [of "collected @ select_rows store input segment" segments] show ?thesis by auto
  next
    case False
    define rows where "rows = select_rows store input segment"
    show ?thesis
    proof (cases "length rows \<le> n - length collected")
      case True
      with Cons.IH [of "collected @ rows"] Cons.prems False show ?thesis by (simp add: rows_def)
    next
      case long: False
      obtain more where more: "collectSegments store input None (collected @ rows) segments = collected @ rows @ more"
        using extends [of "collected @ rows" segments] by auto
      obtain more' where more': "collectSegments store input None (collected @ take (n - length collected) rows) segments =
          collected @ take (n - length collected) rows @ more'"
        using extends [of "collected @ take (n - length collected) rows" segments] by auto
      show ?thesis
        using Cons.IH [of "collected @ take (n - length collected) rows"] Cons.prems False long more more'
        by (simp add: rows_def)
    qed
  qed
qed simp

definition limited :: "int option \<Rightarrow> 'a list \<Rightarrow> 'a list" where
  "limited limit xs = (case positive_limit limit of None \<Rightarrow> xs | Some n \<Rightarrow> take n xs)"

lemma head_index:
  assumes "head_at store (lid, hd') = Some row"
  obtains i where "i < length (st_heads store)" "st_heads store ! i = row" "lh_key (st_heads store ! i) = (lid, hd')"
  using head_at_Some [OF assms] by (metis in_set_conv_nth)

lemma lineage_of_head:
  assumes "lineage_ok sha store view" and "distinct_heads store" and "head_at store (lid, hd') = Some row"
  obtains segments where "logLineage store lid hd' = Inr segments"
    "concat (map (segment_rows store) (rev segments)) = view (lid, hd')"
    "\<forall>segment \<in> set segments. sorted (map ev_seq (segment_rows store segment))"
proof -
  obtain i where "i < length (st_heads store)" "lh_key (st_heads store ! i) = (lid, hd')"
    using head_index [OF assms(3)] by metis
  from lineage_segments [OF assms(1,2) this, of "[]" None] show thesis
    using that by (auto simp: logLineage_def within_def)
qed

lemma readLog_view:
  assumes "lineage_ok sha store view" and "distinct_heads store" and "head_at store (lid, hd') = Some row"
  shows "readLog store lid hd' input = Inr (limited (ri_limit input) (filter (logEventWhere input) (view (lid, hd'))))"
proof -
  from assms obtain segments where segs: "logLineage store lid hd' = Inr segments"
    "concat (map (segment_rows store) (rev segments)) = view (lid, hd')"
    "\<forall>segment \<in> set segments. sorted (map ev_seq (segment_rows store segment))"
    by (rule lineage_of_head)
  have "collectSegments store input None [] (rev segments) = filter (logEventWhere input) (view (lid, hd'))"
    using collectSegments_all [of "rev segments" store input "[]"] segs(2,3) by simp
  then show ?thesis
    by (auto simp: readLog_def segs(1) limited_def collectSegments_limit split: option.split)
qed

lemma head_view:
  assumes "lineage_ok sha store view" and "head_at store (lid, hd') = Some row"
  shows "chain sha 0 GENESIS_EVENT_HASH (view (lid, hd'))"
    "chain_end 0 GENESIS_EVENT_HASH (view (lid, hd')) = (lh_currentSeq row, lh_currentHash row)"
    "view (lid, hd') = inherited view row @ own_rows store (lid, hd')"
    "0 \<le> lh_currentSeq row"
proof -
  show *: "chain sha 0 GENESIS_EVENT_HASH (view (lid, hd'))"
    "chain_end 0 GENESIS_EVENT_HASH (view (lid, hd')) = (lh_currentSeq row, lh_currentHash row)"
    "view (lid, hd') = inherited view row @ own_rows store (lid, hd')"
    using assms by (auto simp: lineage_ok_def Let_def elim!: head_index)
  show "0 \<le> lh_currentSeq row" using chain_end_seq [OF *(1)] unfolding *(2) by simp
qed

subsection \<open>Growth and forks keep the lineage\<close>

lemma own_rows_grown: "grown store store' \<Longrightarrow> \<exists>new. own_rows store' key = own_rows store key @ new"
  by (auto simp: grown_def own_rows_def)

lemma grown_heads:
  assumes "grown store store'" and "i < length (st_heads store')"
  shows "if i < length (st_heads store) then static_row (st_heads store' ! i) = static_row (st_heads store ! i)
     else root_row (st_heads store' ! i)"
proof -
  from assms(1) obtain rows where rows: "map static_row (st_heads store') = map static_row (st_heads store) @ map static_row rows"
    and root: "\<forall>row \<in> set rows. root_row row" by (auto simp: grown_def)
  have "static_row (st_heads store' ! i) = (map static_row (st_heads store) @ map static_row rows) ! i"
    using assms(2) rows by (metis nth_map)
  moreover have "i < length (st_heads store) + length rows"
    using assms(2) rows by (metis length_append length_map)
  ultimately have "static_row (st_heads store' ! i) =
      (if i < length (st_heads store) then static_row (st_heads store ! i) else static_row (rows ! (i - length (st_heads store))))"
    by (auto simp: nth_append)
  moreover have "root_row (rows ! (i - length (st_heads store)))" if "\<not> i < length (st_heads store)"
    using that \<open>i < _ + _\<close> root by (intro bspec [OF root] nth_mem) simp
  moreover have "static_row row = static_row row' \<Longrightarrow> root_row row' \<Longrightarrow> root_row row" for row row'
    using static_row_eqD [of row row'] by (simp add: root_row_def)
  ultimately show ?thesis by (cases "i < length (st_heads store)") simp_all
qed

lemma grown_length: "grown store store' \<Longrightarrow> length (st_heads store) \<le> length (st_heads store')"
  unfolding grown_def by (metis le_add1 length_append length_map)

definition grown_view :: "store \<Rightarrow> store \<Rightarrow> (string \<times> string \<Rightarrow> stored_event list) \<Rightarrow> string \<times> string \<Rightarrow> stored_event list" where
  "grown_view store store' view key =
     (if head_at store key = None then own_rows store' key
      else view key @ drop (length (own_rows store key)) (own_rows store' key))"

text \<open>The rows a log gained continue it from where its head row stood.\<close>

lemma grown_rows:
  assumes ok: "store_ok sha store" and ok': "store_ok sha store'" and grown: "grown store store'"
    and at: "head_at store key = Some row" and at': "head_at store' key = Some row'" and start: "chainStart row' = chainStart row"
  obtains new where "own_rows store' key = own_rows store key @ new"
    "chain sha (lh_currentSeq row) (lh_currentHash row) new"
    "chain_end (lh_currentSeq row) (lh_currentHash row) new = (lh_currentSeq row', lh_currentHash row')"
proof -
  obtain new where new: "own_rows store' key = own_rows store key @ new" using own_rows_grown [OF grown] by blast
  have "(lh_currentSeq row, lh_currentHash row) = head_end row (own_rows store key)"
    using store_okD [OF ok, of key] at by (simp add: log_ok_def)
  moreover have "head_chain sha row' (own_rows store key @ new)"
    "(lh_currentSeq row', lh_currentHash row') = head_end row' (own_rows store key @ new)"
    using store_okD [OF ok', of key] at' new by (simp_all add: log_ok_def)
  ultimately have "chain sha (lh_currentSeq row) (lh_currentHash row) new"
    "chain_end (lh_currentSeq row) (lh_currentHash row) new = (lh_currentSeq row', lh_currentHash row')"
    by (simp_all add: head_chain_def head_end_def chain_append chain_end_append start)
      (metis fst_conv snd_conv)+
  with new that show thesis by blast
qed

lemma upto_seq_append: "upto_seq n (xs @ ys) = upto_seq n xs @ upto_seq n ys"
  by (simp add: upto_seq_def)

lemma upto_seq_none: "(\<And>e. e \<in> set es \<Longrightarrow> n < ev_seq e) \<Longrightarrow> upto_seq n es = []"
  by (force simp: upto_seq_def filter_empty_conv)

text \<open>A step that grows the tables, between two states that satisfy the invariant.\<close>

definition growth :: "(string \<Rightarrow> string) \<Rightarrow> store \<Rightarrow> store \<Rightarrow> (string \<times> string \<Rightarrow> stored_event list) \<Rightarrow> bool" where
  "growth sha store store' view \<longleftrightarrow>
     lineage_ok sha store view \<and> store_ok sha store \<and> store_ok sha store' \<and> grown store store'"

lemma growthD:
  assumes "growth sha store store' view"
  shows "lineage_ok sha store view" "store_ok sha store" "store_ok sha store'" "grown store store'"
    "distinct_heads store" "distinct_heads store'"
  using assms by (simp_all add: growth_def store_ok_def)

lemma old_static:
  assumes g: "growth sha store store' view" and i: "i < length (st_heads store)"
  shows "i < length (st_heads store')" "lh_key (st_heads store' ! i) = lh_key (st_heads store ! i)"
    "parentOf (st_heads store' ! i) = parentOf (st_heads store ! i)"
    "chainStart (st_heads store' ! i) = chainStart (st_heads store ! i)"
proof -
  note grown = growthD(4) [OF g]
  show "i < length (st_heads store')" using i grown_length [OF grown] by simp
  then show "lh_key (st_heads store' ! i) = lh_key (st_heads store ! i)"
    "parentOf (st_heads store' ! i) = parentOf (st_heads store ! i)"
    "chainStart (st_heads store' ! i) = chainStart (st_heads store ! i)"
    using static_row_eqD [of "st_heads store' ! i" "st_heads store ! i"] grown_heads [OF grown, of i] i by simp_all
qed

lemma old_head_grows:
  assumes g: "growth sha store store' view" and i: "i < length (st_heads store)"
  obtains new where
    "own_rows store' (lh_key (st_heads store ! i)) = own_rows store (lh_key (st_heads store ! i)) @ new"
    "grown_view store store' view (lh_key (st_heads store ! i)) = view (lh_key (st_heads store ! i)) @ new"
    "chain sha (lh_currentSeq (st_heads store ! i)) (lh_currentHash (st_heads store ! i)) new"
    "chain_end (lh_currentSeq (st_heads store ! i)) (lh_currentHash (st_heads store ! i)) new =
       (lh_currentSeq (st_heads store' ! i), lh_currentHash (st_heads store' ! i))"
proof -
  have at: "head_at store (lh_key (st_heads store ! i)) = Some (st_heads store ! i)"
    using head_at_row [OF growthD(5) [OF g]] i by simp
  have at': "head_at store' (lh_key (st_heads store ! i)) = Some (st_heads store' ! i)"
    using head_at_row [OF growthD(6) [OF g], of "st_heads store' ! i"] old_static [OF g i] by simp
  show thesis
  proof (rule grown_rows [OF growthD(2-4) [OF g] at at' old_static(4) [OF g i]])
    fix new
    assume new: "own_rows store' (lh_key (st_heads store ! i)) = own_rows store (lh_key (st_heads store ! i)) @ new"
      "chain sha (lh_currentSeq (st_heads store ! i)) (lh_currentHash (st_heads store ! i)) new"
      "chain_end (lh_currentSeq (st_heads store ! i)) (lh_currentHash (st_heads store ! i)) new =
        (lh_currentSeq (st_heads store' ! i), lh_currentHash (st_heads store' ! i))"
    show thesis by (rule that [OF new(1) _ new(2,3)]) (simp add: grown_view_def at new(1))
  qed
qed

lemma old_parent:
  assumes g: "growth sha store store' view" and i: "i < length (st_heads store)" and below: "forked_below store i (st_heads store ! i)"
  shows "inherited (grown_view store store' view) (st_heads store' ! i) = inherited view (st_heads store ! i) \<and>
     forked_below store' i (st_heads store' ! i)"
proof (cases "parentOf (st_heads store ! i)")
  case None
  then show ?thesis by (simp add: old_static [OF g i] inherited_def forked_below_def)
next
  case (Some p)
  then obtain pl ph n where p: "parentOf (st_heads store ! i) = Some (pl, ph, n)" by (cases p) auto
  from below p obtain j where j: "j < i" "lh_key (st_heads store ! j) = (pl, ph)" "0 \<le> n" "n \<le> lh_currentSeq (st_heads store ! j)"
    by (auto simp: forked_below_def)
  then have jl: "j < length (st_heads store)" using i by simp
  obtain more where more: "grown_view store store' view (pl, ph) = view (pl, ph) @ more"
    "chain sha (lh_currentSeq (st_heads store ! j)) (lh_currentHash (st_heads store ! j)) more"
    "chain_end (lh_currentSeq (st_heads store ! j)) (lh_currentHash (st_heads store ! j)) more =
       (lh_currentSeq (st_heads store' ! j), lh_currentHash (st_heads store' ! j))"
    using old_head_grows [OF g jl] j(2) by metis
  have "upto_seq n more = []"
    using chain_seq_bounds [OF more(2)] j(4) by (intro upto_seq_none) fastforce
  moreover have "n \<le> lh_currentSeq (st_heads store' ! j)"
    using chain_end_seq [OF more(2)] more(3) j(4) by simp
  moreover have "lh_key (st_heads store' ! j) = (pl, ph)" using old_static(2) [OF g jl] j(2) by simp
  ultimately show ?thesis
    using j(1,3) p by (auto simp: old_static [OF g i] inherited_def more(1) upto_seq_append forked_below_def intro!: exI [of _ j])
qed

lemma new_head:
  assumes g: "growth sha store store' view" and i': "i < length (st_heads store')" and new: "\<not> i < length (st_heads store)"
  shows "root_row (st_heads store' ! i)" "head_at store (lh_key (st_heads store' ! i)) = None"
proof -
  show "root_row (st_heads store' ! i)" using grown_heads [OF growthD(4) [OF g] i'] new by simp
  show "head_at store (lh_key (st_heads store' ! i)) = None"
  proof (rule ccontr)
    assume "\<not> ?thesis"
    then obtain j where j: "j < length (st_heads store)" "lh_key (st_heads store ! j) = lh_key (st_heads store' ! i)"
      using head_at_Some by (metis in_set_conv_nth not_Some_eq)
    then show False
      using distinct_heads_nth [OF growthD(6) [OF g] i', of j] old_static [OF g j(1)] new by simp
  qed
qed

lemma head_stays_ok:
  assumes g: "growth sha store store' view" and i': "i < length (st_heads store')"
  shows "grown_view store store' view (lh_key (st_heads store' ! i)) =
       inherited (grown_view store store' view) (st_heads store' ! i) @ own_rows store' (lh_key (st_heads store' ! i)) \<and>
     chain sha 0 GENESIS_EVENT_HASH (grown_view store store' view (lh_key (st_heads store' ! i))) \<and>
     chain_end 0 GENESIS_EVENT_HASH (grown_view store store' view (lh_key (st_heads store' ! i))) =
       (lh_currentSeq (st_heads store' ! i), lh_currentHash (st_heads store' ! i)) \<and>
     forked_below store' i (st_heads store' ! i)"
proof (cases "i < length (st_heads store)")
  case True
  from growthD(1) [OF g] True have view: "view (lh_key (st_heads store ! i)) = inherited view (st_heads store ! i) @ own_rows store (lh_key (st_heads store ! i))"
    "chain sha 0 GENESIS_EVENT_HASH (view (lh_key (st_heads store ! i)))"
    "chain_end 0 GENESIS_EVENT_HASH (view (lh_key (st_heads store ! i))) =
       (lh_currentSeq (st_heads store ! i), lh_currentHash (st_heads store ! i))"
    "forked_below store i (st_heads store ! i)"
    by (auto simp: lineage_ok_def Let_def)
  obtain new where
    "own_rows store' (lh_key (st_heads store ! i)) = own_rows store (lh_key (st_heads store ! i)) @ new"
    "grown_view store store' view (lh_key (st_heads store ! i)) = view (lh_key (st_heads store ! i)) @ new"
    "chain sha (lh_currentSeq (st_heads store ! i)) (lh_currentHash (st_heads store ! i)) new"
    "chain_end (lh_currentSeq (st_heads store ! i)) (lh_currentHash (st_heads store ! i)) new =
       (lh_currentSeq (st_heads store' ! i), lh_currentHash (st_heads store' ! i))"
    by (rule old_head_grows [OF g True])
  then show ?thesis
    using view old_parent [OF g True view(4)] by (simp add: old_static(2) [OF g True] chain_append chain_end_append)
next
  case False
  note root = new_head [OF g i' False]
  have at: "head_at store' (lh_key (st_heads store' ! i)) = Some (st_heads store' ! i)"
    using head_at_row [OF growthD(6) [OF g]] i' by simp
  have "chain sha 0 GENESIS_EVENT_HASH (own_rows store' (lh_key (st_heads store' ! i)))"
    "chain_end 0 GENESIS_EVENT_HASH (own_rows store' (lh_key (st_heads store' ! i))) =
       (lh_currentSeq (st_heads store' ! i), lh_currentHash (st_heads store' ! i))"
    using store_okD [OF growthD(3) [OF g], of "lh_key (st_heads store' ! i)"] root(1)
    by (simp_all add: log_ok_def at head_chain_def head_end_def root_row_def)
  then show ?thesis
    using root by (simp add: grown_view_def inherited_def forked_below_def root_row_def)
qed

lemma grown_lineage: "growth sha store store' view \<Longrightarrow> lineage_ok sha store' (grown_view store store' view)"
  unfolding lineage_ok_def Let_def using head_stays_ok by blast

subsection \<open>Forking keeps the lineage\<close>

lemma upto_seq_chain:
  assumes "chain sha 0 prev events" and "0 \<le> n" and "n \<le> fst (chain_end 0 prev events)"
  shows "upto_seq n events = take (nat n) events"
  using assms
proof (induction events rule: rev_induct)
  case (snoc event events)
  show ?case
  proof (cases "n \<le> fst (chain_end 0 prev events)")
    case True
    then have "upto_seq n [event] = []" using snoc.prems by (simp add: upto_seq_def chain_snoc)
    moreover have "nat n \<le> length events" using True chain_end_seq [of sha 0 prev events] snoc.prems by (simp add: chain_snoc)
    ultimately show ?thesis using snoc True by (simp add: upto_seq_append chain_snoc)
  next
    case False
    then have n: "n = int (length events) + 1"
      using snoc.prems chain_end_seq [of sha 0 prev events] by (simp add: chain_snoc)
    have "upto_seq n (events @ [event]) = events @ [event]"
      unfolding upto_seq_def
      using chain_seq_bounds [OF snoc.prems(1)] chain_end_seq [OF snoc.prems(1)] n by (intro filter_True) fastforce
    then show ?thesis using n by simp
  qed
qed (simp add: upto_seq_def)

lemma upto_seq_chain_end:
  assumes ch: "chain sha 0 GENESIS_EVENT_HASH events" and n: "0 \<le> n" "n \<le> fst (chain_end 0 GENESIS_EVENT_HASH events)"
    and hash: "if 0 < n then \<exists>event \<in> set events. ev_seq event = n \<and> hash = ev_hash event else hash = GENESIS_EVENT_HASH"
  shows "chain sha 0 GENESIS_EVENT_HASH (upto_seq n events) \<and> chain_end 0 GENESIS_EVENT_HASH (upto_seq n events) = (n, hash)"
proof -
  define taken where "taken = take (nat n) events"
  have taken: "upto_seq n events = taken" using upto_seq_chain [OF ch n] by (simp add: taken_def)
  have split: "events = taken @ drop (nat n) events" by (simp add: taken_def)
  have c: "chain sha 0 GENESIS_EVENT_HASH taken" using ch split chain_append by metis
  have len: "length taken = nat n" using n chain_end_seq [OF ch] by (simp add: taken_def)
  have "chain_end 0 GENESIS_EVENT_HASH taken = (n, hash)"
  proof (cases "0 < n")
    case False
    then show ?thesis using len hash n by simp
  next
    case True
    then have ne: "taken \<noteq> []" using len by auto
    have lastseq: "ev_seq (last taken) = n" using chain_end_seq [OF c] ne len True by (simp add: chain_end_def)
    obtain event where event: "event \<in> set events" "ev_seq event = n" "hash = ev_hash event" using hash True by auto
    have "distinct (map ev_seq events)" by (simp add: chain_seqs [OF ch] distinct_map inj_on_def)
    then have "event = last taken"
      using event lastseq split ne by (metis Un_iff distinct_map inj_onD last_in_set set_append)
    then show ?thesis using ne lastseq event(3) by (simp add: chain_end_def)
  qed
  with c taken show ?thesis by simp
qed

lemma forkLog_new:
  assumes "forkLog env store input = Inr (store', result)" and "head_at store (fk_toLogId input, fk_toHead input) = None"
  obtains source hash eid where
    "head_at store (fk_fromLogId input, fk_fromHead input) = Some source"
    "fk_fromLogId input \<noteq> []" "fk_fromHead input \<noteq> []"
    "option_or (fk_atSeq input) (lh_currentSeq source) \<le> lh_currentSeq source"
    "forkPoint store input (option_or (fk_atSeq input) (lh_currentSeq source)) = Inr (hash, eid)"
    "store' = store\<lparr>st_heads := st_heads store @
       [forkRow input source (option_or (fk_atSeq input) (lh_currentSeq source)) hash eid]\<rparr>"
    "fr_forkSeq result = option_or (fk_atSeq input) (lh_currentSeq source)"
  using assms
  by (auto simp: forkLog_def head_at_def Let_def split: if_splits option.splits intro: that)

lemma find_SomeD: "find P xs = Some x \<Longrightarrow> x \<in> set xs \<and> P x"
  by (induction xs) (auto split: if_splits)

lemma forkPoint_event:
  assumes "lineage_ok sha store view" and "distinct_heads store"
    and "head_at store (fk_fromLogId input, fk_fromHead input) = Some source" and "forkPoint store input seq = Inr (hash, eid)"
  shows "if 0 < seq then \<exists>event \<in> set (view (fk_fromLogId input, fk_fromHead input)). ev_seq event = seq \<and> hash = ev_hash event
     else hash = GENESIS_EVENT_HASH"
proof (cases "0 < seq")
  case True
  obtain segments where segs: "logLineage store (fk_fromLogId input) (fk_fromHead input) = Inr segments"
    "concat (map (segment_rows store) (rev segments)) = view (fk_fromLogId input, fk_fromHead input)"
    by (rule lineage_of_head [OF assms(1-3)])
  have all: "set (concat (map (segment_rows store) segments)) = set (view (fk_fromLogId input, fk_fromHead input))"
    unfolding segs(2) [symmetric] by simp
  from True assms(4) segs(1) obtain event where
    event: "find (\<lambda>event. ev_seq event = seq) (concat (map (segment_rows store) segments)) = Some event" "hash = ev_hash event"
    by (auto simp: forkPoint_def lineageEventBySeq_def find_in_segments_def split: option.splits)
  from find_SomeD [OF event(1)] have "event \<in> set (view (fk_fromLogId input, fk_fromHead input))" "ev_seq event = seq"
    unfolding all by auto
  then show ?thesis using event(2) True by auto
next
  case False
  then show ?thesis using assms(4) by (auto simp: forkPoint_def)
qed

text \<open>A new head row at the end of the table, and a view that differs at its key only.\<close>

lemma add_head_lineage:
  assumes lin: "lineage_ok sha store view" and new: "head_at store (lh_key row) = None" and i: "i < length (st_heads store)"
    and V: "V = view(lh_key row := events)" and store': "store' = store\<lparr>st_heads := st_heads store @ [row]\<rparr>"
  shows "let r = st_heads store' ! i in V (lh_key r) = inherited V r @ own_rows store' (lh_key r) \<and>
     chain sha 0 GENESIS_EVENT_HASH (V (lh_key r)) \<and>
     chain_end 0 GENESIS_EVENT_HASH (V (lh_key r)) = (lh_currentSeq r, lh_currentHash r) \<and> forked_below store' i r"
proof -
  have existing: "V (lh_key (st_heads store ! j)) = view (lh_key (st_heads store ! j))" if "j < length (st_heads store)" for j
  proof -
    have "lh_key (st_heads store ! j) \<noteq> lh_key row" using new nth_mem [OF that] unfolding head_at_None by (metis image_eqI)
    then show ?thesis by (simp add: V)
  qed
  define r where "r = st_heads store ! i"
  have r: "st_heads store' ! i = r" using i by (simp add: store' nth_append r_def)
  have ok: "view (lh_key r) = inherited view r @ own_rows store (lh_key r)"
    "chain sha 0 GENESIS_EVENT_HASH (view (lh_key r))"
    "chain_end 0 GENESIS_EVENT_HASH (view (lh_key r)) = (lh_currentSeq r, lh_currentHash r)" "forked_below store i r"
    using lin i by (auto simp: lineage_ok_def Let_def r_def)
  have "inherited V r = inherited view r \<and> forked_below store' i r"
  proof (cases "parentOf r")
    case None
    then show ?thesis by (simp add: inherited_def forked_below_def)
  next
    case (Some p)
    then obtain pl ph n where p: "parentOf r = Some (pl, ph, n)" by (cases p) auto
    then obtain j where j: "j < i" "lh_key (st_heads store ! j) = (pl, ph)" "0 \<le> n" "n \<le> lh_currentSeq (st_heads store ! j)"
      using ok(4) by (auto simp: forked_below_def)
    then have "V (pl, ph) = view (pl, ph)" using existing [of j] i by simp
    then show ?thesis
      using j i p by (auto simp: inherited_def forked_below_def store' nth_append intro!: exI [of _ j])
  qed
  then show ?thesis using ok existing [OF i] by (simp add: r Let_def r_def [symmetric]) (simp add: store')
qed

lemma fork_lineage:
  assumes fork: "forkLog env store input = Inr (store', result)" and new: "head_at store (fk_toLogId input, fk_toHead input) = None"
    and lin: "lineage_ok sha store view" and ok: "store_ok sha store" and at: "\<forall>n. fk_atSeq input = Some n \<longrightarrow> 0 \<le> n"
  shows "lineage_ok sha store' (view((fk_toLogId input, fk_toHead input) :=
     upto_seq (fr_forkSeq result) (view (fk_fromLogId input, fk_fromHead input))))"
proof -
  let ?to = "(fk_toLogId input, fk_toHead input)" and ?from = "(fk_fromLogId input, fk_fromHead input)"
  obtain source hash eid seq where source: "head_at store ?from = Some source" "fk_fromLogId input \<noteq> []" "fk_fromHead input \<noteq> []"
    and seq: "seq = option_or (fk_atSeq input) (lh_currentSeq source)" "seq \<le> lh_currentSeq source"
    and point: "forkPoint store input seq = Inr (hash, eid)"
    and store': "store' = store\<lparr>st_heads := st_heads store @ [forkRow input source seq hash eid]\<rparr>"
    and res: "fr_forkSeq result = seq"
    by (rule forkLog_new [OF fork new]) blast
  define row where "row = forkRow input source seq hash eid"
  have row: "lh_key row = ?to" "parentOf row = Some (fk_fromLogId input, fk_fromHead input, seq)"
    "lh_currentSeq row = seq" "lh_currentHash row = hash"
    using source by (simp_all add: row_def forkRow_def lh_key_def parentOf_def)
  note hv = head_view [OF lin source(1)]
  have seq0: "0 \<le> seq" using hv(4) at seq(1) by (auto simp: option_or_def split: option.splits)
  have cut: "chain sha 0 GENESIS_EVENT_HASH (upto_seq seq (view ?from)) \<and>
      chain_end 0 GENESIS_EVENT_HASH (upto_seq seq (view ?from)) = (seq, hash)"
    using hv(2) seq(2) seq0 forkPoint_event [OF lin _ source(1) point] ok
    by (intro upto_seq_chain_end [OF hv(1)]) (simp_all add: store_ok_def)
  define V where "V = view(lh_key row := upto_seq seq (view ?from))"
  have old: "head_at store (lh_key row) = None" using new row(1) by simp
  have "let r = row in V (lh_key r) = inherited V r @ own_rows store' (lh_key r) \<and>
     chain sha 0 GENESIS_EVENT_HASH (V (lh_key r)) \<and>
     chain_end 0 GENESIS_EVENT_HASH (V (lh_key r)) = (lh_currentSeq r, lh_currentHash r) \<and>
     forked_below store' (length (st_heads store)) r"
  proof -
    obtain j where j: "j < length (st_heads store)" "st_heads store ! j = source" "lh_key (st_heads store ! j) = ?from"
      by (rule head_index [OF source(1)])
    have own: "own_rows store ?to = []" using log_ok_None [OF store_okD [OF ok] new] .
    have "forked_below store' (length (st_heads store)) row"
      using j seq(2) seq0 row(2) by (auto simp: store' forked_below_def nth_append intro!: exI [of _ j])
    moreover have "?from \<noteq> ?to" using source(1) new by auto
    ultimately show ?thesis using cut own row by (auto simp: V_def inherited_def Let_def store')
  qed
  then have "lineage_ok sha store' V"
    unfolding lineage_ok_def
    using add_head_lineage [OF lin old _ V_def store' [folded row_def]]
    by (auto simp: store' row_def [symmetric] less_Suc_eq nth_append)
  then show ?thesis by (simp add: V_def res row)
qed

text \<open>The transactions that extend the logs.\<close>

inductive log_step :: "(string \<Rightarrow> string) \<Rightarrow> store \<Rightarrow> store \<Rightarrow> bool" for sha where
  log_append: "appendLogEvent env store input = Inr (store', result) \<Longrightarrow> sx_sha256 env = sha \<Longrightarrow> log_step sha store store'"
| log_fork: "forkLog env store input' = Inr (store', result') \<Longrightarrow> \<forall>n. fk_atSeq input' = Some n \<longrightarrow> 0 \<le> n \<Longrightarrow>
    log_step sha store store'"

definition sound_store :: "(string \<Rightarrow> string) \<Rightarrow> store \<Rightarrow> (string \<times> string \<Rightarrow> stored_event list) \<Rightarrow> bool" where
  "sound_store sha store view \<longleftrightarrow> store_ok sha store \<and> lineage_ok sha store view"

lemma sound_storeD:
  "sound_store sha store view \<Longrightarrow> store_ok sha store" "sound_store sha store view \<Longrightarrow> lineage_ok sha store view"
  "sound_store sha store view \<Longrightarrow> distinct_heads store"
  by (simp_all add: sound_store_def store_ok_def)

text \<open>A step keeps the tables sound, and every existing head sees what it saw before followed by what its log
  gained.\<close>

lemma log_step_extends:
  assumes "log_step sha store store'" and sound: "sound_store sha store view"
  shows "\<exists>view'. sound_store sha store' view' \<and>
     (\<forall>key. head_at store key \<noteq> None \<longrightarrow> head_at store' key \<noteq> None \<and>
        (\<exists>new. view' key = view key @ new \<and> own_rows store' key = own_rows store key @ new))"
  using assms(1)
proof cases
  case (log_append env input result)
  have ok': "store_ok sha store'"
    using appendLogEvent_ok [OF log_append(1)] sound_storeD(1) [OF sound] log_append(2) by simp
  then have g: "growth sha store store' view"
    using sound appendLogEvent_grows [OF log_append(1)] by (simp add: growth_def sound_store_def)
  have "head_at store' key \<noteq> None \<and>
      (\<exists>new. grown_view store store' view key = view key @ new \<and> own_rows store' key = own_rows store key @ new)"
    if key: "head_at store key \<noteq> None" for key
  proof -
    obtain i where i: "i < length (st_heads store)" "lh_key (st_heads store ! i) = key"
      using key head_at_Some by (metis in_set_conv_nth not_Some_eq)
    have "key \<in> lh_key ` set (st_heads store')"
      using old_static(1,2) [OF g i(1)] i(2) by (metis image_eqI nth_mem)
    moreover obtain new where "own_rows store' key = own_rows store key @ new" "grown_view store store' view key = view key @ new"
      using old_head_grows [OF g i(1)] i(2) by metis
    ultimately show ?thesis by (auto simp: head_at_None)
  qed
  with ok' grown_lineage [OF g] show ?thesis
    by (intro exI [of _ "grown_view store store' view"]) (simp add: sound_store_def)
next
  case (log_fork env input result)
  show ?thesis
  proof (cases "head_at store (fk_toLogId input, fk_toHead input)")
    case (Some row)
    with log_fork(1) have "store' = store"
      by (auto simp: forkLog_def Let_def head_at_def split: if_splits option.splits)
    with sound show ?thesis by (intro exI [of _ view]) auto
  next
    case None
    have "\<exists>row. store' = store\<lparr>st_heads := st_heads store @ [row]\<rparr>"
      by (rule forkLog_new [OF log_fork(1) None]) blast
    then obtain row where store': "store' = store\<lparr>st_heads := st_heads store @ [row]\<rparr>" by blast
    have "sound_store sha store' (view((fk_toLogId input, fk_toHead input) :=
        upto_seq (fr_forkSeq result) (view (fk_fromLogId input, fk_fromHead input))))"
      using fork_lineage [OF log_fork(1) None sound_storeD(2) [OF sound] sound_storeD(1) [OF sound] log_fork(2)]
        forkLog_ok [OF log_fork(1) sound_storeD(1) [OF sound]] by (simp add: sound_store_def)
    moreover have "head_at store' key \<noteq> None" if "head_at store key \<noteq> None" for key
      using that by (auto simp: store' head_at_add)
    ultimately show ?thesis using None by (intro exI conjI) (auto simp: store')
  qed
qed

lemma sound_empty: "sound_store sha empty_store view"
  using store_ok_empty by (simp add: sound_store_def lineage_ok_def) (simp add: empty_store_def)

lemma reachable_sound: "(log_step sha)\<^sup>*\<^sup>* empty_store store \<Longrightarrow> \<exists>view. sound_store sha store view"
  by (induction rule: rtranclp_induct) (use sound_empty log_step_extends in blast)+

lemma read_everything_view:
  assumes "sound_store sha store view" and "head_at store (lid, hd') = Some row"
  shows "readLog store lid hd' read_everything = Inr (view (lid, hd'))"
proof -
  have "filter (logEventWhere read_everything) (view (lid, hd')) = view (lid, hd')"
    using chain_seq_bounds [OF head_view(1) [OF sound_storeD(2) [OF assms(1)] assms(2)]]
    by (intro filter_True) (auto simp: logEventWhere_def read_everything_def option_or_def)
  then show ?thesis
    using readLog_view [OF sound_storeD(2) [OF assms(1)] sound_storeD(3) [OF assms(1)] assms(2), of read_everything]
    by (simp add: limited_def positive_limit_def read_everything_def)
qed

lemma getLogHead_head:
  "getLogHead store lid hd' = Some info \<Longrightarrow>
     \<exists>row. head_at store (lid, hd') = Some row \<and> hi_seq info = lh_currentSeq row \<and> hi_hash info = lh_currentHash row \<and>
       hi_forkSeq info = lh_forkSeq row \<and> hi_forkHash info = lh_forkHash row"
  by (auto simp: getLogHead_def head_at_def headPointer_def split: option.splits)

text \<open>Reading a head of any store reached by appends and forks gives one hash chain from genesis, inherited prefix
  included: positions 1, 2, ... without a gap, each event linked to the one before, ending at the position and hash
  that \<open>getLogHead\<close> reports.\<close>

theorem reading_a_head_is_a_chain:
  assumes "(log_step sha)\<^sup>*\<^sup>* empty_store store" and "getLogHead store lid hd' = Some info"
  shows "\<exists>events. readLog store lid hd' read_everything = Inr events \<and> chain sha 0 GENESIS_EVENT_HASH events \<and>
     chain_end 0 GENESIS_EVENT_HASH events = (hi_seq info, hi_hash info)"
proof -
  obtain view where sound: "sound_store sha store view" using reachable_sound [OF assms(1)] by blast
  obtain row where row: "head_at store (lid, hd') = Some row" "hi_seq info = lh_currentSeq row" "hi_hash info = lh_currentHash row"
    using getLogHead_head [OF assms(2)] by blast
  show ?thesis
    using read_everything_view [OF sound row(1)] head_view [OF sound_storeD(2) [OF sound] row(1)] row(2,3) by auto
qed


text \<open>C16: A new fork reads exactly the events of its source up to the fork position, without a row being copied.\<close>

theorem fork_reads_the_prefix:
  assumes "(log_step sha)\<^sup>*\<^sup>* empty_store store" and fork: "forkLog env store input = Inr (store', result)"
    and new: "getLogHead store (fk_toLogId input) (fk_toHead input) = None"
    and at: "\<forall>n. fk_atSeq input = Some n \<longrightarrow> 0 \<le> n"
  shows "\<exists>events. readLog store (fk_fromLogId input) (fk_fromHead input) read_everything = Inr events \<and>
     readLog store' (fk_toLogId input) (fk_toHead input) read_everything =
       Inr (filter (\<lambda>event. ev_seq event \<le> fr_forkSeq result) events)"
proof -
  obtain view where sound: "sound_store sha store view" using reachable_sound [OF assms(1)] by blast
  let ?to = "(fk_toLogId input, fk_toHead input)"
  have none: "head_at store ?to = None"
    using new by (auto simp: getLogHead_def head_at_def split: option.splits prod.splits)
  obtain source where source: "head_at store (fk_fromLogId input, fk_fromHead input) = Some source"
    by (rule forkLog_new [OF fork none]) blast
  define view' where "view' = view(?to := upto_seq (fr_forkSeq result) (view (fk_fromLogId input, fk_fromHead input)))"
  have sound': "sound_store sha store' view'"
    using fork_lineage [OF fork none sound_storeD(2) [OF sound] sound_storeD(1) [OF sound] at]
      forkLog_ok [OF fork sound_storeD(1) [OF sound]] by (simp add: sound_store_def view'_def)
  obtain row where "head_at store' ?to = Some row"
  proof (rule forkLog_new [OF fork none])
    fix source hash eid
    assume "store' = store\<lparr>st_heads := st_heads store @
        [forkRow input source (option_or (fk_atSeq input) (lh_currentSeq source)) hash eid]\<rparr>"
    then show thesis using that none by (simp add: head_at_add forkRow_def lh_key_def)
  qed
  then show ?thesis
    using read_everything_view [OF sound source] read_everything_view [OF sound'] by (auto simp: view'_def upto_seq_def)
qed
subsection \<open>Samples\<close>

definition sample_fork :: fork_input where
  "sample_fork = \<lparr> fk_fromLogId = ''log'', fk_fromHead = ''main'', fk_toLogId = ''log'', fk_toHead = ''fork'', fk_atSeq = None,
     fk_owner = JNull \<rparr>"

lemma sample_fork_ok:
  "\<exists>store result store' result' info. appendLogEvent sample_env empty_store sample_append = Inr (store, result) \<and>
     getLogHead store ''log'' ''main'' = Some info \<and> getLogHead store ''log'' ''fork'' = None \<and>
     forkLog sample_env store sample_fork = Inr (store', result')"
proof -
  have "(case appendLogEvent sample_env empty_store sample_append of Inl _ \<Rightarrow> False
     | Inr (store, result) \<Rightarrow> getLogHead store ''log'' ''main'' \<noteq> None \<and> getLogHead store ''log'' ''fork'' = None \<and>
         \<not> isl (forkLog sample_env store sample_fork))"
    by code_simp
  then obtain store result where app: "appendLogEvent sample_env empty_store sample_append = Inr (store, result)"
    and heads: "getLogHead store ''log'' ''main'' \<noteq> None" "getLogHead store ''log'' ''fork'' = None"
    and fork: "\<not> isl (forkLog sample_env store sample_fork)"
    by (auto split: sum.splits prod.splits)
  from heads(1) obtain info where "getLogHead store ''log'' ''main'' = Some info" by blast
  moreover from fork obtain store' result' where "forkLog sample_env store sample_fork = Inr (store', result')"
    by (cases "forkLog sample_env store sample_fork") auto
  ultimately show ?thesis using app heads(2) by blast
qed

lemma sample_reachable:
  "appendLogEvent sample_env empty_store sample_append = Inr (store, result) \<Longrightarrow> (log_step (sx_sha256 sample_env))\<^sup>*\<^sup>* empty_store store"
  by (rule r_into_rtranclp) (rule log_append [OF _ refl])

theorem reading_a_head_is_a_chain_witness:
  "\<exists>store events. readLog store ''log'' ''main'' read_everything = Inr events \<and>
     chain (sx_sha256 sample_env) 0 GENESIS_EVENT_HASH events"
proof -
  obtain store result info where "appendLogEvent sample_env empty_store sample_append = Inr (store, result)"
    "getLogHead store ''log'' ''main'' = Some info"
    using sample_fork_ok by blast
  from reading_a_head_is_a_chain [OF sample_reachable [OF this(1)] this(2)] show ?thesis by blast
qed


theorem fork_reads_the_prefix_witness:
  "\<exists>store store' result events. forkLog sample_env store sample_fork = Inr (store', result) \<and>
     readLog store ''log'' ''main'' read_everything = Inr events \<and>
     readLog store' ''log'' ''fork'' read_everything = Inr (filter (\<lambda>event. ev_seq event \<le> fr_forkSeq result) events)"
proof -
  obtain store result store' result' where app: "appendLogEvent sample_env empty_store sample_append = Inr (store, result)"
    and new: "getLogHead store ''log'' ''fork'' = None" and fork: "forkLog sample_env store sample_fork = Inr (store', result')"
    using sample_fork_ok by blast
  have fields: "fk_toLogId sample_fork = ''log''" "fk_toHead sample_fork = ''fork''" "fk_fromLogId sample_fork = ''log''"
    "fk_fromHead sample_fork = ''main''" "fk_atSeq sample_fork = None" by (simp_all add: sample_fork_def)
  from fork_reads_the_prefix [OF sample_reachable [OF app] fork, unfolded fields, OF new] fork show ?thesis by auto
qed

end
