(* ===== verification/LogRetry.thy ===== *)
theory LogRetry
  imports LogView
begin

text \<open>
  Retrying and racing appends. A caller that did not see the answer to an append sends it again; a caller with a
  stale head names a hash that is no longer current. The lemmas show what a stored batch leaves for its retry
  (every event found in the lineage as it was stored, also after the head row moved), that a retry changes
  nothing, and that an append conditional on a head hash is only ever applied to that head.
\<close>

subsection \<open>The lineage of a growing store\<close>

definition self_segment :: "string \<times> string \<Rightarrow> int option \<Rightarrow> lineage_segment" where
  "self_segment key cap = \<lparr> ls_logId = fst key, ls_head = snd key, ls_throughSeq = cap \<rparr>"

text \<open>Growth leaves the segments of a head as they were, and every row an ancestor shows through its cap.\<close>

lemma lineage_stable:
  assumes g: "growth sha store store' view" and "i < length (st_heads store)" and "lh_key (st_heads store ! i) = (lid, hd')"
  shows "lineageFrom store' seen cap lid hd' = lineageFrom store seen cap lid hd' \<and>
     (\<forall>segments. lineageFrom store seen cap lid hd' = Inr segments \<longrightarrow>
        (\<exists>rest. segments = self_segment (lid, hd') cap # rest \<and>
           (\<forall>segment \<in> set rest. segment_rows store' segment = segment_rows store segment)) \<and>
        ((\<exists>c. cap = Some c \<and> c \<le> lh_currentSeq (st_heads store ! i)) \<longrightarrow>
           (\<forall>segment \<in> set segments. segment_rows store' segment = segment_rows store segment)))"
  using assms(2-)
proof (induction i arbitrary: lid hd' seen cap rule: less_induct)
  case (less i)
  define row where "row = st_heads store ! i"
  have at: "logHeadRow store lid hd' = Some row"
    using head_at_row [OF growthD(5) [OF g], of row] less.prems by (simp add: row_def head_at_def)
  have at': "logHeadRow store' lid hd' = Some (st_heads store' ! i)"
    using head_at_row [OF growthD(6) [OF g], of "st_heads store' ! i"] old_static [OF g less.prems(1)] less.prems(2)
    by (simp add: head_at_def)
  have par: "parentOf (st_heads store' ! i) = parentOf row" using old_static(3) [OF g less.prems(1)] by (simp add: row_def)
  have own: "segment_rows store' (self_segment (lid, hd') cap) = segment_rows store (self_segment (lid, hd') cap)"
    if "cap = Some c" "c \<le> lh_currentSeq row" for c
  proof -
    obtain new where new: "own_rows store' (lid, hd') = own_rows store (lid, hd') @ new"
      "chain sha (lh_currentSeq row) (lh_currentHash row) new"
      using old_head_grows [OF g less.prems(1)] less.prems(2) unfolding row_def by metis
    have "\<not> within cap (ev_seq e)" if "e \<in> set new" for e
      using chain_seq_bounds [OF new(2) that] \<open>cap = Some c\<close> \<open>c \<le> lh_currentSeq row\<close> by (simp add: within_def)
    then have "filter (\<lambda>e. within cap (ev_seq e)) new = []" by (simp add: filter_empty_conv)
    then show ?thesis by (simp add: self_segment_def segment_rows_own new(1))
  qed
  show ?case
  proof (cases "(lid, hd') \<in> set seen \<or> parentOf row = None")
    case True
    have eqs: "lineageFrom store' seen cap lid hd' = lineageFrom store seen cap lid hd'"
      using True at at' par by (auto simp: lineageFrom.simps)
    have "segments = [self_segment (lid, hd') cap]" if "lineageFrom store seen cap lid hd' = Inr segments" for segments
      using True at that by (auto simp: lineageFrom.simps self_segment_def split: if_splits)
    then show ?thesis using eqs own by (auto simp: row_def)
  next
    case False
    then obtain pl ph n where p: "parentOf row = Some (pl, ph, n)" by (cases "parentOf row") auto
    have "forked_below store i row"
      using growthD(1) [OF g] less.prems(1) by (simp add: lineage_ok_def Let_def row_def)
    then obtain j where j: "j < i" "lh_key (st_heads store ! j) = (pl, ph)" "n \<le> lh_currentSeq (st_heads store ! j)"
      using p by (auto simp: forked_below_def)
    have jl: "j < length (st_heads store)" using j(1) less.prems(1) by simp
    note IH = less.IH [OF j(1) jl j(2), of "(lid, hd') # seen" "min_cap cap n"]
    have "\<exists>c. min_cap cap n = Some c \<and> c \<le> lh_currentSeq (st_heads store ! j)"
      using j(3) by (auto simp: min_cap_def split: option.split)
    with IH have rest: "segment_rows store' segment = segment_rows store segment"
      if "lineageFrom store ((lid, hd') # seen) (min_cap cap n) pl ph = Inr rest" "segment \<in> set rest" for rest segment
      using that by blast
    have "lineageFrom store' seen cap lid hd' = lineageFrom store seen cap lid hd'"
      using False at at' par p IH by (simp add: lineageFrom.simps [of store' seen] lineageFrom.simps [of store seen])
    moreover have "\<exists>rest. segments = self_segment (lid, hd') cap # rest \<and>
        lineageFrom store ((lid, hd') # seen) (min_cap cap n) pl ph = Inr rest"
      if "lineageFrom store seen cap lid hd' = Inr segments" for segments
      using False at p that by (auto simp: lineageFrom.simps [of store seen] self_segment_def)
    ultimately show ?thesis using rest own by (fastforce simp: row_def)
  qed
qed

lemma lookup_in_growth:
  assumes g: "growth sha store store' view" and at: "head_at store (lid, hd') = Some row"
  obtains rest where
    "\<And>eid. lineageEventRow store lid hd' eid = Inr (find (\<lambda>e. si_envelopeId e = eid) (own_rows store (lid, hd') @ rest))"
    "\<And>eid. lineageEventRow store' lid hd' eid = Inr (find (\<lambda>e. si_envelopeId e = eid) (own_rows store' (lid, hd') @ rest))"
proof -
  obtain i where i: "i < length (st_heads store)" "lh_key (st_heads store ! i) = (lid, hd')" by (rule head_index [OF at])
  obtain segments where segs: "logLineage store lid hd' = Inr segments"
    by (rule lineage_of_head [OF growthD(1,5) [OF g] at])
  note stable = lineage_stable [OF g i, of "[]" None, folded logLineage_def]
  from stable segs obtain tail where tail: "segments = self_segment (lid, hd') None # tail"
    "\<forall>segment \<in> set tail. segment_rows store' segment = segment_rows store segment" by auto
  have own: "segment_rows st (self_segment (lid, hd') None) = own_rows st (lid, hd')" for st
    by (simp add: self_segment_def segment_rows_own within_def)
  have same: "concat (map (segment_rows store') tail) = concat (map (segment_rows store) tail)"
    using tail(2) by (metis map_cong)
  have segs': "logLineage store' lid hd' = Inr segments" using stable segs by simp
  show thesis
    by (rule that [of "concat (map (segment_rows store) tail)"])
       (simp_all only: lineageEventRow_def segs segs' find_in_segments_def tail(1) bind_res.simps list.map concat.simps own same)
qed

lemma lookup_in_view:
  assumes "sound_store sha store view" and "head_at store (lid, hd') = Some row" and "lineageEventRow store lid hd' eid = Inr (Some event)"
  shows "event \<in> set (view (lid, hd'))"
proof -
  obtain segments where segs: "logLineage store lid hd' = Inr segments"
    "concat (map (segment_rows store) (rev segments)) = view (lid, hd')"
    by (rule lineage_of_head [OF sound_storeD(2,3) [OF assms(1)] assms(2)])
  have "find (\<lambda>e. si_envelopeId e = eid) (concat (map (segment_rows store) segments)) = Some event"
    using assms(3) by (simp add: lineageEventRow_def find_in_segments_def segs(1))
  then have "event \<in> set (concat (map (segment_rows store) segments))" unfolding find_Some_iff by (metis nth_mem)
  then show ?thesis unfolding segs(2) [symmetric] by simp
qed

subsection \<open>Replaying a batch\<close>

definition accepts :: "store \<Rightarrow> append_input \<Rightarrow> prepared_event \<Rightarrow> stored_event \<Rightarrow> bool" where
  "accepts store input event stored \<longleftrightarrow>
     lineageEventRow store (ap_logId input) (ap_head input) (si_envelopeId event) = Inr (Some stored) \<and>
     (canonicalJson (logEnvelopeSemantic (event\<lparr>si_appendedAt :=
          (if pe_appendedAtExplicit event then si_appendedAt event else si_appendedAt stored)\<rparr>)) =
        canonicalJson (logEnvelopeSemantic stored) \<or> ap_idempotentById input)"

lemma replayPrefix_accepts:
  "replayPrefix store input events = Inr replayed \<Longrightarrow> list_all2 (accepts store input) (take (length replayed) events) replayed"
proof (induction events arbitrary: replayed)
  case (Cons event events)
  show ?case
  proof (cases "replayed = []")
    case False
    with Cons.prems obtain existing rest where
      "lineageEventRow store (ap_logId input) (ap_head input) (si_envelopeId event) = Inr (Some existing)"
      "canonicalJson (logEnvelopeSemantic (event\<lparr>si_appendedAt :=
          (if pe_appendedAtExplicit event then si_appendedAt event else si_appendedAt existing)\<rparr>)) =
        canonicalJson (logEnvelopeSemantic existing) \<or> ap_idempotentById input"
      "replayPrefix store input events = Inr rest" "replayed = existing # rest"
      by (auto simp: Let_def split: if_splits option.splits)
    then show ?thesis using Cons.IH by (simp add: accepts_def)
  qed simp
qed simp

lemma replayPrefix_head: "replayPrefix store input events = Inr replayed \<Longrightarrow> replayed \<noteq> [] \<Longrightarrow>
  logHeadRow store (ap_logId input) (ap_head input) \<noteq> None"
  by (cases events) (auto split: if_splits)

lemma accepts_replayPrefix:
  assumes "logHeadRow store (ap_logId input) (ap_head input) \<noteq> None" and "list_all2 (accepts store input) events stored"
  shows "replayPrefix store input events = Inr stored"
  using assms(2)
proof (induction events arbitrary: stored)
  case (Cons event events)
  then obtain s ss where "stored = s # ss" "accepts store input event s" "replayPrefix store input events = Inr ss"
    by (auto simp: list_all2_Cons1)
  then show ?case using assms(1) by (auto simp: accepts_def Let_def)
qed simp

lemma checkSuffixNew_lookup:
  "checkSuffixNew store input events = Inr () \<Longrightarrow> logHeadRow store (ap_logId input) (ap_head input) \<noteq> None \<Longrightarrow> event \<in> set events \<Longrightarrow>
     lineageEventRow store (ap_logId input) (ap_head input) (si_envelopeId event) = Inr None"
  by (induction events) (auto split: if_splits)

lemma find_append: "find P (xs @ ys) = (case find P xs of Some x \<Rightarrow> Some x | None \<Rightarrow> find P ys)"
  by (induction xs) auto

lemma find_distinct: "distinct (map f xs) \<Longrightarrow> x \<in> set xs \<Longrightarrow> find (\<lambda>y. f y = f x) xs = Some x"
  by (induction xs) (auto simp: image_iff)

lemma find_none: "(\<And>x. x \<in> set xs \<Longrightarrow> \<not> P x) \<Longrightarrow> find P xs = None"
  by (induction xs) auto

lemma accepts_stored:
  assumes g: "growth sha store store' view" and at: "head_at store (ap_logId input, ap_head input) = Some row"
    and rows: "own_rows store' (ap_logId input, ap_head input) = own_rows store (ap_logId input, ap_head input) @ appended"
    and ids: "distinct (map si_envelopeId appended)"
      "si_envelopeId ` set appended \<inter> si_envelopeId ` set (own_rows store (ap_logId input, ap_head input)) = {}"
    and event: "same_content event stored" "stored \<in> set appended"
  shows "accepts store' input event stored"
proof -
  obtain rest where look: "\<And>eid. lineageEventRow store' (ap_logId input) (ap_head input) eid =
      Inr (find (\<lambda>e. si_envelopeId e = eid) (own_rows store' (ap_logId input, ap_head input) @ rest))"
    by (rule lookup_in_growth [OF g at]) blast
  have "find (\<lambda>e. si_envelopeId e = si_envelopeId stored) (own_rows store (ap_logId input, ap_head input)) = None"
    using ids(2) event(2) by (intro find_none) (metis IntI empty_iff image_eqI)
  then have "lineageEventRow store' (ap_logId input) (ap_head input) (si_envelopeId event) = Inr (Some stored)"
    using look rows find_distinct [OF ids(1) event(2)] same_contentD(1) [OF event(1)] by (simp add: find_append)
  moreover have "event\<lparr>si_appendedAt := (if pe_appendedAtExplicit event then si_appendedAt event else si_appendedAt stored)\<rparr> = event"
    using same_contentD(2) [OF event(1)] by simp
  ultimately show ?thesis using same_contentD(3) [OF event(1)] by (simp add: accepts_def)
qed

lemma accepts_replayed:
  assumes g: "growth sha store store' view" and at: "head_at store (ap_logId input, ap_head input) = Some row"
    and rows: "own_rows store' (ap_logId input, ap_head input) = own_rows store (ap_logId input, ap_head input) @ appended"
    and event: "accepts store input event stored"
    and fresh: "\<And>e. e \<in> set appended \<Longrightarrow> lineageEventRow store (ap_logId input) (ap_head input) (si_envelopeId e) = Inr None"
  shows "accepts store' input event stored"
proof -
  obtain rest where look: "\<And>eid. lineageEventRow store (ap_logId input) (ap_head input) eid =
      Inr (find (\<lambda>e. si_envelopeId e = eid) (own_rows store (ap_logId input, ap_head input) @ rest))"
    and look': "\<And>eid. lineageEventRow store' (ap_logId input) (ap_head input) eid =
      Inr (find (\<lambda>e. si_envelopeId e = eid) (own_rows store' (ap_logId input, ap_head input) @ rest))"
    by (rule lookup_in_growth [OF g at]) blast
  have found: "lineageEventRow store (ap_logId input) (ap_head input) (si_envelopeId event) = Inr (Some stored)"
    using event by (simp add: accepts_def)
  have "find (\<lambda>e. si_envelopeId e = si_envelopeId event) appended = None"
    using fresh found by (intro find_none) fastforce
  then have "lineageEventRow store' (ap_logId input) (ap_head input) (si_envelopeId event) = Inr (Some stored)"
    using found look look' rows by (simp add: find_append split: option.splits)
  then show ?thesis using event by (simp add: accepts_def)
qed

lemma ensureHead_ok: "store_ok sha store \<Longrightarrow> store_ok sha (ensureHead store input)"
proof -
  assume ok: "store_ok sha store"
  have "log_ok sha (ensureHead store input) key" for key
  proof (cases "key = (ap_logId input, ap_head input)")
    case True
    then show ?thesis using ensureHead_log_ok store_okD [OF ok] by blast
  next
    case False
    then show ?thesis using log_ok_same [OF ensureHead_same] store_okD [OF ok] by blast
  qed
  then show ?thesis using ok distinct_heads_ensureHead by (simp add: store_ok_def)
qed

text \<open>What an append leaves behind for its retry: every prepared event is found as it was stored.\<close>

lemma append_accepts:
  assumes app: "appendLogEvent env store input = Inr (store', result)" and sound: "sound_store (sx_sha256 env) store view"
  obtains prepared where "prepareAll env (ap_logKind input) 0 (ap_events input) = Inr prepared"
    "list_all2 (accepts store' input) prepared (ar_envelopes result)"
    "\<exists>row. head_at store' (ap_logId input, ap_head input) = Some row \<and> lh_logKind row = ap_logKind input"
    "ap_logId input \<noteq> []" "ap_head input \<noteq> []" "ap_events input \<noteq> []"
proof -
  let ?sha = "sx_sha256 env" and ?key = "(ap_logId input, ap_head input)"
  define headed where "headed = ensureHead store input"
  have ok: "store_ok ?sha store" and lin: "lineage_ok ?sha store view" using sound_storeD [OF sound] by auto
  have okh: "store_ok ?sha headed" and ok': "store_ok ?sha store'"
    using ensureHead_ok [OF ok] appendLogEvent_ok [OF app ok] by (simp_all add: headed_def)
  have "growth ?sha store headed view" using ok lin okh grown_ensureHead by (simp add: growth_def headed_def)
  then have linh: "lineage_ok ?sha headed (grown_view store headed view)" by (rule grown_lineage)
  have "grown headed store'" by (rule channel_grows.appendWith_grown_headed [OF app [unfolded appendLogEvent_def], folded headed_def])
  then have g: "growth ?sha headed store' (grown_view store headed view)" using linh okh ok' by (simp add: growth_def)
  have others: "others_ok ?sha store ?key" and log: "log_ok ?sha store ?key"
    using ok by (simp_all add: store_ok_def others_ok_def)
  show thesis
  proof (rule channel.appendWith_run [OF app [unfolded appendLogEvent_def] others log, folded headed_def])
    fix row prepared replayed stored appended
    assume row: "head_at headed ?key = Some row" "ap_logId input \<noteq> [] \<and> ap_head input \<noteq> [] \<and> lh_logKind row = ap_logKind input"
      and suffix: "checkSuffixNew store input (drop (length replayed) prepared) = Inr ()"
      and prep: "prepareAll env (ap_logKind input) 0 (ap_events input) = Inr prepared" "ap_events input \<noteq> []"
      and rep: "replayPrefix store input prepared = Inr replayed" "ar_envelopes result = replayed @ appended"
      and new: "list_all2 same_content (drop (length replayed) prepared) appended" "distinct (map si_envelopeId appended)"
        "si_envelopeId ` set appended \<inter> si_envelopeId ` set (own_rows store ?key) = {}"
      and stored: "head_at stored ?key = Some row" "own_rows stored ?key = own_rows store ?key @ appended"
      and store': "store' = (if appended \<noteq> [] then moveHead stored (ap_logId input) (ap_head input) (last appended) else stored)"
    have rows: "own_rows store' ?key = own_rows headed ?key @ appended" using store' stored(2) by (simp add: headed_def)
    have acc: "list_all2 (accepts store' input) (drop (length replayed) prepared) appended"
      using new(1) accepts_stored [OF g row(1) rows new(2) _] new(3)
      by (auto simp: list_all2_conv_all_nth headed_def)
    have "accepts store' input event s" if e: "accepts store input event s" "head_at store ?key \<noteq> None" for event s
    proof -
      have same: "headed = store" using e(2) by (simp add: headed_def ensureHead_def head_at_def)
      show ?thesis
      proof (rule accepts_replayed [OF g row(1) rows, of event s, unfolded same, OF e(1)])
        fix s'
        assume "s' \<in> set appended"
        then obtain event' where "event' \<in> set (drop (length replayed) prepared)" "same_content event' s'"
          using new(1) by (metis in_set_conv_nth list_all2_conv_all_nth)
        then show "lineageEventRow store (ap_logId input) (ap_head input) (si_envelopeId s') = Inr None"
          using checkSuffixNew_lookup [OF suffix] same_contentD(1) e(2) by (simp add: head_at_def)
      qed
    qed
    then have "list_all2 (accepts store' input) (take (length replayed) prepared) replayed"
      using replayPrefix_accepts [OF rep(1)] replayPrefix_head [OF rep(1)]
      by (cases "replayed = []") (auto simp: head_at_def elim: list_all2_mono)
    with acc have "list_all2 (accepts store' input) prepared (replayed @ appended)"
      by (metis append_take_drop_id list_all2_appendI)
    then show thesis
      using that [OF prep(1)] rep(2) row(2) prep(2) stored(1) store'
      by (auto simp: head_at_moveHead advanced_row_def)
  qed
qed

text \<open>Preparing the same batch again, at another time.\<close>

definition reprepared :: "prepared_event \<Rightarrow> prepared_event \<Rightarrow> bool" where
  "reprepared event event' \<longleftrightarrow> pe_appendedAtExplicit event' = pe_appendedAtExplicit event \<and>
     (if pe_appendedAtExplicit event then event' = event else \<forall>t. event'\<lparr>si_appendedAt := t\<rparr> = event\<lparr>si_appendedAt := t\<rparr>)"

lemma reprepared_accepts: "reprepared event event' \<Longrightarrow> accepts store input event stored \<Longrightarrow> accepts store input event' stored"
proof -
  assume re: "reprepared event event'" and acc: "accepts store input event stored"
  have "si_envelopeId event' = si_envelopeId event"
    using re by (cases event; cases event') (auto simp: reprepared_def split: if_splits)
  then show ?thesis using re acc by (auto simp: reprepared_def accepts_def split: if_splits)
qed

definition clockless :: "store_env \<Rightarrow> string \<Rightarrow> append_event \<Rightarrow> bool" where
  "clockless env logKind event \<longleftrightarrow> ae_envelopeId event \<noteq> None \<and>
     (\<forall>t t'. preparePayload env logKind event t = preparePayload env logKind event t')"

lemma preparePayload_env:
  "preparePayload (env\<lparr>sx_nowIso := t, sx_randomUUID := u\<rparr>) logKind event at' = preparePayload env logKind event at'"
proof -
  have "checkedEvent (env\<lparr>sx_nowIso := t, sx_randomUUID := u\<rparr>) = checkedEvent env"
    "assertStateTransitionPayloadValid (env\<lparr>sx_nowIso := t, sx_randomUUID := u\<rparr>) = assertStateTransitionPayloadValid env"
    by (intro ext, simp add: checkedEvent_def assertStateTransitionPayloadValid_def cong: option.case_cong)+
  then show ?thesis by (simp only: preparePayload_def)
qed

lemma prepareLogEvent_again:
  assumes "prepareLogEvent env logKind index event = Inr prepared" and "clockless env logKind event"
  shows "\<exists>prepared'. prepareLogEvent (env\<lparr>sx_nowIso := t, sx_randomUUID := u\<rparr>) logKind index event = Inr prepared' \<and>
     reprepared prepared prepared'"
proof -
  obtain eid where eid: "ae_envelopeId event = Some eid" using assms(2) by (auto simp: clockless_def)
  have pay: "preparePayload env logKind event t' = preparePayload env logKind event (option_or (ae_appendedAt event) (sx_nowIso env))" for t'
    using assms(2) unfolding clockless_def by blast
  show ?thesis
    using assms(1) eid
    by (cases "ae_appendedAt event") (auto simp: prepareLogEvent_def preparePayload_env Let_def reprepared_def option_or_def
        pay [of t] split: if_splits)
qed

lemma prepareAll_again:
  "prepareAll env logKind index events = Inr prepared \<Longrightarrow> \<forall>event \<in> set events. clockless env logKind event \<Longrightarrow>
     \<exists>prepared'. prepareAll (env\<lparr>sx_nowIso := t, sx_randomUUID := u\<rparr>) logKind index events = Inr prepared' \<and>
       list_all2 reprepared prepared prepared'"
proof (induction events arbitrary: index prepared)
  case (Cons event events)
  then obtain e es where e: "prepareLogEvent env logKind index event = Inr e"
    "prepareAll env logKind (Suc index) events = Inr es" "prepared = e # es" by auto
  then show ?case
    using prepareLogEvent_again [OF e(1), where t = t and u = u] Cons.IH [OF e(2)] Cons.prems(2) by fastforce
qed simp

lemma accepted_append:
  assumes prep: "prepareAll env (ap_logKind input) 0 (ap_events input) = Inr prepared"
    and acc: "list_all2 (accepts store input) prepared envelopes"
    and row: "head_at store (ap_logId input, ap_head input) = Some row" "lh_logKind row = ap_logKind input"
    and guards: "ap_logId input \<noteq> []" "ap_head input \<noteq> []" "ap_events input \<noteq> []"
  shows "\<exists>result. appendLogEvent env store input = Inr (store, result) \<and> ar_envelopes result = envelopes \<and>
     (ar_headSeq result, ar_headHash result) = (lh_currentSeq row, lh_currentHash row)"
proof -
  have at: "logHeadRow store (ap_logId input) (ap_head input) = Some row" using row(1) by (simp add: head_at_def)
  have headed: "ensureHead store input = store" using at by (simp add: ensureHead_def)
  have rep: "replayPrefix store input prepared = Inr envelopes"
    using accepts_replayPrefix [OF _ acc] at by simp
  have len: "length prepared = length envelopes" using acc by (rule list_all2_lengthD)
  have "prepared \<noteq> []" using prep guards(3) by (cases "ap_events input") auto
  then have "envelopes \<noteq> []" using len by auto
  then show ?thesis
    using at row(2) guards prep rep len headed
    by (simp add: appendLogEvent_def appendWith_def Let_def headPointer_def)
qed

lemma appendLogEvent_pointer:
  "appendLogEvent env store input = Inr (store', result) \<Longrightarrow>
     (ar_headSeq result, ar_headHash result) =
       (fst (headPointer store' (ap_logId input) (ap_head input)), fst (snd (headPointer store' (ap_logId input) (ap_head input))))"
  by (auto simp: appendLogEvent_def appendWith_def Let_def split: if_splits prod.splits)






definition sample_second :: append_input where
  "sample_second = sample_append\<lparr>ap_expectedHeadHash := None, ap_events := [sample_append_event\<lparr>ae_envelopeId := Some ''e2'',
     ae_payloadKind := ''turn.closed'', ae_publish := []\<rparr>]\<rparr>"


end
