(* ===== verification/FoldCache.thy ===== *)
theory FoldCache
  imports Fold LogRetry
begin

text \<open>
  The fold cache (\<open>agentic-do/src/fold-cache.ts\<close>), through which the driver loads the state of a loop: the table of
  cached states, the paged read of a log and \<open>loadState\<close>, which validates the cached state against the head the
  log store reports and otherwise folds the tail or the whole log. The port to the log store is the store's own
  model; the calls of one load see one state of it. The paging loop is shown to end and to return the log.
\<close>

subsection \<open>Envelopes across the port\<close>

text \<open>The loop's event kinds are the payload kinds of the log.\<close>

fun kind_name :: "event_kind \<Rightarrow> string" where
  "kind_name MessageStarted = ''message.started''"
| "kind_name MessageDelta = ''message.delta''"
| "kind_name MessageCompleted = ''message.completed''"
| "kind_name MessageFailed = ''message.failed''"
| "kind_name MessageEdited = ''message.edited''"
| "kind_name MessageRetracted = ''message.retracted''"
| "kind_name InvocationStarted = ''invocation.started''"
| "kind_name InvocationCompleted = ''invocation.completed''"
| "kind_name InvocationFailed = ''invocation.failed''"
| "kind_name InvocationCancelled = ''invocation.cancelled''"
| "kind_name InvocationAbandoned = ''invocation.abandoned''"
| "kind_name ApprovalRequested = ''approval.requested''"
| "kind_name ApprovalResolved = ''approval.resolved''"
| "kind_name TurnOpened = ''turn.opened''"
| "kind_name TurnWaiting = ''turn.waiting''"
| "kind_name TurnClosed = ''turn.closed''"
| "kind_name SystemEvent = ''system.event''"
| "kind_name CompactionRecorded = ''system.compaction_recorded''"
| "kind_name (OtherEvent s) = s"

definition KNOWN_KINDS :: "event_kind list" where
  "KNOWN_KINDS = [MessageStarted, MessageDelta, MessageCompleted, MessageFailed, MessageEdited, MessageRetracted,
     InvocationStarted, InvocationCompleted, InvocationFailed, InvocationCancelled, InvocationAbandoned,
     ApprovalRequested, ApprovalResolved, TurnOpened, TurnWaiting, TurnClosed, SystemEvent, CompactionRecorded]"

definition kind_of :: "string \<Rightarrow> event_kind" where
  "kind_of s = (case find (\<lambda>k. kind_name k = s) KNOWN_KINDS of Some k \<Rightarrow> k | None \<Rightarrow> OtherEvent s)"

lemma kind_of_name: "k \<in> set KNOWN_KINDS \<Longrightarrow> kind_of (kind_name k) = k"
proof -
  have "list_all (\<lambda>k. kind_of (kind_name k) = k) KNOWN_KINDS" by code_simp
  then show "k \<in> set KNOWN_KINDS \<Longrightarrow> ?thesis" by (simp add: list_all_iff)
qed

definition loopEnvelope :: "stored_event \<Rightarrow> log_envelope" where
  "loopEnvelope event =
     \<lparr> env_logId = ev_logId event, env_head = ev_head event, env_seq = ev_seq event,
       env_envelopeId = si_envelopeId event, env_actor = si_actor event, env_payloadKind = kind_of (si_payloadKind event),
       env_payload = si_payload event, env_causality = si_causality event, env_appendedAt = si_appendedAt event,
       env_prevHash = ev_prevHash event, env_hash = ev_hash event \<rparr>"

subsection \<open>Reading a log in pages\<close>

definition PAGE :: int where
  "PAGE = 500"

definition pageInput :: "int \<Rightarrow> read_input" where
  "pageInput cursor = \<lparr> ri_afterSeq = Some cursor, ri_beforeSeq = None, ri_limit = Some PAGE, ri_payloadKind = None \<rparr>"

lemma collectSegments_rows:
  "event \<in> set (collectSegments store input limit collected segments) \<Longrightarrow>
     event \<in> set collected \<or> event \<in> set (st_events store) \<and> logEventWhere input event"
proof (induction segments arbitrary: collected)
  case (Cons segment segments)
  have rows: "set (select_rows store input segment) \<subseteq> {e \<in> set (st_events store). logEventWhere input e}"
    by (auto simp: select_rows_def segment_rows_def)
  have "\<exists>more. set more \<subseteq> set (select_rows store input segment) \<and>
      (collectSegments store input limit collected (segment # segments) = collected \<or>
       collectSegments store input limit collected (segment # segments) = collectSegments store input limit (collected @ more) segments)"
  proof (cases limit)
    case (Some n)
    then show ?thesis by (intro exI [of _ "take (n - length collected) (select_rows store input segment)"]) (simp add: set_take_subset)
  qed auto
  then show ?case using Cons rows by fastforce
qed simp

lemma readLog_rows:
  "readLog store lid hd' input = Inr page \<Longrightarrow> event \<in> set page \<Longrightarrow> event \<in> set (st_events store) \<and> logEventWhere input event"
  by (auto simp: readLog_def dest!: collectSegments_rows)

lemma bind_res_cong [fundef_cong]:
  "m = m' \<Longrightarrow> (\<And>x. m' = Inr x \<Longrightarrow> f x = g x) \<Longrightarrow> bind_res m f = bind_res m' g"
  by (cases m') auto

function readAll :: "store \<Rightarrow> string \<Rightarrow> string \<Rightarrow> int \<Rightarrow> stored_event list res" where
  "readAll store lid hd' cursor =
     bind_res (readLog store lid hd' (pageInput cursor)) (\<lambda>page.
       if page = [] then Inr []
       else if int (length page) < PAGE then Inr page
       else bind_res (readAll store lid hd' (ev_seq (last page))) (\<lambda>rest. Inr (page @ rest)))"
  by pat_completeness auto
termination readAll
proof (relation "measure (\<lambda>(store, lid, hd', cursor). length (filter (\<lambda>event. cursor < ev_seq event) (st_events store)))")
  fix store lid hd' cursor page
  assume page: "readLog store lid hd' (pageInput cursor) = Inr page" "page \<noteq> []" and "\<not> int (length page) < PAGE"
  have "last page \<in> set (st_events store)" "cursor < ev_seq (last page)"
    using readLog_rows [OF page(1), of "last page"] page(2) by (simp_all add: logEventWhere_def pageInput_def option_or_def)
  then show "((store, lid, hd', ev_seq (last page)), (store, lid, hd', cursor))
      \<in> measure (\<lambda>(store, lid, hd', cursor). length (filter (\<lambda>event. cursor < ev_seq event) (st_events store)))"
    using filter_shorter [of "last page" "st_events store" "\<lambda>event. cursor < ev_seq event" "\<lambda>event. ev_seq (last page) < ev_seq event"]
    by simp
qed simp

declare readAll.simps [simp del]

subsection \<open>The cache table\<close>

text \<open>A row of \<open>fold_cache\<close>; the state is absent where the stored text does not parse.\<close>

record fold_cache_row =
  fc_logId :: string
  fc_head :: string
  fc_foldedSeq :: int
  fc_headHash :: string
  fc_state :: "agent_state option"
  fc_updatedAt :: int

type_synonym fold_cache = "fold_cache_row list"

definition fc_key :: "fold_cache_row \<Rightarrow> string \<times> string" where
  "fc_key row = (fc_logId row, fc_head row)"

definition cache_write :: "int \<Rightarrow> agent_state \<Rightarrow> fold_cache \<Rightarrow> fold_cache" where
  "cache_write now state cache =
     filter (\<lambda>row. fc_key row \<noteq> (logId state, head state)) cache
     @ [\<lparr> fc_logId = logId state, fc_head = head state, fc_foldedSeq = lastSeq state, fc_headHash = lastHash state,
          fc_state = Some state, fc_updatedAt = now \<rparr>]"

definition cache_read :: "fold_cache \<Rightarrow> string \<Rightarrow> string \<Rightarrow> agent_state option" where
  "cache_read cache lid hd' =
     (case find (\<lambda>row. fc_key row = (lid, hd')) cache of None \<Rightarrow> None | Some row \<Rightarrow> fc_state row)"

definition cache_delete :: "string \<Rightarrow> string \<Rightarrow> fold_cache \<Rightarrow> fold_cache" where
  "cache_delete lid hd' cache = filter (\<lambda>row. fc_key row \<noteq> (lid, hd')) cache"

subsection \<open>Loading a state\<close>

record load_input =
  li_logId :: string
  li_head :: string
  li_channelId :: string
  li_config :: json
  li_selfId :: "string option"

definition truthy_string :: "string option \<Rightarrow> string option" where
  "truthy_string v = (case v of Some s \<Rightarrow> if s = [] then None else Some s | None \<Rightarrow> None)"

definition remoteForkSeq :: "log_head_info option \<Rightarrow> int" where
  "remoteForkSeq remote = option_or (Option.bind remote hi_forkSeq) 0"

definition emptyState :: "load_input \<Rightarrow> log_head_info option \<Rightarrow> agent_state" where
  "emptyState input remote =
     initialAgentState
       \<lparr> in_channelId = li_channelId input, in_logId = Some (li_logId input), in_head = Some (li_head input),
         in_config = li_config input, in_forkSeq = Some (remoteForkSeq remote), in_lastSeq = Some (remoteForkSeq remote),
         in_lastHash = truthy_string (Option.bind remote hi_forkHash), in_selfId = truthy_string (li_selfId input) \<rparr>"

definition reloaded :: "load_input \<Rightarrow> int \<Rightarrow> agent_state \<Rightarrow> agent_state" where
  "reloaded input fork cached =
     cached\<lparr>forkSeq := fork,
       selfId := (case truthy_string (li_selfId input) of Some s \<Rightarrow> Some s | None \<Rightarrow> selfId cached),
       config := overlayInputConfig (config cached) (li_config input)\<rparr>"

definition foldStored :: "agent_state \<Rightarrow> stored_event list \<Rightarrow> agent_state res" where
  "foldStored state events = fold_res (\<lambda>st event. applyEvent st (loopEnvelope event)) state events"

definition coldRefold :: "store \<Rightarrow> agent_state \<Rightarrow> string \<Rightarrow> string \<Rightarrow> int \<Rightarrow> agent_state res" where
  "coldRefold store initial lid hd' fork =
     bind_res (readAll store lid hd' 0) (\<lambda>envelopes.
     bind_res (foldStored (initial\<lparr>lastSeq := 0,
         lastHash := (if envelopes \<noteq> [] then ev_prevHash (hd envelopes) else lastHash initial)\<rparr>) envelopes) (\<lambda>state.
       Inr ((if envelopes = [] then state\<lparr>lastSeq := fork\<rparr> else state)\<lparr>forkSeq := fork\<rparr>)))"

definition loadState :: "int \<Rightarrow> store \<Rightarrow> fold_cache \<Rightarrow> load_input \<Rightarrow> (fold_cache \<times> agent_state) res" where
  "loadState now store cache input =
     (let lid = li_logId input; hd' = li_head input; remote = getLogHead store lid hd';
          fork = remoteForkSeq remote; empty = emptyState input remote;
          cold = coldRefold store empty lid hd' fork;
          written = (\<lambda>state. Inr (cache_write now state cache, state))
      in case remote of
           None \<Rightarrow> Inr (cache, empty)
         | Some info \<Rightarrow>
             (case cache_read cache lid hd' of
                None \<Rightarrow> bind_res cold written
              | Some cached \<Rightarrow>
                  if lastSeq cached = hi_seq info \<and> lastHash cached = hi_hash info
                  then Inr (cache, reloaded input fork cached)
                  else if lastSeq cached < hi_seq info then
                    bind_res (readAll store lid hd' (lastSeq cached)) (\<lambda>tail.
                      if tail \<noteq> [] \<and> ev_prevHash (hd tail) \<noteq> lastHash cached then bind_res cold written
                      else bind_res (foldStored (reloaded input fork cached) tail) written)
                  else bind_res cold written))"


subsection \<open>Pages add up to the log\<close>

lemma sorted_filter_after:
  "sorted_wrt (<) (map ev_seq events) \<Longrightarrow> n < length events \<Longrightarrow>
     filter (\<lambda>e. ev_seq (events ! n) < ev_seq e) events = drop (Suc n) events"
proof (induction events arbitrary: n)
  case (Cons event events)
  show ?case
  proof (cases n)
    case 0
    then show ?thesis using Cons.prems by (auto intro: filter_True)
  next
    case (Suc m)
    then have "ev_seq event < ev_seq (events ! m)" using Cons.prems by auto
    then show ?thesis using Cons Suc by (simp add: order_less_imp_not_less)
  qed
qed simp

lemma chain_strict: "chain sha n h events \<Longrightarrow> sorted_wrt (<) (map ev_seq events)"
proof (induction events arbitrary: n h)
  case (Cons event events)
  then show ?case using chain_seq_bounds [of sha "ev_seq event" "ev_hash event" events] by auto
qed simp

lemma page_view:
  assumes "sound_store sha store view" and "head_at store (lid, hd') = Some row"
  shows "readLog store lid hd' (pageInput cursor) = Inr (take 500 (filter (\<lambda>e. cursor < ev_seq e) (view (lid, hd'))))"
proof -
  have "logEventWhere (pageInput cursor) = (\<lambda>e. cursor < ev_seq e)"
    by (simp add: fun_eq_iff logEventWhere_def pageInput_def option_or_def)
  then show ?thesis
    using readLog_view [OF sound_storeD(2,3) [OF assms(1)] assms(2), of "pageInput cursor"]
    by (simp add: limited_def positive_limit_def pageInput_def PAGE_def)
qed

lemma readAll_view:
  assumes sound: "sound_store sha store view" and at: "head_at store (lid, hd') = Some row"
  shows "readAll store lid hd' cursor = Inr (filter (\<lambda>e. cursor < ev_seq e) (view (lid, hd')))"
proof (induction "length (filter (\<lambda>e. cursor < ev_seq e) (view (lid, hd')))" arbitrary: cursor rule: less_induct)
  case less
  define after where "after = filter (\<lambda>e. cursor < ev_seq e) (view (lid, hd'))"
  have strict: "sorted_wrt (<) (map ev_seq after)"
    using chain_strict [OF head_view(1) [OF sound_storeD(2) [OF sound] at]]
    unfolding after_def by (metis filter_map sorted_wrt_filter filter_cong comp_apply)
  have page: "readLog store lid hd' (pageInput cursor) = Inr (take 500 after)"
    unfolding after_def by (rule page_view [OF sound at])
  show ?case
  proof (cases "length after < 500")
    case True
    then show ?thesis using page by (simp add: readAll.simps [of store lid hd' cursor] PAGE_def after_def [symmetric])
  next
    case False
    then have len: "length (take 500 after) = 500" by simp
    then have last: "last (take 500 after) = after ! 499" by (subst last_conv_nth) auto
    have "filter (\<lambda>e. ev_seq (after ! 499) < ev_seq e) after = drop 500 after"
      using sorted_filter_after [OF strict, of 499] False by simp
    moreover have "cursor < ev_seq (after ! 499)"
      using nth_mem [of 499 after] False unfolding after_def by simp
    ultimately have rest: "filter (\<lambda>e. ev_seq (after ! 499) < ev_seq e) (view (lid, hd')) = drop 500 after"
      unfolding after_def by (smt (verit) filter_cong filter_filter)
    have "readAll store lid hd' (ev_seq (after ! 499)) = Inr (drop 500 after)"
      using less [of "ev_seq (after ! 499)"] False by (simp add: rest after_def [symmetric])
    then show ?thesis
      using page len last by (simp add: readAll.simps [of store lid hd' cursor] PAGE_def after_def [symmetric])
  qed
qed


text \<open>C22: Reading a log page by page ends, and the pages are together what a single read of the log returns after
  the cursor: nothing is skipped or repeated at a page boundary.\<close>

theorem paging_returns_the_log:
  assumes "(log_step sha)\<^sup>*\<^sup>* empty_store store" and "getLogHead store lid hd' = Some info"
    and "readLog store lid hd' read_everything = Inr events"
  shows "readAll store lid hd' cursor = Inr (filter (\<lambda>event. cursor < ev_seq event) events)"
proof -
  obtain view where sound: "sound_store sha store view" using reachable_sound [OF assms(1)] by blast
  obtain row where row: "head_at store (lid, hd') = Some row" using getLogHead_head [OF assms(2)] by blast
  show ?thesis using readAll_view [OF sound row] read_everything_view [OF sound row] assms(3) by simp
qed

theorem paging_returns_the_log_witness:
  "\<exists>store events. readLog store ''log'' ''main'' read_everything = Inr events \<and>
     readAll store ''log'' ''main'' 0 = Inr (filter (\<lambda>event. 0 < ev_seq event) events)"
proof -
  obtain store result info where app: "appendLogEvent sample_env empty_store sample_append = Inr (store, result)"
    and info: "getLogHead store ''log'' ''main'' = Some info"
    using sample_fork_ok by blast
  obtain view where sound: "sound_store (sx_sha256 sample_env) store view" using reachable_sound [OF sample_reachable [OF app]] by blast
  obtain row where "head_at store (''log'', ''main'') = Some row" using getLogHead_head [OF info] by blast
  then have "readLog store ''log'' ''main'' read_everything = Inr (view (''log'', ''main''))"
    by (rule read_everything_view [OF sound])
  from paging_returns_the_log [OF sample_reachable [OF app] info this, of 0] this show ?thesis by blast
qed

end
