(* ===== verification/CacheLoad.thy ===== *)
theory CacheLoad
  imports FoldCache
begin

text \<open>
  What loading a state through the fold cache returns. The fold reads neither the configuration nor the fork
  position, so a state folded under another configuration still carries the right history; equal hashes mean
  equal history, so the head check and the link check of \<open>loadState\<close> detect a cached state that is not a prefix.
\<close>

subsection \<open>The fold leaves the configuration aside\<close>

definition eventConfig :: "log_envelope \<Rightarrow> json \<Rightarrow> json" where
  "eventConfig envelope c =
     (let payload = payloadRecord envelope; details = eventDetails payload; detailKind = detailKindOf payload in
      if env_payloadKind envelope \<noteq> SystemEvent then c
      else if detailKind = ''roster.snapshot'' then
        JObj (dput ''roster'' (coalesce (jget details ''roster'') (JObj [(''participants'', JArr [])])) (own_props c))
      else if detailKind = ''config.changed'' then JObj (jspread (own_props c) (own_props (jget details ''patch'')))
      else c)"

lemma withAdvance_config [simp]: "withAdvance (s\<lparr>config := c, forkSeq := f\<rparr>) e = (withAdvance s e)\<lparr>config := c, forkSeq := f\<rparr>"
  by (simp add: withAdvance_def)

lemma reads_config [simp]:
  "foreignAuthor (s\<lparr>config := c, forkSeq := f\<rparr>) e = foreignAuthor s e" "liveSenderRef (s\<lparr>config := c, forkSeq := f\<rparr>) sid = liveSenderRef s sid"
  "turnIdOrOpen (s\<lparr>config := c, forkSeq := f\<rparr>) e = turnIdOrOpen s e"
  by (simp_all add: foreignAuthor_def liveSenderRef_def turnIdOrOpen_def split: option.split)

lemma handlers_config:
  "foldTurnOpened (s\<lparr>config := c, forkSeq := f\<rparr>) e = (foldTurnOpened s e)\<lparr>config := c, forkSeq := f\<rparr>"
  "foldTurnClosed (s\<lparr>config := c, forkSeq := f\<rparr>) e = (foldTurnClosed s e)\<lparr>config := c, forkSeq := f\<rparr>"
  "foldTurnWaiting (s\<lparr>config := c, forkSeq := f\<rparr>) e = (foldTurnWaiting s e)\<lparr>config := c, forkSeq := f\<rparr>"
  "foldMessageFailed (s\<lparr>config := c, forkSeq := f\<rparr>) e = (foldMessageFailed s e)\<lparr>config := c, forkSeq := f\<rparr>"
  "foldInvocationTerminal (s\<lparr>config := c, forkSeq := f\<rparr>) e = (foldInvocationTerminal s e)\<lparr>config := c, forkSeq := f\<rparr>"
  "foldApprovalRequested (s\<lparr>config := c, forkSeq := f\<rparr>) e = (foldApprovalRequested s e)\<lparr>config := c, forkSeq := f\<rparr>"
  "foldApprovalResolved (s\<lparr>config := c, forkSeq := f\<rparr>) e = (foldApprovalResolved s e)\<lparr>config := c, forkSeq := f\<rparr>"
  "foldCompaction (s\<lparr>config := c, forkSeq := f\<rparr>) e = (foldCompaction s e)\<lparr>config := c, forkSeq := f\<rparr>"
  by (simp_all add: fold_handler_defs Let_def split: option.split json.split)

lemma message_handlers_config:
  "foldMessageCompleted (s\<lparr>config := c, forkSeq := f\<rparr>) e = (foldMessageCompleted s e)\<lparr>config := c, forkSeq := f\<rparr>"
  "foldMessageEdited (s\<lparr>config := c, forkSeq := f\<rparr>) e = (foldMessageEdited s e)\<lparr>config := c, forkSeq := f\<rparr>"
  "foldMessageRetracted (s\<lparr>config := c, forkSeq := f\<rparr>) e = (foldMessageRetracted s e)\<lparr>config := c, forkSeq := f\<rparr>"
  by (auto simp: foldMessageCompleted_def foldAssistantCompleted_def foldUserCompleted_def foldMessageEdited_def
      foldMessageRetracted_def Let_def split: option.split)

lemma throwing_handlers_config:
  "foldMessageStarted (s\<lparr>config := c, forkSeq := f\<rparr>) e = map_sum id (\<lambda>s'. s'\<lparr>config := c, forkSeq := f\<rparr>) (foldMessageStarted s e)"
  "foldInvocationStarted (s\<lparr>config := c, forkSeq := f\<rparr>) e = map_sum id (\<lambda>s'. s'\<lparr>config := c, forkSeq := f\<rparr>) (foldInvocationStarted s e)"
  by (simp_all add: foldMessageStarted_def foldInvocationStarted_def Let_def split: option.split)


lemma wait_handlers_config:
  "foldCredentialWaitStarted (s\<lparr>config := c, forkSeq := f\<rparr>) e = (foldCredentialWaitStarted s e)\<lparr>config := c, forkSeq := f\<rparr>"
  "foldCredentialWaitSettled (s\<lparr>config := c, forkSeq := f\<rparr>) e = (foldCredentialWaitSettled s e)\<lparr>config := c, forkSeq := f\<rparr>"
  by (simp_all add: foldCredentialWaitStarted_def foldCredentialWaitSettled_def Let_def split: option.split)

lemma foldSystemEvent_config:
  "env_payloadKind e = SystemEvent \<Longrightarrow>
     foldSystemEvent (s\<lparr>config := c, forkSeq := f\<rparr>) e = (foldSystemEvent s e)\<lparr>config := eventConfig e c, forkSeq := f\<rparr>"
  by (cases "openTurn s") (simp_all add: foldSystemEvent_def wait_handlers_config eventConfig_def Let_def)

lemma applyEvent_config:
  "applyEvent (s\<lparr>config := c, forkSeq := f\<rparr>) e = map_sum id (\<lambda>s'. s'\<lparr>config := eventConfig e c, forkSeq := f\<rparr>) (applyEvent s e)"
proof (cases "env_payloadKind e = SystemEvent")
  case True
  then show ?thesis by (simp add: applyEvent_def foldSystemEvent_config)
next
  case False
  then have "eventConfig e c = c" by (simp add: eventConfig_def Let_def)
  with False show ?thesis
    by (cases "env_payloadKind e")
       (simp_all add: applyEvent_def handlers_config message_handlers_config throwing_handlers_config)
qed

lemma map_sum_Inr_iff: "map_sum id g x = Inr y \<longleftrightarrow> (\<exists>z. x = Inr z \<and> y = g z)"
  by (cases x) auto

fun loggedConfig :: "stored_event list \<Rightarrow> json \<Rightarrow> json" where
  "loggedConfig [] c = c"
| "loggedConfig (event # events) c = loggedConfig events (eventConfig (loopEnvelope event) c)"

lemma foldStored_config:
  "foldStored (s\<lparr>config := c, forkSeq := f\<rparr>) events = map_sum id (\<lambda>s'. s'\<lparr>config := loggedConfig events c, forkSeq := f\<rparr>) (foldStored s events)"
proof (induction events arbitrary: s c)
  case (Cons event events)
  show ?case
  proof (cases "applyEvent s (loopEnvelope event)")
    case (Inl err)
    then show ?thesis by (simp add: foldStored_def applyEvent_config)
  next
    case (Inr s')
    then show ?thesis using Cons.IH [where s = s' and c = "eventConfig (loopEnvelope event) c"] by (simp add: foldStored_def applyEvent_config)
  qed
qed (simp add: foldStored_def)

lemma foldStored_append:
  "foldStored s (xs @ ys) = bind_res (foldStored s xs) (\<lambda>s'. foldStored s' ys)"
  by (simp add: foldStored_def fold_res_append)

text \<open>Fields no event writes.\<close>

lemma foldStored_identity: "foldStored s events = Inr s' \<Longrightarrow> same_identity s s'"
proof (induction events arbitrary: s)
  case (Cons event events)
  then obtain t where "applyEvent s (loopEnvelope event) = Inr t" "foldStored t events = Inr s'"
    by (auto simp: foldStored_def)
  then show ?case using Cons.IH applyEvent_positioned by (fastforce simp: positioned_def same_identity_def)
qed (simp add: foldStored_def same_identity_def)

lemma foldStored_position:
  "foldStored s events = Inr s' \<Longrightarrow> events \<noteq> [] \<Longrightarrow> lastSeq s' = ev_seq (last events) \<and> lastHash s' = ev_hash (last events)"
proof (induction events rule: rev_induct)
  case (snoc event events)
  from snoc.prems(1) obtain t where t: "applyEvent t (loopEnvelope event) = Inr s'"
    unfolding foldStored_append by (auto simp: foldStored_def)
  from applyEvent_positioned [OF t] show ?case by (simp add: positioned_def loopEnvelope_def)
qed simp

subsection \<open>Equal hashes, equal history\<close>

lemma chain_unique:
  assumes "chain sha 0 g es" and "chain sha 0 g es'" and "chain_end 0 g es = chain_end 0 g es'"
    and "inj_on ev_hash (set es \<union> set es')"
  shows "es = es'"
  using assms
proof (induction es arbitrary: es' rule: rev_induct)
  case Nil
  then show ?case using chain_end_seq [OF Nil.prems(2)] by (simp add: prod_eq_iff)
next
  case (snoc e es)
  have "es' \<noteq> []" using snoc.prems chain_end_seq [of sha 0 g "es @ [e]"] by auto
  then obtain fs f where es': "es' = fs @ [f]" by (metis rev_exhaust)
  have "ev_hash e = ev_hash f" using snoc.prems(3) by (simp add: es' chain_end_def)
  from inj_onD [OF snoc.prems(4) this] have "e = f" by (simp add: es')
  moreover have "es = fs"
  proof (rule snoc.IH)
    show "chain sha 0 g es" "chain sha 0 g fs" using snoc.prems(1,2) by (simp_all add: es' chain_snoc)
    show "chain_end 0 g es = chain_end 0 g fs"
      using snoc.prems(1,2) \<open>e = f\<close> by (auto simp: es' chain_snoc prod_eq_iff)
    show "inj_on ev_hash (set es \<union> set fs)" using snoc.prems(4) by (rule inj_on_subset) (auto simp: es')
  qed
  ultimately show ?case by (simp add: es')
qed


subsection \<open>The cache is never authority\<close>

text \<open>A state as an empty log leaves it, and what the cache may hold: the fold of any chain, with any
  configuration and fork position.\<close>

definition blank :: "load_input \<Rightarrow> agent_state" where
  "blank input = emptyState input None"

definition caches :: "(string \<Rightarrow> string) \<Rightarrow> load_input \<Rightarrow> stored_event list \<Rightarrow> agent_state \<Rightarrow> bool" where
  "caches sha input old cached \<longleftrightarrow> chain sha 0 GENESIS_EVENT_HASH old \<and>
     (\<exists>s c f. foldStored (blank input) old = Inr s \<and> cached = s\<lparr>config := c, forkSeq := f\<rparr>)"

lemma blank_fields [simp]:
  "lastSeq (blank input) = 0" "lastHash (blank input) = GENESIS_EVENT_HASH" "selfId (blank input) = truthy_string (li_selfId input)"
  by (auto simp: blank_def emptyState_def initialAgentState_def remoteForkSeq_def option_or_def truthy_string_def
      GENESIS_LAST_HASH_def GENESIS_EVENT_HASH_def Let_def split: option.split)

lemma caches_position:
  assumes "caches sha input old cached"
  shows "(lastSeq cached, lastHash cached) = chain_end 0 GENESIS_EVENT_HASH old"
proof -
  from assms obtain s c f where fold: "foldStored (blank input) old = Inr s" and cached: "cached = s\<lparr>config := c, forkSeq := f\<rparr>"
    by (auto simp: caches_def)
  show ?thesis
  proof (cases "old = []")
    case True
    then show ?thesis using fold by (auto simp: foldStored_def cached)
  next
    case False
    then show ?thesis using foldStored_position [OF fold False] by (simp add: chain_end_def cached)
  qed
qed

lemma reload_continues:
  assumes "caches sha input old cached"
  shows "foldStored (reloaded input fork cached) tail =
     map_sum id (\<lambda>s. s\<lparr>config := loggedConfig tail (overlayInputConfig (config cached) (li_config input)), forkSeq := fork\<rparr>)
       (foldStored (blank input) (old @ tail))"
proof -
  from assms obtain s c f where s: "foldStored (blank input) old = Inr s" "cached = s\<lparr>config := c, forkSeq := f\<rparr>"
    by (auto simp: caches_def)
  have "selfId cached = truthy_string (li_selfId input)"
    using foldStored_identity [OF s(1)] by (simp add: s(2) same_identity_def)
  then have "reloaded input fork cached = s\<lparr>config := overlayInputConfig (config cached) (li_config input), forkSeq := fork\<rparr>"
    by (simp add: reloaded_def s(2) split: option.split)
  then show ?thesis by (simp add: foldStored_config foldStored_append s(1))
qed

lemma cold_refold:
  assumes sound: "sound_store sha store view" and at: "head_at store (li_logId input, li_head input) = Some row"
    and info: "getLogHead store (li_logId input) (li_head input) = Some info"
  shows "coldRefold store (emptyState input (Some info)) (li_logId input) (li_head input) (remoteForkSeq (Some info)) =
     map_sum id (\<lambda>s. s\<lparr>config := loggedConfig (view (li_logId input, li_head input)) (li_config input), forkSeq := remoteForkSeq (Some info)\<rparr>)
       (foldStored (blank input) (view (li_logId input, li_head input)))"
proof -
  define events where "events = view (li_logId input, li_head input)"
  define fork where "fork = remoteForkSeq (Some info)"
  note hv = head_view [OF sound_storeD(2) [OF sound] at, folded events_def]
  obtain row' where row': "head_at store (li_logId input, li_head input) = Some row'" "hi_forkSeq info = lh_forkSeq row'" "hi_forkHash info = lh_forkHash row'"
    using getLogHead_head [OF info] by blast
  have empty: "fork = 0 \<and> option_or (hi_forkHash info) GENESIS_EVENT_HASH = GENESIS_EVENT_HASH" if "events = []"
  proof -
    have "own_rows store (li_logId input, li_head input) = []" using hv(3) that by simp
    then have "chainStart row = (lh_currentSeq row, lh_currentHash row)"
      using store_okD [OF sound_storeD(1) [OF sound], of "(li_logId input, li_head input)"] at
      by (simp add: log_ok_def head_end_def)
    then show ?thesis using hv(2) that at row' by (simp add: chainStart_def fork_def remoteForkSeq_def)
  qed
  have start: "(emptyState input (Some info))\<lparr>lastSeq := 0,
      lastHash := (if events \<noteq> [] then ev_prevHash (hd events) else lastHash (emptyState input (Some info)))\<rparr> =
    (blank input)\<lparr>config := li_config input, forkSeq := fork\<rparr>"
  proof -
    have "ev_prevHash (hd events) = GENESIS_EVENT_HASH" if "events \<noteq> []" using hv(1) that by (cases events) auto
    moreover have "lastHash (emptyState input (Some info)) = GENESIS_EVENT_HASH" if "events = []"
      using empty that by (auto simp: emptyState_def initialAgentState_def option_or_def truthy_string_def GENESIS_LAST_HASH_def
          GENESIS_EVENT_HASH_def Let_def split: option.splits if_splits)
    ultimately have "(if events \<noteq> [] then ev_prevHash (hd events) else lastHash (emptyState input (Some info))) = GENESIS_EVENT_HASH"
      by auto
    then show ?thesis
      by (simp add: blank_def emptyState_def initialAgentState_def remoteForkSeq_def option_or_def truthy_string_def
          fork_def GENESIS_LAST_HASH_def GENESIS_EVENT_HASH_def Let_def)
  qed
  have read: "readAll store (li_logId input) (li_head input) 0 = Inr events"
    using readAll_view [OF sound at, of 0] chain_seq_bounds [OF hv(1)] unfolding events_def [symmetric]
    by (metis (mono_tags, lifting) filter_True)
  have "(if events = [] then s\<lparr>lastSeq := fork\<rparr> else s)\<lparr>forkSeq := fork\<rparr> = s\<lparr>forkSeq := fork\<rparr>"
    if "foldStored ((blank input)\<lparr>config := li_config input, forkSeq := fork\<rparr>) events = Inr s" for s
    using that empty by (auto simp: foldStored_def)
  then show ?thesis
    unfolding coldRefold_def read fork_def [symmetric] events_def [symmetric] bind_res.simps start
    by (cases "foldStored (blank input) events") (auto simp: foldStored_config)
qed


lemma chain_split:
  assumes ch: "chain sha 0 g events" and n: "n < length events"
  shows "filter (\<lambda>e. int n < ev_seq e) events = drop n events"
    "chain_end 0 g (take n events) = (int n, ev_prevHash (events ! n))" "chain sha 0 g (take n events)"
proof -
  have parts: "chain sha 0 g (take n events)" "chain sha (fst (chain_end 0 g (take n events))) (snd (chain_end 0 g (take n events))) (drop n events)"
    using ch by (metis append_take_drop_id chain_append)+
  show "chain sha 0 g (take n events)" by (rule parts(1))
  have len: "fst (chain_end 0 g (take n events)) = int n" using chain_end_seq [OF parts(1)] n by simp
  have "drop n events = events ! n # drop (Suc n) events" using n by (simp add: Cons_nth_drop_Suc)
  then show "chain_end 0 g (take n events) = (int n, ev_prevHash (events ! n))"
    using parts(2) len by (simp add: prod_eq_iff)
  have "filter (\<lambda>e. int n < ev_seq e) (take n events) = []"
    using chain_seq_bounds [OF parts(1)] chain_end_seq [OF parts(1)] n by (force simp: filter_empty_conv)
  moreover have "filter (\<lambda>e. int n < ev_seq e) (drop n events) = drop n events"
    using chain_seq_bounds [OF parts(2)] by (auto simp: len intro!: filter_True)
  ultimately show "filter (\<lambda>e. int n < ev_seq e) events = drop n events"
    by (metis append_Nil append_take_drop_id filter_append)
qed

text \<open>A chain that ends below another one: the rest of the other, and when its link proves that it continues the first.\<close>

lemma chain_tail:
  assumes old: "chain sha 0 g old" and ch: "chain sha 0 g events" and inj: "inj_on ev_hash (set old \<union> set events)"
    and pos: "(n, h) = chain_end 0 g old" and behind: "n < fst (chain_end 0 g events)"
  obtains tail where "filter (\<lambda>e. n < ev_seq e) events = tail" "tail \<noteq> []" "ev_prevHash (hd tail) = h \<Longrightarrow> old @ tail = events"
proof -
  have n: "n = int (length old)" "length old < length events"
    using chain_end_seq [OF old] chain_end_seq [OF ch] fst_conv [of n h, unfolded pos] behind by simp_all
  note split = chain_split [OF ch n(2)]
  show thesis
  proof (rule that)
    show "filter (\<lambda>e. n < ev_seq e) events = drop (length old) events" using split(1) by (simp add: n(1))
    show "drop (length old) events \<noteq> []" using n(2) by simp
    assume "ev_prevHash (hd (drop (length old) events)) = h"
    then have "chain_end 0 g (take (length old) events) = chain_end 0 g old"
      using split(2) n pos [symmetric] by (simp add: hd_drop_conv_nth)
    moreover have "inj_on ev_hash (set old \<union> set (take (length old) events))"
      using inj by (rule inj_on_subset) (auto dest: in_set_takeD)
    ultimately have "old = take (length old) events" using chain_unique [OF old split(3)] by simp
    then show "old @ drop (length old) events = events" by (metis append_take_drop_id)
  qed
qed

definition sans_config :: "fold_cache \<times> agent_state \<Rightarrow> agent_state" where
  "sans_config loaded = (snd loaded)\<lparr>config := JNull\<rparr>"

text \<open>What loading returns, the configuration aside: the fold of the log.\<close>

lemma loadState_fold:
  assumes sound: "sound_store sha store view" and at: "head_at store (li_logId input, li_head input) = Some row"
    and info: "getLogHead store (li_logId input) (li_head input) = Some info"
    and cache: "\<And>cached. cache_read cache (li_logId input) (li_head input) = Some cached \<Longrightarrow>
       \<exists>old. caches sha input old cached \<and> inj_on ev_hash (set old \<union> set (view (li_logId input, li_head input)))"
  shows "map_sum id sans_config (loadState now store cache input) =
     map_sum id (\<lambda>s. s\<lparr>config := JNull, forkSeq := remoteForkSeq (Some info)\<rparr>) (foldStored (blank input) (view (li_logId input, li_head input)))"
proof -
  define events where "events = view (li_logId input, li_head input)"
  define fork where "fork = remoteForkSeq (Some info)"
  note hv = head_view [OF sound_storeD(2) [OF sound] at, folded events_def]
  define goal where "goal = map_sum id (\<lambda>s. s\<lparr>config := JNull, forkSeq := fork\<rparr>) (foldStored (blank input) events)"
  have pos: "(hi_seq info, hi_hash info) = chain_end 0 GENESIS_EVENT_HASH events"
    using getLogHead_head [OF info] at hv(2) by auto
  have cold: "map_sum id sans_config (bind_res (coldRefold store (emptyState input (Some info)) (li_logId input) (li_head input) fork)
      (\<lambda>state. Inr (cache_write now state cache, state))) = goal"
    unfolding fork_def goal_def cold_refold [OF sound at info] events_def
    by (cases "foldStored (blank input) (view (li_logId input, li_head input))") (simp_all add: sans_config_def)
  show ?thesis
  proof (cases "cache_read cache (li_logId input) (li_head input)")
    case None
    then show ?thesis using cold by (simp add: loadState_def info Let_def fork_def goal_def events_def)
  next
    case (Some cached)
    then obtain old where old: "caches sha input old cached" and inj: "inj_on ev_hash (set old \<union> set events)"
      using cache unfolding events_def by blast
    have chain_old: "chain sha 0 GENESIS_EVENT_HASH old" using old by (simp add: caches_def)
    note cpos = caches_position [OF old]
    have continue: "map_sum id (\<lambda>s. s\<lparr>config := JNull\<rparr>) (foldStored (reloaded input fork cached) tail) = goal" if "old @ tail = events" for tail
      unfolding reload_continues [OF old] goal_def that by (cases "foldStored (blank input) events") simp_all
    consider (hit) "lastSeq cached = hi_seq info \<and> lastHash cached = hi_hash info"
      | (behind) "\<not> (lastSeq cached = hi_seq info \<and> lastHash cached = hi_hash info)" "lastSeq cached < hi_seq info"
      | (ahead) "\<not> (lastSeq cached = hi_seq info \<and> lastHash cached = hi_hash info)" "\<not> lastSeq cached < hi_seq info" by blast
    then show ?thesis
    proof cases
      case hit
      then have "old = events" using chain_unique [OF chain_old hv(1) _ inj] cpos pos by simp
      then show ?thesis
        using continue [of "[]"] hit Some
        by (simp add: loadState_def info Let_def sans_config_def foldStored_def fork_def [symmetric] goal_def events_def)
    next
      case behind
      obtain tail where tail: "filter (\<lambda>e. lastSeq cached < ev_seq e) events = tail" "tail \<noteq> []"
        "ev_prevHash (hd tail) = lastHash cached \<Longrightarrow> old @ tail = events"
        using chain_tail [OF chain_old hv(1) inj cpos] behind(2) pos by (metis fst_conv)
      have read: "readAll store (li_logId input) (li_head input) (lastSeq cached) = Inr tail"
        using readAll_view [OF sound at, of "lastSeq cached"] tail(1) unfolding events_def by simp
      show ?thesis
      proof (cases "ev_prevHash (hd tail) = lastHash cached")
        case True
        from continue [OF tail(3) [OF True]] show ?thesis
          using behind Some read tail(2) True
          by (cases "foldStored (reloaded input fork cached) tail")
             (auto simp: loadState_def info Let_def sans_config_def fork_def [symmetric] goal_def [symmetric] events_def [symmetric])
      next
        case False
        then show ?thesis
          using behind Some read tail(2) cold by (simp add: loadState_def info Let_def fork_def [symmetric] goal_def events_def)
      qed
    next
      case ahead
      then show ?thesis using Some cold by (auto simp: loadState_def info Let_def fork_def [symmetric] goal_def events_def)
    qed
  qed
qed


lemma cache_read_deleted: "cache_read (cache_delete lid hd' cache) lid hd' = None"
proof -
  have "find (\<lambda>row. fc_key row = key) (filter (\<lambda>row. fc_key row \<noteq> key) cache) = None" for key
    by (induction cache) auto
  then show ?thesis by (simp add: cache_read_def cache_delete_def)
qed

text \<open>C17: The fold cache is never authority. Whatever chain of events the cached state was folded from (an older
  prefix of the log, the log of a deleted head of the same name, under another configuration), loading with the
  cache row gives the state, or the error, that loading without it gives, configuration aside, as long as event
  hashes do not collide.\<close>

theorem cache_is_not_authority:
  assumes "(log_step sha)\<^sup>*\<^sup>* empty_store store" and "getLogHead store (li_logId input) (li_head input) = Some info"
    and "readLog store (li_logId input) (li_head input) read_everything = Inr events"
    and "cache_read cache (li_logId input) (li_head input) = Some cached" and "caches sha input old cached"
    and "inj_on ev_hash (set old \<union> set events)"
  shows "map_sum id sans_config (loadState now store cache input) =
    map_sum id sans_config (loadState now store (cache_delete (li_logId input) (li_head input) cache) input)"
proof -
  obtain view where sound: "sound_store sha store view" using reachable_sound [OF assms(1)] by blast
  obtain row where row: "head_at store (li_logId input, li_head input) = Some row" using getLogHead_head [OF assms(2)] by blast
  have view: "events = view (li_logId input, li_head input)" using read_everything_view [OF sound row] assms(3) by simp
  have gone: "cache_read (cache_delete (li_logId input) (li_head input) cache) (li_logId input) (li_head input) = None"
    by (rule cache_read_deleted)
  show ?thesis
    using loadState_fold [OF sound row assms(2), of cache] loadState_fold [OF sound row assms(2), of "cache_delete (li_logId input) (li_head input) cache"]
      assms(4-6) gone view by fastforce
qed

lemma loggedConfig_append: "loggedConfig (xs @ ys) c = loggedConfig ys (loggedConfig xs c)"
  by (induction xs arbitrary: c) auto

text \<open>C38: The configuration is the exception. Let the log end with a \<open>config.changed\<close> event that sets one setting, and
  let the cached state be the fold of the whole log. Loading from the cache then returns the setting of the
  input configuration, loading without it the setting of the event.\<close>

theorem config_change_depends_on_cache:
  assumes "(log_step sha)\<^sup>*\<^sup>* empty_store store" and info: "getLogHead store (li_logId input) (li_head input) = Some info"
    and "readLog store (li_logId input) (li_head input) read_everything = Inr (events @ [event])"
    and cached: "cache_read cache (li_logId input) (li_head input) = Some cached" and caches: "caches sha input (events @ [event]) cached"
    and kind: "si_payloadKind event = ''system.event''" "detailKindOf (payloadRecord (loopEnvelope event)) = ''config.changed''"
    and patch: "jget (eventDetails (payloadRecord (loopEnvelope event))) ''patch'' = JObj [(k, v)]" and k: "k \<noteq> ''roster''"
    and config: "li_config input = JObj settings"
  shows "\<exists>hit cold. loadState now store cache input = Inr (cache, hit) \<and> jget (config hit) k = jget (JObj settings) k \<and>
    map_sum id snd (loadState now store (cache_delete (li_logId input) (li_head input) cache) input) = Inr cold \<and>
    jget (config cold) k = v"
proof -
  let ?lid = "li_logId input" and ?hd = "li_head input"
  obtain view where sound: "sound_store sha store view" using reachable_sound [OF assms(1)] by blast
  obtain row where row: "head_at store (?lid, ?hd) = Some row" "hi_seq info = lh_currentSeq row" "hi_hash info = lh_currentHash row"
    using getLogHead_head [OF info] by blast
  have view: "view (?lid, ?hd) = events @ [event]" using read_everything_view [OF sound row(1)] assms(3) by simp
  have "(lastSeq cached, lastHash cached) = (hi_seq info, hi_hash info)"
    using caches_position [OF caches] head_view(2) [OF sound_storeD(2) [OF sound] row(1)] row(2,3) by (simp add: view)
  then have hit: "loadState now store cache input = Inr (cache, reloaded input (remoteForkSeq (Some info)) cached)"
    using cached by (simp add: loadState_def info Let_def)
  have overlaid: "jget (config (reloaded input fork cached)) k = jget (JObj settings) k" for fork
    using k by (simp add: reloaded_def overlayInputConfig_def FOLD_OWNED_CONFIG_KEYS_def config)
  obtain s where s: "foldStored (blank input) (events @ [event]) = Inr s"
    using caches by (auto simp: caches_def)
  define c where "c = loggedConfig (events @ [event]) (li_config input)"
  have "env_payloadKind (loopEnvelope event) = SystemEvent" using kind(1) kind_of_name [of SystemEvent] by (simp add: loopEnvelope_def KNOWN_KINDS_def)
  then have "jget c k = v"
    using kind(2) patch by (simp add: c_def loggedConfig_append eventConfig_def Let_def jget_jspread)
  moreover have "cache_read (cache_delete ?lid ?hd cache) ?lid ?hd = None" by (rule cache_read_deleted)
  then have "map_sum id snd (loadState now store (cache_delete ?lid ?hd cache) input) =
      Inr (s\<lparr>config := c, forkSeq := remoteForkSeq (Some info)\<rparr>)"
    by (simp add: loadState_def info Let_def cold_refold [OF sound row(1) info] view s c_def)
  ultimately show ?thesis using hit overlaid by auto
qed

subsection \<open>Samples\<close>

definition sample_config_append :: append_input where
  "sample_config_append = sample_append\<lparr>ap_events := [sample_append_event\<lparr>ae_payloadKind := ''system.event'',
     ae_payload := JObj [(''details'', JObj [(''kind'', JStr ''config.changed''), (''patch'', JObj [(''model'', JStr ''m2'')])])],
     ae_publish := []\<rparr>]\<rparr>"

definition sample_load :: load_input where
  "sample_load = \<lparr> li_logId = ''log'', li_head = ''main'', li_channelId = ''c1'', li_config = JObj [(''model'', JStr ''m1'')],
     li_selfId = Some ''a'' \<rparr>"

lemma sample_load_fields [simp]:
  "li_logId sample_load = ''log''" "li_head sample_load = ''main''" "li_config sample_load = JObj [(''model'', JStr ''m1'')]"
  by (simp_all add: sample_load_def)

lemma sample_loaded:
  obtains store event info cached cache where "(log_step (sx_sha256 sample_env))\<^sup>*\<^sup>* empty_store store"
    "getLogHead store ''log'' ''main'' = Some info" "readLog store ''log'' ''main'' read_everything = Inr [event]"
    "si_payloadKind event = ''system.event''" "detailKindOf (payloadRecord (loopEnvelope event)) = ''config.changed''"
    "jget (eventDetails (payloadRecord (loopEnvelope event))) ''patch'' = JObj [(''model'', JStr ''m2'')]"
    "cache_read cache ''log'' ''main'' = Some cached" "caches (sx_sha256 sample_env) sample_load [event] cached"
proof -
  have "case appendLogEvent sample_env empty_store sample_config_append of Inl _ \<Rightarrow> False | Inr (store, _) \<Rightarrow>
      (case (getLogHead store ''log'' ''main'', readLog store ''log'' ''main'' read_everything) of
         (Some info, Inr [event]) \<Rightarrow> si_payloadKind event = ''system.event'' \<and>
           detailKindOf (payloadRecord (loopEnvelope event)) = ''config.changed'' \<and>
           jget (eventDetails (payloadRecord (loopEnvelope event))) ''patch'' = JObj [(''model'', JStr ''m2'')] \<and>
           \<not> isl (foldStored (blank sample_load) [event])
       | _ \<Rightarrow> False)"
    by code_simp
  then obtain store result info event where app: "appendLogEvent sample_env empty_store sample_config_append = Inr (store, result)"
    and info: "getLogHead store ''log'' ''main'' = Some info" and read: "readLog store ''log'' ''main'' read_everything = Inr [event]"
    and kind: "si_payloadKind event = ''system.event''" "detailKindOf (payloadRecord (loopEnvelope event)) = ''config.changed''"
      "jget (eventDetails (payloadRecord (loopEnvelope event))) ''patch'' = JObj [(''model'', JStr ''m2'')]"
    and folds: "\<not> isl (foldStored (blank sample_load) [event])"
    by (auto split: sum.splits prod.splits option.splits list.splits)
  have reach: "(log_step (sx_sha256 sample_env))\<^sup>*\<^sup>* empty_store store"
    by (rule r_into_rtranclp) (rule log_append [OF app refl])
  from folds obtain cached where cached: "foldStored (blank sample_load) [event] = Inr cached"
    by (cases "foldStored (blank sample_load) [event]") auto
  obtain view where sound: "sound_store (sx_sha256 sample_env) store view" using reachable_sound [OF reach] by blast
  obtain row where row: "head_at store (''log'', ''main'') = Some row" using getLogHead_head [OF info] by blast
  have "chain (sx_sha256 sample_env) 0 GENESIS_EVENT_HASH [event]"
    using head_view(1) [OF sound_storeD(2) [OF sound] row] read_everything_view [OF sound row] read by simp
  moreover have "cached = cached\<lparr>config := config cached, forkSeq := forkSeq cached\<rparr>" by simp
  ultimately have caches: "caches (sx_sha256 sample_env) sample_load [event] cached"
    unfolding caches_def using cached by metis
  have "same_identity (blank sample_load) cached" by (rule foldStored_identity [OF cached])
  then have "cache_read (cache_write 0 cached []) ''log'' ''main'' = Some cached"
    by (simp add: cache_read_def cache_write_def fc_key_def same_identity_def blank_def emptyState_def initialAgentState_def option_or_def Let_def)
  then show thesis by (rule that [OF reach info read kind _ caches])
qed

theorem cache_is_not_authority_witness:
  "\<exists>store cache. map_sum id sans_config (loadState 7 store cache sample_load) =
     map_sum id sans_config (loadState 7 store (cache_delete ''log'' ''main'' cache) sample_load)"
proof (rule sample_loaded)
  fix store event info cached cache
  assume "(log_step (sx_sha256 sample_env))\<^sup>*\<^sup>* empty_store store" "getLogHead store ''log'' ''main'' = Some info"
    "readLog store ''log'' ''main'' read_everything = Inr [event]" "cache_read cache ''log'' ''main'' = Some cached"
    "caches (sx_sha256 sample_env) sample_load [event] cached"
  from cache_is_not_authority [where input = sample_load, unfolded sample_load_fields, OF this, of 7]
  have "map_sum id sans_config (loadState 7 store cache sample_load) =
     map_sum id sans_config (loadState 7 store (cache_delete ''log'' ''main'' cache) sample_load)" by simp
  then show ?thesis by blast
qed

theorem config_change_depends_on_cache_witness:
  "\<exists>store cache hit cold. loadState 7 store cache sample_load = Inr (cache, hit) \<and> jget (config hit) ''model'' = JStr ''m1'' \<and>
     map_sum id snd (loadState 7 store (cache_delete ''log'' ''main'' cache) sample_load) = Inr cold \<and>
     jget (config cold) ''model'' = JStr ''m2''"
proof (rule sample_loaded)
  fix store event info cached cache
  assume 1: "(log_step (sx_sha256 sample_env))\<^sup>*\<^sup>* empty_store store" "getLogHead store ''log'' ''main'' = Some info"
    and 2: "readLog store ''log'' ''main'' read_everything = Inr [event]" and 3: "cache_read cache ''log'' ''main'' = Some cached"
    and 4: "caches (sx_sha256 sample_env) sample_load [event] cached"
    and 5: "si_payloadKind event = ''system.event''" "detailKindOf (payloadRecord (loopEnvelope event)) = ''config.changed''"
      "jget (eventDetails (payloadRecord (loopEnvelope event))) ''patch'' = JObj [(''model'', JStr ''m2'')]"
  from config_change_depends_on_cache [where input = sample_load and events = "[]" and k = "''model''" and now = 7,
      unfolded sample_load_fields append_Nil, OF 1 2 3 4 5 _ refl]
  show ?thesis by (auto simp: jget.simps(1))
qed

end
