(* ===== verification/Driver.thy ===== *)
theory Driver
  imports Outbox CacheLoad Policies
begin

text \<open>
  The agent loop driver (\<open>agentic-do/src/agent-loop-driver.ts\<close>), first half: loop instances, the conditional
  append, the step with its retries and its cascade, reconciliation of the outbox with the derived effects,
  settling, waking and the recovery of stranded turns. \<open>Dispatch\<close> has the second half.

  The driver's state is a record of what it owns: the log store it calls, the fold cache, the outbox and the
  table of scheduled resumes, its loop instances, abort entries and flags, and the calls it made to its host.
  An operation is a function on that record that returns or throws; what it wrote before it threw stays
  written, which is how a crash at a kill point is modelled. Operations run one after the other: the
  interleavings of \<open>await\<close>s are not modelled, but a caller's binding to a replaced instance is, because
  instances live in a heap and the map of loops holds their addresses.
\<close>

subsection \<open>State and environment\<close>

text \<open>What the driver asks of its host; the calls made so far are part of its state.\<close>

datatype driver_call =
    ScheduleAlarm int
  | BackgroundPump
  | BackgroundDispatch outbox_row
  | BroadcastStored string "string list"
  | EagerPublish effect_descriptor
  | Ephemeral json
  | AbortSignal string string
  | HeartbeatOutcome string effect_descriptor effect_outcome

record loop_instance =
  lp_channelId :: string
  lp_logId :: string
  lp_head :: string
  lp_state :: agent_state
  lp_policies :: "step_policy list"

record scheduled_resume =
  sr_channelId :: string
  sr_messageId :: string
  sr_resetAtMs :: int
  sr_createdAt :: int

record driver =
  dv_store :: store
  dv_cache :: fold_cache
  dv_outbox :: outbox
  dv_resumes :: "scheduled_resume list"
  dv_heap :: "loop_instance list"
  dv_loops :: "nat dict"
  dv_aborts :: "((string \<times> string) \<times> string) list"
  dv_pumping :: bool
  dv_repump :: bool
  dv_calls :: "driver_call list"

text \<open>An executor returns an outcome, defers, or throws: the message and what \<open>classifyModelFailure\<close> makes of it.\<close>

datatype execution = Executed effect_outcome | DeferredResult | Threw string model_failure_info

text \<open>The driver's dependencies. Time stands still during an operation. \<open>dx_encode\<close> and \<open>dx_hydrate\<close> move large
  fields to and from the blob store; \<open>dx_kill\<close> says at which kill points the process dies.\<close>

record driver_env =
  dx_now :: int
  dx_storeEnv :: store_env
  dx_classify :: classifier
  dx_selfRef :: "string \<Rightarrow> json"
  dx_config :: "string \<Rightarrow> json"
  dx_policies :: "string \<Rightarrow> step_policy list"
  dx_encode :: "event_kind \<Rightarrow> json \<Rightarrow> json res"
  dx_hydrate :: "effect_descriptor \<Rightarrow> effect_descriptor res"
  dx_execute :: "effect_descriptor \<Rightarrow> agent_state \<Rightarrow> json list \<times> execution"
  dx_connectSpec :: "string \<Rightarrow> json"
  dx_heartbeat :: "(string \<Rightarrow> effect_descriptor \<Rightarrow> effect_outcome \<Rightarrow> unit res) option"
  dx_minEntries :: "int option"
  dx_triggerBytes :: "int option"
  dx_background :: bool
  dx_broadcasts :: bool
  dx_kill :: "string \<Rightarrow> bool"

text \<open>A driver operation: what it durably did stays done when it throws. \<open>None\<close> is a cascade deeper than the fuel.\<close>

type_synonym 'a drv = "driver \<Rightarrow> (driver \<times> 'a res) option"

definition dreturn :: "'a \<Rightarrow> 'a drv" where
  "dreturn x = (\<lambda>d. Some (d, Inr x))"

definition draise :: "loop_error \<Rightarrow> 'a drv" where
  "draise e = (\<lambda>d. Some (d, Inl e))"

definition dbind :: "'a drv \<Rightarrow> ('a \<Rightarrow> 'b drv) \<Rightarrow> 'b drv" where
  "dbind m f = (\<lambda>d. case m d of None \<Rightarrow> None | Some (d', Inl e) \<Rightarrow> Some (d', Inl e) | Some (d', Inr x) \<Rightarrow> f x d')"

definition dcatch :: "'a drv \<Rightarrow> (loop_error \<Rightarrow> 'a drv) \<Rightarrow> 'a drv" where
  "dcatch m handler = (\<lambda>d. case m d of Some (d', Inl e) \<Rightarrow> handler e d' | r \<Rightarrow> r)"

definition dthen :: "unit drv \<Rightarrow> 'b drv \<Rightarrow> 'b drv" where
  "dthen m f = dbind m (\<lambda>_. f)"

definition dread :: "(driver \<Rightarrow> 'a) \<Rightarrow> 'a drv" where
  "dread f = (\<lambda>d. Some (d, Inr (f d)))"

definition dmodify :: "(driver \<Rightarrow> driver) \<Rightarrow> unit drv" where
  "dmodify f = (\<lambda>d. Some (f d, Inr ()))"

definition dlift :: "'a res \<Rightarrow> 'a drv" where
  "dlift r = (\<lambda>d. Some (d, r))"

fun deach :: "('a \<Rightarrow> unit drv) \<Rightarrow> 'a list \<Rightarrow> unit drv" where
  "deach f [] = dreturn ()"
| "deach f (x # xs) = dthen (f x) (deach f xs)"

definition dfinally :: "unit drv \<Rightarrow> unit drv \<Rightarrow> unit drv" where
  "dfinally m after = (\<lambda>d. case m d of
     None \<Rightarrow> None
   | Some (d', r) \<Rightarrow> (case after d' of Some (d'', Inr _) \<Rightarrow> Some (d'', r) | other \<Rightarrow> other))"

text \<open>\<open>Promise.all\<close>: every piece of work runs, the first rejection is the result.\<close>

fun dall :: "('a \<Rightarrow> unit drv) \<Rightarrow> 'a list \<Rightarrow> unit drv" where
  "dall f [] = dreturn ()"
| "dall f (x # xs) = (\<lambda>d. case f x d of
     None \<Rightarrow> None
   | Some (d', Inr _) \<Rightarrow> dall f xs d'
   | Some (d', Inl e) \<Rightarrow> map_option (\<lambda>(d'', _). (d'', Inl e)) (dall f xs d'))"

definition dcall :: "driver_call \<Rightarrow> unit drv" where
  "dcall c = dmodify (\<lambda>d. d\<lparr>dv_calls := dv_calls d @ [c]\<rparr>)"

definition kill :: "driver_env \<Rightarrow> string \<Rightarrow> unit drv" where
  "kill env point = (if dx_kill env point then draise (Killed point) else dreturn ())"

definition instance_at :: "nat \<Rightarrow> loop_instance drv" where
  "instance_at a = dread (\<lambda>d. dv_heap d ! a)"

definition set_state :: "nat \<Rightarrow> agent_state \<Rightarrow> unit drv" where
  "set_state a s = dmodify (\<lambda>d. d\<lparr>dv_heap := (dv_heap d)[a := (dv_heap d ! a)\<lparr>lp_state := s\<rparr>]\<rparr>)"

subsection \<open>Constants\<close>

definition APPEND_RETRIES :: nat where "APPEND_RETRIES = 1"
definition COMPACTION_MIN_ENTRIES :: int where "COMPACTION_MIN_ENTRIES = 24"
definition COMPACTION_TRIGGER_BYTES :: int where "COMPACTION_TRIGGER_BYTES = 64 * 1024"
definition HEAD_CONFLICT_RETRIES :: nat where "HEAD_CONFLICT_RETRIES = 3"

definition DETACHABLE_EFFECT_KINDS :: "effect_kind list" where
  "DETACHABLE_EFFECT_KINDS = [KModelCall, KChannelCall, KHttpCall, KLocalTool]"

fun isStaleStateAppendError :: "loop_error \<Rightarrow> bool" where
  "isStaleStateAppendError (GadAppendError _) = True"
| "isStaleStateAppendError _ = False"

subsection \<open>Loops\<close>

definition nowIso :: "driver_env \<Rightarrow> string" where
  "nowIso env = Date_toISOString (dx_now env)"

definition selfRefId :: "driver_env \<Rightarrow> string \<Rightarrow> string option" where
  "selfRefId env chan = string_opt (jget (dx_selfRef env chan) ''id'')"

definition stepCtx :: "driver_env \<Rightarrow> string \<Rightarrow> step_context" where
  "stepCtx env chan = \<lparr> ctx_now = nowIso env, ctx_selfRef = dx_selfRef env chan \<rparr>"

definition loopInput :: "driver_env \<Rightarrow> string \<Rightarrow> load_input" where
  "loopInput env chan =
     \<lparr> li_logId = ids_logIdForChannel chan, li_head = ids_logIdForChannel chan, li_channelId = chan,
       li_config = dx_config env chan, li_selfId = selfRefId env chan \<rparr>"

definition driver_loop :: "driver_env \<Rightarrow> string \<Rightarrow> nat drv" where
  "driver_loop env chan =
     dbind (dread (\<lambda>d. d)) (\<lambda>d.
       case dget (dv_loops d) chan of
         Some a \<Rightarrow> dreturn a
       | None \<Rightarrow>
           dbind (dlift (loadState (dx_now env) (dv_store d) (dv_cache d) (loopInput env chan))) (\<lambda>(cache, state).
             let inst = \<lparr> lp_channelId = chan, lp_logId = ids_logIdForChannel chan, lp_head = ids_logIdForChannel chan, lp_state = state,
                     lp_policies = dx_policies env chan \<rparr>;
                 a = length (dv_heap d)
             in dthen (dmodify (\<lambda>d. d\<lparr>dv_cache := cache, dv_heap := dv_heap d @ [inst], dv_loops := dput chan a (dv_loops d)\<rparr>))
                  (dreturn a)))"

definition dropLoop :: "string \<Rightarrow> unit drv" where
  "dropLoop chan = dmodify (\<lambda>d. d\<lparr>dv_loops := ddel chan (dv_loops d)\<rparr>)"

subsection \<open>Alarms\<close>

definition earliestScheduledModelResumeAt :: "scheduled_resume list \<Rightarrow> int option" where
  "earliestScheduledModelResumeAt resumes = min_of (map sr_resetAtMs resumes)"

definition nextWakeAt :: "driver \<Rightarrow> int option" where
  "nextWakeAt d = min_of (List.map_filter id [earliestDueAt (dv_outbox d), earliestScheduledModelResumeAt (dv_resumes d)])"

definition scheduleEarliest :: "driver_env \<Rightarrow> unit drv" where
  "scheduleEarliest env =
     dbind (dread nextWakeAt) (\<lambda>earliest.
       case earliest of None \<Rightarrow> dreturn () | Some t \<Rightarrow> dcall (ScheduleAlarm (max t (dx_now env + 50))))"

definition requestPump :: "driver_env \<Rightarrow> unit drv" where
  "requestPump env =
     dbind (dread dv_pumping) (\<lambda>pumping.
       if pumping then dmodify (\<lambda>d. d\<lparr>dv_repump := True\<rparr>)
       else dthen (dcall (ScheduleAlarm (dx_now env + 1)))
              (if dx_background env then dcall BackgroundPump else dreturn ()))"

subsection \<open>Appending\<close>

fun encodeItems :: "driver_env \<Rightarrow> append_item list \<Rightarrow> append_item list res" where
  "encodeItems env [] = Inr []"
| "encodeItems env (item # items) =
     bind_res (dx_encode env (ai_payloadKind item) (ai_payload item)) (\<lambda>payload.
     bind_res (encodeItems env items) (\<lambda>rest. Inr (item\<lparr>ai_payload := payload\<rparr> # rest)))"

definition appendEventOf :: "driver_env \<Rightarrow> string \<Rightarrow> append_item \<Rightarrow> append_event" where
  "appendEventOf env chan item =
     \<lparr> ae_envelopeId = Some (ai_envelopeId item), ae_actor = dx_selfRef env chan, ae_to = JUndefined,
       ae_payloadKind = kind_name (ai_payloadKind item), ae_payload = ai_payload item,
       ae_causality = (if truthy (ai_causality item) then ai_causality item else JUndefined), ae_annotations = JUndefined,
       ae_appendedAt = None, ae_publish = (if ai_publish item then [(chan, JUndefined)] else []) \<rparr>"

definition appendInputOf :: "driver_env \<Rightarrow> loop_instance \<Rightarrow> append_item list \<Rightarrow> append_input" where
  "appendInputOf env inst items =
     \<lparr> ap_logId = lp_logId inst, ap_head = lp_head inst, ap_logKind = ''trajectory'',
       ap_owner = JObj [(''kind'', JStr ''agent''), (''id'', jget (dx_selfRef env (lp_channelId inst)) ''id'')],
       ap_expectedHeadHash = Some (Some (lastHash (lp_state inst))), ap_idempotentById = False,
       ap_events = map (appendEventOf env (lp_channelId inst)) items \<rparr>"

text \<open>The publications of the new events, grouped by channel in order of first occurrence.\<close>

definition publicationsByChannel :: "stored_event list \<Rightarrow> publication list \<Rightarrow> string list dict" where
  "publicationsByChannel newEnvelopes published =
     fold (\<lambda>(origin, chan, eid) byChannel. dput chan (option_or (dget byChannel chan) [] @ [eid]) byChannel)
       (filter (\<lambda>(origin, _, _). origin \<in> si_envelopeId ` set newEnvelopes) published) []"

definition broadcastPublications :: "driver_env \<Rightarrow> stored_event list \<Rightarrow> publication list \<Rightarrow> unit drv" where
  "broadcastPublications env newEnvelopes published =
     (if \<not> dx_broadcasts env \<or> newEnvelopes = [] \<or> published = [] then dreturn ()
      else deach (\<lambda>(chan, eids). dcall (BroadcastStored chan eids)) (publicationsByChannel newEnvelopes published))"

text \<open>The call of \<open>appendLogEvent\<close> and what is new to a state that has folded up to \<open>since\<close>.\<close>

definition appendRequest :: "driver_env \<Rightarrow> int \<Rightarrow> append_input \<Rightarrow> stored_event list drv" where
  "appendRequest env since request =
     dbind (dread dv_store) (\<lambda>store.
     dbind (dlift (appendLogEvent (dx_storeEnv env) store request)) (\<lambda>(store', result).
       let newEnvelopes = filter (\<lambda>envelope. since < ev_seq envelope) (ar_envelopes result) in
       dthen (dmodify (\<lambda>d. d\<lparr>dv_store := store'\<rparr>))
      (dthen (broadcastPublications env newEnvelopes (ar_published result))
         (dreturn newEnvelopes))))"

definition driver_append :: "driver_env \<Rightarrow> nat \<Rightarrow> append_item list \<Rightarrow> stored_event list drv" where
  "driver_append env a items =
     (if items = [] then dreturn []
      else
        dbind (instance_at a) (\<lambda>inst.
        dbind (dlift (encodeItems env items)) (\<lambda>encoded.
          appendRequest env (lastSeq (lp_state inst)) (appendInputOf env inst encoded))))"

definition foldInto :: "nat \<Rightarrow> stored_event list \<Rightarrow> unit drv" where
  "foldInto a envelopes =
     deach (\<lambda>envelope.
       dbind (instance_at a) (\<lambda>inst.
       dbind (dlift (applyEvent (lp_state inst) (loopEnvelope envelope))) (set_state a))) envelopes"

definition writeCache :: "driver_env \<Rightarrow> nat \<Rightarrow> unit drv" where
  "writeCache env a =
     dbind (instance_at a) (\<lambda>inst. dmodify (\<lambda>d. d\<lparr>dv_cache := cache_write (dx_now env) (lp_state inst) (dv_cache d)\<rparr>))"


subsection \<open>A step and its cascade\<close>

definition ingestCommandAlreadyJournaled :: "nat \<Rightarrow> incoming \<Rightarrow> bool drv" where
  "ingestCommandAlreadyJournaled a incoming =
     dbind (instance_at a) (\<lambda>inst.
     dbind (dread dv_store) (\<lambda>store.
       let journaled = (\<lambda>c. dbind (dlift (getLogEvent store (lp_logId inst) (lp_head inst)
             (ids_recvUserMessage (lp_channelId inst) (uc_sourceEnvelopeId c)))) (\<lambda>existing. dreturn (existing \<noteq> None)))
       in case incoming of
            CommandIn (Prompt c) \<Rightarrow> journaled c
          | CommandIn (Steer c) \<Rightarrow> journaled c
          | _ \<Rightarrow> dreturn False))"

definition initialDeadline :: "effect_descriptor \<Rightarrow> int option" where
  "initialDeadline effect = None"

definition insertEffect :: "driver_env \<Rightarrow> string \<Rightarrow> effect_descriptor \<Rightarrow> unit drv" where
  "insertEffect env branch effect =
     dmodify (\<lambda>d. d\<lparr>dv_outbox := outbox_insert (dx_now env) branch effect (initialDeadline effect) (dv_outbox d)\<rparr>)"

definition deleteEffect :: "string \<Rightarrow> string \<Rightarrow> unit drv" where
  "deleteEffect branch eid = dmodify (\<lambda>d. d\<lparr>dv_outbox := outbox_delete branch eid (dv_outbox d)\<rparr>)"

definition enactEffect :: "driver_env \<Rightarrow> string \<Rightarrow> effect_descriptor \<Rightarrow> unit drv" where
  "enactEffect env branch effect =
     dthen (if effectKind effect = KPublishEnvelope then dcall (EagerPublish effect) else dreturn ())
       (insertEffect env branch effect)"

text \<open>A failed append: reload and run again while retries are left, or accept a command that is in the log already.\<close>

definition staleAppend ::
  "driver_env \<Rightarrow> (nat \<Rightarrow> unit drv) \<Rightarrow> nat \<Rightarrow> string \<Rightarrow> incoming \<Rightarrow> nat \<Rightarrow> loop_error \<Rightarrow> stored_event list option drv" where
  "staleAppend env rerun a chan incoming retries err =
     (if 0 < retries \<and> isStaleStateAppendError err then
        dthen (dropLoop chan) (dbind (driver_loop env chan) (\<lambda>fresh. dthen (rerun fresh) (dreturn None)))
      else if isStaleStateAppendError err then
        dbind (ingestCommandAlreadyJournaled a incoming) (\<lambda>journaled. if journaled then dreturn None else draise err)
      else draise err)"

text \<open>A successful append: fold, cache, insert the effects, cascade depth first.\<close>

definition enactStep :: "driver_env \<Rightarrow> (stored_event \<Rightarrow> unit drv) \<Rightarrow> nat \<Rightarrow> string \<Rightarrow> effect_descriptor list \<Rightarrow> stored_event list \<Rightarrow> unit drv" where
  "enactStep env cascade a branch effects envelopes =
     dthen (kill env ''after-append'')
    (dthen (foldInto a envelopes)
    (dthen (writeCache env a)
    (dthen (kill env ''after-fold-cache'')
    (dthen (deach (enactEffect env branch) effects)
    (dthen (kill env ''after-outbox-insert'')
       (deach cascade envelopes))))))"

text \<open>\<open>runStep\<close>. The fuel bounds the depth of the cascade and of the retries.\<close>

primrec driver_runStep :: "nat \<Rightarrow> driver_env \<Rightarrow> nat \<Rightarrow> incoming \<Rightarrow> nat \<Rightarrow> unit drv" where
  "driver_runStep 0 env a incoming retries = (\<lambda>d. None)"
| "driver_runStep (Suc fuel) env a incoming retries =
     dbind (instance_at a) (\<lambda>inst.
     dbind (dlift (composeStep (dx_classify env) (lp_policies inst) (lp_state inst) incoming (stepCtx env (lp_channelId inst)))) (\<lambda>output.
     if so_append output = [] \<and> so_effects output = [] then dreturn ()
     else
       dbind
         (dcatch (dbind (driver_append env a (so_append output)) (\<lambda>envelopes. dreturn (Some envelopes)))
            (staleAppend env (\<lambda>fresh. driver_runStep fuel env fresh incoming (retries - 1)) a (lp_channelId inst) incoming retries))
         (\<lambda>appended. case appended of
            None \<Rightarrow> dreturn ()
          | Some envelopes \<Rightarrow>
              enactStep env (\<lambda>envelope. driver_runStep fuel env a (EventAppended (loopEnvelope envelope)) retries)
                a (lp_logId inst) (so_effects output) envelopes)))"

subsection \<open>Reconciling, compacting, settling\<close>

definition reconcile :: "driver_env \<Rightarrow> nat \<Rightarrow> unit drv" where
  "reconcile env a =
     dbind (instance_at a) (\<lambda>inst.
     dbind (dread (\<lambda>d. outbox_forBranch (dv_outbox d) (lp_logId inst))) (\<lambda>rows.
       let expected = derivePendingEffects (lp_state inst) in
       dthen (deach (\<lambda>row. if ob_effectId row \<notin> effectId ` set expected
                 then deleteEffect (ob_branchId row) (ob_effectId row) else dreturn ()) rows)
      (dthen (deach (\<lambda>effect. if effectId effect \<notin> ob_effectId ` set rows
                 then insertEffect env (lp_logId inst) effect else dreturn ()) expected)
         (scheduleEarliest env))))"

text \<open>The length of a string in UTF-8, of code points up to 255.\<close>

definition utf8_length :: "string \<Rightarrow> int" where
  "utf8_length s = sum_list (map (\<lambda>c. if (of_char c :: nat) < 128 then 1 else 2) s)"

definition maybeCompact :: "nat \<Rightarrow> driver_env \<Rightarrow> nat \<Rightarrow> unit drv" where
  "maybeCompact fuel env a =
     dbind (instance_at a) (\<lambda>inst.
       let state = lp_state inst in
       if openTurn state \<noteq> None then dreturn ()
       else if int (length (entries state)) < option_or (dx_minEntries env) COMPACTION_MIN_ENTRIES then dreturn ()
       else if utf8_length (json_text (JArr (map entry_to_json (entries state)))) < option_or (dx_triggerBytes env) COMPACTION_TRIGGER_BYTES
       then dreturn ()
       else dcatch (driver_runStep fuel env a (CommandIn Compact) APPEND_RETRIES) (\<lambda>err. dreturn ()))"

definition settle :: "nat \<Rightarrow> driver_env \<Rightarrow> string \<Rightarrow> unit drv" where
  "settle fuel env chan =
     dthen (dbind (driver_loop env chan) (maybeCompact fuel env))
    (dthen (dbind (driver_loop env chan) (reconcile env))
       (requestPump env))"

definition handleIncoming :: "nat \<Rightarrow> driver_env \<Rightarrow> string \<Rightarrow> incoming \<Rightarrow> unit drv" where
  "handleIncoming fuel env chan incoming =
     dthen (dbind (driver_loop env chan) (\<lambda>a. driver_runStep fuel env a incoming APPEND_RETRIES))
       (settle fuel env chan)"

definition hasOpenTurn :: "string \<Rightarrow> bool drv" where
  "hasOpenTurn chan =
     dread (\<lambda>d.
       (case dget (dv_loops d) chan of Some a \<Rightarrow> openTurn (lp_state (dv_heap d ! a)) \<noteq> None | None \<Rightarrow> False)
       \<or> outbox_forBranch (dv_outbox d) (ids_logIdForChannel chan) \<noteq> [])"

subsection \<open>Stranded turns\<close>

definition recordPayload :: "json \<Rightarrow> json" where
  "recordPayload value = (if is_plain_object value then value else JObj [])"

definition hasScheduledModelResumeForTurn :: "driver \<Rightarrow> string \<Rightarrow> string \<Rightarrow> bool" where
  "hasScheduledModelResumeForTurn d chan turnId \<longleftrightarrow>
     (\<exists>row \<in> set (dv_resumes d). sr_channelId row = chan \<and> starts_with (sr_messageId row) (''m:'' @ turnId @ '':''))"

definition isOpenTurnStranded :: "driver \<Rightarrow> loop_instance \<Rightarrow> bool" where
  "isOpenTurnStranded d inst \<longleftrightarrow>
     (case openTurn (lp_state inst) of
        None \<Rightarrow> False
      | Some turn \<Rightarrow>
          inFlightModelCall (lp_state inst) = None \<and> \<not> 0 < ot_waitingCount turn \<and>
          derivePendingEffects (lp_state inst) = [] \<and> outbox_forBranch (dv_outbox d) (lp_logId inst) = [] \<and>
          \<not> hasScheduledModelResumeForTurn d (lp_channelId inst) (ot_turnId turn))"

definition envelopeBelongsToTurn :: "log_envelope \<Rightarrow> string \<Rightarrow> bool" where
  "envelopeBelongsToTurn envelope turnId \<longleftrightarrow>
     jget (env_causality envelope) ''turnId'' = JStr turnId \<or>
     starts_with (js_String (coalesce (jget (env_causality envelope) ''messageId'') (JStr []))) (''m:'' @ turnId @ '':'')"

definition isReplayCascadeEnvelope :: "log_envelope \<Rightarrow> string \<Rightarrow> bool" where
  "isReplayCascadeEnvelope envelope turnId =
     (let ofTurn = (jget (env_causality envelope) ''turnId'' = JStr turnId) in
      case env_payloadKind envelope of
        MessageCompleted \<Rightarrow>
          envelopeBelongsToTurn envelope turnId \<and> jget (recordPayload (env_payload envelope)) ''role'' = JStr ''assistant''
      | MessageFailed \<Rightarrow> envelopeBelongsToTurn envelope turnId
      | InvocationCompleted \<Rightarrow> ofTurn
      | InvocationFailed \<Rightarrow> ofTurn
      | InvocationCancelled \<Rightarrow> ofTurn
      | InvocationAbandoned \<Rightarrow> ofTurn
      | ApprovalResolved \<Rightarrow> ofTurn
      | SystemEvent \<Rightarrow>
          ofTurn \<and>
          (let payload = recordPayload (env_payload envelope);
               details = recordPayload (jget payload ''details'');
               kind = js_String (coalesce (coalesce (jget details ''kind'') (jget payload ''kind'')) (JStr []))
           in kind \<in> {''credential.wait_resolved'', ''credential.resolved'', ''interrupt''})
      | _ \<Rightarrow> False)"

text \<open>The pages of the recovery read have the size of those of the fold cache.\<close>

definition latestCascadeEnvelopeForOpenTurn :: "store \<Rightarrow> loop_instance \<Rightarrow> log_envelope option res" where
  "latestCascadeEnvelopeForOpenTurn store inst =
     (case openTurn (lp_state inst) of
        None \<Rightarrow> Inr None
      | Some turn \<Rightarrow>
          bind_res (readAll store (lp_logId inst) (lp_head inst) (max 0 (ot_openedAtSeq turn - 1))) (\<lambda>events.
            Inr (foldl (\<lambda>latest envelope. if isReplayCascadeEnvelope envelope (ot_turnId turn) then Some envelope else latest)
                   None (map loopEnvelope events))))"

definition strandedInvocationItem :: "pending_invocation \<Rightarrow> append_item" where
  "strandedInvocationItem invocation =
     \<lparr> ai_envelopeId = ids_invocationTerminal (pi_invocationId invocation), ai_payloadKind = InvocationAbandoned,
       ai_payload = JObj [protocol_prop, (''reason'', JStr ''Agent turn recovery failed before invocation completed''),
         (''terminalOutcome'', JStr ''abandoned''), (''terminalReasonCode'', JStr ''stranded_open_turn'')],
       ai_causality = JObj [(''invocationId'', JStr (pi_invocationId invocation)), (''turnId'', JStr (pi_turnId invocation))],
       ai_publish = True \<rparr>"

definition strandedApprovalItem :: "pending_approval \<Rightarrow> append_item" where
  "strandedApprovalItem approval =
     \<lparr> ai_envelopeId = ids_approvalResolved (pa_approvalId approval), ai_payloadKind = ApprovalResolved,
       ai_payload = JObj [protocol_prop, (''granted'', JBool False),
         (''resolvedBy'', JObj [(''kind'', JStr ''system''), (''id'', JStr ''agent-loop'')]), (''reason'', JStr ''stranded_open_turn'')],
       ai_causality = JObj [(''approvalId'', JStr (pa_approvalId approval)), (''invocationId'', JStr (pa_invocationId approval)),
         (''turnId'', JStr (pa_turnId approval))],
       ai_publish = True \<rparr>"

definition strandedWaitItem :: "pending_credential_wait \<Rightarrow> append_item" where
  "strandedWaitItem wait =
     \<lparr> ai_envelopeId = ids_systemEvent (cw_credKey wait) ''resolved'' (Some (cw_startedAtSeq wait)), ai_payloadKind = SystemEvent,
       ai_payload = JObj [protocol_prop, (''kind'', JStr ''credential.wait_resolved''), (''credKey'', JStr (cw_credKey wait)),
         (''details'', JObj [(''kind'', JStr ''credential.wait_resolved''), (''credKey'', JStr (cw_credKey wait)),
            (''providerId'', JStr (cw_providerId wait)), (''resolved'', JBool False), (''reason'', JStr ''stranded_open_turn'')])],
       ai_causality = JObj [(''turnId'', JStr (cw_turnId wait))], ai_publish = True \<rparr>"

definition strandedOpenTurnCleanupItems :: "agent_state \<Rightarrow> append_item list" where
  "strandedOpenTurnCleanupItems state =
     (if openTurn state = None then []
      else map strandedInvocationItem (map snd (pendingInvocations state))
        @ map strandedApprovalItem (map snd (pendingApprovals state))
        @ map strandedWaitItem (map snd (pendingCredentialWaits state)))"

definition strandedFailureItems :: "agent_state \<Rightarrow> open_turn \<Rightarrow> append_item list" where
  "strandedFailureItems state turn =
     (let messageId = ''recovery:'' @ ot_turnId turn @ '':stranded-open-turn'' in
      [\<lparr> ai_envelopeId = ids_messageTerminal messageId, ai_payloadKind = MessageFailed,
         ai_payload = JObj [protocol_prop,
           (''reason'', JStr (''Agent turn recovery failed: replay found an open turn with no pending model call, '' @
              ''tool, approval, credential wait, scheduled resume, or terminal assistant cascade.'')),
           (''recoverable'', JBool False), (''code'', JStr ''stranded_open_turn'')],
         ai_causality = JObj [(''messageId'', JStr messageId), (''turnId'', JStr (ot_turnId turn))], ai_publish = True \<rparr>]
      @ strandedOpenTurnCleanupItems state
      @ [\<lparr> ai_envelopeId = ids_turnClosed (ot_turnId turn), ai_payloadKind = TurnClosed,
           ai_payload = JObj [protocol_prop, (''reason'', JStr ''work_failed''),
             (''summary'', JStr ''Recovery failed: no pending work remained for the open turn.'')],
           ai_causality = JObj [(''turnId'', JStr (ot_turnId turn))], ai_publish = True \<rparr>])"

definition appendAndFold :: "driver_env \<Rightarrow> nat \<Rightarrow> append_item list \<Rightarrow> unit drv" where
  "appendAndFold env a items =
     dbind (driver_append env a items) (\<lambda>envelopes. dthen (foldInto a envelopes) (writeCache env a))"

definition strandedAt :: "nat \<Rightarrow> bool drv" where
  "strandedAt a = dread (\<lambda>d. isOpenTurnStranded d (dv_heap d ! a))"

definition appendStrandedOpenTurnFailure :: "driver_env \<Rightarrow> nat \<Rightarrow> unit drv" where
  "appendStrandedOpenTurnFailure env a =
     dbind (instance_at a) (\<lambda>inst.
       case openTurn (lp_state inst) of
         None \<Rightarrow> dreturn ()
       | Some turn \<Rightarrow>
           let items = strandedFailureItems (lp_state inst) turn in
           dcatch (appendAndFold env a items)
             (\<lambda>err.
               if isStaleStateAppendError err then
                 dthen (dropLoop (lp_channelId inst))
                   (dbind (driver_loop env (lp_channelId inst)) (\<lambda>fresh.
                    dbind (strandedAt fresh) (\<lambda>stranded. if \<not> stranded then dreturn () else appendAndFold env fresh items)))
               else draise err))"

definition recoverOpenTurnAfterReplay :: "nat \<Rightarrow> driver_env \<Rightarrow> string \<Rightarrow> unit drv" where
  "recoverOpenTurnAfterReplay fuel env chan =
     dbind (driver_loop env chan) (\<lambda>a.
     dbind (strandedAt a) (\<lambda>stranded.
     if \<not> stranded then dreturn ()
     else
       dbind (instance_at a) (\<lambda>inst.
       dbind (dread dv_store) (\<lambda>store.
       dbind (dlift (latestCascadeEnvelopeForOpenTurn store inst)) (\<lambda>cascade.
       let failTurn = (\<lambda>b. dthen (appendStrandedOpenTurnFailure env b) (settle fuel env chan)) in
       case cascade of
         None \<Rightarrow> failTurn a
       | Some envelope \<Rightarrow>
           dthen (driver_runStep fuel env a (EventAppended envelope) APPEND_RETRIES)
          (dthen (settle fuel env chan)
          (dbind (driver_loop env chan) (\<lambda>b.
           dbind (strandedAt b) (\<lambda>again. if \<not> again then dreturn () else failTurn b)))))))))"

subsection \<open>Waking\<close>

definition inFlightModelCallIsQueuedOrRunningHere :: "driver_env \<Rightarrow> driver \<Rightarrow> loop_instance \<Rightarrow> bool" where
  "inFlightModelCallIsQueuedOrRunningHere env d inst \<longleftrightarrow>
     (case inFlightModelCall (lp_state inst) of
        None \<Rightarrow> False
      | Some inFlight \<Rightarrow>
          (case outbox_get (dv_outbox d) (lp_logId inst) (ids_modelEffect (mc_messageId inFlight)) of
             None \<Rightarrow> False
           | Some row \<Rightarrow>
               (case ob_leaseExpiresAt row of
                  None \<Rightarrow> True
                | Some t \<Rightarrow> dx_now env < t \<or> map_of (dv_aborts d) (ob_key row) \<noteq> None)))"

definition wake :: "nat \<Rightarrow> driver_env \<Rightarrow> string \<Rightarrow> unit drv" where
  "wake fuel env chan =
     dthen (dropLoop chan)
       (dbind (driver_loop env chan) (\<lambda>a.
        dbind (dread (\<lambda>d. inFlightModelCallIsQueuedOrRunningHere env d (dv_heap d ! a))) (\<lambda>here.
          dthen (if here then dreturn () else driver_runStep fuel env a (CommandIn Wake) APPEND_RETRIES)
         (dthen (settle fuel env chan)
            (recoverOpenTurnAfterReplay fuel env chan)))))"

end
