(* ===== verification/Dispatch.thy ===== *)
theory Dispatch
  imports Driver
begin

text \<open>
  The agent loop driver, second half: outcomes of effects, retries and failures, suspension on a credential,
  dispatch of due rows, deferred results, scheduled resumes, and the pump behind the alarm.
\<close>

subsection \<open>Failing, retrying, suspending\<close>

definition transformOutcome :: "driver_env \<Rightarrow> loop_instance \<Rightarrow> append_item list \<Rightarrow> append_item list" where
  "transformOutcome env inst items =
     foldl (\<lambda>transformed policy. case pol_transformAppend policy of
        Some transform \<Rightarrow> transform (lp_state inst) transformed | None \<Rightarrow> transformed)
       items (dx_policies env (lp_channelId inst))"

definition emitEphemeral :: "driver_env \<Rightarrow> loop_instance \<Rightarrow> json \<Rightarrow> unit drv" where
  "emitEphemeral env inst emit =
     (let transformed = foldl (\<lambda>current policy. case current of
             None \<Rightarrow> None
           | Some e \<Rightarrow>
               (case pol_filterEphemeral policy of
                  None \<Rightarrow> Some e
                | Some keep \<Rightarrow>
                    (case keep (lp_state inst) e of
                       None \<Rightarrow> None
                     | Some next \<Rightarrow> if next = JUndefined then Some e else Some next)))
          (Some emit) (dx_policies env (lp_channelId inst))
      in case transformed of None \<Rightarrow> dreturn () | Some e \<Rightarrow> dcall (Ephemeral e))"

definition failEffect :: "nat \<Rightarrow> driver_env \<Rightarrow> outbox_row \<Rightarrow> string \<Rightarrow> unit drv" where
  "failEffect fuel env row message =
     dbind (driver_loop env (ob_channelId row)) (\<lambda>a.
     dbind (instance_at a) (\<lambda>inst.
       dthen (handleIncoming fuel env (lp_channelId inst)
                (EffectFailed (ob_effectId row) (ob_kind row) message (ob_attempts row)))
         (deleteEffect (ob_branchId row) (ob_effectId row))))"

text \<open>\<open>outbox.recordFailure\<close>, and what both callers do with the updated row.\<close>

definition recordFailureThen :: "nat \<Rightarrow> driver_env \<Rightarrow> outbox_row \<Rightarrow> int option \<Rightarrow> string \<Rightarrow> unit drv" where
  "recordFailureThen fuel env row delayMs message =
     dbind (dread (\<lambda>d. outbox_recordFailure (ob_branchId row) (ob_effectId row) (dx_now env) delayMs (dv_outbox d))) (\<lambda>(table, updated).
       dthen (dmodify (\<lambda>d. d\<lparr>dv_outbox := table\<rparr>))
         (case updated of
            Some u \<Rightarrow> if maxAttempts (ob_kind u) False \<le> enat (ob_attempts u) then failEffect fuel env u message else scheduleEarliest env
          | None \<Rightarrow> scheduleEarliest env))"

definition retryEffect :: "nat \<Rightarrow> driver_env \<Rightarrow> outbox_row \<Rightarrow> string \<Rightarrow> int option \<Rightarrow> unit drv" where
  "retryEffect fuel env row reason retryAfterMs = recordFailureThen fuel env row retryAfterMs reason"

definition driver_deferRedrive :: "driver_env \<Rightarrow> outbox_row \<Rightarrow> int \<Rightarrow> unit drv" where
  "driver_deferRedrive env row delayMs =
     dthen (dmodify (\<lambda>d. d\<lparr>dv_outbox := deferRedrive (ob_branchId row) (ob_effectId row) (dx_now env) delayMs (dv_outbox d)\<rparr>))
       (scheduleEarliest env)"

definition driver_nudgeRedrive :: "driver_env \<Rightarrow> outbox_row \<Rightarrow> unit drv" where
  "driver_nudgeRedrive env row =
     dthen (dmodify (\<lambda>d. d\<lparr>dv_outbox := nudgeRedrive (ob_branchId row) (ob_effectId row) (dx_now env) (dv_outbox d)\<rparr>))
       (requestPump env)"

text \<open>Drop the row, reload the loop from the log, reconcile.\<close>

definition discardStale :: "driver_env \<Rightarrow> outbox_row \<Rightarrow> string \<Rightarrow> unit drv" where
  "discardStale env row chan =
     dthen (deleteEffect (ob_branchId row) (ob_effectId row))
    (dthen (dropLoop chan)
    (dthen (dbind (driver_loop env chan) (reconcile env))
       (requestPump env)))"

record suspension =
  su_providerId :: string
  su_modelBaseUrl :: "string option"
  su_waitReason :: "string option"
  su_diagnosticReason :: "string option"
  su_failureCode :: "string option"

definition modelCredentialReconnectOutcome :: "string \<Rightarrow> string option \<Rightarrow> string option \<Rightarrow> string option \<Rightarrow> suspension" where
  "modelCredentialReconnectOutcome providerId modelBaseUrl reason failureCode =
     \<lparr> su_providerId = providerId, su_modelBaseUrl = nonempty_opt modelBaseUrl,
       su_waitReason = Some ''model_credential_reconnect_required'', su_diagnosticReason = nonempty_opt reason,
       su_failureCode = nonempty_opt failureCode \<rparr>"

definition suspensionItems :: "driver_env \<Rightarrow> loop_instance \<Rightarrow> outbox_row \<Rightarrow> suspension \<Rightarrow> append_item list" where
  "suspensionItems env inst row outcome =
     (let state = lp_state inst; turn = openTurn state;
          credKey = ids_credKey (lp_channelId inst) (su_providerId outcome);
          expiresAt = Date_toISOString (dx_now env + 10 * 60 * 1000);
          connectSpec = dx_connectSpec env (su_providerId outcome);
          waitReason = option_or (su_waitReason outcome) ''model_credential_required'';
          waitSummary = (if waitReason = ''model_credential_reconnect_required''
            then ''Waiting for model credential reconnect'' else ''Waiting for model credential approval'');
          messageId = (case ob_descriptor row of ModelCallEffect _ mid _ _ \<Rightarrow> nonempty_opt (Some mid) | _ \<Rightarrow> None);
          diagnostics = opt_prop ''reason'' JStr (nonempty_opt (su_diagnosticReason outcome))
            @ opt_prop ''failureCode'' JStr (nonempty_opt (su_failureCode outcome))
            @ opt_prop ''messageId'' JStr messageId
            @ opt_prop ''modelBaseUrl'' JStr (nonempty_opt (su_modelBaseUrl outcome));
          turnRef = opt_prop ''turnId'' (\<lambda>t. JStr (ot_turnId t)) turn
      in (case messageId of
            None \<Rightarrow> []
          | Some mid \<Rightarrow>
              [\<lparr> ai_envelopeId = ids_messageTerminal mid, ai_payloadKind = MessageFailed,
                 ai_payload = JObj ([protocol_prop, (''reason'', JStr waitReason), (''recoverable'', JBool True)]
                   @ opt_prop ''code'' JStr (nonempty_opt (su_failureCode outcome))),
                 ai_causality = JObj [(''messageId'', JStr mid)], ai_publish = True \<rparr>])
         @ [\<lparr> ai_envelopeId = ids_systemEvent credKey ''started'' (Some (lastSeq state + 1)), ai_payloadKind = SystemEvent,
              ai_payload = JObj ([protocol_prop, (''kind'', JStr ''credential.wait_started''), (''credKey'', JStr credKey),
                  (''providerId'', JStr (su_providerId outcome)), (''expiresAt'', JStr expiresAt), (''waitReason'', JStr waitReason)]
                @ diagnostics
                @ [(''details'', JObj ([(''kind'', JStr ''credential.wait_started''), (''credKey'', JStr credKey),
                      (''providerId'', JStr (su_providerId outcome)), (''waitReason'', JStr waitReason)]
                    @ diagnostics
                    @ [(''connectSpec'', connectSpec), (''expiresAt'', JStr expiresAt)] @ turnRef))]),
              ai_causality = JObj (turnRef @ opt_prop ''messageId'' JStr messageId), ai_publish = True \<rparr>]
         @ (case turn of
              None \<Rightarrow> []
            | Some t \<Rightarrow>
                [\<lparr> ai_envelopeId = ids_turnWaiting (ot_turnId t) (ot_waitingCount t), ai_payloadKind = TurnWaiting,
                   ai_payload = JObj [protocol_prop, (''reason'', JStr waitReason), (''summary'', JStr waitSummary)],
                   ai_causality = JObj [(''turnId'', JStr (ot_turnId t))], ai_publish = True \<rparr>]))"

definition suspendOnCredential :: "driver_env \<Rightarrow> nat \<Rightarrow> outbox_row \<Rightarrow> suspension \<Rightarrow> unit drv" where
  "suspendOnCredential env a row outcome =
     dbind (instance_at a) (\<lambda>inst.
     dbind (dcatch (dbind (driver_append env a (suspensionItems env inst row outcome)) (\<lambda>envelopes. dreturn (Some envelopes)))
              (\<lambda>err. if isStaleStateAppendError err
                 then dthen (discardStale env row (lp_channelId inst)) (dreturn None) else draise err))
       (\<lambda>appended. case appended of
          None \<Rightarrow> dreturn ()
        | Some envelopes \<Rightarrow>
            dthen (deleteEffect (ob_branchId row) (ob_effectId row))
           (dthen (foldInto a envelopes)
           (dthen (writeCache env a)
           (dthen (reconcile env a)
              (requestPump env))))))"

subsection \<open>Applying an outcome\<close>

text \<open>One attempt to append the outcome events; \<open>Some\<close> is the appended suffix and the instance it was appended
  for, \<open>None\<close> a journaled duplicate that was discarded.\<close>

definition attemptOutcome ::
  "driver_env \<Rightarrow> (loop_error \<Rightarrow> string \<Rightarrow> (nat \<times> stored_event list) option drv) \<Rightarrow> nat \<Rightarrow> outbox_row \<Rightarrow> effect_outcome
   \<Rightarrow> (nat \<times> stored_event list) option drv" where
  "attemptOutcome env onConflict a row outcome =
     dbind (instance_at a) (\<lambda>inst.
     dbind (dlift (outcomeEvents (dx_classify env) (ob_descriptor row) outcome (nowIso env))) (\<lambda>items.
       dcatch (dbind (driver_append env a (transformOutcome env inst items)) (\<lambda>envelopes. dreturn (Some (a, envelopes))))
         (\<lambda>err. case err of
            GadAppendError HeadConflict \<Rightarrow> onConflict err (lp_channelId inst)
          | GadAppendError _ \<Rightarrow> dthen (discardStale env row (lp_channelId inst)) (dreturn None)
          | _ \<Rightarrow> draise err)))"

primrec appendOutcome :: "nat \<Rightarrow> driver_env \<Rightarrow> nat \<Rightarrow> outbox_row \<Rightarrow> effect_outcome \<Rightarrow> (nat \<times> stored_event list) option drv" where
  "appendOutcome 0 env a row outcome = attemptOutcome env (\<lambda>err chan. draise err) a row outcome"
| "appendOutcome (Suc n) env a row outcome =
     attemptOutcome env (\<lambda>err chan. dthen (dropLoop chan) (dbind (driver_loop env chan) (\<lambda>b. appendOutcome n env b row outcome)))
       a row outcome"

definition isHeartbeat :: "effect_descriptor \<Rightarrow> bool" where
  "isHeartbeat descriptor \<longleftrightarrow>
     (case descriptor of ModelCallEffect _ _ _ request \<Rightarrow> jget (jget request ''turnMetadata'') ''origin'' = JStr ''heartbeat'' | _ \<Rightarrow> False)"

definition reportHeartbeat :: "driver_env \<Rightarrow> string \<Rightarrow> outbox_row \<Rightarrow> effect_outcome \<Rightarrow> unit drv" where
  "reportHeartbeat env chan row outcome =
     (case dx_heartbeat env of
        Some report \<Rightarrow>
          if isHeartbeat (ob_descriptor row)
          then dthen (dcall (HeartbeatOutcome chan (ob_descriptor row) outcome)) (dlift (report chan (ob_descriptor row) outcome))
          else dreturn ()
      | None \<Rightarrow> dreturn ())"

text \<open>What follows a successful append: the row is deleted only now.\<close>

definition finishOutcome :: "nat \<Rightarrow> driver_env \<Rightarrow> outbox_row \<Rightarrow> effect_outcome \<Rightarrow> nat \<Rightarrow> stored_event list \<Rightarrow> unit drv" where
  "finishOutcome fuel env row outcome a envelopes =
     dbind (instance_at a) (\<lambda>inst.
       dthen (kill env ''after-outcome-append'')
      (dthen (deleteEffect (ob_branchId row) (ob_effectId row))
      (dthen (kill env ''after-outbox-delete'')
      (dthen (foldInto a envelopes)
      (dthen (writeCache env a)
      (dthen (reportHeartbeat env (lp_channelId inst) row outcome)
      (dthen (deach (\<lambda>envelope. driver_runStep fuel env a (EventAppended (loopEnvelope envelope)) APPEND_RETRIES) envelopes)
         (settle fuel env (lp_channelId inst)))))))))"

definition applyTerminal :: "nat \<Rightarrow> driver_env \<Rightarrow> outbox_row \<Rightarrow> effect_outcome \<Rightarrow> nat \<Rightarrow> unit drv" where
  "applyTerminal fuel env row outcome a =
     dbind (appendOutcome HEAD_CONFLICT_RETRIES env a row outcome) (\<lambda>appended.
       case appended of
         None \<Rightarrow> dreturn ()
       | Some (b, envelopes) \<Rightarrow> finishOutcome fuel env row outcome b envelopes)"

definition applyOutcome :: "nat \<Rightarrow> driver_env \<Rightarrow> outbox_row \<Rightarrow> effect_outcome \<Rightarrow> unit drv" where
  "applyOutcome fuel env row outcome =
     dbind (driver_loop env (ob_channelId row)) (\<lambda>a.
       case outcome of
         RetryOutcome reason retryAfterMs code \<Rightarrow> retryEffect fuel env row reason retryAfterMs
       | ModelSuspended providerId modelBaseUrl waitReason diagnosticReason failureCode \<Rightarrow>
           suspendOnCredential env a row
             \<lparr> su_providerId = providerId, su_modelBaseUrl = modelBaseUrl, su_waitReason = waitReason,
               su_diagnosticReason = diagnosticReason, su_failureCode = failureCode \<rparr>
       | _ \<Rightarrow> applyTerminal fuel env row outcome a)"

subsection \<open>Dispatching due rows\<close>

fun with_effectId :: "string \<Rightarrow> effect_descriptor \<Rightarrow> effect_descriptor" where
  "with_effectId eid (ModelCallEffect b messageId turnId request) = ModelCallEffect (b\<lparr>ef_effectId := eid\<rparr>) messageId turnId request"
| "with_effectId eid (HttpCallEffect b invocationId turnId url request) = HttpCallEffect (b\<lparr>ef_effectId := eid\<rparr>) invocationId turnId url request"
| "with_effectId eid (CredentialWaitEffect b credKey seq providerId turnId spec url wr reason fc expiresAt) =
     CredentialWaitEffect (b\<lparr>ef_effectId := eid\<rparr>) credKey seq providerId turnId spec url wr reason fc expiresAt"
| "with_effectId eid descriptor = descriptor"

definition dispatchDescriptor :: "outbox_row \<Rightarrow> effect_descriptor \<Rightarrow> effect_descriptor" where
  "dispatchDescriptor row descriptor = with_effectId (outboxExternalId (ob_branchId row) (ob_effectId row)) descriptor"

definition setAbort :: "outbox_row \<Rightarrow> unit drv" where
  "setAbort row = dmodify (\<lambda>d. d\<lparr>dv_aborts := AList.update (ob_key row) (ob_channelId row) (dv_aborts d)\<rparr>)"

definition clearAbort :: "outbox_row \<Rightarrow> unit drv" where
  "clearAbort row = dmodify (\<lambda>d. d\<lparr>dv_aborts := AList.delete (ob_key row) (dv_aborts d)\<rparr>)"

definition leaseRow :: "driver_env \<Rightarrow> outbox_row \<Rightarrow> unit drv" where
  "leaseRow env row = dmodify (\<lambda>d. d\<lparr>dv_outbox := outbox_lease (ob_branchId row) (ob_effectId row) (dx_now env) (dv_outbox d)\<rparr>)"

definition rowRequest :: "outbox_row \<Rightarrow> json" where
  "rowRequest row = (case ob_descriptor row of ModelCallEffect _ _ _ request \<Rightarrow> request | _ \<Rightarrow> JUndefined)"

text \<open>The executor threw.\<close>

definition executionFailed :: "nat \<Rightarrow> driver_env \<Rightarrow> nat \<Rightarrow> outbox_row \<Rightarrow> string \<Rightarrow> model_failure_info \<Rightarrow> unit drv" where
  "executionFailed fuel env a row message failure =
     (let request = rowRequest row;
          provider = (if truthy (jget request ''provider'') then string_opt (jget request ''provider'') else None)
      in dthen
        (if ob_kind row = KModelCall \<and> mf_recoverable failure \<and> mf_retryAfterMs failure \<noteq> None then
           retryEffect fuel env row (mf_reason failure) (mf_retryAfterMs failure)
         else if ob_kind row = KModelCall \<and> mf_code failure = ''auth_or_credentials'' \<and> provider \<noteq> None then
           suspendOnCredential env a row
             (modelCredentialReconnectOutcome (the provider) (string_opt (jget request ''modelBaseUrl''))
               (Some (mf_reason failure)) (Some (mf_code failure)))
         else if ob_kind row = KModelCall \<and> \<not> mf_recoverable failure then
           applyOutcome fuel env row (ModelOutcome [] StopError None JUndefined (Some message) (Some False) (Some failure))
         else recordFailureThen fuel env row None message)
        (clearAbort row))"

definition dispatchRow :: "nat \<Rightarrow> driver_env \<Rightarrow> outbox_row \<Rightarrow> unit drv" where
  "dispatchRow fuel env row =
     dbind (driver_loop env (ob_channelId row)) (\<lambda>a.
       dthen (leaseRow env row)
      (dthen (setAbort row)
         (dbind (dlift (dx_hydrate env (ob_descriptor row))) (\<lambda>hydrated.
          dbind (instance_at a) (\<lambda>inst.
            let (emits, execution) = dx_execute env (dispatchDescriptor row hydrated) (lp_state inst) in
            dthen (deach (emitEphemeral env inst) emits)
              (case execution of
                 Threw message failure \<Rightarrow> executionFailed fuel env a row message failure
               | DeferredResult \<Rightarrow> dthen (clearAbort row) (driver_deferRedrive env row 60000)
               | Executed outcome \<Rightarrow> dthen (clearAbort row) (applyOutcome fuel env row outcome)))))))"

definition backgroundDispatch :: "nat \<Rightarrow> driver_env \<Rightarrow> outbox_row \<Rightarrow> unit drv" where
  "backgroundDispatch fuel env row =
     dcatch (dispatchRow fuel env row) (\<lambda>err. dthen (scheduleEarliest env) (draise err))"

definition waitExpired :: "driver_env \<Rightarrow> outbox_row \<Rightarrow> bool" where
  "waitExpired env row \<longleftrightarrow>
     (case ob_descriptor row of
        CredentialWaitEffect _ _ _ _ _ _ _ _ _ _ expiresAt \<Rightarrow>
          (case Date_parse expiresAt of Some t \<Rightarrow> t \<le> dx_now env | None \<Rightarrow> False)
      | _ \<Rightarrow> False)"

definition dispatchOne :: "nat \<Rightarrow> driver_env \<Rightarrow> outbox_row \<Rightarrow> unit drv" where
  "dispatchOne fuel env row =
     (if ob_kind row = KCredentialWait \<and> waitExpired env row then failEffect fuel env row ''credential wait expired''
      else if dx_background env \<and> ob_kind row \<in> set DETACHABLE_EFFECT_KINDS
      then dthen (leaseRow env row) (dcall (BackgroundDispatch row))
      else dispatchRow fuel env row)"

definition dispatchDue :: "nat \<Rightarrow> driver_env \<Rightarrow> unit drv" where
  "dispatchDue fuel env =
     dbind (dread (\<lambda>d. outbox_due (dv_outbox d) (dx_now env))) (dall (dispatchOne fuel env))"

definition abortChannel :: "string \<Rightarrow> unit drv" where
  "abortChannel chan =
     dbind (dread dv_aborts) (deach (\<lambda>((branch, eid), c). if c = chan then dcall (AbortSignal branch eid) else dreturn ()))"

subsection \<open>Results that arrive from outside\<close>

record outcome_address =
  oa_branchId :: "string option"
  oa_channelId :: "string option"

definition outcomeRow :: "outbox \<Rightarrow> string \<Rightarrow> outcome_address \<Rightarrow> outbox_row option res" where
  "outcomeRow table eid address =
     bind_res (parseOutboxExternalId eid) (\<lambda>parsed. case parsed of
        Some (branch, e) \<Rightarrow> Inr (outbox_get table branch e)
      | None \<Rightarrow>
          (case nonempty_opt (oa_branchId address) of
             Some branch \<Rightarrow> Inr (outbox_get table branch eid)
           | None \<Rightarrow>
               (case nonempty_opt (oa_channelId address) of
                  Some chan \<Rightarrow> outbox_getForChannel table chan eid
                | None \<Rightarrow> outbox_getUnique table eid)))"

definition deliverEffectOutcome :: "nat \<Rightarrow> driver_env \<Rightarrow> string \<Rightarrow> effect_outcome \<Rightarrow> outcome_address \<Rightarrow> bool drv" where
  "deliverEffectOutcome fuel env eid outcome address =
     dbind (dread dv_outbox) (\<lambda>table.
     dbind (dlift (outcomeRow table eid address)) (\<lambda>found. case found of
        None \<Rightarrow> dreturn False
      | Some row \<Rightarrow> dthen (applyOutcome fuel env row outcome) (dreturn True)))"

text \<open>\<open>s.trim()\<close> is not empty.\<close>

definition has_ink :: "string \<Rightarrow> bool" where
  "has_ink s \<longleftrightarrow> (\<exists>c \<in> set s. (of_char c :: nat) \<notin> {9, 10, 11, 12, 13, 32, 160})"

definition deferredErrorMessage :: "json \<Rightarrow> string" where
  "deferredErrorMessage result =
     (let message = (if is_object result then string_opt (jget result ''message'') else None) in
      case message of
        Some m \<Rightarrow> if has_ink m then m else ''Deferred call failed''
      | None \<Rightarrow> (case string_opt result of Some s \<Rightarrow> if has_ink s then s else ''Deferred call failed'' | None \<Rightarrow> ''Deferred call failed''))"

definition deliverDeferredResult :: "nat \<Rightarrow> driver_env \<Rightarrow> string \<Rightarrow> json \<Rightarrow> bool \<Rightarrow> outcome_address \<Rightarrow> unit drv" where
  "deliverDeferredResult fuel env requestId result isError address =
     dbind (dread dv_outbox) (\<lambda>table.
     dbind (dlift (outcomeRow table requestId address)) (\<lambda>found. case found of
        None \<Rightarrow> dreturn ()
      | Some row \<Rightarrow>
          if ob_kind row = KModelCall then
            (if isError then failEffect fuel env row (deferredErrorMessage result) else driver_nudgeRedrive env row)
          else if ob_kind row = KCredentialWait then
            (if isError then failEffect fuel env row (deferredErrorMessage result)
             else applyOutcome fuel env row (CredentialOutcome True None))
          else applyOutcome fuel env row
            (ToolOutcome result None isError (if isError then Some (deferredErrorMessage result) else None))))"

subsection \<open>Scheduled resumes and the pump\<close>

datatype resume_schedule = ResumeScheduled string | ResumeRefused string

definition scheduleResumeAtReset :: "driver_env \<Rightarrow> string \<Rightarrow> json \<Rightarrow> json \<Rightarrow> resume_schedule drv" where
  "scheduleResumeAtReset env chan messageIdInput resetAtInput =
     (let messageId = option_or (string_opt messageIdInput) []; resetAt = option_or (string_opt resetAtInput) [] in
      if messageId = [] then dreturn (ResumeRefused ''messageId is required'')
      else case Date_parse resetAt of
        None \<Rightarrow> dreturn (ResumeRefused ''resetAt must be an ISO timestamp'')
      | Some resetAtMs \<Rightarrow>
          dbind (driver_loop env chan) (\<lambda>a.
          dbind (instance_at a) (\<lambda>inst.
            case openTurn (lp_state inst) of
              None \<Rightarrow> dreturn (ResumeRefused ''no open turn to resume'')
            | Some turn \<Rightarrow>
                if \<not> starts_with messageId (''m:'' @ ot_turnId turn @ '':'')
                then dreturn (ResumeRefused ''message is not part of the open turn'')
                else if inFlightModelCall (lp_state inst) \<noteq> None
                then dreturn (ResumeRefused ''a model call is already running'')
                else
                  let wakeAtMs = max resetAtMs (dx_now env + 50);
                      row = \<lparr> sr_channelId = chan, sr_messageId = messageId, sr_resetAtMs = wakeAtMs, sr_createdAt = dx_now env \<rparr>
                  in dthen (dmodify (\<lambda>d. d\<lparr>dv_resumes :=
                         filter (\<lambda>r. \<not> (sr_channelId r = chan \<and> sr_messageId r = messageId)) (dv_resumes d) @ [row]\<rparr>))
                    (dthen (scheduleEarliest env)
                       (dreturn (ResumeScheduled (Date_toISOString wakeAtMs)))))))"

definition scheduledModelResumeRowsDue :: "int \<Rightarrow> scheduled_resume list \<Rightarrow> scheduled_resume list" where
  "scheduledModelResumeRowsDue now resumes =
     sort_key (\<lambda>row. (sr_resetAtMs row, sr_createdAt row)) (filter (\<lambda>row. sr_resetAtMs row \<le> now) resumes)"

definition deleteScheduledModelResume :: "scheduled_resume \<Rightarrow> unit drv" where
  "deleteScheduledModelResume row =
     dmodify (\<lambda>d. d\<lparr>dv_resumes :=
       filter (\<lambda>r. \<not> (sr_channelId r = sr_channelId row \<and> sr_messageId r = sr_messageId row)) (dv_resumes d)\<rparr>)"

definition processScheduledModelResumes :: "nat \<Rightarrow> driver_env \<Rightarrow> unit drv" where
  "processScheduledModelResumes fuel env =
     dbind (dread (\<lambda>d. scheduledModelResumeRowsDue (dx_now env) (dv_resumes d)))
       (deach (\<lambda>row.
          dcatch
            (dthen (handleIncoming fuel env (sr_channelId row)
                      (CommandIn (ResumeAfterReset (sr_messageId row) (Date_toISOString (sr_resetAtMs row)))))
               (deleteScheduledModelResume row))
            (\<lambda>err. dreturn ())))"

text \<open>The \<open>do ... while (repump)\<close> of the pump; the fuel also bounds its rounds.\<close>

primrec pumpLoop :: "nat \<Rightarrow> nat \<Rightarrow> driver_env \<Rightarrow> unit drv" where
  "pumpLoop 0 fuel env = (\<lambda>d. None)"
| "pumpLoop (Suc rounds) fuel env =
     dthen (dmodify (\<lambda>d. d\<lparr>dv_repump := False\<rparr>))
    (dthen (dbind (dread (\<lambda>d. map snd (dv_loops d))) (deach (reconcile env)))
    (dthen (dispatchDue fuel env)
       (dbind (dread dv_repump) (\<lambda>again. if again then pumpLoop rounds fuel env else dreturn ()))))"

definition pump :: "nat \<Rightarrow> nat \<Rightarrow> driver_env \<Rightarrow> unit drv" where
  "pump rounds fuel env =
     dbind (dread dv_pumping) (\<lambda>pumping.
       if pumping then dmodify (\<lambda>d. d\<lparr>dv_repump := True\<rparr>)
       else dthen (dmodify (\<lambda>d. d\<lparr>dv_pumping := True\<rparr>))
              (dfinally (pumpLoop rounds fuel env)
                 (dthen (dmodify (\<lambda>d. d\<lparr>dv_pumping := False\<rparr>)) (scheduleEarliest env))))"

definition alarm :: "nat \<Rightarrow> nat \<Rightarrow> driver_env \<Rightarrow> unit drv" where
  "alarm rounds fuel env = dthen (processScheduledModelResumes fuel env) (pump rounds fuel env)"

end
