(* ===== verification/DriverRel.thy ===== *)
theory DriverRel
  imports Dispatch
begin

text \<open>
  What every operation of the driver respects. The locale \<open>driver_relation\<close> is the contract: a preorder on driver
  states that each primitive write of the driver respects is respected by every operation, whether it returns or
  throws. Its interpretations give the invariants: the outbox stays well formed, logs only grow.
\<close>

definition dkeeps :: "(driver \<Rightarrow> driver \<Rightarrow> bool) \<Rightarrow> 'a drv \<Rightarrow> bool" where
  "dkeeps R m \<longleftrightarrow> (\<forall>d d' r. m d = Some (d', r) \<longrightarrow> R d d')"


lemma dkeepsD: "dkeeps R m \<Longrightarrow> m d = Some (d', r) \<Longrightarrow> R d d'"
  by (auto simp: dkeeps_def)

definition loaded :: "driver_env \<Rightarrow> string \<Rightarrow> fold_cache \<Rightarrow> agent_state \<Rightarrow> driver \<Rightarrow> driver" where
  "loaded env chan cache state d =
     d\<lparr>dv_cache := cache,
       dv_heap := dv_heap d @ [\<lparr> lp_channelId = chan, lp_logId = ids_logIdForChannel chan, lp_head = ids_logIdForChannel chan,
         lp_state = state, lp_policies = dx_policies env chan \<rparr>],
       dv_loops := dput chan (length (dv_heap d)) (dv_loops d)\<rparr>"

lemma driver_loop_cases:
  "driver_loop env chan d =
     (case dget (dv_loops d) chan of
        Some a \<Rightarrow> Some (d, Inr a)
      | None \<Rightarrow>
          (case loadState (dx_now env) (dv_store d) (dv_cache d) (loopInput env chan) of
             Inl e \<Rightarrow> Some (d, Inl e)
           | Inr (cache, state) \<Rightarrow> Some (loaded env chan cache state d, Inr (length (dv_heap d)))))"
  by (simp add: driver_loop_def loaded_def dbind_def dread_def dreturn_def dlift_def dthen_def dmodify_def Let_def
      split: option.split sum.split prod.split)

locale driver_relation =
  fixes env :: driver_env
    and R :: "driver \<Rightarrow> driver \<Rightarrow> bool"
  assumes R_refl: "R d d"
    and R_trans: "R d e \<Longrightarrow> R e f \<Longrightarrow> R d f"
    and calls_R: "R d (d\<lparr>dv_calls := calls\<rparr>)"
    and flags_R: "R d (d\<lparr>dv_pumping := p\<rparr>)" "R d (d\<lparr>dv_repump := p\<rparr>)"
    and aborts_R: "R d (d\<lparr>dv_aborts := aborts\<rparr>)"
    and resumes_R: "R d (d\<lparr>dv_resumes := resumes\<rparr>)"
    and cache_R: "R d (d\<lparr>dv_cache := cache_write now (lp_state (dv_heap d ! a)) (dv_cache d)\<rparr>)"
    and drop_R: "R d (d\<lparr>dv_loops := ddel chan (dv_loops d)\<rparr>)"
    and load_R: "loadState (dx_now env) (dv_store d) (dv_cache d) (loopInput env chan) = Inr (cache, state) \<Longrightarrow>
      dget (dv_loops d) chan = None \<Longrightarrow> R d (loaded env chan cache state d)"
    and state_R: "R d (d\<lparr>dv_heap := (dv_heap d)[a := (dv_heap d ! a)\<lparr>lp_state := s\<rparr>]\<rparr>)"
    and outbox_R: "outbox_write (dv_outbox d) table \<Longrightarrow> R d (d\<lparr>dv_outbox := table\<rparr>)"
    and append_R: "appendLogEvent (dx_storeEnv env) (dv_store d) request = Inr (store', result) \<Longrightarrow> R d (d\<lparr>dv_store := store'\<rparr>)"
begin

lemma keeps_return: "dkeeps R (dreturn x)"
  by (simp add: dkeeps_def dreturn_def R_refl)

lemma keeps_raise: "dkeeps R (draise e)"
  by (simp add: dkeeps_def draise_def R_refl)

lemma keeps_read: "dkeeps R (dread f)"
  by (simp add: dkeeps_def dread_def R_refl)

lemma keeps_lift: "dkeeps R (dlift r)"
  by (simp add: dkeeps_def dlift_def R_refl)

lemma keeps_never: "dkeeps R (\<lambda>d. None)"
  by (simp add: dkeeps_def)

lemma keeps_modify: "(\<And>d. R d (f d)) \<Longrightarrow> dkeeps R (dmodify f)"
  by (auto simp: dkeeps_def dmodify_def)

lemma keeps_bind: "dkeeps R m \<Longrightarrow> (\<And>x. dkeeps R (f x)) \<Longrightarrow> dkeeps R (dbind m f)"
  unfolding dkeeps_def dbind_def by (auto split: option.splits sum.splits) (blast intro: R_trans)+

lemma keeps_then: "dkeeps R m \<Longrightarrow> dkeeps R f \<Longrightarrow> dkeeps R (dthen m f)"
  by (simp add: dthen_def keeps_bind)

lemma keeps_catch: "dkeeps R m \<Longrightarrow> (\<And>e. dkeeps R (h e)) \<Longrightarrow> dkeeps R (dcatch m h)"
  unfolding dkeeps_def dcatch_def by (auto split: option.splits sum.splits) (blast intro: R_trans)+

lemma keeps_finally: "dkeeps R m \<Longrightarrow> dkeeps R f \<Longrightarrow> dkeeps R (dfinally m f)"
  unfolding dkeeps_def dfinally_def by (auto split: option.splits sum.splits) (blast intro: R_trans)+

lemma keeps_each: "(\<And>x. dkeeps R (f x)) \<Longrightarrow> dkeeps R (deach f xs)"
  by (induction xs) (simp_all add: keeps_return keeps_then)

lemma keeps_all: "(\<And>x. dkeeps R (f x)) \<Longrightarrow> dkeeps R (dall f xs)"
proof (induction xs)
  case (Cons x xs)
  then show ?case unfolding dkeeps_def by (auto split: option.splits sum.splits) (blast intro: R_trans)+
qed (simp add: keeps_return)

lemma keeps_if: "(b \<Longrightarrow> dkeeps R x) \<Longrightarrow> (\<not> b \<Longrightarrow> dkeeps R y) \<Longrightarrow> dkeeps R (if b then x else y)"
  by simp

lemma keeps_case_option: "(v = None \<Longrightarrow> dkeeps R x) \<Longrightarrow> (\<And>y. v = Some y \<Longrightarrow> dkeeps R (f y)) \<Longrightarrow> dkeeps R (case v of None \<Rightarrow> x | Some y \<Rightarrow> f y)"
  by (cases v) auto

lemma keeps_let: "(\<And>x. dkeeps R (f x)) \<Longrightarrow> dkeeps R (let x = v in f x)"
  by simp

lemma keeps_pair: "(\<And>x y. dkeeps R (f x y)) \<Longrightarrow> dkeeps R (case p of (x, y) \<Rightarrow> f x y)"
  by (cases p) auto

lemmas combinators = keeps_if keeps_case_option keeps_let keeps_pair keeps_return keeps_raise keeps_read keeps_lift keeps_bind keeps_then keeps_catch keeps_finally
  keeps_each keeps_all

lemma keeps_call: "dkeeps R (dcall c)"
  unfolding dcall_def by (rule keeps_modify) (rule calls_R)

lemma keeps_kill: "dkeeps R (kill env point)"
  by (simp add: kill_def keeps_raise keeps_return)

lemma keeps_instance: "dkeeps R (instance_at a)"
  by (simp add: instance_at_def keeps_read)

lemma keeps_set_state: "dkeeps R (set_state a s)"
  unfolding set_state_def by (rule keeps_modify) (rule state_R)

lemma keeps_loop: "dkeeps R (driver_loop env chan)"
  unfolding dkeeps_def driver_loop_cases
  by (auto simp: R_refl split: option.splits sum.splits intro: load_R)

lemma keeps_drop: "dkeeps R (dropLoop chan)"
  unfolding dropLoop_def by (rule keeps_modify) (rule drop_R)

lemma keeps_schedule: "dkeeps R (scheduleEarliest env)"
  unfolding scheduleEarliest_def by (intro combinators) (auto intro: keeps_return keeps_call split: option.split)

lemma keeps_requestPump: "dkeeps R (requestPump env)"
  unfolding requestPump_def by (intro combinators) (auto intro: combinators keeps_call keeps_modify flags_R)

lemma keeps_broadcast: "dkeeps R (broadcastPublications env es ps)"
  unfolding broadcastPublications_def by (auto intro!: combinators keeps_call)

lemma keeps_appendRequest: "dkeeps R (appendRequest env since request)"
  unfolding dkeeps_def
proof (intro allI impI)
  fix d d' r
  assume run: "appendRequest env since request d = Some (d', r)"
  show "R d d'"
  proof (cases "appendLogEvent (dx_storeEnv env) (dv_store d) request")
    case (Inr p)
    then obtain store' result where app: "appendLogEvent (dx_storeEnv env) (dv_store d) request = Inr (store', result)" by (cases p) auto
    have "R (d\<lparr>dv_store := store'\<rparr>) d'"
      using run app dkeepsD [OF keeps_broadcast]
      by (auto simp: appendRequest_def dbind_def dread_def dlift_def dthen_def dmodify_def dreturn_def Let_def split: option.splits sum.splits)
    then show ?thesis using append_R [OF app] R_trans by blast
  qed (use run in \<open>simp add: appendRequest_def dbind_def dread_def dlift_def R_refl\<close>)
qed

lemma keeps_append: "dkeeps R (driver_append env a items)"
  unfolding driver_append_def by (intro combinators keeps_instance keeps_appendRequest)

lemma keeps_foldInto: "dkeeps R (foldInto a es)"
  unfolding foldInto_def by (intro combinators keeps_instance keeps_set_state)

lemma keeps_writeCache: "dkeeps R (writeCache env a)"
  unfolding dkeeps_def writeCache_def
  by (auto simp: dbind_def instance_at_def dread_def dmodify_def intro: cache_R)

lemma keeps_insertEffect: "dkeeps R (insertEffect env branch effect)"
  unfolding insertEffect_def by (rule keeps_modify) (rule outbox_R, rule write_insert)

lemma keeps_deleteEffect: "dkeeps R (deleteEffect branch eid)"
  unfolding deleteEffect_def by (rule keeps_modify) (rule outbox_R, rule write_delete)

lemma keeps_enact: "dkeeps R (enactEffect env branch effect)"
  unfolding enactEffect_def by (auto intro!: combinators keeps_call keeps_insertEffect)

lemma keeps_journaled: "dkeeps R (ingestCommandAlreadyJournaled a incoming)"
  unfolding ingestCommandAlreadyJournaled_def Let_def
  by (intro combinators keeps_instance) (auto intro!: combinators split: incoming.split command.split)

lemmas primitives = keeps_call keeps_kill keeps_instance keeps_set_state keeps_loop keeps_drop keeps_schedule keeps_requestPump
  keeps_append keeps_foldInto keeps_writeCache keeps_insertEffect keeps_deleteEffect keeps_enact keeps_journaled

lemma keeps_staleAppend: "(\<And>b. dkeeps R (rerun b)) \<Longrightarrow> dkeeps R (staleAppend env rerun a chan incoming retries err)"
  unfolding staleAppend_def by (intro combinators primitives)

lemma keeps_enactStep: "(\<And>e. dkeeps R (cascade e)) \<Longrightarrow> dkeeps R (enactStep env cascade a branch effects envelopes)"
  unfolding enactStep_def by (intro combinators primitives)

lemma keeps_runStep: "dkeeps R (driver_runStep fuel env a incoming retries)"
proof (induction fuel arbitrary: a incoming retries)
  case (Suc fuel)
  show ?case unfolding driver_runStep.simps
    by (intro combinators primitives keeps_staleAppend keeps_enactStep Suc)
qed (simp add: keeps_never)

lemma keeps_reconcile: "dkeeps R (reconcile env a)"
  unfolding reconcile_def by (intro combinators primitives)

lemma keeps_maybeCompact: "dkeeps R (maybeCompact fuel env a)"
  unfolding maybeCompact_def by (intro combinators primitives keeps_runStep)

lemma keeps_settle: "dkeeps R (settle fuel env chan)"
  unfolding settle_def by (intro combinators primitives keeps_reconcile keeps_maybeCompact)

lemma keeps_handleIncoming: "dkeeps R (handleIncoming fuel env chan incoming)"
  unfolding handleIncoming_def by (intro combinators primitives keeps_settle keeps_runStep)

lemma keeps_appendAndFold: "dkeeps R (appendAndFold env a items)"
  unfolding appendAndFold_def by (intro combinators primitives)

lemma keeps_strandedFailure: "dkeeps R (appendStrandedOpenTurnFailure env a)"
  unfolding appendStrandedOpenTurnFailure_def strandedAt_def by (intro combinators primitives keeps_appendAndFold)

lemma keeps_recover: "dkeeps R (recoverOpenTurnAfterReplay fuel env chan)"
  unfolding recoverOpenTurnAfterReplay_def strandedAt_def Let_def
  by (intro combinators primitives keeps_settle keeps_runStep keeps_strandedFailure)

lemma keeps_wake: "dkeeps R (wake fuel env chan)"
  unfolding wake_def by (intro combinators primitives keeps_settle keeps_runStep keeps_recover)

lemma keeps_failEffect: "dkeeps R (failEffect fuel env row message)"
  unfolding failEffect_def by (intro combinators primitives keeps_handleIncoming)

lemma keeps_recordFailure: "dkeeps R (recordFailureThen fuel env row delay message)"
proof -
  define after where "after = (\<lambda>updated. case updated of
      Some u \<Rightarrow> if maxAttempts (ob_kind u) False \<le> enat (ob_attempts u) then failEffect fuel env u message else scheduleEarliest env
    | None \<Rightarrow> scheduleEarliest env)"
  have after: "dkeeps R (after u)" for u unfolding after_def by (intro combinators primitives keeps_failEffect)
  have "R d d'" if "recordFailureThen fuel env row delay message d = Some (d', r)" for d d' r
  proof -
    obtain table u where rec: "outbox_recordFailure (ob_branchId row) (ob_effectId row) (dx_now env) delay (dv_outbox d) = (table, u)"
      by fastforce
    have "outbox_write (dv_outbox d) table" using write_failure [of "dv_outbox d" "ob_branchId row" "ob_effectId row" "dx_now env" delay] rec by simp
    moreover have "after u (d\<lparr>dv_outbox := table\<rparr>) = Some (d', r)"
      using that by (simp add: recordFailureThen_def after_def [symmetric] dbind_def dread_def dthen_def dmodify_def rec)
    ultimately show ?thesis using outbox_R dkeepsD [OF after] R_trans by blast
  qed
  then show ?thesis by (auto simp: dkeeps_def)
qed

lemma keeps_discardStale: "dkeeps R (discardStale env row chan)"
  unfolding discardStale_def by (intro combinators primitives keeps_reconcile)

lemma keeps_suspend: "dkeeps R (suspendOnCredential env a row outcome)"
  unfolding suspendOnCredential_def by (intro combinators primitives keeps_reconcile keeps_discardStale)

lemma keeps_attempt: "(\<And>e c. dkeeps R (onConflict e c)) \<Longrightarrow> dkeeps R (attemptOutcome env onConflict a row outcome)"
  unfolding attemptOutcome_def
  by (intro combinators primitives) (auto intro!: combinators keeps_discardStale split: loop_error.split gad_append_error_code.split)

lemma keeps_appendOutcome: "dkeeps R (appendOutcome n env a row outcome)"
  by (induction n arbitrary: a) (auto intro!: keeps_attempt combinators primitives)

lemma keeps_finishOutcome: "dkeeps R (finishOutcome fuel env row outcome a envelopes)"
  unfolding finishOutcome_def reportHeartbeat_def by (intro combinators primitives keeps_runStep keeps_settle)

lemma keeps_applyTerminal: "dkeeps R (applyTerminal fuel env row outcome a)"
  unfolding applyTerminal_def by (intro combinators keeps_appendOutcome keeps_finishOutcome)

lemma keeps_applyOutcome: "dkeeps R (applyOutcome fuel env row outcome)"
proof -
  have "dkeeps R (case outcome of
         RetryOutcome reason retryAfterMs code \<Rightarrow> retryEffect fuel env row reason retryAfterMs
       | ModelSuspended providerId modelBaseUrl waitReason diagnosticReason failureCode \<Rightarrow>
           suspendOnCredential env a row
             \<lparr> su_providerId = providerId, su_modelBaseUrl = modelBaseUrl, su_waitReason = waitReason,
               su_diagnosticReason = diagnosticReason, su_failureCode = failureCode \<rparr>
       | _ \<Rightarrow> applyTerminal fuel env row outcome a)" for a
    by (simp add: retryEffect_def keeps_recordFailure keeps_suspend keeps_applyTerminal split: effect_outcome.split)
  then show ?thesis unfolding applyOutcome_def by (intro combinators primitives)
qed

lemma keeps_rows: "dkeeps R (leaseRow env row)" "dkeeps R (setAbort row)" "dkeeps R (clearAbort row)"
  "dkeeps R (driver_deferRedrive env row delay)" "dkeeps R (driver_nudgeRedrive env row)"
  unfolding leaseRow_def setAbort_def clearAbort_def driver_deferRedrive_def driver_nudgeRedrive_def
  by (intro combinators primitives keeps_modify aborts_R outbox_R write_lease write_defer write_nudge)+

lemma keeps_executionFailed: "dkeeps R (executionFailed fuel env a row message failure)"
  unfolding executionFailed_def retryEffect_def
  by (intro combinators keeps_rows keeps_recordFailure keeps_suspend keeps_applyOutcome)

lemma keeps_dispatchRow: "dkeeps R (dispatchRow fuel env row)"
proof -
  have "dkeeps R (case execution of
       Threw message failure \<Rightarrow> executionFailed fuel env a row message failure
     | DeferredResult \<Rightarrow> dthen (clearAbort row) (driver_deferRedrive env row 60000)
     | Executed outcome \<Rightarrow> dthen (clearAbort row) (applyOutcome fuel env row outcome))" for execution a
    by (cases execution) (simp_all add: keeps_executionFailed keeps_then keeps_rows keeps_applyOutcome)
  then show ?thesis unfolding dispatchRow_def emitEphemeral_def by (intro combinators primitives keeps_rows)
qed

lemma keeps_dispatchDue: "dkeeps R (dispatchDue fuel env)"
  unfolding dispatchDue_def dispatchOne_def by (intro combinators primitives keeps_failEffect keeps_rows keeps_dispatchRow)

lemma keeps_deliver: "dkeeps R (deliverEffectOutcome fuel env eid outcome address)"
  "dkeeps R (deliverDeferredResult fuel env eid result isError address)"
  unfolding deliverEffectOutcome_def deliverDeferredResult_def
  by (intro combinators primitives keeps_failEffect keeps_rows keeps_applyOutcome)+

lemma keeps_scheduleResume: "dkeeps R (scheduleResumeAtReset env chan messageId resetAt)"
  unfolding scheduleResumeAtReset_def by (intro combinators primitives keeps_modify resumes_R)

lemma keeps_pumpLoop: "dkeeps R (pumpLoop rounds fuel env)"
proof (induction rounds)
  case (Suc rounds)
  then show ?case unfolding pumpLoop.simps by (intro combinators keeps_modify flags_R keeps_reconcile keeps_dispatchDue)
qed (simp add: keeps_never)

lemma keeps_alarm: "dkeeps R (alarm rounds fuel env)"
  unfolding alarm_def processScheduledModelResumes_def deleteScheduledModelResume_def pump_def
  by (intro combinators primitives keeps_modify flags_R resumes_R keeps_handleIncoming keeps_pumpLoop)

lemma keeps_background: "dkeeps R (backgroundDispatch fuel env row)"
  unfolding backgroundDispatch_def by (intro combinators primitives keeps_dispatchRow)

lemma keeps_abortChannel: "dkeeps R (abortChannel chan)"
  unfolding abortChannel_def by (intro combinators) (auto intro!: combinators keeps_call)

end

subsection \<open>The outbox stays well formed, logs only grow\<close>

interpretation tidy: driver_relation env "\<lambda>d d'. outbox_wf (dv_outbox d) \<longrightarrow> outbox_wf (dv_outbox d')" for env
  by unfold_locales (auto simp: loaded_def intro: outbox_write_wf)

interpretation grows: driver_relation env "\<lambda>d d'. (log_step (sx_sha256 (dx_storeEnv env)))\<^sup>*\<^sup>* (dv_store d) (dv_store d')" for env
  by unfold_locales (auto simp: loaded_def intro: rtranclp_trans log_append)

text \<open>A live loop is the loop of its channel.\<close>

definition anchored :: "driver \<Rightarrow> bool" where
  "anchored d \<longleftrightarrow> (\<forall>chan a. dget (dv_loops d) chan = Some a \<longrightarrow>
     a < length (dv_heap d) \<and> lp_channelId (dv_heap d ! a) = chan \<and>
     lp_logId (dv_heap d ! a) = ids_logIdForChannel chan \<and> lp_head (dv_heap d ! a) = ids_logIdForChannel chan)"

lemma anchored_updates [simp]:
  "anchored (d\<lparr>dv_calls := calls\<rparr>) = anchored d" "anchored (d\<lparr>dv_pumping := p\<rparr>) = anchored d"
  "anchored (d\<lparr>dv_repump := p\<rparr>) = anchored d" "anchored (d\<lparr>dv_aborts := aborts\<rparr>) = anchored d"
  "anchored (d\<lparr>dv_resumes := resumes\<rparr>) = anchored d" "anchored (d\<lparr>dv_cache := cache\<rparr>) = anchored d"
  "anchored (d\<lparr>dv_outbox := table\<rparr>) = anchored d" "anchored (d\<lparr>dv_store := store\<rparr>) = anchored d"
  by (simp_all add: anchored_def)

lemma set_state_identity [simp]:
  "lp_channelId (heap[a := (heap ! a)\<lparr>lp_state := s\<rparr>] ! b) = lp_channelId (heap ! b)"
  "lp_logId (heap[a := (heap ! a)\<lparr>lp_state := s\<rparr>] ! b) = lp_logId (heap ! b)"
  "lp_head (heap[a := (heap ! a)\<lparr>lp_state := s\<rparr>] ! b) = lp_head (heap ! b)"
  by (cases "a < length heap"; cases "a = b"; simp add: list_update_beyond)+

lemma anchored_state: "anchored d \<Longrightarrow> anchored (d\<lparr>dv_heap := (dv_heap d)[a := (dv_heap d ! a)\<lparr>lp_state := s\<rparr>]\<rparr>)"
  unfolding anchored_def by simp

lemma anchored_loaded: "anchored d \<Longrightarrow> anchored (loaded env chan cache state d)"
  unfolding anchored_def loaded_def by (auto simp: nth_append less_Suc_eq)

lemma anchored_none: "dv_loops d = [] \<Longrightarrow> anchored d"
  by (simp add: anchored_def)

lemma anchored_drop: "anchored d \<Longrightarrow> anchored (d\<lparr>dv_loops := ddel chan (dv_loops d)\<rparr>)"
  by (simp add: anchored_def)

interpretation anchors: driver_relation env "\<lambda>d d'. anchored d \<longrightarrow> anchored d'" for env
  by unfold_locales (auto intro: anchored_state anchored_loaded anchored_drop)

subsection \<open>Runs of the driver\<close>

text \<open>The death of the process: tables and log stay, everything in memory is gone.\<close>

definition restart :: "driver \<Rightarrow> driver" where
  "restart d = d\<lparr>dv_heap := [], dv_loops := [], dv_aborts := [], dv_pumping := False, dv_repump := False\<rparr>"

text \<open>One operation of the driver, to its end or to where it threw; between operations the process may die, the
  fold cache may lose rows and other writers may append to the store.\<close>

inductive driver_op :: "(string \<Rightarrow> string) \<Rightarrow> driver \<Rightarrow> driver \<Rightarrow> bool" for sha where
  op_wake: "sx_sha256 (dx_storeEnv env) = sha \<Longrightarrow> wake fuel env chan d = Some (d', r) \<Longrightarrow> driver_op sha d d'"
| op_incoming: "sx_sha256 (dx_storeEnv env) = sha \<Longrightarrow> handleIncoming fuel env chan incoming d = Some (d', r) \<Longrightarrow> driver_op sha d d'"
| op_outcome: "sx_sha256 (dx_storeEnv env) = sha \<Longrightarrow> deliverEffectOutcome fuel env eid outcome address d = Some (d', r') \<Longrightarrow> driver_op sha d d'"
| op_deferred: "sx_sha256 (dx_storeEnv env) = sha \<Longrightarrow> deliverDeferredResult fuel env eid result isError address d = Some (d', r) \<Longrightarrow> driver_op sha d d'"
| op_fail: "sx_sha256 (dx_storeEnv env) = sha \<Longrightarrow> failEffect fuel env row message d = Some (d', r) \<Longrightarrow> driver_op sha d d'"
| op_background: "sx_sha256 (dx_storeEnv env) = sha \<Longrightarrow> backgroundDispatch fuel env row d = Some (d', r) \<Longrightarrow> driver_op sha d d'"
| op_alarm: "sx_sha256 (dx_storeEnv env) = sha \<Longrightarrow> alarm rounds fuel env d = Some (d', r) \<Longrightarrow> driver_op sha d d'"
| op_schedule: "sx_sha256 (dx_storeEnv env) = sha \<Longrightarrow> scheduleResumeAtReset env chan messageId resetAt d = Some (d', r'') \<Longrightarrow> driver_op sha d d'"
| op_abort: "abortChannel chan d = Some (d', r) \<Longrightarrow> driver_op sha d d'"
| op_drop: "dropLoop chan d = Some (d', r) \<Longrightarrow> driver_op sha d d'"
| op_restart: "driver_op sha d (restart d)"
| op_evict: "driver_op sha d (d\<lparr>dv_cache := cache_delete lid hd' (dv_cache d)\<rparr>)"
| op_foreign: "log_step sha (dv_store d) store' \<Longrightarrow> driver_op sha d (d\<lparr>dv_store := store'\<rparr>)"

lemma driver_op_tidy: "driver_op sha d d' \<Longrightarrow> outbox_wf (dv_outbox d) \<Longrightarrow> outbox_wf (dv_outbox d')"
proof (induction rule: driver_op.induct)
qed (auto simp: restart_def dest: dkeepsD [OF tidy.keeps_wake] dkeepsD [OF tidy.keeps_handleIncoming] dkeepsD [OF tidy.keeps_deliver(1)]
    dkeepsD [OF tidy.keeps_deliver(2)] dkeepsD [OF tidy.keeps_failEffect] dkeepsD [OF tidy.keeps_background] dkeepsD [OF tidy.keeps_alarm]
    dkeepsD [OF tidy.keeps_scheduleResume] dkeepsD [OF tidy.keeps_abortChannel] dkeepsD [OF tidy.keeps_drop])

lemma driver_op_anchored: "driver_op sha d d' \<Longrightarrow> anchored d \<Longrightarrow> anchored d'"
proof (induction rule: driver_op.induct)
qed (auto simp: restart_def anchored_none
    dest: dkeepsD [OF anchors.keeps_wake] dkeepsD [OF anchors.keeps_handleIncoming] dkeepsD [OF anchors.keeps_deliver(1)]
    dkeepsD [OF anchors.keeps_deliver(2)] dkeepsD [OF anchors.keeps_failEffect] dkeepsD [OF anchors.keeps_background] dkeepsD [OF anchors.keeps_alarm]
    dkeepsD [OF anchors.keeps_scheduleResume] dkeepsD [OF anchors.keeps_abortChannel] dkeepsD [OF anchors.keeps_drop])

definition no_driver :: driver where
  "no_driver = \<lparr> dv_store = empty_store, dv_cache = [], dv_outbox = [], dv_resumes = [], dv_heap = [], dv_loops = [],
     dv_aborts = [], dv_pumping = False, dv_repump = False, dv_calls = [] \<rparr>"

lemma driver_op_grows: "driver_op sha d d' \<Longrightarrow> (log_step sha)\<^sup>*\<^sup>* (dv_store d) (dv_store d')"
proof (induction rule: driver_op.induct)
  case (op_abort chan d d' r)
  then show ?case
    using dkeepsD [OF grows.keeps_abortChannel [of "undefined\<lparr>dx_storeEnv := undefined\<lparr>sx_sha256 := sha\<rparr>\<rparr>"]] by fastforce
next
  case (op_drop chan d d' r)
  then show ?case by (auto simp: dropLoop_def dmodify_def)
qed (auto simp: restart_def
    dest: dkeepsD [OF grows.keeps_wake] dkeepsD [OF grows.keeps_handleIncoming] dkeepsD [OF grows.keeps_deliver(1)]
    dkeepsD [OF grows.keeps_deliver(2)] dkeepsD [OF grows.keeps_failEffect] dkeepsD [OF grows.keeps_background] dkeepsD [OF grows.keeps_alarm]
    dkeepsD [OF grows.keeps_scheduleResume])

lemma reachable_store: "(driver_op sha)\<^sup>*\<^sup>* no_driver d \<Longrightarrow> (log_step sha)\<^sup>*\<^sup>* empty_store (dv_store d)"
  by (induction rule: rtranclp_induct) (auto simp: no_driver_def dest: driver_op_grows intro: rtranclp_trans)

lemma reachable_tidy: "(driver_op sha)\<^sup>*\<^sup>* no_driver d \<Longrightarrow> outbox_wf (dv_outbox d)"
  by (induction rule: rtranclp_induct) (auto simp: no_driver_def outbox_wf_def [of "[]"] intro: driver_op_tidy)

lemma reachable_anchored: "(driver_op sha)\<^sup>*\<^sup>* no_driver d \<Longrightarrow> anchored d"
  by (induction rule: rtranclp_induct) (auto simp: no_driver_def anchored_none intro: driver_op_anchored)

end
