(* ===== verification/DriverRuns.thy ===== *)
theory DriverRuns
  imports DriverRel
begin

text \<open>
  Concrete runs of the driver: a trajectory whose model started a local tool call, a wake that finds it, the tool's
  outcome.
\<close>

definition sample_store_env :: store_env where
  "sample_store_env = sample_env\<lparr>sx_sha256 := (\<lambda>s. show_nat (length s))\<rparr>"

definition sample_driver_env :: driver_env where
  "sample_driver_env =
     \<lparr> dx_now = 1772364615250, dx_storeEnv = sample_store_env,
       dx_classify = (\<lambda>_. \<lparr> mf_code = ''unknown'', mf_reason = ''failed'', mf_recoverable = True, mf_retryAfterMs = None, mf_resetAt = None \<rparr>),
       dx_selfRef = (\<lambda>_. JObj [(''kind'', JStr ''agent''), (''id'', JStr ''a'')]), dx_config = (\<lambda>_. JObj []),
       dx_policies = (\<lambda>_. []), dx_encode = (\<lambda>_ payload. Inr payload), dx_hydrate = Inr,
       dx_execute = (\<lambda>_ _. ([], DeferredResult)), dx_connectSpec = (\<lambda>_. JObj []), dx_heartbeat = None,
       dx_minEntries = None, dx_triggerBytes = None, dx_background = False, dx_broadcasts = False, dx_kill = (\<lambda>_. False) \<rparr>"

definition sample_request :: "append_event \<Rightarrow> append_input" where
  "sample_request event = sample_append\<lparr>ap_logId := ids_logIdForChannel ''c1'', ap_head := ids_logIdForChannel ''c1'',
     ap_expectedHeadHash := None, ap_events := [event]\<rparr>"

definition sample_invoked :: append_event where
  "sample_invoked = sample_append_event\<lparr>ae_payloadKind := ''invocation.started'',
     ae_payload := JObj [(''name'', JStr ''read''), (''transport'', JObj [(''kind'', JStr ''local'')]), (''request'', JObj [])],
     ae_causality := JObj [(''invocationId'', JStr ''i1''), (''turnId'', JStr ''t1'')], ae_publish := []\<rparr>"

definition sample_journal :: store where
  "sample_journal = (case appendLogEvent sample_store_env empty_store (sample_request sample_invoked) of Inl _ \<Rightarrow> empty_store | Inr (store, _) \<Rightarrow> store)"

definition sample_woken :: driver where
  "sample_woken = (case wake 2 sample_driver_env ''c1'' (no_driver\<lparr>dv_store := sample_journal\<rparr>) of None \<Rightarrow> no_driver | Some (d, _) \<Rightarrow> d)"

lemma sample_journal_step: "log_step (sx_sha256 sample_store_env) empty_store sample_journal"
proof -
  have "\<not> isl (appendLogEvent sample_store_env empty_store (sample_request sample_invoked))" by code_simp
  then obtain result where "appendLogEvent sample_store_env empty_store (sample_request sample_invoked) = Inr (sample_journal, result)"
    by (cases "appendLogEvent sample_store_env empty_store (sample_request sample_invoked)") (auto simp: sample_journal_def split: prod.splits)
  from log_append [OF this refl] show ?thesis .
qed

lemma sample_woken_run: "wake 2 sample_driver_env ''c1'' (no_driver\<lparr>dv_store := sample_journal\<rparr>) = Some (sample_woken, Inr ())"
proof -
  have "case wake 2 sample_driver_env ''c1'' (no_driver\<lparr>dv_store := sample_journal\<rparr>) of Some (_, Inr ()) \<Rightarrow> True | _ \<Rightarrow> False" by code_simp
  then show ?thesis by (auto simp: sample_woken_def split: option.splits prod.splits sum.splits)
qed

lemma sample_awaiting_reached: "(driver_op (sx_sha256 sample_store_env))\<^sup>*\<^sup>* no_driver (no_driver\<lparr>dv_store := sample_journal\<rparr>)"
  using op_foreign [of _ no_driver] sample_journal_step by (auto simp: no_driver_def)

lemma sample_woken_reached: "(driver_op (sx_sha256 sample_store_env))\<^sup>*\<^sup>* no_driver sample_woken"
  using sample_awaiting_reached op_wake [OF _ sample_woken_run] by (rule rtranclp.rtrancl_into_rtrancl) (simp add: sample_driver_env_def)

definition sample_row :: outbox_row where
  "sample_row = hd (dv_outbox sample_woken)"

lemma sample_woken_row: "dv_outbox sample_woken = [sample_row]"
proof -
  have "length (dv_outbox sample_woken) = 1" by code_simp
  then show ?thesis by (auto simp: sample_row_def length_Suc_conv)
qed

text \<open>A driver that dies as soon as it has dropped the row of an outcome.\<close>

definition sample_dying_env :: driver_env where
  "sample_dying_env = sample_driver_env\<lparr>dx_kill := (\<lambda>point. point = ''after-outbox-delete'')\<rparr>"

definition sample_outcome :: effect_outcome where
  "sample_outcome = ToolOutcome (JObj []) None False None"

definition sample_applied :: driver where
  "sample_applied = (case applyOutcome 2 sample_dying_env sample_row sample_outcome sample_woken of None \<Rightarrow> no_driver | Some (d, _) \<Rightarrow> d)"

lemma sample_applied_run:
  "applyOutcome 2 sample_dying_env sample_row sample_outcome sample_woken = Some (sample_applied, Inl (Killed ''after-outbox-delete'')) \<and>
   dv_outbox sample_applied = []"
proof -
  have "case applyOutcome 2 sample_dying_env sample_row sample_outcome sample_woken of
      Some (d, Inl (Killed point)) \<Rightarrow> point = ''after-outbox-delete'' \<and> dv_outbox d = [] | _ \<Rightarrow> False" by code_simp
  then show ?thesis by (auto simp: sample_applied_def split: option.splits prod.splits sum.splits loop_error.splits)
qed

end
