(* ===== verification/Converge.thy ===== *)
theory Converge
  imports DriverRuns
begin

text \<open>
  The driver converges: the wake time is exact, reconciliation makes the outbox the derived effects, and every
  operation that returns leaves the channel's loop that way.
\<close>

subsection \<open>Running operations\<close>

lemma drv_simps [simp]:
  "dreturn x d = Some (d, Inr x)" "draise e d = Some (d, Inl e)" "dread f d = Some (d, Inr (f d))"
  "dmodify g d = Some (g d, Inr ())" "dlift r d = Some (d, r)" "instance_at a d = Some (d, Inr (dv_heap d ! a))"
  by (simp_all add: dreturn_def draise_def dread_def dmodify_def dlift_def instance_at_def)

lemma dbind_Some:
  "dbind m f d = Some (d', Inr y) \<longleftrightarrow> (\<exists>d1 x. m d = Some (d1, Inr x) \<and> f x d1 = Some (d', Inr y))"
  by (auto simp: dbind_def split: option.splits sum.splits)

lemma dthen_Some: "dthen m f d = Some (d', Inr y) \<longleftrightarrow> (\<exists>d1. m d = Some (d1, Inr ()) \<and> f d1 = Some (d', Inr y))"
  by (simp add: dthen_def dbind_Some)

lemma dbind_run [simp]: "m d = Some (d1, Inr x) \<Longrightarrow> dbind m f d = f x d1"
  by (simp add: dbind_def)

lemma dthen_run [simp]: "m d = Some (d1, Inr ()) \<Longrightarrow> dthen m f d = f d1"
  by (simp add: dthen_def)

subsection \<open>The wake time\<close>

text \<open>C21: In every reachable state of the driver, an alarm at a time finds work (a due effect or a due resume)
  exactly when \<open>nextWakeAt\<close> is not later than that time: the driver neither oversleeps nor wakes for nothing.\<close>

theorem next_wake_exact:
  assumes "(driver_op sha)\<^sup>*\<^sup>* no_driver d" and "0 \<le> t"
  shows "outbox_due (dv_outbox d) t \<noteq> [] \<or> scheduledModelResumeRowsDue t (dv_resumes d) \<noteq> [] \<longleftrightarrow>
     (\<exists>w. nextWakeAt d = Some w \<and> w \<le> t)"
proof -
  note due = due_iff_earliest [OF reachable_tidy [OF assms(1)] assms(2)]
  have resumes: "scheduledModelResumeRowsDue t (dv_resumes d) \<noteq> [] \<longleftrightarrow>
      (\<exists>w. earliestScheduledModelResumeAt (dv_resumes d) = Some w \<and> w \<le> t)"
    using min_of_Some [of "map sr_resetAtMs (dv_resumes d)"] min_of_None [of "map sr_resetAtMs (dv_resumes d)"]
    by (cases "min_of (map sr_resetAtMs (dv_resumes d))")
       (auto simp: scheduledModelResumeRowsDue_def earliestScheduledModelResumeAt_def filter_empty_conv
         simp flip: set_empty)
  show ?thesis unfolding due resumes
    by (cases "earliestDueAt (dv_outbox d)"; cases "earliestScheduledModelResumeAt (dv_resumes d)")
       (auto simp: nextWakeAt_def List.map_filter_def)
qed

theorem next_wake_exact_witness:
  "\<exists>w. nextWakeAt sample_woken = Some w \<and> w \<le> 1772364615250"
proof -
  have "outbox_due (dv_outbox sample_woken) 1772364615250 \<noteq> []" by code_simp
  then show ?thesis using next_wake_exact [OF sample_woken_reached, of 1772364615250] by simp
qed

subsection \<open>Reconciliation\<close>

definition stale_row :: "string \<Rightarrow> effect_descriptor list \<Rightarrow> outbox_row \<Rightarrow> bool" where
  "stale_row branch expected row \<longleftrightarrow>
     ob_branchId row = branch \<and> ob_kind row \<noteq> KPublishEnvelope \<and> ob_effectId row \<notin> effectId ` set expected"

definition fresh_row :: "driver_env \<Rightarrow> string \<Rightarrow> effect_descriptor \<Rightarrow> outbox_row" where
  "fresh_row env branch effect =
     \<lparr> ob_effectId = effectId effect, ob_branchId = branch, ob_channelId = ef_channelId (ef_base effect),
       ob_kind = effectKind effect, ob_idempotencyKey = ef_idempotencyKey (ef_base effect), ob_descriptor = effect,
       ob_attempts = 0, ob_nextAttemptAt = None, ob_leaseExpiresAt = None, ob_createdAt = dx_now env \<rparr>"

lemma fresh_row_simps [simp]:
  "ob_effectId (fresh_row env branch effect) = effectId effect" "ob_branchId (fresh_row env branch effect) = branch"
  "ob_kind (fresh_row env branch effect) = effectKind effect"
  by (simp_all add: fresh_row_def)

lemma get_delete: "outbox_get (outbox_delete branch eid table) b e = (if (b, e) = (branch, eid) then None else outbox_get table b e)"
  by (induction table) (auto simp: outbox_delete_def outbox_get_def ob_key_def)

lemma get_insert:
  "outbox_get (outbox_insert (dx_now env) branch effect None table) b e =
     (if (b, e) = (branch, effectId effect) \<and> outbox_get table b e = None then Some (fresh_row env branch effect) else outbox_get table b e)"
  by (auto simp: outbox_insert_def outbox_get_def find_append fresh_row_def ob_key_def split: option.splits)

lemma get_delete_rows:
  "outbox_get (fold (\<lambda>row. if c row then outbox_delete (ob_branchId row) (ob_effectId row) else id) rows table) b e =
     (if \<exists>row \<in> set rows. c row \<and> ob_key row = (b, e) then None else outbox_get table b e)"
  by (induction rows arbitrary: table) (auto simp: get_delete ob_key_def)

lemma get_insert_effects:
  "outbox_get (fold (\<lambda>effect. if c (effectId effect) then outbox_insert (dx_now env) branch effect None else id) effects table) b e =
     (case outbox_get table b e of
        Some row \<Rightarrow> Some row
      | None \<Rightarrow> if b = branch \<and> c e then map_option (fresh_row env branch) (find (\<lambda>effect. effectId effect = e) effects) else None)"
  by (induction effects arbitrary: table) (auto simp: get_insert split: option.splits)

lemma deach_delete:
  "deach (\<lambda>row. if c row then deleteEffect (ob_branchId row) (ob_effectId row) else dreturn ()) rows d =
     Some (d\<lparr>dv_outbox := fold (\<lambda>row. if c row then outbox_delete (ob_branchId row) (ob_effectId row) else id) rows (dv_outbox d)\<rparr>, Inr ())"
  by (induction rows arbitrary: d) (simp_all add: deleteEffect_def)

lemma deach_insert:
  "deach (\<lambda>effect. if c effect then insertEffect env branch effect else dreturn ()) effects d =
     Some (d\<lparr>dv_outbox := fold (\<lambda>effect. if c effect then outbox_insert (dx_now env) branch effect None else id) effects (dv_outbox d)\<rparr>, Inr ())"
  by (induction effects arbitrary: d) (simp_all add: insertEffect_def initialDeadline_def)

lemma scheduleEarliest_run: "\<exists>calls. scheduleEarliest env d = Some (d\<lparr>dv_calls := calls\<rparr>, Inr ())"
  by (cases "nextWakeAt d") (auto simp: scheduleEarliest_def dcall_def intro: exI [of _ "dv_calls d"])

definition reconciled :: "driver_env \<Rightarrow> loop_instance \<Rightarrow> outbox \<Rightarrow> outbox" where
  "reconciled env inst table =
     (let expected = derivePendingEffects (lp_state inst); rows = outbox_forBranch table (lp_logId inst) in
      fold (\<lambda>effect. if effectId effect \<notin> ob_effectId ` set rows then outbox_insert (dx_now env) (lp_logId inst) effect None else id) expected
        (fold (\<lambda>row. if ob_effectId row \<notin> effectId ` set expected then outbox_delete (ob_branchId row) (ob_effectId row) else id) rows table))"

lemma reconcile_run:
  "\<exists>calls. reconcile env a d = Some (d\<lparr>dv_outbox := reconciled env (dv_heap d ! a) (dv_outbox d), dv_calls := calls\<rparr>, Inr ())"
proof -
  have "reconcile env a d = scheduleEarliest env (d\<lparr>dv_outbox := reconciled env (dv_heap d ! a) (dv_outbox d)\<rparr>)"
    by (simp add: reconcile_def reconciled_def Let_def deach_delete deach_insert)
  then show ?thesis using scheduleEarliest_run by metis
qed

lemma get_reconciled:
  assumes "outbox_wf table"
  shows "outbox_get (reconciled env inst table) b e =
     (case outbox_get table b e of
        Some row \<Rightarrow> if stale_row (lp_logId inst) (derivePendingEffects (lp_state inst)) row then None else Some row
      | None \<Rightarrow> if b = lp_logId inst
          then map_option (fresh_row env b) (find (\<lambda>effect. effectId effect = e) (derivePendingEffects (lp_state inst))) else None)"
proof -
  define expected rows where "expected = derivePendingEffects (lp_state inst)" and "rows = outbox_forBranch table (lp_logId inst)"
  have one: "row' = row" if "row \<in> set table" "row' \<in> set table" "ob_key row' = ob_key row" for row row'
    using assms that by (auto simp: outbox_wf_def distinct_map inj_on_def)
  have gone: "(\<exists>row \<in> set rows. ob_effectId row \<notin> effectId ` set expected \<and> ob_key row = (b, e)) \<longleftrightarrow>
      (\<exists>row. outbox_get table b e = Some row \<and> stale_row (lp_logId inst) expected row)"
    using assms by (auto simp: rows_def outbox_forBranch_def stale_row_def outbox_wf_def outbox_get_iff ob_key_def)
  have known: "e \<notin> ob_effectId ` set rows" if "outbox_get table b e = None" "b = lp_logId inst"
    using that outbox_get_None [of table b e] by (auto simp: rows_def outbox_forBranch_def ob_key_def image_iff)
  have stale: "find (\<lambda>effect. effectId effect = e) expected = None" if "outbox_get table b e = Some row" "stale_row (lp_logId inst) expected row" for row
    using that outbox_get_Some [of table b e row] by (auto simp: stale_row_def ob_key_def find_None_iff image_iff)
  show ?thesis
    unfolding reconciled_def Let_def expected_def [symmetric] rows_def [symmetric]
      get_insert_effects [where c = "\<lambda>i. i \<notin> ob_effectId ` set rows"]
      get_delete_rows [where c = "\<lambda>row. ob_effectId row \<notin> effectId ` set expected"] gone
    using known stale by (auto split: option.splits)
qed

text \<open>C18: Reconciling a loop with the outbox removes exactly the rows of the loop's branch whose effect the folded
  state no longer derives (publications aside), inserts a fresh row, with no attempt counted and no lease, for
  exactly the derived effects without a row, and leaves every other row as it is.\<close>

theorem reconcile_exact:
  assumes "(driver_op sha)\<^sup>*\<^sup>* no_driver d" and "reconcile env a d = Some (d', r)"
  shows "outbox_get (dv_outbox d') b e =
     (let inst = dv_heap d ! a; expected = derivePendingEffects (lp_state inst) in
      case outbox_get (dv_outbox d) b e of
        Some row \<Rightarrow>
          if b = lp_logId inst \<and> ob_kind row \<noteq> KPublishEnvelope \<and> e \<notin> effectId ` set expected then None else Some row
      | None \<Rightarrow>
          if b = lp_logId inst then map_option (fresh_row env b) (find (\<lambda>effect. effectId effect = e) expected) else None)"
proof -
  have wf: "outbox_wf (dv_outbox d)" by (rule reachable_tidy [OF assms(1)])
  have "dv_outbox d' = reconciled env (dv_heap d ! a) (dv_outbox d)" using assms(2) reconcile_run [of env a d] by auto
  moreover have "ob_branchId row = b \<and> ob_effectId row = e" if "outbox_get (dv_outbox d) b e = Some row" for row
    using outbox_get_Some [OF that] by (simp add: ob_key_def)
  ultimately show ?thesis by (auto simp: get_reconciled [OF wf] stale_row_def Let_def split: option.split)
qed

theorem reconcile_exact_witness:
  "\<exists>d'. reconcile sample_driver_env 0 sample_woken = Some (d', Inr ()) \<and>
     outbox_get (dv_outbox d') (ids_logIdForChannel ''c1'') (ids_invocationEffect ''i1'') = Some sample_row"
proof -
  let ?L = "ids_logIdForChannel ''c1''" and ?e = "ids_invocationEffect ''i1''"
  obtain d' where run: "reconcile sample_driver_env 0 sample_woken = Some (d', Inr ())" using reconcile_run by blast
  have "?e \<in> effectId ` set (derivePendingEffects (lp_state (dv_heap sample_woken ! 0)))" by code_simp
  moreover have "ob_key sample_row = (?L, ?e)" by code_simp
  then have "outbox_get (dv_outbox sample_woken) ?L ?e = Some sample_row" by (simp add: sample_woken_row outbox_get_def)
  ultimately show ?thesis using reconcile_exact [OF sample_woken_reached run, of ?L ?e] run by simp
qed

subsection \<open>Operations leave their loop reconciled\<close>

definition converged :: "string \<Rightarrow> driver \<Rightarrow> bool" where
  "converged chan d \<longleftrightarrow>
     (\<exists>a. dget (dv_loops d) chan = Some a \<and>
        (let state = lp_state (dv_heap d ! a); branch = ids_logIdForChannel chan in
         ob_effectId ` set (outbox_forBranch (dv_outbox d) branch) \<subseteq> effectId ` set (derivePendingEffects state) \<and>
         (\<forall>effect \<in> set (derivePendingEffects state). outbox_get (dv_outbox d) branch (effectId effect) \<noteq> None)))"

lemma requestPump_run: "\<exists>calls p. requestPump env d = Some (d\<lparr>dv_calls := calls, dv_repump := p\<rparr>, Inr ())"
proof (cases "dv_pumping d")
  case True
  then show ?thesis by (auto simp: requestPump_def intro!: exI [of _ "dv_calls d"])
next
  case False
  then show ?thesis by (cases "dx_background env") (auto simp: requestPump_def dcall_def intro!: exI [of _ "dv_repump d"])
qed

lemma driver_loop_live:
  assumes "driver_loop env chan d = Some (d', Inr a)"
  shows "dget (dv_loops d') chan = Some a \<and> dv_outbox d' = dv_outbox d \<and> dv_store d' = dv_store d"
  using assms by (auto simp: driver_loop_cases loaded_def split: option.splits sum.splits)

lemma driver_loop_known: "dget (dv_loops d) chan = Some a \<Longrightarrow> driver_loop env chan d = Some (d, Inr a)"
  by (simp add: driver_loop_cases)

lemma reconcile_converges:
  assumes tidy: "outbox_wf (dv_outbox d)" and anchored: "anchored d" and live: "dget (dv_loops d) chan = Some a"
    and run: "dthen (reconcile env a) (requestPump env) d = Some (d', r)"
  shows "converged chan d'"
proof -
  define inst where "inst = dv_heap d ! a"
  have branch: "lp_logId inst = ids_logIdForChannel chan" using anchored live by (auto simp: anchored_def inst_def)
  obtain calls where rec: "reconcile env a d = Some (d\<lparr>dv_outbox := reconciled env inst (dv_outbox d), dv_calls := calls\<rparr>, Inr ())"
    using reconcile_run inst_def by blast
  then have d': "dv_loops d' = dv_loops d" "dv_heap d' = dv_heap d" "dv_outbox d' = reconciled env inst (dv_outbox d)"
    using run requestPump_run [of env "d\<lparr>dv_outbox := reconciled env inst (dv_outbox d), dv_calls := calls\<rparr>"] by auto
  have wf: "outbox_wf (dv_outbox d')" using dkeepsD [OF tidy.keeps_reconcile rec] tidy d'(3) by simp
  have "ob_effectId row \<in> effectId ` set (derivePendingEffects (lp_state inst))"
    if "row \<in> set (outbox_forBranch (dv_outbox d') (ids_logIdForChannel chan))" for row
  proof -
    have row: "outbox_get (dv_outbox d') (lp_logId inst) (ob_effectId row) = Some row" "ob_kind row \<noteq> KPublishEnvelope" "ob_branchId row = lp_logId inst"
      using that wf by (auto simp: outbox_forBranch_def outbox_get_iff outbox_wf_def ob_key_def branch)
    show ?thesis
    proof (cases "outbox_get (dv_outbox d) (lp_logId inst) (ob_effectId row)")
      case None
      then obtain effect where "find (\<lambda>effect. effectId effect = ob_effectId row) (derivePendingEffects (lp_state inst)) = Some effect"
        using row(1) unfolding d'(3) get_reconciled [OF tidy] by auto
      from find_SomeD [OF this] show ?thesis by force
    next
      case (Some old)
      then have "\<not> stale_row (lp_logId inst) (derivePendingEffects (lp_state inst)) row"
        using row(1) unfolding d'(3) get_reconciled [OF tidy] by (auto split: if_splits)
      then show ?thesis using row(2,3) by (simp add: stale_row_def)
    qed
  qed
  moreover have "outbox_get (dv_outbox d') (ids_logIdForChannel chan) (effectId effect) \<noteq> None"
    if "effect \<in> set (derivePendingEffects (lp_state inst))" for effect
  proof -
    have "find (\<lambda>x. effectId x = effectId effect) (derivePendingEffects (lp_state inst)) \<noteq> None" using that by (auto simp: find_None_iff)
    moreover have "\<not> stale_row (lp_logId inst) (derivePendingEffects (lp_state inst)) row"
      if "outbox_get (dv_outbox d) (lp_logId inst) (effectId effect) = Some row" for row
      using outbox_get_Some [OF that] \<open>effect \<in> _\<close> by (simp add: stale_row_def ob_key_def)
    ultimately show ?thesis unfolding d'(3) get_reconciled [OF tidy] branch [symmetric] by (auto split: option.split)
  qed
  ultimately show ?thesis using live d'(1,2) by (auto simp: converged_def inst_def)
qed

lemma settle_converges:
  assumes tidy: "outbox_wf (dv_outbox d)" and anchored: "anchored d" and run: "settle fuel env chan d = Some (d', Inr ())"
  shows "converged chan d'"
proof -
  obtain d1 a1 d2 d3 a where d1: "driver_loop env chan d = Some (d1, Inr a1)" "maybeCompact fuel env a1 d1 = Some (d2, Inr ())"
    and d3: "driver_loop env chan d2 = Some (d3, Inr a)" "dthen (reconcile env a) (requestPump env) d3 = Some (d', Inr ())"
    using run by (auto simp: settle_def dthen_Some dbind_Some)
  have "outbox_wf (dv_outbox d3)"
    using tidy dkeepsD [OF tidy.keeps_loop d1(1)] dkeepsD [OF tidy.keeps_maybeCompact d1(2)] dkeepsD [OF tidy.keeps_loop d3(1)] by simp
  moreover have "anchored d3"
    using anchored dkeepsD [OF anchors.keeps_loop d1(1)] dkeepsD [OF anchors.keeps_maybeCompact d1(2)] dkeepsD [OF anchors.keeps_loop d3(1)] by simp
  ultimately show ?thesis using reconcile_converges driver_loop_live [OF d3(1)] d3(2) by blast
qed

lemma converged_live: "converged chan d \<Longrightarrow> \<exists>a. driver_loop env chan d = Some (d, Inr a)"
  by (auto simp: converged_def driver_loop_known)

lemma recover_converges:
  assumes "outbox_wf (dv_outbox d)" and "anchored d" and "converged chan d"
    and "recoverOpenTurnAfterReplay fuel env chan d = Some (d', Inr ())"
  shows "converged chan d'"
proof -
  have settles: "converged chan e'" if "settle fuel env chan e = Some (e', Inr ())" "dkeeps (\<lambda>d e. outbox_wf (dv_outbox d) \<longrightarrow> outbox_wf (dv_outbox e)) m"
    "dkeeps (\<lambda>d e. anchored d \<longrightarrow> anchored e) m" "m f = Some (e, Inr ())" "outbox_wf (dv_outbox f)" "anchored f" for e e' f and m :: "unit drv"
    using settle_converges [OF _ _ that(1)] dkeepsD [OF that(2,4)] dkeepsD [OF that(3,4)] that(5,6) by blast
  have fails: "converged chan e'" if "dthen (appendStrandedOpenTurnFailure env a) (settle fuel env chan) e = Some (e', Inr ())"
    "outbox_wf (dv_outbox e)" "anchored e" for a e e'
    using that settles [OF _ tidy.keeps_strandedFailure anchors.keeps_strandedFailure] by (auto simp: dthen_Some)
  obtain a where a: "driver_loop env chan d = Some (d, Inr a)" using converged_live assms(3) by blast
  show ?thesis
  proof (cases "isOpenTurnStranded d (dv_heap d ! a)")
    case False
    then show ?thesis using assms(3,4) a by (simp add: recoverOpenTurnAfterReplay_def strandedAt_def)
  next
    case True
    then obtain cascade where cascade: "latestCascadeEnvelopeForOpenTurn (dv_store d) (dv_heap d ! a) = Inr cascade"
      using assms(4) a by (auto simp: recoverOpenTurnAfterReplay_def strandedAt_def dbind_Some)
    show ?thesis
    proof (cases cascade)
      case None
      then show ?thesis using assms a True cascade fails by (simp add: recoverOpenTurnAfterReplay_def strandedAt_def Let_def)
    next
      case (Some envelope)
      then obtain d1 d2 where d1: "driver_runStep fuel env a (EventAppended envelope) APPEND_RETRIES d = Some (d1, Inr ())"
        and d2: "settle fuel env chan d1 = Some (d2, Inr ())"
        and rest: "dbind (driver_loop env chan) (\<lambda>b. dbind (strandedAt b) (\<lambda>again.
            if \<not> again then dreturn () else dthen (appendStrandedOpenTurnFailure env b) (settle fuel env chan))) d2 = Some (d', Inr ())"
        using assms(4) a True cascade by (auto simp: recoverOpenTurnAfterReplay_def strandedAt_def Let_def dthen_Some)
      have c2: "converged chan d2" by (rule settles [OF d2 tidy.keeps_runStep anchors.keeps_runStep d1 assms(1,2)])
      have ok2: "outbox_wf (dv_outbox d2)" "anchored d2"
        using dkeepsD [OF tidy.keeps_runStep d1] dkeepsD [OF anchors.keeps_runStep d1] dkeepsD [OF tidy.keeps_settle d2] dkeepsD [OF anchors.keeps_settle d2] assms
        by simp_all
      obtain b where "driver_loop env chan d2 = Some (d2, Inr b)" using converged_live c2 by blast
      then show ?thesis using rest c2 ok2 fails
        by (cases "isOpenTurnStranded d2 (dv_heap d2 ! b)") (simp_all add: strandedAt_def)
    qed
  qed
qed



end
