(* ===== verification/Outcomes.thy ===== *)
theory Outcomes
  imports Converge
begin

text \<open>
  Outcomes are not lost: a row of the outbox goes away on a terminal outcome only once the log holds the terminal
  event, at whatever point the driver dies and however often the head moved under it.
\<close>

subsection \<open>What an append leaves in the log\<close>

definition journaled :: "store \<Rightarrow> string \<Rightarrow> string \<Rightarrow> string \<Rightarrow> bool" where
  "journaled store lid hd' eid \<longleftrightarrow>
     (\<exists>info events. getLogHead store lid hd' = Some info \<and> readLog store lid hd' read_everything = Inr events \<and>
        eid \<in> si_envelopeId ` set events)"

lemma getLogHead_iff: "getLogHead store lid hd' \<noteq> None \<longleftrightarrow> head_at store (lid, hd') \<noteq> None"
  by (auto simp: getLogHead_def head_at_def split: option.splits prod.splits)

lemma journaled_view:
  assumes "sound_store sha store view" and "head_at store (lid, hd') = Some row"
  shows "journaled store lid hd' eid \<longleftrightarrow> eid \<in> si_envelopeId ` set (view (lid, hd'))"
  using read_everything_view [OF assms] getLogHead_iff [of store lid hd'] assms(2) by (auto simp: journaled_def)

lemma find_in_segments_id: "find_in_segments store (\<lambda>e. si_envelopeId e = eid) segments = Some event \<Longrightarrow> si_envelopeId event = eid \<and> event \<in> set (st_events store)"
  by (auto simp: find_in_segments_def segment_rows_def dest!: find_SomeD)

lemma lookup_id: "lineageEventRow store lid hd' eid = Inr (Some event) \<Longrightarrow> si_envelopeId event = eid \<and> event \<in> set (st_events store)"
  by (auto simp: lineageEventRow_def dest!: find_in_segments_id)

lemma lookup_journaled:
  assumes "sound_store sha store view" and "head_at store (lid, hd') = Some row" and "lineageEventRow store lid hd' eid = Inr (Some event)"
  shows "journaled store lid hd' eid"
  using lookup_in_view [OF assms] lookup_id [OF assms(3)] by (auto simp: journaled_view [OF assms(1,2)])

lemma journaled_step:
  assumes "sound_store sha store view" and "log_step sha store store'" and "journaled store lid hd' eid"
  shows "journaled store' lid hd' eid"
proof -
  obtain row where row: "head_at store (lid, hd') = Some row" using assms(3) getLogHead_iff by (fastforce simp: journaled_def)
  obtain view' row' new where sound': "sound_store sha store' view'" "head_at store' (lid, hd') = Some row'"
    "view' (lid, hd') = view (lid, hd') @ new"
    using log_step_extends [OF assms(2,1)] row by (metis not_None_eq option.distinct(1))
  show ?thesis using assms(3) by (auto simp: journaled_view [OF assms(1) row] journaled_view [OF sound'(1,2)] sound'(3))
qed

lemma journaled_grows:
  assumes "(log_step sha)\<^sup>*\<^sup>* empty_store store" and "(log_step sha)\<^sup>*\<^sup>* store store'" and "journaled store lid hd' eid"
  shows "journaled store' lid hd' eid"
  using assms(2,3)
proof (induction rule: rtranclp_induct)
  case (step store1 store2)
  obtain view where "sound_store sha store1 view"
    using reachable_sound [OF rtranclp_trans [OF assms(1) step.hyps(1)]] by blast
  then show ?case using journaled_step step by blast
qed

lemma prepareLogEvent_fields:
  "prepareLogEvent env logKind index event = Inr p \<Longrightarrow>
     (\<forall>eid. ae_envelopeId event = Some eid \<longrightarrow> si_envelopeId p = eid) \<and> pe_publish p = ae_publish event"
  by (auto simp: prepareLogEvent_def option_or_def Let_def split: if_splits)

lemma prepareAll_ids:
  "prepareAll env logKind index events = Inr prepared \<Longrightarrow> map ae_envelopeId events = map Some ids \<Longrightarrow> map si_envelopeId prepared = ids"
proof (induction events arbitrary: index prepared ids)
  case (Cons event events)
  then show ?case by (cases ids) (auto dest: prepareLogEvent_fields)
qed simp

lemma append_journals:
  assumes app: "appendLogEvent env store request = Inr (store', result)" and reach: "(log_step (sx_sha256 env))\<^sup>*\<^sup>* empty_store store"
    and ids: "map ae_envelopeId (ap_events request) = map Some ids" and eid: "eid \<in> set ids"
  shows "journaled store' (ap_logId request) (ap_head request) eid"
proof -
  obtain view where sound: "sound_store (sx_sha256 env) store view" using reachable_sound [OF reach] by blast
  have "(log_step (sx_sha256 env))\<^sup>*\<^sup>* empty_store store'" using reach log_append [OF app refl] by (rule rtranclp.rtrancl_into_rtrancl)
  then obtain view' where sound': "sound_store (sx_sha256 env) store' view'" using reachable_sound by blast
  obtain prepared row where prep: "prepareAll env (ap_logKind request) 0 (ap_events request) = Inr prepared"
    and acc: "list_all2 (accepts store' request) prepared (ar_envelopes result)"
    and row: "head_at store' (ap_logId request, ap_head request) = Some row"
    by (rule append_accepts [OF app sound]) blast
  obtain p where "p \<in> set prepared" "si_envelopeId p = eid"
    using prepareAll_ids [OF prep ids] eid by auto
  then obtain stored where "lineageEventRow store' (ap_logId request) (ap_head request) eid = Inr (Some stored)"
    using acc by (auto simp: list_all2_conv_all_nth in_set_conv_nth accepts_def)
  then show ?thesis by (rule lookup_journaled [OF sound' row])
qed

subsection \<open>What a refused append says about the log\<close>

text \<open>A failed schema check is not one of the store's append errors.\<close>

definition plain_schema :: "store_env \<Rightarrow> bool" where
  "plain_schema env \<longleftrightarrow> (\<forall>event c. sx_parseEvent env event \<noteq> Inl (GadAppendError c))"

lemma bind_res_Inl_iff: "bind_res m f = Inl e \<longleftrightarrow> m = Inl e \<or> (\<exists>x. m = Inr x \<and> f x = Inl e)"
  by (cases m) auto

lemma prepareLogEvent_error: "plain_schema env \<Longrightarrow> prepareLogEvent env logKind index event \<noteq> Inl (GadAppendError c)"
  by (auto simp: prepareLogEvent_def preparePayload_def checkedEvent_def assertStateTransitionPayloadValid_def plain_schema_def
      bind_res_Inl_iff Let_def split: if_splits option.splits)

lemma prepareAll_error: "plain_schema env \<Longrightarrow> prepareAll env logKind index events \<noteq> Inl (GadAppendError c)"
  by (induction events arbitrary: index) (auto simp: bind_res_Inl_iff prepareLogEvent_error)

lemma lineageFrom_error: "lineageFrom store seen cap lid hd' \<noteq> Inl (GadAppendError c)"
proof (induction store seen cap lid hd' rule: lineageFrom.induct)
  case (1 store seen cap lid hd')
  then show ?case by (subst lineageFrom.simps) (auto simp: bind_res_Inl_iff Let_def split: option.splits prod.splits)
qed

lemma lineage_lookups_error:
  "lineageEventRow store lid hd' eid \<noteq> Inl (GadAppendError c)" "assertTurnNotOpened store lid hd' turnId batch \<noteq> Inl (GadAppendError c)"
  by (auto simp: lineageEventRow_def assertTurnNotOpened_def logLineage_def bind_res_Inl_iff lineageFrom_error split: if_splits)

lemma insert_error: "insertLogEvent store envelope \<noteq> Inl (GadAppendError c)"
  by (simp add: insertLogEvent_def)

text \<open>A single event is refused with an append error other than a moved head only if its id is stored already, or
  if its publication was refused.\<close>

lemma append_refused:
  assumes err: "appendWith env publish store request = Inl (GadAppendError c)" and c: "c \<noteq> HeadConflict" and schema: "plain_schema env"
    and one: "ap_events request = [event]" "ae_envelopeId event = Some eid"
  shows "(\<exists>stored. lineageEventRow store (ap_logId request) (ap_head request) eid = Inr (Some stored)) \<and>
      head_at store (ap_logId request, ap_head request) \<noteq> None \<or>
    (\<exists>envelope inserted. si_envelopeId envelope = eid \<and> st_events inserted = st_events store @ [envelope] \<and>
       fold_res (\<lambda>st target. publish st envelope target) inserted (ae_publish event) = Inl (GadAppendError c))"
proof -
  let ?lid = "ap_logId request" and ?hd = "ap_head request"
  define headed where "headed = ensureHead store request"
  obtain p where p: "prepareLogEvent env (ap_logKind request) 0 event = Inr p"
    using err one(1) prepareLogEvent_error [OF schema] by (auto simp: appendWith_def Let_def bind_res_Inl_iff split: if_splits)
  have fields: "si_envelopeId p = eid" "pe_publish p = ae_publish event" using prepareLogEvent_fields [OF p] one(2) by auto
  show ?thesis
  proof (cases "head_at store (?lid, ?hd) \<noteq> None \<and> (\<exists>stored. lineageEventRow store ?lid ?hd eid = Inr (Some stored))")
    case False
    then have replay: "replayPrefix store request [p] = Inr [] \<or> (\<exists>e. replayPrefix store request [p] = Inl e \<and> e \<noteq> GadAppendError c)"
      using lineage_lookups_error(1) [of store ?lid ?hd eid c]
      by (cases "lineageEventRow store ?lid ?hd eid") (auto simp: head_at_def fields split: option.splits)
    have suffix: "checkSuffixNew store request [p] = Inr () \<or> (\<exists>e. checkSuffixNew store request [p] = Inl e \<and> e \<noteq> GadAppendError c)"
      using False lineage_lookups_error(1) [of store ?lid ?hd eid c]
      by (cases "lineageEventRow store ?lid ?hd eid") (auto simp: head_at_def fields split: option.splits)
    have "appendEvents env publish (ap_logKind request) ?lid ?hd headed (fst (headPointer headed ?lid ?hd))
        (fst (snd (headPointer headed ?lid ?hd))) [] [p] = Inl (GadAppendError c)"
      using err one(1) p replay suffix c
      by (auto simp: appendWith_def Let_def bind_res_Inl_iff headed_def simp del: replayPrefix.simps checkSuffixNew.simps appendEvents.simps
          split: if_splits prod.splits)
    moreover define envelope where
      "envelope = mkEnvelope env ?lid ?hd (fst (headPointer headed ?lid ?hd) + 1) (fst (snd (headPointer headed ?lid ?hd))) p"
    ultimately obtain inserted where inserted: "insertLogEvent headed envelope = Inr inserted"
      "fold_res (\<lambda>st target. publish st envelope target) inserted (ae_publish event) = Inl (GadAppendError c)"
      using lineage_lookups_error(2) insert_error
      by (auto simp: bind_res_Inl_iff fields Let_def split: if_splits prod.splits)
    moreover have "st_events inserted = st_events store @ [envelope]"
      using inserted(1) by (auto simp: insertLogEvent_def headed_def ensureHead_def split: if_splits)
    moreover have "si_envelopeId envelope = eid" by (simp add: envelope_def fields)
    ultimately show ?thesis by blast
  qed blast
qed

lemma append_refused_because_stored:
  assumes err: "appendLogEvent env store request = Inl (GadAppendError c)" and c: "c \<noteq> HeadConflict" and schema: "plain_schema env"
    and one: "ap_events request = [event]" "ae_envelopeId event = Some eid" "ae_publish event = [] \<or> ae_publish event = [(chan, audience)]"
    and reach: "(log_step (sx_sha256 env))\<^sup>*\<^sup>* empty_store store"
  shows "journaled store (ap_logId request) (ap_head request) eid \<or>
     (\<exists>event \<in> set (st_events store). si_envelopeId event = ''pub:'' @ eid @ '':'' @ chan)"
proof -
  obtain view where sound: "sound_store (sx_sha256 env) store view" using reachable_sound [OF reach] by blast
  have collides: "\<exists>s \<in> set (st_events st). si_envelopeId s = ''pub:'' @ si_envelopeId envelope @ '':'' @ fst target"
    if pub: "publishToChannel env st envelope target = Inl (GadAppendError c)" for st envelope target
  proof -
    have "appendWith env (\<lambda>st _ _. Inr st) st (publicationInput envelope target) = Inl (GadAppendError c)"
      using pub by (auto simp: publishToChannel_def bind_res_Inl_iff)
    from append_refused [OF this c schema] show ?thesis
      by (fastforce simp: publicationInput_def dest: lookup_id)
  qed
  from append_refused [OF err [unfolded appendLogEvent_def] c schema one(1,2)] show ?thesis
  proof
    assume "(\<exists>stored. lineageEventRow store (ap_logId request) (ap_head request) eid = Inr (Some stored)) \<and>
      head_at store (ap_logId request, ap_head request) \<noteq> None"
    then show ?thesis using lookup_journaled [OF sound] by blast
  next
    assume "\<exists>envelope inserted. si_envelopeId envelope = eid \<and> st_events inserted = st_events store @ [envelope] \<and>
       fold_res (\<lambda>st target. publishToChannel env st envelope target) inserted (ae_publish event) = Inl (GadAppendError c)"
    then obtain envelope inserted where e: "si_envelopeId envelope = eid" "st_events inserted = st_events store @ [envelope]"
      "publishToChannel env inserted envelope (chan, audience) = Inl (GadAppendError c)"
      using one(3) by (auto simp: bind_res_Inl_iff)
    from collides [OF e(3)] obtain s where "s \<in> set (st_events inserted)" "si_envelopeId s = ''pub:'' @ eid @ '':'' @ chan"
      by (auto simp: e(1))
    moreover from this have "s \<noteq> envelope" using arg_cong [of "si_envelopeId envelope" _ length] by (auto simp: e(1))
    ultimately show ?thesis using e(2) by auto
  qed
qed

subsection \<open>The outcome protocol\<close>

definition plain_errors :: "driver_env \<Rightarrow> bool" where
  "plain_errors env \<longleftrightarrow> plain_schema (dx_storeEnv env) \<and> (\<forall>kind payload c. dx_encode env kind payload \<noteq> Inl (GadAppendError c))"

definition settled :: "string \<Rightarrow> string \<Rightarrow> driver \<Rightarrow> bool" where
  "settled chan eid d \<longleftrightarrow>
     journaled (dv_store d) (ids_logIdForChannel chan) (ids_logIdForChannel chan) eid \<or>
     (\<exists>event \<in> set (st_events (dv_store d)). si_envelopeId event = ''pub:'' @ eid @ '':'' @ chan)"

lemma log_step_events: "(log_step sha)\<^sup>*\<^sup>* store store' \<Longrightarrow> set (st_events store) \<subseteq> set (st_events store')"
proof (induction rule: rtranclp_induct)
  case (step store1 store2)
  from step.hyps(2) have "set (st_events store1) \<subseteq> set (st_events store2)"
  proof cases
    case (log_append env input result)
    then show ?thesis using appendLogEvent_grows by (fastforce simp: grown_def)
  next
    case (log_fork env input' result')
    then show ?thesis by (auto simp: forkLog_def Let_def split: if_splits option.splits)
  qed
  with step show ?case by blast
qed simp

lemma settled_grows:
  assumes "settled chan eid d" and "(log_step sha)\<^sup>*\<^sup>* empty_store (dv_store d)" and "(log_step sha)\<^sup>*\<^sup>* (dv_store d) (dv_store d')"
  shows "settled chan eid d'"
  using assms journaled_grows [OF assms(2,3)] log_step_events [OF assms(3)] by (auto simp: settled_def)

lemma encode_ids: "encodeItems env items = Inr encoded \<Longrightarrow> map ai_envelopeId encoded = map ai_envelopeId items"
  by (induction items arbitrary: encoded) auto

lemma encode_error: "plain_errors env \<Longrightarrow> encodeItems env items \<noteq> Inl (GadAppendError c)"
  by (induction items) (auto simp: bind_res_Inl_iff plain_errors_def)

lemma broadcast_run: "\<exists>calls. broadcastPublications env es ps d = Some (d\<lparr>dv_calls := calls\<rparr>, Inr ())"
proof -
  have "\<exists>calls. deach (\<lambda>(chan, eids). dcall (BroadcastStored chan eids)) xs d = Some (d\<lparr>dv_calls := calls\<rparr>, Inr ())" for xs d
  proof (induction xs arbitrary: d)
    case (Cons x xs)
    obtain chan eids where x: "x = (chan, eids)" by (cases x)
    have "dcall (BroadcastStored chan eids) d = Some (d\<lparr>dv_calls := dv_calls d @ [BroadcastStored chan eids]\<rparr>, Inr ())" by (simp add: dcall_def)
    then show ?case using Cons [of "d\<lparr>dv_calls := dv_calls d @ [BroadcastStored chan eids]\<rparr>"] by (simp add: x)
  next
    case Nil
    show ?case by (rule exI [of _ "dv_calls d"]) simp
  qed
  then show ?thesis by (auto simp: broadcastPublications_def intro: exI [of _ "dv_calls d"])
qed

lemma appendRequest_cases:
  "(\<exists>e. appendLogEvent (dx_storeEnv env) (dv_store d) request = Inl e \<and> appendRequest env since request d = Some (d, Inl e)) \<or>
   (\<exists>store' result calls. appendLogEvent (dx_storeEnv env) (dv_store d) request = Inr (store', result) \<and>
      appendRequest env since request d = Some (d\<lparr>dv_store := store', dv_calls := calls\<rparr>,
        Inr (filter (\<lambda>envelope. since < ev_seq envelope) (ar_envelopes result))))"
proof (cases "appendLogEvent (dx_storeEnv env) (dv_store d) request")
  case (Inl e)
  then show ?thesis by (simp add: appendRequest_def dbind_def)
next
  case (Inr p)
  obtain store' result where p: "p = (store', result)" by (cases p)
  obtain calls where "broadcastPublications env (filter (\<lambda>envelope. since < ev_seq envelope) (ar_envelopes result)) (ar_published result) (d\<lparr>dv_store := store'\<rparr>)
      = Some (d\<lparr>dv_store := store', dv_calls := calls\<rparr>, Inr ())"
    using broadcast_run [of env "filter (\<lambda>envelope. since < ev_seq envelope) (ar_envelopes result)" "ar_published result" "d\<lparr>dv_store := store'\<rparr>"]
    by auto
  then show ?thesis using Inr p by (auto simp: appendRequest_def Let_def)
qed

lemma append_settles:
  assumes run: "driver_append env a items d = Some (d', r)" and one: "map ai_envelopeId items = [eid]"
    and inst: "lp_channelId (dv_heap d ! a) = chan" "lp_logId (dv_heap d ! a) = ids_logIdForChannel chan" "lp_head (dv_heap d ! a) = ids_logIdForChannel chan"
    and reach: "(log_step (sx_sha256 (dx_storeEnv env)))\<^sup>*\<^sup>* empty_store (dv_store d)" and plain: "plain_errors env"
  shows "dv_outbox d' = dv_outbox d \<and> dv_loops d' = dv_loops d \<and> dv_heap d' = dv_heap d \<and>
     ((\<exists>es. r = Inr es) \<or> (\<exists>c. r = Inl (GadAppendError c) \<and> c \<noteq> HeadConflict) \<longrightarrow> settled chan eid d')"
proof (cases "encodeItems env items")
  case (Inl e)
  then have "d' = d \<and> r = Inl e" using run one by (auto simp: driver_append_def dbind_def)
  then show ?thesis using Inl encode_error [OF plain] by auto
next
  case (Inr encoded)
  define request where "request = appendInputOf env (dv_heap d ! a) encoded"
  have ran: "appendRequest env (lastSeq (lp_state (dv_heap d ! a))) request d = Some (d', r)"
    using run one Inr by (auto simp: driver_append_def request_def)
  obtain item where encoded: "encoded = [item]" "ai_envelopeId item = eid" using encode_ids [OF Inr] one by (cases encoded) auto
  have request: "ap_events request = [appendEventOf env chan item]" "ap_logId request = ids_logIdForChannel chan" "ap_head request = ids_logIdForChannel chan"
    by (simp_all add: request_def appendInputOf_def encoded inst)
  from appendRequest_cases [of env d request "lastSeq (lp_state (dv_heap d ! a))"] show ?thesis
  proof (elim disjE exE conjE)
    fix e
    assume e: "appendLogEvent (dx_storeEnv env) (dv_store d) request = Inl e"
      "appendRequest env (lastSeq (lp_state (dv_heap d ! a))) request d = Some (d, Inl e)"
    have "settled chan eid d" if "e = GadAppendError c" "c \<noteq> HeadConflict" for c
      using append_refused_because_stored [OF e(1) [unfolded that(1)] that(2) _ request(1), of eid chan JUndefined] plain reach
      by (auto simp: plain_errors_def appendEventOf_def encoded(2) request settled_def)
    then show ?thesis using e(2) ran by auto
  next
    fix store' result calls
    assume ok: "appendLogEvent (dx_storeEnv env) (dv_store d) request = Inr (store', result)"
      "appendRequest env (lastSeq (lp_state (dv_heap d ! a))) request d = Some (d\<lparr>dv_store := store', dv_calls := calls\<rparr>,
        Inr (filter (\<lambda>envelope. lastSeq (lp_state (dv_heap d ! a)) < ev_seq envelope) (ar_envelopes result)))"
    have "journaled store' (ids_logIdForChannel chan) (ids_logIdForChannel chan) eid"
      using append_journals [OF ok(1) reach, of "[eid]" eid] by (simp add: request appendEventOf_def encoded(2))
    then show ?thesis using ok(2) ran by (auto simp: settled_def)
  qed
qed

definition live :: "string \<Rightarrow> nat \<Rightarrow> driver \<Rightarrow> bool" where
  "live chan a d \<longleftrightarrow> anchored d \<and> dget (dv_loops d) chan = Some a"

lemma liveD:
  "live chan a d \<Longrightarrow> lp_channelId (dv_heap d ! a) = chan \<and> lp_logId (dv_heap d ! a) = ids_logIdForChannel chan \<and>
     lp_head (dv_heap d ! a) = ids_logIdForChannel chan"
  by (auto simp: live_def anchored_def)

lemma loop_live: "anchored d \<Longrightarrow> driver_loop env chan d = Some (d', Inr a) \<Longrightarrow> live chan a d'"
  using dkeepsD [OF anchors.keeps_loop] driver_loop_live by (fastforce simp: live_def)

lemma attempt_cases:
  assumes "attemptOutcome env onConflict a row outcome d = Some (d', r)"
    and "outcomeEvents (dx_classify env) (ob_descriptor row) outcome (nowIso env) = Inr items"
  shows "\<exists>d1 r1. driver_append env a (transformOutcome env (dv_heap d ! a) items) d = Some (d1, r1) \<and>
    ((\<exists>es. r1 = Inr es \<and> d' = d1 \<and> r = Inr (Some (a, es))) \<or>
     (r1 = Inl (GadAppendError HeadConflict) \<and> onConflict (GadAppendError HeadConflict) (lp_channelId (dv_heap d ! a)) d1 = Some (d', r)) \<or>
     (\<exists>c. r1 = Inl (GadAppendError c) \<and> c \<noteq> HeadConflict \<and>
        dthen (discardStale env row (lp_channelId (dv_heap d ! a))) (dreturn None) d1 = Some (d', r)) \<or>
     (d' = d1 \<and> (\<exists>e. r1 = Inl e \<and> (\<forall>c. e \<noteq> GadAppendError c) \<and> r = Inl e)))"
proof -
  have run: "dcatch (dbind (driver_append env a (transformOutcome env (dv_heap d ! a) items)) (\<lambda>envelopes. dreturn (Some (a, envelopes))))
         (\<lambda>err. case err of
            GadAppendError HeadConflict \<Rightarrow> onConflict err (lp_channelId (dv_heap d ! a))
          | GadAppendError _ \<Rightarrow> dthen (discardStale env row (lp_channelId (dv_heap d ! a))) (dreturn None)
          | _ \<Rightarrow> draise err) d = Some (d', r)"
    using assms by (simp add: attemptOutcome_def)
  then obtain d1 r1 where d1: "driver_append env a (transformOutcome env (dv_heap d ! a) items) d = Some (d1, r1)"
    by (auto simp: dcatch_def dbind_def split: option.splits)
  show ?thesis
  proof (cases r1)
    case (Inr es)
    then show ?thesis using run d1 by (auto simp: dcatch_def dbind_def)
  next
    case (Inl e)
    show ?thesis
    proof (cases "\<exists>c. e = GadAppendError c")
      case True
      then obtain c where e: "e = GadAppendError c" by blast
      show ?thesis using run d1 Inl e by (cases c) (simp_all add: dcatch_def dbind_def)
    next
      case False
      then show ?thesis using run d1 Inl by (cases e) (auto simp: dcatch_def dbind_def)
    qed
  qed
qed

lemma discard_settled:
  assumes "dthen (discardStale env row chan) (dreturn None) d = Some (d', r)" and "settled c eid d"
    and "(log_step (sx_sha256 (dx_storeEnv env)))\<^sup>*\<^sup>* empty_store (dv_store d)"
  shows "settled c eid d'"
  using settled_grows [OF assms(2,3)] dkeepsD [OF grows.keeps_then [OF grows.keeps_discardStale grows.keeps_return] assms(1)] by blast

lemma attempt_settles:
  assumes run: "attemptOutcome env onConflict a row outcome d = Some (d', r)" and live: "live chan a d"
    and items: "outcomeEvents (dx_classify env) (ob_descriptor row) outcome (nowIso env) = Inr items"
    and ids: "\<And>inst. map ai_envelopeId (transformOutcome env inst items) = [eid]"
    and reach: "(log_step (sx_sha256 (dx_storeEnv env)))\<^sup>*\<^sup>* empty_store (dv_store d)" and plain: "plain_errors env"
    and conflict: "\<And>d1. onConflict (GadAppendError HeadConflict) chan d1 = Some (d', r) \<Longrightarrow> live chan a d1 \<Longrightarrow>
      (log_step (sx_sha256 (dx_storeEnv env)))\<^sup>*\<^sup>* empty_store (dv_store d1) \<Longrightarrow> dv_outbox d1 = dv_outbox d \<Longrightarrow>
      settled chan eid d' \<or> dv_outbox d' = dv_outbox d \<and> (\<forall>x. r \<noteq> Inr (Some x))"
  shows "settled chan eid d' \<or> dv_outbox d' = dv_outbox d \<and> (\<forall>x. r \<noteq> Inr (Some x))"
proof -
  have inst: "lp_channelId (dv_heap d ! a) = chan" "lp_logId (dv_heap d ! a) = ids_logIdForChannel chan" "lp_head (dv_heap d ! a) = ids_logIdForChannel chan"
    using liveD [OF live] by simp_all
  obtain d1 r1 where d1: "driver_append env a (transformOutcome env (dv_heap d ! a) items) d = Some (d1, r1)"
    and r1: "(\<exists>es. r1 = Inr es \<and> d' = d1 \<and> r = Inr (Some (a, es))) \<or>
     (r1 = Inl (GadAppendError HeadConflict) \<and> onConflict (GadAppendError HeadConflict) chan d1 = Some (d', r)) \<or>
     (\<exists>c. r1 = Inl (GadAppendError c) \<and> c \<noteq> HeadConflict \<and> dthen (discardStale env row chan) (dreturn None) d1 = Some (d', r)) \<or>
     (d' = d1 \<and> (\<exists>e. r1 = Inl e \<and> (\<forall>c. e \<noteq> GadAppendError c) \<and> r = Inl e))"
    using attempt_cases [OF run items] unfolding inst(1) by blast
  note a1 = append_settles [OF d1 ids inst reach plain]
  have live1: "live chan a d1" using live a1 by (simp add: live_def anchored_def)
  have reach1: "(log_step (sx_sha256 (dx_storeEnv env)))\<^sup>*\<^sup>* empty_store (dv_store d1)"
    using reach dkeepsD [OF grows.keeps_append d1] by (rule rtranclp_trans)
  from r1 show ?thesis
  proof (elim disjE)
    assume "\<exists>c. r1 = Inl (GadAppendError c) \<and> c \<noteq> HeadConflict \<and> dthen (discardStale env row chan) (dreturn None) d1 = Some (d', r)"
    then show ?thesis using a1 discard_settled [OF _ _ reach1] by blast
  qed (use a1 conflict [OF _ live1 reach1] in auto)
qed

lemma appendOutcome_settles:
  assumes "appendOutcome n env a row outcome d = Some (d', r)" and live: "live chan a d"
    and items: "outcomeEvents (dx_classify env) (ob_descriptor row) outcome (nowIso env) = Inr items"
    and ids: "\<And>inst. map ai_envelopeId (transformOutcome env inst items) = [eid]"
    and reach: "(log_step (sx_sha256 (dx_storeEnv env)))\<^sup>*\<^sup>* empty_store (dv_store d)" and plain: "plain_errors env"
  shows "settled chan eid d' \<or> dv_outbox d' = dv_outbox d \<and> (\<forall>x. r \<noteq> Inr (Some x))"
  using assms(1) live reach
proof (induction n arbitrary: a d)
  case 0
  show ?case
    by (rule attempt_settles [OF 0(1) [unfolded appendOutcome.simps] 0(2) items ids 0(3) plain]) auto
next
  case (Suc n)
  show ?case
  proof (rule attempt_settles [OF Suc.prems(1) [unfolded appendOutcome.simps] Suc.prems(2) items ids Suc.prems(3) plain])
    fix d1
    assume run: "dthen (dropLoop chan) (dbind (driver_loop env chan) (\<lambda>b. appendOutcome n env b row outcome)) d1 = Some (d', r)"
      and d1: "live chan a d1" "(log_step (sx_sha256 (dx_storeEnv env)))\<^sup>*\<^sup>* empty_store (dv_store d1)" "dv_outbox d1 = dv_outbox d"
    define d2 where "d2 = d1\<lparr>dv_loops := ddel chan (dv_loops d1)\<rparr>"
    have d2: "anchored d2" using d1(1) by (simp add: d2_def live_def anchored_drop)
    have run2: "dbind (driver_loop env chan) (\<lambda>b. appendOutcome n env b row outcome) d2 = Some (d', r)"
      using run by (simp add: dropLoop_def d2_def)
    show "settled chan eid d' \<or> dv_outbox d' = dv_outbox d \<and> (\<forall>x. r \<noteq> Inr (Some x))"
    proof (cases "driver_loop env chan d2")
      case (Some p)
      obtain d3 q where p: "p = (d3, q)" by (cases p)
      show ?thesis
      proof (cases q)
        case (Inl e)
        then have "d3 = d2" using Some p by (auto simp: driver_loop_cases split: option.splits sum.splits)
        then show ?thesis using run2 Some p Inl d1(3) by (auto simp: dbind_def d2_def)
      next
        case (Inr b)
        then have b: "driver_loop env chan d2 = Some (d3, Inr b)" using Some p by simp
        have "live chan b d3" by (rule loop_live [OF d2 b])
        moreover have "dv_store d3 = dv_store d1" "dv_outbox d3 = dv_outbox d" using driver_loop_live [OF b] d1(3) by (simp_all add: d2_def)
        ultimately show ?thesis using Suc.IH [of b d3] run2 b d1(2) by simp
      qed
    qed (use run2 in \<open>simp add: dbind_def\<close>)
  qed
qed

text \<open>C4: No outcome is lost. If an effect's row is gone after a terminal outcome was applied, whether the driver
  returned, threw or died at a kill point, and however often the head had moved, then the outcome's terminal event
  is in the channel's trajectory, or was published to the channel under its own publication id. The policies may
  rewrite the event but keep its id; schema and blob errors are not append errors.\<close>

theorem outcome_never_lost:
  assumes reach: "(driver_op (sx_sha256 (dx_storeEnv env)))\<^sup>*\<^sup>* no_driver d" and plain: "plain_errors env"
    and row: "row \<in> set (dv_outbox d)" and run: "applyOutcome fuel env row outcome d = Some (d', r)"
    and items: "outcomeEvents (dx_classify env) (ob_descriptor row) outcome (nowIso env) = Inr [item]"
    and ids: "\<And>inst. map ai_envelopeId (transformOutcome env inst [item]) = [ai_envelopeId item]"
    and gone: "row \<notin> set (dv_outbox d')"
  shows "journaled (dv_store d') (ids_logIdForChannel (ob_channelId row)) (ids_logIdForChannel (ob_channelId row)) (ai_envelopeId item) \<or>
     (\<exists>event \<in> set (st_events (dv_store d')). si_envelopeId event = ''pub:'' @ ai_envelopeId item @ '':'' @ ob_channelId row)"
proof -
  let ?chan = "ob_channelId row" and ?eid = "ai_envelopeId item"
  have stored: "(log_step (sx_sha256 (dx_storeEnv env)))\<^sup>*\<^sup>* empty_store (dv_store d)" by (rule reachable_store [OF reach])
  have anchored: "anchored d" by (rule reachable_anchored [OF reach])
  have unloaded: "d1 = d" if "driver_loop env ?chan d = Some (d1, Inl e)" for d1 e
    using that by (auto simp: driver_loop_cases split: option.splits sum.splits)
  obtain d1 a where d1: "driver_loop env ?chan d = Some (d1, Inr a)"
    using run gone row unloaded by (auto simp: applyOutcome_def dbind_def split: option.splits sum.splits)
  have live: "live ?chan a d1" by (rule loop_live [OF anchored d1])
  have same: "dv_store d1 = dv_store d" "dv_outbox d1 = dv_outbox d" using driver_loop_live [OF d1] by simp_all
  have "applyTerminal fuel env row outcome a d1 = Some (d', r)"
    using run d1 items by (cases outcome; cases "ob_descriptor row") (simp_all add: applyOutcome_def split: if_splits)
  then obtain d2 r2 where d2: "appendOutcome HEAD_CONFLICT_RETRIES env a row outcome d1 = Some (d2, r2)"
    and rest: "d' = d2 \<or> (\<exists>b es. r2 = Inr (Some (b, es)) \<and> finishOutcome fuel env row outcome b es d2 = Some (d', r))"
    by (auto simp: applyTerminal_def dbind_def split: option.splits sum.splits)
  have d2': "settled ?chan ?eid d2 \<or> dv_outbox d2 = dv_outbox d1 \<and> (\<forall>x. r2 \<noteq> Inr (Some x))"
    by (rule appendOutcome_settles [OF d2 live items ids _ plain]) (simp add: same stored)
  have stored2: "(log_step (sx_sha256 (dx_storeEnv env)))\<^sup>*\<^sup>* empty_store (dv_store d2)"
    using stored dkeepsD [OF grows.keeps_appendOutcome d2] same(1) by simp
  have "settled ?chan ?eid d'"
    using rest d2' gone row same(2) settled_grows [OF _ stored2] dkeepsD [OF grows.keeps_finishOutcome] by metis
  then show ?thesis by (simp add: settled_def)
qed

theorem outcome_never_lost_witness:
  "\<exists>item. outcomeEvents (dx_classify sample_dying_env) (ob_descriptor sample_row) sample_outcome (nowIso sample_dying_env) = Inr [item] \<and>
     (journaled (dv_store sample_applied) (ids_logIdForChannel ''c1'') (ids_logIdForChannel ''c1'') (ai_envelopeId item) \<or>
      (\<exists>event \<in> set (st_events (dv_store sample_applied)). si_envelopeId event = ''pub:'' @ ai_envelopeId item @ '':'' @ ''c1''))"
proof -
  have "case outcomeEvents (dx_classify sample_dying_env) (ob_descriptor sample_row) sample_outcome (nowIso sample_dying_env) of
      Inr [_] \<Rightarrow> True | _ \<Rightarrow> False" by code_simp
  then obtain item where item: "outcomeEvents (dx_classify sample_dying_env) (ob_descriptor sample_row) sample_outcome (nowIso sample_dying_env) = Inr [item]"
    by (auto split: sum.splits list.splits)
  have env: "sx_sha256 (dx_storeEnv sample_dying_env) = sx_sha256 sample_store_env" "plain_errors sample_dying_env"
    "map ai_envelopeId (transformOutcome sample_dying_env inst [item]) = [ai_envelopeId item]" for inst
    by (simp_all add: sample_dying_env_def sample_driver_env_def sample_store_env_def sample_env_def plain_errors_def plain_schema_def
        transformOutcome_def)
  have chan: "ob_channelId sample_row = ''c1''" by code_simp
  show ?thesis
    using outcome_never_lost [of sample_dying_env sample_woken sample_row 2 sample_outcome sample_applied, OF _ env(2) _ _ item env(3)]
      sample_woken_reached sample_woken_row sample_applied_run item by (auto simp: env(1) chan)
qed

end
