(* ===== verification/InStep.thy ===== *)
theory InStep
  imports Outcomes
begin

text \<open>
  A loop that is in step with its log stays in step: what a step folds into its state are exactly the events the
  log gained. A loop that has fallen behind does not have this property, and the cache inherits the gap.
\<close>

subsection \<open>What an append adds to the log\<close>

definition log_of :: "store \<Rightarrow> string \<Rightarrow> string \<Rightarrow> stored_event list" where
  "log_of store lid hd' =
     (case (getLogHead store lid hd', readLog store lid hd' read_everything) of (Some _, Inr events) \<Rightarrow> events | _ \<Rightarrow> [])"

lemma log_of_view: "sound_store sha store view \<Longrightarrow> log_of store lid hd' = (if head_at store (lid, hd') = None then [] else view (lid, hd'))"
  using read_everything_view [of sha store view lid hd'] getLogHead_iff [of store lid hd']
  by (auto simp: log_of_def split: option.splits)

lemma log_of_chain: "sound_store sha store view \<Longrightarrow> chain sha 0 GENESIS_EVENT_HASH (log_of store lid hd')"
  using head_view(1) [OF sound_storeD(2)] by (auto simp: log_of_view)

lemma append_extends_log:
  assumes app: "appendLogEvent env store request = Inr (store', result)" and reach: "(log_step (sx_sha256 env))\<^sup>*\<^sup>* empty_store store"
  shows "\<exists>new. log_of store' (ap_logId request) (ap_head request) = log_of store (ap_logId request) (ap_head request) @ new \<and>
     filter (\<lambda>e. int (length (log_of store (ap_logId request) (ap_head request))) < ev_seq e) (ar_envelopes result) = new"
proof -
  let ?sha = "sx_sha256 env" and ?key = "(ap_logId request, ap_head request)"
  obtain view where sound: "sound_store ?sha store view" using reachable_sound [OF reach] by blast
  have ok: "store_ok ?sha store" "store_ok ?sha store'"
    using sound_storeD(1) [OF sound] appendLogEvent_ok [OF app] by blast+
  then have g: "growth ?sha store store' view"
    using sound appendLogEvent_grows [OF app] by (simp add: growth_def sound_store_def)
  define view' where "view' = grown_view store store' view"
  have sound': "sound_store ?sha store' view'" using ok(2) grown_lineage [OF g] by (simp add: sound_store_def view'_def)
  obtain row' where at': "head_at store' ?key = Some row'" by (rule append_accepts [OF app sound]) blast
  define old where "old = log_of store (ap_logId request) (ap_head request)"
  have others: "others_ok ?sha store ?key" and log: "log_ok ?sha store ?key"
    using ok(1) by (simp_all add: store_ok_def others_ok_def)
  obtain replayed appended prepared stored where rep: "replayPrefix store request prepared = Inr replayed" "ar_envelopes result = replayed @ appended"
    and stored: "own_rows stored ?key = own_rows store ?key @ appended"
    and store': "store' = (if appended \<noteq> [] then moveHead stored (ap_logId request) (ap_head request) (last appended) else stored)"
    by (rule channel.appendWith_run [OF app [unfolded appendLogEvent_def] others log]) blast
  have rows: "own_rows store' ?key = own_rows store ?key @ appended" using stored store' by simp
  have new: "log_of store' (ap_logId request) (ap_head request) = old @ appended"
  proof (cases "head_at store ?key")
    case None
    then show ?thesis using at' rows log_ok_None [OF log] by (simp add: old_def log_of_view [OF sound] log_of_view [OF sound'] view'_def grown_view_def)
  next
    case (Some row)
    then show ?thesis using at' rows by (simp add: old_def log_of_view [OF sound] log_of_view [OF sound'] view'_def grown_view_def)
  qed
  have chain: "chain ?sha 0 GENESIS_EVENT_HASH (old @ appended)" using log_of_chain [OF sound'] new by metis
  have "ev_seq e \<le> int (length old)" if e: "e \<in> set replayed" for e
  proof -
    have "replayed \<noteq> []" using e by auto
    then have head: "head_at store ?key \<noteq> None" using replayPrefix_head [OF rep(1)] by (auto simp: head_at_def)
    obtain i where "i < length replayed" "replayed ! i = e" using e unfolding in_set_conv_nth by blast
    then obtain p where "accepts store request p e" using list_all2_nthD2 [OF replayPrefix_accepts [OF rep(1)]] by blast
    then have "lineageEventRow store (ap_logId request) (ap_head request) (si_envelopeId p) = Inr (Some e)" by (simp add: accepts_def)
    moreover obtain row where "head_at store ?key = Some row" using head by blast
    ultimately have "e \<in> set old" using lookup_in_view [OF sound] by (simp add: old_def log_of_view [OF sound])
    then show ?thesis
      using chain_seq_bounds [of ?sha 0 GENESIS_EVENT_HASH old e] chain chain_end_seq [of ?sha 0 GENESIS_EVENT_HASH old]
      by (simp add: chain_append)
  qed
  moreover have "int (length old) < ev_seq e" if "e \<in> set appended" for e
    using chain that chain_end_seq [of ?sha 0 GENESIS_EVENT_HASH old]
      chain_seq_bounds [of ?sha "fst (chain_end 0 GENESIS_EVENT_HASH old)" "snd (chain_end 0 GENESIS_EVENT_HASH old)" appended e]
    by (simp add: chain_append)
  ultimately have "filter (\<lambda>e. int (length old) < ev_seq e) (replayed @ appended) = appended"
    by (simp add: filter_True filter_empty_conv not_less)
  then show ?thesis using new rep(2) by (auto simp: old_def)
qed

subsection \<open>Folding what was appended\<close>

definition in_step :: "driver_env \<Rightarrow> string \<Rightarrow> nat \<Rightarrow> driver \<Rightarrow> bool" where
  "in_step env chan a d \<longleftrightarrow>
     a < length (dv_heap d) \<and> lp_channelId (dv_heap d ! a) = chan \<and> lp_logId (dv_heap d ! a) = ids_logIdForChannel chan \<and>
     lp_head (dv_heap d ! a) = ids_logIdForChannel chan \<and>
     (log_step (sx_sha256 (dx_storeEnv env)))\<^sup>*\<^sup>* empty_store (dv_store d) \<and>
     caches (sx_sha256 (dx_storeEnv env)) (loopInput env chan)
       (log_of (dv_store d) (ids_logIdForChannel chan) (ids_logIdForChannel chan)) (lp_state (dv_heap d ! a))"

text \<open>The cached state, if there is one, is the fold of a prefix of the log.\<close>

definition cache_behind :: "driver_env \<Rightarrow> string \<Rightarrow> driver \<Rightarrow> bool" where
  "cache_behind env chan d \<longleftrightarrow>
     (\<forall>cached. cache_read (dv_cache d) (ids_logIdForChannel chan) (ids_logIdForChannel chan) = Some cached \<longrightarrow>
        (\<exists>old new. log_of (dv_store d) (ids_logIdForChannel chan) (ids_logIdForChannel chan) = old @ new \<and>
           caches (sx_sha256 (dx_storeEnv env)) (loopInput env chan) old cached))"

lemma foldInto_run:
  assumes "foldInto a es d = Some (d', Inr ())" and "a < length (dv_heap d)"
  shows "\<exists>s. foldStored (lp_state (dv_heap d ! a)) es = Inr s \<and> d' = d\<lparr>dv_heap := (dv_heap d)[a := (dv_heap d ! a)\<lparr>lp_state := s\<rparr>]\<rparr>"
  using assms
proof (induction es arbitrary: d)
  case Nil
  then show ?case by (simp add: foldInto_def foldStored_def)
next
  case (Cons e es)
  obtain s where s: "applyEvent (lp_state (dv_heap d ! a)) (loopEnvelope e) = Inr s"
    and rest: "foldInto a es (d\<lparr>dv_heap := (dv_heap d)[a := (dv_heap d ! a)\<lparr>lp_state := s\<rparr>]\<rparr>) = Some (d', Inr ())"
    using Cons.prems(1) by (auto simp: foldInto_def dthen_Some dbind_Some set_state_def)
  show ?case using Cons.IH [OF rest] Cons.prems(2) s by (auto simp: foldStored_def)
qed

lemma caches_more:
  assumes "caches sha input old s" and "chain sha 0 GENESIS_EVENT_HASH (old @ new)" and "foldStored s new = Inr s'"
  shows "caches sha input (old @ new) s'"
proof -
  obtain t c f where "foldStored (blank input) old = Inr t" "s = t\<lparr>config := c, forkSeq := f\<rparr>" using assms(1) by (auto simp: caches_def)
  then show ?thesis using assms(2,3) by (auto simp: caches_def foldStored_append foldStored_config map_sum_Inr_iff)
qed

lemma append_fold_in_step:
  assumes step: "in_step env chan a d" and behind: "cache_behind env chan d"
    and app: "driver_append env a items d = Some (d1, Inr es)" and fold: "foldInto a es d1 = Some (d2, Inr ())"
  shows "in_step env chan a d2 \<and> cache_behind env chan d2 \<and> dv_heap d1 = dv_heap d"
proof (cases "items = []")
  case True
  then have "d1 = d" "es = []" using app by (simp_all add: driver_append_def)
  then show ?thesis using step behind foldInto_run [OF fold] by (simp add: in_step_def foldStored_def)
next
  case False
  let ?L = "ids_logIdForChannel chan" and ?sha = "sx_sha256 (dx_storeEnv env)"
  define inst old where "inst = dv_heap d ! a" and "old = log_of (dv_store d) ?L ?L"
  have inst: "a < length (dv_heap d)" "lp_channelId inst = chan" "lp_logId inst = ?L" "lp_head inst = ?L"
    and reach: "(log_step ?sha)\<^sup>*\<^sup>* empty_store (dv_store d)" and caches: "caches ?sha (loopInput env chan) old (lp_state inst)"
    using step by (simp_all add: in_step_def inst_def old_def)
  obtain encoded where run: "appendRequest env (lastSeq (lp_state inst)) (appendInputOf env inst encoded) d = Some (d1, Inr es)"
    using app False by (auto simp: driver_append_def dbind_Some inst_def)
  obtain store' result calls where ok: "appendLogEvent (dx_storeEnv env) (dv_store d) (appendInputOf env inst encoded) = Inr (store', result)"
    and d1: "d1 = d\<lparr>dv_store := store', dv_calls := calls\<rparr>" and es: "es = filter (\<lambda>e. lastSeq (lp_state inst) < ev_seq e) (ar_envelopes result)"
    using appendRequest_cases [of env d "appendInputOf env inst encoded" "lastSeq (lp_state inst)"] run by auto
  have key: "ap_logId (appendInputOf env inst encoded) = ?L" "ap_head (appendInputOf env inst encoded) = ?L"
    by (simp_all add: appendInputOf_def inst)
  obtain new where new: "log_of store' ?L ?L = old @ new" "filter (\<lambda>e. int (length old) < ev_seq e) (ar_envelopes result) = new"
    using append_extends_log [OF ok reach] unfolding key old_def by blast
  have "lastSeq (lp_state inst) = int (length old)"
    using caches_position [OF caches] chain_end_seq [of ?sha 0 GENESIS_EVENT_HASH old] caches
    by (simp add: caches_def prod_eq_iff)
  then have "es = new" using es new(2) by simp
  have reach': "(log_step ?sha)\<^sup>*\<^sup>* empty_store store'" using reach log_append [OF ok refl] by (rule rtranclp.rtrancl_into_rtrancl)
  then have chain: "chain ?sha 0 GENESIS_EVENT_HASH (old @ new)"
    using reachable_sound log_of_chain new(1) by metis
  obtain s where s: "foldStored (lp_state inst) new = Inr s" "d2 = d1\<lparr>dv_heap := (dv_heap d)[a := inst\<lparr>lp_state := s\<rparr>]\<rparr>"
    using foldInto_run [OF fold] inst(1) by (auto simp: d1 inst_def \<open>es = new\<close>)
  have "in_step env chan a d2"
    using inst reach' caches_more [OF caches chain s(1)] by (simp add: in_step_def s(2) d1 new(1))
  moreover have "cache_behind env chan d2"
    using behind by (fastforce simp: cache_behind_def s(2) d1 new(1) old_def [symmetric])
  ultimately show ?thesis by (simp add: d1)
qed

subsection \<open>A loaded loop is in step\<close>

lemma cache_read_write: "cache_read (cache_write now s cache) (logId s) (head s) = Some s"
proof -
  have "find (\<lambda>row. fc_key row = (logId s, head s)) (filter (\<lambda>row. fc_key row \<noteq> (logId s, head s)) cache) = None"
    by (rule find_none) simp
  then show ?thesis by (simp add: cache_read_def cache_write_def find_append fc_key_def [of "fold_cache_row.make a b c d e f" for a b c d e f]) (simp add: fc_key_def)
qed

lemma cache_behind_write:
  assumes "caches (sx_sha256 (dx_storeEnv env)) (loopInput env chan) (log_of (dv_store d) (ids_logIdForChannel chan) (ids_logIdForChannel chan)) s"
  shows "cache_behind env chan (d\<lparr>dv_cache := cache_write now s cache\<rparr>)"
proof -
  let ?L = "ids_logIdForChannel chan"
  from assms obtain t c f where "foldStored (blank (loopInput env chan)) (log_of (dv_store d) ?L ?L) = Inr t" and s: "s = t\<lparr>config := c, forkSeq := f\<rparr>"
    by (auto simp: caches_def)
  from foldStored_identity [OF this(1)] have "logId s = ?L" "head s = ?L"
    by (simp_all add: s same_identity_def blank_def emptyState_def initialAgentState_def loopInput_def option_or_def Let_def)
  then have "cache_read (cache_write now s cache) ?L ?L = Some s" using cache_read_write [of now s cache] by simp
  then show ?thesis using assms by (auto simp: cache_behind_def)
qed

lemma load_in_step:
  assumes reach: "(log_step (sx_sha256 (dx_storeEnv env)))\<^sup>*\<^sup>* empty_store (dv_store d)" and behind: "cache_behind env chan d"
    and inj: "inj_on ev_hash (set (log_of (dv_store d) (ids_logIdForChannel chan) (ids_logIdForChannel chan)))"
    and unloaded: "dget (dv_loops d) chan = None" and run: "driver_loop env chan d = Some (d', Inr a)"
  shows "in_step env chan a d' \<and> cache_behind env chan d'"
proof -
  let ?L = "ids_logIdForChannel chan" and ?sha = "sx_sha256 (dx_storeEnv env)" and ?input = "loopInput env chan"
  define events where "events = log_of (dv_store d) ?L ?L"
  have input: "li_logId ?input = ?L" "li_head ?input = ?L" by (simp_all add: loopInput_def)
  obtain view where sound: "sound_store ?sha (dv_store d) view" using reachable_sound [OF reach] by blast
  obtain cache s where load: "loadState (dx_now env) (dv_store d) (dv_cache d) ?input = Inr (cache, s)"
    and d': "d' = loaded env chan cache s d" "a = length (dv_heap d)"
    using run unloaded by (auto simp: driver_loop_cases split: sum.splits prod.splits)
  have caches: "caches ?sha ?input events s"
  proof (cases "getLogHead (dv_store d) ?L ?L")
    case None
    then have "s = blank ?input" "events = []"
      using load by (simp_all add: loadState_def input blank_def events_def log_of_def Let_def)
    moreover have "blank ?input = (blank ?input)\<lparr>config := config (blank ?input), forkSeq := forkSeq (blank ?input)\<rparr>" by simp
    ultimately show ?thesis unfolding caches_def foldStored_def by (metis chain.simps(1) fold_res.simps(1))
  next
    case (Some info)
    then obtain row where at: "head_at (dv_store d) (?L, ?L) = Some row" using getLogHead_iff [of "dv_store d" ?L ?L] by auto
    have view: "view (?L, ?L) = events" using at by (simp add: events_def log_of_view [OF sound])
    have "map_sum id sans_config (loadState (dx_now env) (dv_store d) (dv_cache d) ?input) =
        map_sum id (\<lambda>s. s\<lparr>config := JNull, forkSeq := remoteForkSeq (Some info)\<rparr>) (foldStored (blank ?input) events)"
      using loadState_fold [OF sound, of ?input, unfolded input, OF at Some, of "dv_cache d" "dx_now env"] behind inj unfolding view
      by (fastforce simp: cache_behind_def events_def intro: inj_on_subset)
    then obtain t where t: "foldStored (blank ?input) events = Inr t" "s\<lparr>config := JNull\<rparr> = t\<lparr>config := JNull, forkSeq := remoteForkSeq (Some info)\<rparr>"
      using load by (cases "foldStored (blank ?input) events") (auto simp: sans_config_def)
    have "s = t\<lparr>config := config s, forkSeq := remoteForkSeq (Some info)\<rparr>" using t(2) by (cases s; cases t) simp
    then show ?thesis using log_of_chain [OF sound, of ?L ?L] t(1) unfolding caches_def events_def by blast
  qed
  moreover have "cache_behind env chan (d\<lparr>dv_cache := cache\<rparr>)"
  proof (cases "cache = dv_cache d")
    case False
    then obtain now where "cache = cache_write now s (dv_cache d)"
      using load by (auto simp: loadState_def Let_def split: option.splits if_splits)
    then show ?thesis using cache_behind_write caches by (simp add: events_def)
  qed (simp add: behind)
  ultimately show ?thesis using reach by (simp add: in_step_def d' loaded_def events_def cache_behind_def)
qed

subsection \<open>Steps without a reload\<close>

interpretation heap: driver_relation env "\<lambda>d d'. length (dv_heap d) \<le> length (dv_heap d')" for env
  by unfold_locales (auto simp: loaded_def)

lemma append_fails: "driver_append env a items d = Some (d', Inl e) \<Longrightarrow> d' = d"
proof -
  assume run: "driver_append env a items d = Some (d', Inl e)"
  then have items: "items \<noteq> []" by (auto simp: driver_append_def)
  show "d' = d"
  proof (cases "encodeItems env items")
    case (Inl e')
    then show ?thesis using run items by (simp add: driver_append_def dbind_def)
  next
    case (Inr encoded)
    then show ?thesis
      using run items appendRequest_cases [of env d "appendInputOf env (dv_heap d ! a) encoded" "lastSeq (lp_state (dv_heap d ! a))"]
      by (auto simp: driver_append_def)
  qed
qed

lemma reload_grows:
  assumes "dthen (dropLoop chan) (dbind (driver_loop env chan) f) d = Some (d', Inr y)" and "\<And>x. dkeeps (\<lambda>d d'. length (dv_heap d) \<le> length (dv_heap d')) (f x)"
  shows "length (dv_heap d) < length (dv_heap d')"
proof -
  obtain d1 b where d1: "driver_loop env chan (d\<lparr>dv_loops := ddel chan (dv_loops d)\<rparr>) = Some (d1, Inr b)" "f b d1 = Some (d', Inr y)"
    using assms(1) by (auto simp: dthen_Some dbind_Some dropLoop_def)
  have "length (dv_heap d1) = Suc (length (dv_heap d))"
    using d1(1) by (auto simp: driver_loop_cases loaded_def split: sum.splits)
  then show ?thesis using dkeepsD [OF assms(2) d1(2)] by simp
qed

lemma enact_run: "\<exists>table calls. deach (enactEffect env branch) effects d = Some (d\<lparr>dv_outbox := table, dv_calls := calls\<rparr>, Inr ())"
proof (induction effects arbitrary: d)
  case Nil
  show ?case by (intro exI [of _ "dv_outbox d"] exI [of _ "dv_calls d"]) simp
next
  case (Cons effect effects)
  have "enactEffect env branch effect d =
      Some (d\<lparr>dv_outbox := outbox_insert (dx_now env) branch effect (initialDeadline effect) (dv_outbox d),
        dv_calls := (if effectKind effect = KPublishEnvelope then dv_calls d @ [EagerPublish effect] else dv_calls d)\<rparr>, Inr ())"
    by (simp add: enactEffect_def insertEffect_def dcall_def)
  then obtain table calls where one: "enactEffect env branch effect d = Some (d\<lparr>dv_outbox := table, dv_calls := calls\<rparr>, Inr ())" by blast
  show ?case using Cons [of "d\<lparr>dv_outbox := table, dv_calls := calls\<rparr>"] one by simp
qed

lemma in_step_cong:
  "dv_heap d' = dv_heap d \<Longrightarrow> dv_store d' = dv_store d \<Longrightarrow> in_step env chan a d' = in_step env chan a d"
  "dv_cache d' = dv_cache d \<Longrightarrow> dv_store d' = dv_store d \<Longrightarrow> cache_behind env chan d' = cache_behind env chan d"
  by (simp_all add: in_step_def cache_behind_def)

lemma writeCache_in_step:
  assumes "in_step env chan a d" and "writeCache env a d = Some (d', Inr ())"
  shows "in_step env chan a d' \<and> cache_behind env chan d' \<and> dv_heap d' = dv_heap d"
proof -
  have "d' = d\<lparr>dv_cache := cache_write (dx_now env) (lp_state (dv_heap d ! a)) (dv_cache d)\<rparr>"
    using assms(2) by (simp add: writeCache_def)
  then show ?thesis using assms(1) cache_behind_write [of env chan d] by (simp add: in_step_def)
qed

lemma cascade_in_step:
  assumes "deach f es d = Some (d', Inr ())" and "length (dv_heap d') = length (dv_heap d)" and "P d"
    and keeps: "\<And>x. dkeeps (\<lambda>d d'. length (dv_heap d) \<le> length (dv_heap d')) (f x)"
    and step: "\<And>x d d'. P d \<Longrightarrow> f x d = Some (d', Inr ()) \<Longrightarrow> length (dv_heap d') = length (dv_heap d) \<Longrightarrow> P d'"
  shows "P d'"
  using assms(1-3)
proof (induction es arbitrary: d)
  case (Cons x es)
  then obtain d1 where d1: "f x d = Some (d1, Inr ())" "deach f es d1 = Some (d', Inr ())" by (auto simp: dthen_Some)
  have "length (dv_heap d) \<le> length (dv_heap d1)" "length (dv_heap d1) \<le> length (dv_heap d')"
    using dkeepsD [OF keeps d1(1)] dkeepsD [OF heap.keeps_each [OF keeps] d1(2)] by auto
  then have "length (dv_heap d1) = length (dv_heap d)" "length (dv_heap d') = length (dv_heap d1)" using Cons.prems(2) by simp_all
  then show ?case using Cons.IH d1 step Cons.prems(3) by blast
qed simp

lemma journaled_reads: "ingestCommandAlreadyJournaled a incoming d = Some (d', Inr b) \<Longrightarrow> d' = d"
  by (auto simp: ingestCommandAlreadyJournaled_def Let_def dbind_Some split: incoming.splits command.splits)

lemma staleAppend_done:
  assumes run: "staleAppend env rerun a chan incoming retries err d = Some (d', Inr appended)"
    and keeps: "\<And>b. dkeeps (\<lambda>d d'. length (dv_heap d) \<le> length (dv_heap d')) (rerun b)"
  shows "appended = None \<and> (d' = d \<or> length (dv_heap d) < length (dv_heap d'))"
proof -
  consider (reload) "0 < retries" "isStaleStateAppendError err" | (known) "\<not> 0 < retries" "isStaleStateAppendError err"
    | (other) "\<not> isStaleStateAppendError err" by blast
  then show ?thesis
  proof cases
    case reload
    then have reload: "dthen (dropLoop chan) (dbind (driver_loop env chan) (\<lambda>fresh. dthen (rerun fresh) (dreturn None))) d = Some (d', Inr appended)"
      using run by (simp add: staleAppend_def)
    have "length (dv_heap d) < length (dv_heap d')"
      by (rule reload_grows [OF reload]) (intro heap.keeps_then keeps heap.keeps_return)
    moreover have "appended = None" using reload unfolding dthen_Some dbind_Some by auto
    ultimately show ?thesis by simp
  next
    case known
    then obtain e b where e: "ingestCommandAlreadyJournaled a incoming d = Some (e, Inr b)"
      "(if b then dreturn None else draise err) e = Some (d', Inr appended)"
      using run by (auto simp: staleAppend_def dbind_Some)
    then show ?thesis using journaled_reads [OF e(1)] by (cases b) simp_all
  qed (use run in \<open>simp add: staleAppend_def\<close>)
qed

lemma kill_done: "kill env point d = Some (d', Inr ()) \<longleftrightarrow> \<not> dx_kill env point \<and> d' = d"
  by (auto simp: kill_def)

lemma enactStep_in_step:
  assumes step: "in_step env chan a d" "cache_behind env chan d" and app: "driver_append env a items d = Some (d1, Inr es)"
    and run: "enactStep env cascade a branch effects es d1 = Some (d', Inr ())" and len: "length (dv_heap d') = length (dv_heap d)"
    and keeps: "\<And>x. dkeeps (\<lambda>d d'. length (dv_heap d) \<le> length (dv_heap d')) (cascade x)"
    and more: "\<And>x d d'. in_step env chan a d \<and> cache_behind env chan d \<Longrightarrow> cascade x d = Some (d', Inr ()) \<Longrightarrow>
      length (dv_heap d') = length (dv_heap d) \<Longrightarrow> in_step env chan a d' \<and> cache_behind env chan d'"
  shows "in_step env chan a d' \<and> cache_behind env chan d'"
proof -
  obtain d2 d3 d4 where d2: "foldInto a es d1 = Some (d2, Inr ())" and d3: "writeCache env a d2 = Some (d3, Inr ())"
    and d4: "deach (enactEffect env branch) effects d3 = Some (d4, Inr ())" and d': "deach cascade es d4 = Some (d', Inr ())"
    using run unfolding enactStep_def dthen_Some kill_done by blast
  note two = append_fold_in_step [OF step app d2]
  have "a < length (dv_heap d)" using step(1) unfolding in_step_def by blast
  then have "length (dv_heap d2) = length (dv_heap d)" using two foldInto_run [OF d2] by fastforce
  moreover have three: "in_step env chan a d3" "cache_behind env chan d3" "dv_heap d3 = dv_heap d2" using writeCache_in_step [OF _ d3] two by blast+
  moreover have "dv_heap d4 = dv_heap d3" "dv_store d4 = dv_store d3" "dv_cache d4 = dv_cache d3" using enact_run [of env branch effects d3] d4 by auto
  ultimately have four: "in_step env chan a d4 \<and> cache_behind env chan d4" and len4: "length (dv_heap d4) = length (dv_heap d)"
    using in_step_cong [of d4 d3 env chan] by simp_all
  show ?thesis
    by (rule cascade_in_step [where P = "\<lambda>d. in_step env chan a d \<and> cache_behind env chan d", OF d' _ four keeps more])
       (simp_all add: len len4)
qed

lemma runStep_in_step:
  "driver_runStep fuel env a incoming retries d = Some (d', Inr ()) \<Longrightarrow> length (dv_heap d') = length (dv_heap d) \<Longrightarrow>
     in_step env chan a d \<and> cache_behind env chan d \<Longrightarrow> in_step env chan a d' \<and> cache_behind env chan d'"
proof (induction fuel arbitrary: incoming retries d d')
  case (Suc fuel)
  define inst where "inst = dv_heap d ! a"
  obtain out where out: "composeStep (dx_classify env) (lp_policies inst) (lp_state inst) incoming (stepCtx env (lp_channelId inst)) = Inr out"
    using Suc.prems(1) by (auto simp: dbind_Some inst_def)
  let ?stale = "staleAppend env (\<lambda>fresh. driver_runStep fuel env fresh incoming (retries - 1)) a (lp_channelId inst) incoming retries"
    and ?append = "dbind (driver_append env a (so_append out)) (\<lambda>envelopes. dreturn (Some envelopes))"
  show ?case
  proof (cases "so_append out = [] \<and> so_effects out = []")
    case True
    then show ?thesis using Suc.prems out by (simp add: inst_def)
  next
    case False
    then obtain d1 appended where catch: "dcatch ?append ?stale d = Some (d1, Inr appended)"
      and rest: "(case appended of None \<Rightarrow> dreturn () | Some envelopes \<Rightarrow>
        enactStep env (\<lambda>envelope. driver_runStep fuel env a (EventAppended (loopEnvelope envelope)) retries) a (lp_logId inst) (so_effects out) envelopes) d1
        = Some (d', Inr ())"
      using Suc.prems(1) out by (auto simp: dbind_Some inst_def [symmetric])
    obtain d0 r where app: "driver_append env a (so_append out) d = Some (d0, r)"
      using catch by (auto simp: dcatch_def dbind_def split: option.splits)
    show ?thesis
    proof (cases r)
      case (Inl err)
      then have "d0 = d" using append_fails app by blast
      then have "?stale err d = Some (d1, Inr appended)" using catch app Inl by (simp add: dcatch_def dbind_def)
      from staleAppend_done [OF this heap.keeps_runStep] have "appended = None" "d1 = d \<or> length (dv_heap d) < length (dv_heap d1)" by blast+
      then show ?thesis using rest Suc.prems by auto
    next
      case (Inr es)
      then have "d0 = d1" "appended = Some es" using catch app by (auto simp: dcatch_def dbind_def)
      then show ?thesis
        using enactStep_in_step [OF _ _ app [unfolded Inr] _ Suc.prems(2) heap.keeps_runStep Suc.IH] rest Suc.prems(3) by simp
    qed
  qed
qed simp


definition sample_loaded_loop :: driver where
  "sample_loaded_loop = (case driver_loop sample_driver_env ''c1'' (no_driver\<lparr>dv_store := sample_journal\<rparr>) of None \<Rightarrow> no_driver | Some (d, _) \<Rightarrow> d)"

definition sample_configure :: incoming where
  "sample_configure = CommandIn (SetConfig (JObj [(''model'', JStr ''m2'')]))"

definition sample_configured :: driver where
  "sample_configured = (case driver_runStep 2 sample_driver_env 0 sample_configure 3 sample_loaded_loop of None \<Rightarrow> no_driver | Some (d, _) \<Rightarrow> d)"

lemma sample_loaded_in_step: "in_step sample_driver_env ''c1'' 0 sample_loaded_loop \<and> cache_behind sample_driver_env ''c1'' sample_loaded_loop"
proof -
  let ?L = "ids_logIdForChannel ''c1''" and ?d = "no_driver\<lparr>dv_store := sample_journal\<rparr>"
  have "case driver_loop sample_driver_env ''c1'' ?d of Some (_, Inr a) \<Rightarrow> a = 0 | _ \<Rightarrow> False" by code_simp
  then have run: "driver_loop sample_driver_env ''c1'' ?d = Some (sample_loaded_loop, Inr 0)"
    by (auto simp: sample_loaded_loop_def split: option.splits prod.splits sum.splits)
  have "length (log_of sample_journal ?L ?L) = 1" by code_simp
  then have inj: "inj_on ev_hash (set (log_of (dv_store ?d) ?L ?L))" by (auto simp: length_Suc_conv)
  have "(log_step (sx_sha256 (dx_storeEnv sample_driver_env)))\<^sup>*\<^sup>* empty_store (dv_store ?d)"
    using sample_journal_step by (auto simp: sample_driver_env_def)
  moreover have "cache_behind sample_driver_env ''c1'' ?d" by (simp add: cache_behind_def no_driver_def cache_read_def)
  ultimately show ?thesis by (rule load_in_step [OF _ _ inj _ run]) (simp add: no_driver_def)
qed

lemma run_some:
  assumes "case x of Some (d, Inr u) \<Rightarrow> P d | _ \<Rightarrow> False"
  shows "\<exists>d u. x = Some (d, Inr u) \<and> P d"
proof -
  obtain d r where x: "x = Some (d, r)" using assms by (cases x) (simp, metis surj_pair)
  show ?thesis using assms by (cases r) (simp_all add: x)
qed

lemma sample_configured_run:
  "driver_runStep 2 sample_driver_env 0 sample_configure 3 sample_loaded_loop = Some (sample_configured, Inr ())"
  "length (dv_heap sample_configured) = length (dv_heap sample_loaded_loop)" "length (st_events (dv_store sample_configured)) = 3"
proof -
  have one: "length (dv_heap sample_loaded_loop) = 1" by code_simp
  have run: "case driver_runStep 2 sample_driver_env 0 sample_configure 3 sample_loaded_loop of
      Some (d, Inr u) \<Rightarrow> length (dv_heap d) = 1 \<and> length (st_events (dv_store d)) = 3 | _ \<Rightarrow> False" by code_simp
  obtain d where d: "driver_runStep 2 sample_driver_env 0 sample_configure 3 sample_loaded_loop = Some (d, Inr ())"
    and "length (dv_heap d) = 1" "length (st_events (dv_store d)) = 3"
    using run_some [OF run] by auto
  moreover have "sample_configured = d" unfolding sample_configured_def d by simp
  ultimately show "driver_runStep 2 sample_driver_env 0 sample_configure 3 sample_loaded_loop = Some (sample_configured, Inr ())"
    "length (dv_heap sample_configured) = length (dv_heap sample_loaded_loop)" "length (st_events (dv_store sample_configured)) = 3"
    using one by simp_all
qed


end
