(* ===== verification/StaleReplay.thy ===== *)
theory StaleReplay
  imports DriverRuns
begin

text \<open>
  A loop that has fallen behind its log and replays a batch that the log already holds: it folds the replayed
  events and skips the ones before them that it has not seen.
\<close>

definition sample_said :: append_event where
  "sample_said = sample_append_event\<lparr>ae_envelopeId := Some ''s'', ae_actor := JObj [(''kind'', JStr ''user''), (''id'', JStr ''u'')],
     ae_payloadKind := ''message.completed'', ae_payload := JObj [(''role'', JStr ''user''), (''content'', JStr ''hi'')],
     ae_causality := JObj [(''messageId'', JStr ''m1'')], ae_publish := []\<rparr>"

definition sample_prompt :: user_command where
  "sample_prompt = \<lparr> uc_channelId = ''c1'', uc_sourceEnvelopeId = ''x1'', uc_sourceMessageId = Some ''m7'',
     uc_content = JStr ''go'', uc_senderRef = JObj [(''kind'', JStr ''user''), (''id'', JStr ''u'')], uc_agentHops = None, uc_metadata = None \<rparr>"

text \<open>A driver that dies once the fold cache is written; the run below does not need the death, it only ends there.\<close>

definition sample_saving_env :: driver_env where
  "sample_saving_env = sample_driver_env\<lparr>dx_kill := (\<lambda>point. point = ''after-fold-cache'')\<rparr>"

definition sample_append_to :: "append_event \<Rightarrow> driver \<Rightarrow> driver" where
  "sample_append_to event d =
     (case appendLogEvent sample_store_env (dv_store d) (sample_request event) of Inl _ \<Rightarrow> d | Inr (store, _) \<Rightarrow> d\<lparr>dv_store := store\<rparr>)"

definition sample_stale :: driver where
  "sample_stale = sample_append_to (appendEventOf sample_driver_env ''c1'' (recvItem sample_prompt)) (sample_append_to sample_said
     (case wake 2 sample_driver_env ''c1'' no_driver of None \<Rightarrow> no_driver | Some (d, _) \<Rightarrow> d))"

lemma append_to_reached:
  "(driver_op (sx_sha256 sample_store_env))\<^sup>*\<^sup>* no_driver d \<Longrightarrow> (driver_op (sx_sha256 sample_store_env))\<^sup>*\<^sup>* no_driver (sample_append_to event d)"
  unfolding sample_append_to_def
  by (auto split: sum.split intro: rtranclp.rtrancl_into_rtrancl op_foreign log_append)

lemma sample_stale_reached: "(driver_op (sx_sha256 sample_store_env))\<^sup>*\<^sup>* no_driver sample_stale"
  unfolding sample_stale_def
proof (intro append_to_reached)
  have sha: "sx_sha256 (dx_storeEnv sample_driver_env) = sx_sha256 sample_store_env" by (simp add: sample_driver_env_def)
  show "(driver_op (sx_sha256 sample_store_env))\<^sup>*\<^sup>* no_driver (case wake 2 sample_driver_env ''c1'' no_driver of None \<Rightarrow> no_driver | Some (d, _) \<Rightarrow> d)"
    using op_wake [OF sha] by (auto split: option.split)
qed

text \<open>Loading through the cache and loading from the log: the same position, but a message is missing.\<close>

definition gapped :: "store \<Rightarrow> fold_cache \<Rightarrow> bool" where
  "gapped store cache \<longleftrightarrow>
     (case loadState 0 store cache (loopInput sample_driver_env ''c1'') of
        Inl _ \<Rightarrow> False
      | Inr (_, hit) \<Rightarrow>
          (case loadState 0 store [] (loopInput sample_driver_env ''c1'') of
             Inl _ \<Rightarrow> False
           | Inr (_, cold) \<Rightarrow> lastSeq hit = lastSeq cold \<and> lastHash hit = lastHash cold \<and> length (entries hit) = 1 \<and> length (entries cold) = 2))"

lemma gappedD:
  assumes "gapped store cache"
  shows "\<exists>c hit c' cold. loadState 0 store cache (loopInput sample_driver_env ''c1'') = Inr (c, hit) \<and>
     loadState 0 store [] (loopInput sample_driver_env ''c1'') = Inr (c', cold) \<and>
     lastSeq hit = lastSeq cold \<and> lastHash hit = lastHash cold \<and> length (entries hit) = 1 \<and> length (entries cold) = 2"
  using assms unfolding gapped_def
  by (cases "loadState 0 store cache (loopInput sample_driver_env ''c1'')"; cases "loadState 0 store [] (loopInput sample_driver_env ''c1'')")
     (auto simp: split_def)

lemma sample_replay:
  obtains d r where "handleIncoming 2 sample_saving_env ''c1'' (CommandIn (Prompt sample_prompt)) sample_stale = Some (d, r)"
    "gapped (dv_store d) (dv_cache d)"
proof -
  have run: "case handleIncoming 2 sample_saving_env ''c1'' (CommandIn (Prompt sample_prompt)) sample_stale of
      None \<Rightarrow> False | Some (d, _) \<Rightarrow> gapped (dv_store d) (dv_cache d)" by code_simp
  show thesis
    by (cases "handleIncoming 2 sample_saving_env ''c1'' (CommandIn (Prompt sample_prompt)) sample_stale")
       (use run in \<open>auto intro: that\<close>)
qed

text \<open>C39: A replay can leave a gap in the fold, and the cache keeps it. There is a run of the driver (a loop is
  loaded; another writer appends a user message and then the event of a prompt; the loop handles that prompt) after
  which loading the channel's state through the fold cache and loading it from the log give different histories at
  the same position of the log: the cached one lacks the user message.\<close>

theorem stale_replay_leaves_gap:
  "\<exists>d cache hit cache' cold. (driver_op (sx_sha256 sample_store_env))\<^sup>*\<^sup>* no_driver d \<and>
     loadState 0 (dv_store d) (dv_cache d) (loopInput sample_driver_env ''c1'') = Inr (cache, hit) \<and>
     loadState 0 (dv_store d) [] (loopInput sample_driver_env ''c1'') = Inr (cache', cold) \<and>
     lastSeq hit = lastSeq cold \<and> lastHash hit = lastHash cold \<and> length (entries hit) = 1 \<and> length (entries cold) = 2"
proof -
  obtain d r where run: "handleIncoming 2 sample_saving_env ''c1'' (CommandIn (Prompt sample_prompt)) sample_stale = Some (d, r)"
    and gap: "gapped (dv_store d) (dv_cache d)" by (rule sample_replay)
  have "sx_sha256 (dx_storeEnv sample_saving_env) = sx_sha256 sample_store_env" by (simp add: sample_saving_env_def sample_driver_env_def)
  from op_incoming [OF this run] sample_stale_reached have "(driver_op (sx_sha256 sample_store_env))\<^sup>*\<^sup>* no_driver d"
    by (rule rtranclp.rtrancl_into_rtrancl [rotated])
  with gappedD [OF gap] show ?thesis by blast
qed

end
