(* ===== verification/Diff3.thy ===== *)
theory Diff3
  imports Json "HOL-Library.Sublist"
begin

text \<open>
  The three-way line merge of the workspace version control (\<open>src/server/gadVcs/diff3.ts\<close>): the table of common
  subsequence lengths, the diff as a list of chunks, the walk that combines the chunks of two sides, conflict
  regions, and the replace-hunks that describe a whole-file write.

  Positions are natural numbers. A table entry is at most the number of lines, far below the limit of the
  \<open>Uint32Array\<close> rows. The cursors into the chunk arrays are the suffixes that remain. The outer loop of
  \<open>diff3Merge\<close> has fuel: on arbitrary chunks it can run forever (two active chunks that do not overlap match no
  branch), so that it ends on the chunks of \<open>diffChunks\<close> is a theorem.
\<close>

subsection \<open>Lines\<close>

fun split_newline :: "string \<Rightarrow> string list" where
  "split_newline [] = [[]]"
| "split_newline (c # cs) =
     (if c = CHR 0x0A then [] # split_newline cs
      else (case split_newline cs of [] \<Rightarrow> [[c]] | line # lines \<Rightarrow> (c # line) # lines))"

definition splitLines :: "string \<Rightarrow> string list" where
  "splitLines text =
     (if text = [] then []
      else let lines = split_newline text in if last lines = [] then butlast lines else lines)"

definition ends_newline :: "string \<Rightarrow> bool" where
  "ends_newline text \<longleftrightarrow> text \<noteq> [] \<and> last text = CHR 0x0A"

definition joinLines :: "string list \<Rightarrow> string \<Rightarrow> string \<Rightarrow> string \<Rightarrow> string" where
  "joinLines lines baseText oursText theirsText =
     (let text = join_with [CHR 0x0A] lines;
          trailing = ends_newline baseText \<or> ends_newline oursText \<or> ends_newline theirsText in
      if text \<noteq> [] \<and> trailing then text @ [CHR 0x0A] else text)"

text \<open>\<open>base.slice(a, b)\<close>.\<close>

definition slice :: "nat \<Rightarrow> nat \<Rightarrow> 'a list \<Rightarrow> 'a list" where
  "slice a b xs = drop a (take b xs)"

subsection \<open>The diff\<close>

record chunk =
  baseStart :: nat
  baseEnd :: nat
  ch_lines :: "string list"

text \<open>One row of the table from the row below it, right to left; the last column is zero.\<close>

fun lcs_row :: "string \<Rightarrow> string list \<Rightarrow> nat list \<Rightarrow> nat list" where
  "lcs_row line (s # side) (x # below) =
     (let rest = lcs_row line side below in
      (if line = s then hd below + 1 else max x (hd rest)) # rest)"
| "lcs_row line _ _ = [0]"

fun lcs_table :: "string list \<Rightarrow> string list \<Rightarrow> nat list list" where
  "lcs_table [] side = [replicate (length side + 1) 0]"
| "lcs_table (line # base) side = (let rows = lcs_table base side in lcs_row line side (hd rows) # rows)"

definition flush :: "chunk option \<Rightarrow> chunk list \<Rightarrow> chunk list" where
  "flush pending chunks = (case pending of None \<Rightarrow> chunks | Some chunk \<Rightarrow> chunks @ [chunk])"

definition open_chunk :: "chunk option \<Rightarrow> nat \<Rightarrow> chunk" where
  "open_chunk pending i = (case pending of None \<Rightarrow> \<lparr> baseStart = i, baseEnd = i, ch_lines = [] \<rparr> | Some chunk \<Rightarrow> chunk)"

text \<open>The walk over both texts; \<open>i === n\<close> is \<open>n \<le> i\<close>, as \<open>i\<close> never passes \<open>n\<close>.\<close>

function diffWalk ::
  "nat list list \<Rightarrow> string list \<Rightarrow> string list \<Rightarrow> nat \<Rightarrow> nat \<Rightarrow> chunk option \<Rightarrow> chunk list \<Rightarrow> chunk list" where
  "diffWalk lcs base side i j pending chunks =
     (if i < length base \<or> j < length side then
        if i < length base \<and> j < length side \<and> base ! i = side ! j then
          diffWalk lcs base side (i + 1) (j + 1) None (flush pending chunks)
        else if j < length side \<and> (length base \<le> i \<or> lcs ! i ! (j + 1) \<ge> lcs ! (i + 1) ! j) then
          let chunk = open_chunk pending i in
          diffWalk lcs base side i (j + 1) (Some (chunk\<lparr>ch_lines := ch_lines chunk @ [side ! j]\<rparr>)) chunks
        else
          let chunk = open_chunk pending i in
          diffWalk lcs base side (i + 1) j (Some (chunk\<lparr>baseEnd := i + 1\<rparr>)) chunks
      else flush pending chunks)"
  by pat_completeness auto
termination diffWalk
  by (relation "measure (\<lambda>(lcs, base, side, i, j, pending, chunks). (length base - i) + (length side - j))") auto

declare diffWalk.simps [simp del]

definition diffChunks :: "string list \<Rightarrow> string list \<Rightarrow> chunk list" where
  "diffChunks base side = diffWalk (lcs_table base side) base side 0 0 None []"

subsection \<open>The merge\<close>

text \<open>A side of a conflict region: its lines so far, the end of the base they stand for, the chunks that remain.\<close>

record side_view =
  sv_lines :: "string list"
  sv_covEnd :: nat
  sv_rest :: "chunk list"

fun absorb :: "string list \<Rightarrow> nat \<Rightarrow> string list \<Rightarrow> nat \<Rightarrow> chunk list \<Rightarrow> nat \<times> side_view" where
  "absorb base regionEnd lines covEnd [] = (regionEnd, \<lparr> sv_lines = lines, sv_covEnd = covEnd, sv_rest = [] \<rparr>)"
| "absorb base regionEnd lines covEnd (chunk # chunks) =
     (if baseStart chunk < regionEnd then
        absorb base (max regionEnd (baseEnd chunk)) (lines @ slice covEnd (baseStart chunk) base @ ch_lines chunk)
          (max covEnd (baseEnd chunk)) chunks
      else (regionEnd, \<lparr> sv_lines = lines, sv_covEnd = covEnd, sv_rest = chunk # chunks \<rparr>))"

definition absorbSide :: "string list \<Rightarrow> nat \<Rightarrow> side_view \<Rightarrow> nat \<times> side_view" where
  "absorbSide base regionEnd side = absorb base regionEnd (sv_lines side) (sv_covEnd side) (sv_rest side)"

lemma absorb_length: "length (sv_rest (snd (absorb base regionEnd lines covEnd chunks))) \<le> length chunks"
  by (induction base regionEnd lines covEnd chunks rule: absorb.induct) auto

lemma absorbSide_length: "(regionEnd', side') = absorbSide base regionEnd side \<Longrightarrow> length (sv_rest side') \<le> length (sv_rest side)"
  using absorb_length [of base regionEnd "sv_lines side" "sv_covEnd side" "sv_rest side"] by (simp add: absorbSide_def prod_eq_iff)

text \<open>\<open>while (grew)\<close>: until neither side has a further chunk that starts inside the region.\<close>

function growRegion :: "string list \<Rightarrow> nat \<Rightarrow> side_view \<Rightarrow> side_view \<Rightarrow> nat \<times> side_view \<times> side_view" where
  "growRegion base regionEnd ours theirs =
     (case absorbSide base regionEnd ours of (oursEnd, ours') \<Rightarrow>
      case absorbSide base oursEnd theirs of (theirsEnd, theirs') \<Rightarrow>
        if length (sv_rest ours') < length (sv_rest ours) \<or> length (sv_rest theirs') < length (sv_rest theirs)
        then growRegion base theirsEnd ours' theirs'
        else (theirsEnd, ours', theirs'))"
  by pat_completeness auto
termination growRegion
  by (relation "measure (\<lambda>(base, regionEnd, ours, theirs). length (sv_rest ours) + length (sv_rest theirs))")
     (auto dest!: absorbSide_length)

declare growRegion.simps [simp del]

definition regionView :: "string list \<Rightarrow> nat \<Rightarrow> nat \<Rightarrow> nat \<Rightarrow> string list \<Rightarrow> nat \<Rightarrow> string list" where
  "regionView base chunkStart chunkEnd regionEnd changedLines regionStart =
     slice regionStart chunkStart base @ changedLines @ slice chunkEnd regionEnd base"

record diff3_options =
  oursLabel :: "string option"
  theirsLabel :: "string option"

record diff3_result =
  d3_ok :: bool
  d3_text :: string
  d3_conflicts :: nat

record merge_state =
  ms_out :: "string list"
  ms_conflicts :: nat
  ms_cursor :: nat
  ms_ours :: "chunk list"
  ms_theirs :: "chunk list"

definition conflictLines :: "diff3_options \<Rightarrow> string list \<Rightarrow> string list \<Rightarrow> string list" where
  "conflictLines opts oursView theirsView =
     [''<<<<<<< '' @ (case oursLabel opts of Some l \<Rightarrow> l | None \<Rightarrow> ''ours'')] @ oursView @ [''=======''] @ theirsView
     @ [''>>>>>>> '' @ (case theirsLabel opts of Some l \<Rightarrow> l | None \<Rightarrow> ''theirs'')]"

text \<open>The branch of two overlapping chunks.\<close>

definition mergeRegion :: "string list \<Rightarrow> diff3_options \<Rightarrow> merge_state \<Rightarrow> chunk \<Rightarrow> chunk \<Rightarrow> merge_state" where
  "mergeRegion base opts st oc tc =
     (let ours = \<lparr> sv_lines = ch_lines oc, sv_covEnd = baseEnd oc, sv_rest = tl (ms_ours st) \<rparr>;
          theirs = \<lparr> sv_lines = ch_lines tc, sv_covEnd = baseEnd tc, sv_rest = tl (ms_theirs st) \<rparr> in
      case growRegion base (max (max (baseEnd oc) (baseEnd tc)) (ms_cursor st)) ours theirs of (regionEnd, ours', theirs') \<Rightarrow>
        let oursView = regionView base (baseStart oc) (sv_covEnd ours') regionEnd (sv_lines ours') (ms_cursor st);
            theirsView = regionView base (baseStart tc) (sv_covEnd theirs') regionEnd (sv_lines theirs') (ms_cursor st);
            same = oursView = theirsView
        in \<lparr> ms_out = ms_out st @ (if same then oursView else conflictLines opts oursView theirsView),
             ms_conflicts = ms_conflicts st + (if same then 0 else 1), ms_cursor = regionEnd,
             ms_ours = sv_rest ours', ms_theirs = sv_rest theirs' \<rparr>)"

definition takeChunk :: "merge_state \<Rightarrow> chunk \<Rightarrow> merge_state" where
  "takeChunk st chunk = st\<lparr>ms_out := ms_out st @ ch_lines chunk, ms_cursor := max (ms_cursor st) (baseEnd chunk)\<rparr>"

definition first_chunk :: "chunk list \<Rightarrow> chunk option" where
  "first_chunk chunks = (case chunks of [] \<Rightarrow> None | chunk # _ \<Rightarrow> Some chunk)"

definition active :: "nat \<Rightarrow> chunk option \<Rightarrow> bool" where
  "active cursor chunk \<longleftrightarrow> (case chunk of None \<Rightarrow> False | Some c \<Rightarrow> baseStart c \<le> cursor)"

definition spansOverlap :: "nat \<Rightarrow> chunk option \<Rightarrow> chunk option \<Rightarrow> bool" where
  "spansOverlap cursor oc tc \<longleftrightarrow>
     (case (oc, tc) of
        (Some o', Some t') \<Rightarrow>
          (active cursor oc \<or> active cursor tc) \<and>
          (baseStart o' = baseStart t' \<or> baseStart o' < baseEnd t' \<and> baseStart t' < baseEnd o')
      | _ \<Rightarrow> False)"

text \<open>The next start of a chunk; the loop runs only while there is one.\<close>

definition nextStart :: "chunk option \<Rightarrow> chunk option \<Rightarrow> nat" where
  "nextStart oc tc =
     (case (oc, tc) of
        (Some o', Some t') \<Rightarrow> min (baseStart o') (baseStart t')
      | (Some o', None) \<Rightarrow> baseStart o'
      | (None, Some t') \<Rightarrow> baseStart t'
      | (None, None) \<Rightarrow> 0)"

definition mergeStep :: "string list \<Rightarrow> diff3_options \<Rightarrow> merge_state \<Rightarrow> merge_state" where
  "mergeStep base opts st0 =
     (let oc = first_chunk (ms_ours st0); tc = first_chunk (ms_theirs st0); next = nextStart oc tc;
          st = st0\<lparr>ms_out := ms_out st0 @ slice (ms_cursor st0) next base, ms_cursor := max (ms_cursor st0) next\<rparr>;
          oActive = active (ms_cursor st) oc; tActive = active (ms_cursor st) tc
      in if spansOverlap (ms_cursor st) oc tc then mergeRegion base opts st (the oc) (the tc)
         else if oActive \<and> \<not> tActive then (takeChunk st (the oc))\<lparr>ms_ours := tl (ms_ours st)\<rparr>
         else if tActive \<and> \<not> oActive then (takeChunk st (the tc))\<lparr>ms_theirs := tl (ms_theirs st)\<rparr>
         else st)"

primrec mergeLoop :: "nat \<Rightarrow> string list \<Rightarrow> diff3_options \<Rightarrow> merge_state \<Rightarrow> merge_state option" where
  "mergeLoop 0 base opts st = None"
| "mergeLoop (Suc fuel) base opts st =
     (if ms_ours st \<noteq> [] \<or> ms_theirs st \<noteq> [] then mergeLoop fuel base opts (mergeStep base opts st) else Some st)"

definition start_state :: "chunk list \<Rightarrow> chunk list \<Rightarrow> merge_state" where
  "start_state oursChunks theirsChunks =
     \<lparr> ms_out = [], ms_conflicts = 0, ms_cursor = 0, ms_ours = oursChunks, ms_theirs = theirsChunks \<rparr>"

text \<open>\<open>diff3Merge\<close>; \<open>None\<close> is a loop that does not end within one round per chunk.\<close>

definition diff3Merge :: "string \<Rightarrow> string \<Rightarrow> string \<Rightarrow> diff3_options \<Rightarrow> diff3_result option" where
  "diff3Merge baseText oursText theirsText opts =
     (if oursText = theirsText then Some \<lparr> d3_ok = True, d3_text = oursText, d3_conflicts = 0 \<rparr>
      else if oursText = baseText then Some \<lparr> d3_ok = True, d3_text = theirsText, d3_conflicts = 0 \<rparr>
      else if theirsText = baseText then Some \<lparr> d3_ok = True, d3_text = oursText, d3_conflicts = 0 \<rparr>
      else
        let base = splitLines baseText;
            oursChunks = diffChunks base (splitLines oursText); theirsChunks = diffChunks base (splitLines theirsText)
        in map_option (\<lambda>st. \<lparr> d3_ok = ms_conflicts st = 0,
               d3_text = joinLines (ms_out st @ drop (ms_cursor st) base) baseText oursText theirsText,
               d3_conflicts = ms_conflicts st \<rparr>)
             (mergeLoop (length oursChunks + length theirsChunks + 1) base opts (start_state oursChunks theirsChunks)))"

subsection \<open>Replace-hunks of a whole-file write\<close>

record replace_hunk =
  rh_start :: nat
  rh_end :: nat
  rh_oldText :: string
  rh_newText :: string

fun line_starts :: "nat \<Rightarrow> string list \<Rightarrow> nat list" where
  "line_starts off [] = []"
| "line_starts off (line # lines) = off # line_starts (off + length line + 1) lines"

definition lineOffset :: "string \<Rightarrow> nat list" where
  "lineOffset text = line_starts 0 (split_newline text) @ [length text]"

definition offset_at :: "string \<Rightarrow> nat \<Rightarrow> nat" where
  "offset_at text k = min (if k < length (lineOffset text) then lineOffset text ! k else length text) (length text)"

definition replaceHunk :: "string \<Rightarrow> chunk \<Rightarrow> replace_hunk" where
  "replaceHunk oldText c =
     (let start = offset_at oldText (baseStart c);
          end' = if baseStart c < baseEnd c then offset_at oldText (baseEnd c) else start;
          replacement = (if ch_lines c \<noteq> [] then join_with [CHR 0x0A] (ch_lines c) else [])
      in \<lparr> rh_start = start, rh_end = end', rh_oldText = slice start end' oldText,
           rh_newText = (if ch_lines c \<noteq> [] \<and> end' < length oldText then replacement @ [CHR 0x0A] else replacement) \<rparr>)"

definition computeReplaceHunks :: "string \<Rightarrow> string \<Rightarrow> replace_hunk list" where
  "computeReplaceHunks oldText newText =
     (if oldText = newText then [] else map (replaceHunk oldText) (diffChunks (split_newline oldText) (split_newline newText)))"

end
