(* ===== verification/DiffProofs.thy ===== *)
theory DiffProofs
  imports Diff3
begin

text \<open>
  What the diff computes: chunks are a patch from the base to the side, the table holds the lengths of longest
  common subsequences and the diff keeps that many lines.
\<close>

subsection \<open>Slices\<close>

lemma slice_empty [simp]: "b \<le> a \<Longrightarrow> slice a b xs = []"
  by (simp add: slice_def)

lemma slice_drop: "a \<le> b \<Longrightarrow> slice a b xs @ drop b xs = drop a xs"
  by (metis append_take_drop_id drop_take le_add_diff_inverse slice_def drop_drop add.commute)

lemma slice_slice: "a \<le> b \<Longrightarrow> b \<le> c \<Longrightarrow> slice a b xs @ slice b c xs = slice a c xs"
  using slice_drop [of a b "take c xs"] by (simp add: slice_def min_absorb1)

lemma take_slice: "a \<le> b \<Longrightarrow> take a xs @ slice a b xs = take b xs"
  using slice_slice [of 0 a b xs] by (simp add: slice_def)

lemma slice_Suc: "i < length xs \<Longrightarrow> slice i (Suc i) xs = [xs ! i]"
  by (simp add: slice_def take_Suc_conv_app_nth)

subsection \<open>Chunks as a patch\<close>

text \<open>The base from a position on, with the chunks put in.\<close>

fun patch :: "string list \<Rightarrow> nat \<Rightarrow> chunk list \<Rightarrow> string list" where
  "patch base pos [] = drop pos base"
| "patch base pos (c # cs) = slice pos (baseStart c) base @ ch_lines c @ patch base (baseEnd c) cs"

text \<open>Chunks in order, inside the base, with an untouched line between any two.\<close>

fun chunks_ok :: "nat \<Rightarrow> nat \<Rightarrow> chunk list \<Rightarrow> bool" where
  "chunks_ok n lo [] \<longleftrightarrow> True"
| "chunks_ok n lo (c # cs) \<longleftrightarrow> lo \<le> baseStart c \<and> baseStart c \<le> baseEnd c \<and> baseEnd c \<le> n \<and> chunks_ok n (Suc (baseEnd c)) cs"

lemma chunks_ok_mono: "chunks_ok n lo cs \<Longrightarrow> lo' \<le> lo \<Longrightarrow> chunks_ok n lo' cs"
  by (cases cs) auto

text \<open>What the rest of the walk produces, from a pending chunk or from none.\<close>

definition walks :: "string list \<Rightarrow> string list \<Rightarrow> nat \<Rightarrow> nat \<Rightarrow> chunk option \<Rightarrow> chunk list \<Rightarrow> bool" where
  "walks base side i j pending cs \<longleftrightarrow>
     (case pending of
        None \<Rightarrow> chunks_ok (length base) i cs \<and> patch base i cs = drop j side
      | Some p \<Rightarrow> \<exists>c rest more. cs = c # rest \<and> baseStart c = baseStart p \<and> ch_lines c = ch_lines p @ more \<and>
          i \<le> baseEnd c \<and> baseEnd c \<le> length base \<and> chunks_ok (length base) (Suc (baseEnd c)) rest \<and>
          more @ patch base (baseEnd c) rest = drop j side)"

lemma walks_opened:
  assumes "walks base side i' j' (Some ((open_chunk pending i)\<lparr>baseEnd := i'\<rparr>\<lparr>ch_lines := ch_lines (open_chunk pending i) @ extra\<rparr>)) cs"
    and "drop j side = extra @ drop j' side" and "i \<le> i'" and "\<And>p. pending = Some p \<Longrightarrow> baseEnd p = i \<and> baseStart p \<le> i"
  shows "walks base side i j pending cs"
  using assms by (cases pending) (auto simp: walks_def open_chunk_def)

lemma diffWalk_walks:
  assumes "i \<le> length base" "j \<le> length side" and "\<And>p. pending = Some p \<Longrightarrow> baseEnd p = i \<and> baseStart p \<le> i"
  shows "\<exists>cs. diffWalk lcs base side i j pending chunks = chunks @ cs \<and> walks base side i j pending cs"
  using assms
proof (induction lcs base side i j pending chunks rule: diffWalk.induct)
  case (1 lcs base side i j pending chunks)
  consider (stop) "\<not> (i < length base \<or> j < length side)"
    | (same) "i < length base" "j < length side" "base ! i = side ! j"
    | (ins) "\<not> (i < length base \<and> j < length side \<and> base ! i = side ! j)" "j < length side" "length base \<le> i \<or> lcs ! i ! (j + 1) \<ge> lcs ! (i + 1) ! j"
    | (del) "\<not> (i < length base \<and> j < length side \<and> base ! i = side ! j)" "i < length base" "\<not> (j < length side \<and> (length base \<le> i \<or> lcs ! i ! (j + 1) \<ge> lcs ! (i + 1) ! j))"
    using "1.prems" by linarith
  then show ?case
  proof cases
    case stop
    then have "diffWalk lcs base side i j pending chunks = flush pending chunks"
      by (simp add: diffWalk.simps)
    then show ?thesis using "1.prems" stop by (cases pending) (auto simp: walks_def flush_def)
  next
    case same
    obtain cs where cs: "diffWalk lcs base side (i + 1) (j + 1) None (flush pending chunks) = flush pending chunks @ cs"
      "chunks_ok (length base) (Suc i) cs" "patch base (Suc i) cs = drop (Suc j) side"
      using "1.IH"(1) same by (fastforce simp: walks_def)
    have line: "drop j side = side ! j # drop (Suc j) side" by (simp add: Cons_nth_drop_Suc same)
    have patched: "patch base i cs = drop j side" if "i < length base"
    proof (cases cs)
      case Nil
      then show ?thesis using cs(3) line same by (simp add: Cons_nth_drop_Suc [symmetric])
    next
      case (Cons c rest)
      then have "slice i (baseStart c) base = base ! i # slice (Suc i) (baseStart c) base"
        using cs(2) slice_slice [of i "Suc i" "baseStart c" base] slice_Suc [OF same(1)] by simp
      then show ?thesis using cs(3) Cons line same(3) by simp
    qed
    show ?thesis
    proof (cases pending)
      case None
      then show ?thesis using cs same patched chunks_ok_mono [OF cs(2)]
        by (auto simp: diffWalk.simps [of lcs base side i j] walks_def flush_def)
    next
      case (Some p)
      then have "baseEnd p = i" "baseStart p \<le> i" using "1.prems" by auto
      then show ?thesis using cs same patched Some
        by (auto simp: diffWalk.simps [of lcs base side i j] walks_def flush_def intro!: exI [of _ "p # cs"])
    qed
  next
    case ins
    define p where "p = (open_chunk pending i)\<lparr>ch_lines := ch_lines (open_chunk pending i) @ [side ! j]\<rparr>"
    have p: "baseEnd p = i" "baseStart p \<le> i" using "1.prems"(3) by (auto simp: p_def open_chunk_def split: option.splits)
    have step: "diffWalk lcs base side i j pending chunks = diffWalk lcs base side i (j + 1) (Some p) chunks"
      using ins by (subst diffWalk.simps) (auto simp: p_def Let_def)
    obtain cs where "diffWalk lcs base side i (j + 1) (Some p) chunks = chunks @ cs" "walks base side i (j + 1) (Some p) cs"
      using "1.IH"(2) ins "1.prems" p unfolding p_def by (metis Suc_eq_plus1 Suc_leI option.inject)
    moreover have "p = (open_chunk pending i)\<lparr>baseEnd := i\<rparr>\<lparr>ch_lines := ch_lines (open_chunk pending i) @ [side ! j]\<rparr>"
      using p(1) by (simp add: p_def)
    ultimately show ?thesis
      using walks_opened [of base side i "j + 1" pending i "[side ! j]" _ j] "1.prems"(3) ins(2) step
      by (auto simp: Cons_nth_drop_Suc)
  next
    case del
    define p where "p = (open_chunk pending i)\<lparr>baseEnd := i + 1\<rparr>"
    have p: "baseEnd p = i + 1" "baseStart p \<le> i + 1" using "1.prems"(3) by (auto simp: p_def open_chunk_def split: option.splits)
    have step: "diffWalk lcs base side i j pending chunks = diffWalk lcs base side (i + 1) j (Some p) chunks"
      using del by (subst diffWalk.simps) (auto simp: p_def Let_def)
    obtain cs where "diffWalk lcs base side (i + 1) j (Some p) chunks = chunks @ cs" "walks base side (i + 1) j (Some p) cs"
      using "1.IH"(3) del "1.prems" p unfolding p_def by (metis Suc_eq_plus1 Suc_leI option.inject)
    moreover have "p = (open_chunk pending i)\<lparr>baseEnd := i + 1\<rparr>\<lparr>ch_lines := ch_lines (open_chunk pending i) @ []\<rparr>"
      by (simp add: p_def)
    ultimately show ?thesis
      using walks_opened [of base side "i + 1" j pending i "[]" _ j] "1.prems"(3) step by auto
  qed
qed

lemma diffChunks_patch: "chunks_ok (length base) 0 (diffChunks base side) \<and> patch base 0 (diffChunks base side) = side"
  using diffWalk_walks [of 0 base 0 side None "lcs_table base side" "[]"] by (auto simp: diffChunks_def walks_def)

subsection \<open>The diff keeps a longest common subsequence\<close>

fun lcs_len :: "string list \<Rightarrow> string list \<Rightarrow> nat" where
  "lcs_len (x # xs) (y # ys) = (if x = y then lcs_len xs ys + 1 else max (lcs_len xs (y # ys)) (lcs_len (x # xs) ys))"
| "lcs_len _ _ = 0"

lemma lcs_len_reached: "\<exists>zs. subseq zs xs \<and> subseq zs ys \<and> length zs = lcs_len xs ys"
proof (induction xs ys rule: lcs_len.induct)
  case (1 x xs y ys)
  show ?case
  proof (cases "x = y")
    case True
    then obtain zs where "subseq zs xs" "subseq zs ys" "length zs = lcs_len xs ys" using 1 by blast
    then show ?thesis using True by (intro exI [of _ "x # zs"]) simp
  next
    case False
    then show ?thesis using "1.IH"(2,3) by (cases "lcs_len xs (y # ys) \<le> lcs_len (x # xs) ys") (auto simp: max_def)
  qed
qed auto

lemma lcs_len_bound: "subseq zs xs \<Longrightarrow> subseq zs ys \<Longrightarrow> length zs \<le> lcs_len xs ys"
proof (induction xs ys arbitrary: zs rule: lcs_len.induct)
  case (1 x xs y ys)
  show ?case
  proof (cases zs)
    case (Cons z zs')
    show ?thesis
    proof (cases "x = y")
      case True
      then have "subseq zs' xs" "subseq zs' ys" using "1.prems" Cons by (auto elim: subseq_Cons' split: if_splits)
      then show ?thesis using "1.IH"(1) True Cons by simp
    next
      case False
      then have "subseq zs xs \<or> subseq zs ys" using "1.prems" Cons by (auto split: if_splits)
      then show ?thesis using "1.IH"(2,3) False "1.prems" by (auto simp: le_max_iff_disj)
    qed
  qed simp
qed auto

lemma lcs_row_lens:
  "lcs_row line side (map (\<lambda>j. lcs_len base (drop j side)) [0..<Suc (length side)]) = map (\<lambda>j. lcs_len (line # base) (drop j side)) [0..<Suc (length side)]"
proof (induction side)
  case (Cons s side)
  have shift: "map (\<lambda>j. f (drop j (s # side))) [0..<Suc (length (s # side))] = f (s # side) # map (\<lambda>j. f (drop j side)) [0..<Suc (length side)]"
    for f :: "string list \<Rightarrow> nat" by (simp add: upt_conv_Cons map_Suc_upt [symmetric] del: upt_Suc)
  have hd: "hd (map (\<lambda>j. f (drop j side)) [0..<Suc (length side)]) = f side" for f :: "string list \<Rightarrow> nat"
    by (simp add: upt_conv_Cons del: upt_Suc)
  show ?case unfolding shift [where f = "lcs_len base"] shift [where f = "lcs_len (line # base)"] by (simp add: Cons hd Let_def del: upt_Suc)
qed simp

lemma lcs_table_rows:
  "lcs_table base side = map (\<lambda>i. map (\<lambda>j. lcs_len (drop i base) (drop j side)) [0..<Suc (length side)]) [0..<Suc (length base)]"
proof (induction base)
  case Nil
  show ?case by (simp add: map_replicate_const del: upt_Suc)
next
  case (Cons line base)
  have "hd (lcs_table base side) = map (\<lambda>j. lcs_len base (drop j side)) [0..<Suc (length side)]"
    unfolding Cons by (simp add: upt_conv_Cons del: upt_Suc)
  moreover have "map f [0..<Suc (length (line # base))] = f 0 # map (\<lambda>i. f (Suc i)) [0..<Suc (length base)]" for f :: "nat \<Rightarrow> nat list"
    by (simp add: upt_conv_Cons map_Suc_upt [symmetric] del: upt_Suc)
  ultimately show ?case by (simp add: Cons lcs_row_lens Let_def del: upt_Suc)
qed

lemma lcs_table_nth: "i \<le> length base \<Longrightarrow> j \<le> length side \<Longrightarrow> lcs_table base side ! i ! j = lcs_len (drop i base) (drop j side)"
  by (simp add: lcs_table_rows del: upt_Suc)

definition deleted :: "chunk list \<Rightarrow> nat" where
  "deleted cs = sum_list (map (\<lambda>c. baseEnd c - baseStart c) cs)"

lemma deleted_simps [simp]: "deleted [] = 0" "deleted (c # cs) = baseEnd c - baseStart c + deleted cs" "deleted (cs @ ds) = deleted cs + deleted ds"
  by (simp_all add: deleted_def)

lemma lcs_len_Nil [simp]: "lcs_len xs [] = 0"
  by (cases xs) auto

lemma lcs_len_drops:
  assumes "i < length base" "j < length side"
  shows "lcs_len (drop i base) (drop j side) =
    (if base ! i = side ! j then lcs_len (drop (Suc i) base) (drop (Suc j) side) + 1
     else max (lcs_len (drop (Suc i) base) (drop j side)) (lcs_len (drop i base) (drop (Suc j) side)))"
  using Cons_nth_drop_Suc [OF assms(1), symmetric] Cons_nth_drop_Suc [OF assms(2), symmetric] by simp

text \<open>The lines of the base still to come are kept, up to the length of a longest common subsequence, or deleted.\<close>

lemma diffWalk_minimal:
  assumes "i \<le> length base" "j \<le> length side" and "\<And>p. pending = Some p \<Longrightarrow> baseEnd p = i \<and> baseStart p \<le> i"
  shows "length base + deleted chunks + (case pending of None \<Rightarrow> 0 | Some p \<Rightarrow> i - baseStart p) =
     i + lcs_len (drop i base) (drop j side) + deleted (diffWalk (lcs_table base side) base side i j pending chunks)"
  using assms
proof (induction "lcs_table base side" base side i j pending chunks rule: diffWalk.induct)
  case (1 base side i j pending chunks)
  let ?lcs = "lcs_table base side" and ?p = "open_chunk pending i"
  have p: "baseEnd ?p = i" "baseStart ?p \<le> i" "(case pending of None \<Rightarrow> 0 | Some p \<Rightarrow> i - baseStart p) = i - baseStart ?p"
    using "1.prems"(3) by (auto simp: open_chunk_def split: option.splits)
  have flushed: "deleted (flush pending chunks) = deleted chunks + (i - baseStart ?p)"
    using "1.prems"(3) by (auto simp: flush_def open_chunk_def split: option.splits)
  consider (stop) "\<not> (i < length base \<or> j < length side)"
    | (same) "i < length base" "j < length side" "base ! i = side ! j"
    | (ins) "\<not> (i < length base \<and> j < length side \<and> base ! i = side ! j)" "j < length side" "length base \<le> i \<or> ?lcs ! i ! (j + 1) \<ge> ?lcs ! (i + 1) ! j"
    | (del) "\<not> (i < length base \<and> j < length side \<and> base ! i = side ! j)" "i < length base" "\<not> (j < length side \<and> (length base \<le> i \<or> ?lcs ! i ! (j + 1) \<ge> ?lcs ! (i + 1) ! j))"
    using "1.prems" by linarith
  then show ?case
  proof cases
    case stop
    then show ?thesis using "1.prems" flushed p by (subst diffWalk.simps) simp
  next
    case same
    then have "diffWalk ?lcs base side i j pending chunks = diffWalk ?lcs base side (i + 1) (j + 1) None (flush pending chunks)"
      by (subst diffWalk.simps) simp
    then show ?thesis using "1.hyps"(1) same lcs_len_drops [OF same(1,2)] flushed p by simp
  next
    case ins
    then have "diffWalk ?lcs base side i j pending chunks = diffWalk ?lcs base side i (j + 1) (Some (?p\<lparr>ch_lines := ch_lines ?p @ [side ! j]\<rparr>)) chunks"
      by (subst diffWalk.simps) (auto simp: Let_def)
    moreover have "lcs_len (drop i base) (drop (Suc j) side) = lcs_len (drop i base) (drop j side)"
    proof (cases "i < length base")
      case True
      then show ?thesis using ins lcs_len_drops [OF True ins(2)] lcs_table_nth [of i base "Suc j" side] lcs_table_nth [of "Suc i" base j side] by auto
    qed (use "1.prems" in simp)
    ultimately show ?thesis using "1.hyps"(2) ins p "1.prems" by (auto simp: Let_def)
  next
    case del
    then have "diffWalk ?lcs base side i j pending chunks = diffWalk ?lcs base side (i + 1) j (Some (?p\<lparr>baseEnd := i + 1\<rparr>)) chunks"
      by (subst diffWalk.simps) (auto simp: Let_def)
    moreover have "lcs_len (drop (Suc i) base) (drop j side) = lcs_len (drop i base) (drop j side)"
    proof (cases "j < length side")
      case True
      then show ?thesis using del lcs_len_drops [OF del(2) True] lcs_table_nth [of i base "Suc j" side] lcs_table_nth [of "Suc i" base j side] by auto
    qed (use "1.prems" in simp)
    ultimately show ?thesis using "1.hyps"(3) del p "1.prems" by (auto simp: Let_def Suc_diff_le)
  qed
qed

lemma diffChunks_minimal: "length base = lcs_len base side + deleted (diffChunks base side)"
  using diffWalk_minimal [of 0 base 0 side None "[]"] by (simp add: diffChunks_def)

text \<open>C19: The diff is exact and minimal: putting its chunks into the base gives the side, and the lines of the base
  it leaves alone are as many as a longest common subsequence of the two texts has.\<close>

theorem diff_is_minimal_patch:
  "patch base 0 (diffChunks base side) = side \<and>
   length base - sum_list (map (\<lambda>c. baseEnd c - baseStart c) (diffChunks base side)) =
     Max {length zs |zs. subseq zs base \<and> subseq zs side}"
proof -
  let ?lengths = "{length zs |zs. subseq zs base \<and> subseq zs side}"
  have "?lengths \<subseteq> {..lcs_len base side}" using lcs_len_bound by auto
  moreover have "lcs_len base side \<in> ?lengths" using lcs_len_reached [of base side] by force
  ultimately have "Max ?lengths = lcs_len base side" by (intro Max_eqI) (auto intro: finite_subset)
  then show ?thesis using diffChunks_patch [of base side] diffChunks_minimal [of base side] by (simp add: deleted_def)
qed

end
