(* ===== verification/MergeProofs.thy ===== *)
theory MergeProofs
  imports DiffProofs
begin

text \<open>
  What a merge computes: the merge loop ends, and its result is a sequence of regions from which base, ours and theirs
  can all be read back; and the one text whose trailing newline the rejoining of lines loses.
\<close>

subsection \<open>Regions of a merge\<close>

text \<open>What a merge is made of: lines all three texts share, a change of one side, a change both sides agree on,
  a conflict. Every region knows its lines in the base, in ours, in theirs and in the result.\<close>

datatype merge_region =
    Kept "string list"
  | OursChange "string list" "string list"
  | TheirsChange "string list" "string list"
  | Agreed "string list" "string list"
  | Conflict "string list" "string list" "string list"

fun in_base :: "merge_region \<Rightarrow> string list" where
  "in_base (Kept b) = b" | "in_base (OursChange b l) = b" | "in_base (TheirsChange b l) = b" | "in_base (Agreed b l) = b"
| "in_base (Conflict b l l') = b"

fun in_ours :: "merge_region \<Rightarrow> string list" where
  "in_ours (Kept b) = b" | "in_ours (OursChange b l) = l" | "in_ours (TheirsChange b l) = b" | "in_ours (Agreed b l) = l"
| "in_ours (Conflict b l l') = l"

fun in_theirs :: "merge_region \<Rightarrow> string list" where
  "in_theirs (Kept b) = b" | "in_theirs (OursChange b l) = b" | "in_theirs (TheirsChange b l) = l" | "in_theirs (Agreed b l) = l"
| "in_theirs (Conflict b l l') = l'"

fun in_result :: "diff3_options \<Rightarrow> merge_region \<Rightarrow> string list" where
  "in_result opts (Kept b) = b" | "in_result opts (OursChange b l) = l" | "in_result opts (TheirsChange b l) = l"
| "in_result opts (Agreed b l) = l" | "in_result opts (Conflict b l l') = conflictLines opts l l'"

fun is_conflict :: "merge_region \<Rightarrow> bool" where
  "is_conflict (Conflict b l l') = True" | "is_conflict _ = False"

fun region_ok :: "merge_region \<Rightarrow> bool" where
  "region_ok (Conflict b l l') = (l \<noteq> l')" | "region_ok _ = True"

subsection \<open>Growing a region\<close>

lemma patch_split:
  assumes "chunks_ok n mid cs" and "lo \<le> mid"
  shows "patch base lo cs = slice lo mid base @ patch base mid cs"
proof (cases cs)
  case Nil
  then show ?thesis using slice_drop [OF assms(2), of base] by simp
next
  case (Cons c rest)
  have "slice lo mid base @ slice mid (baseStart c) base = slice lo (baseStart c) base"
    by (rule slice_slice) (use assms Cons in simp_all)
  then show ?thesis unfolding Cons patch.simps by (metis append.assoc)
qed

definition side_ok :: "nat \<Rightarrow> nat \<Rightarrow> side_view \<Rightarrow> bool" where
  "side_ok n regionEnd side \<longleftrightarrow> sv_covEnd side \<le> regionEnd \<and> chunks_ok n (Suc (sv_covEnd side)) (sv_rest side)"

definition side_text :: "string list \<Rightarrow> side_view \<Rightarrow> string list" where
  "side_text base side = sv_lines side @ patch base (sv_covEnd side) (sv_rest side)"

lemma absorb_ok:
  "absorb base regionEnd lines covEnd chunks = (regionEnd', side) \<Longrightarrow> covEnd \<le> regionEnd \<Longrightarrow> regionEnd \<le> n \<Longrightarrow>
   chunks_ok n (Suc covEnd) chunks \<Longrightarrow>
     regionEnd \<le> regionEnd' \<and> regionEnd' \<le> n \<and> side_ok n regionEnd' side \<and> chunks_ok n regionEnd' (sv_rest side) \<and>
     side_text base side = lines @ patch base covEnd chunks \<and>
     (length (sv_rest side) = length chunks \<longrightarrow> regionEnd' = regionEnd)"
proof (induction base regionEnd lines covEnd chunks arbitrary: regionEnd' side rule: absorb.induct)
  case (2 base regionEnd lines covEnd chunk chunks)
  show ?case
  proof (cases "baseStart chunk < regionEnd")
    case True
    have cov: "max covEnd (baseEnd chunk) = baseEnd chunk" using "2.prems"(4) by simp
    have run: "absorb base (max regionEnd (baseEnd chunk)) (lines @ slice covEnd (baseStart chunk) base @ ch_lines chunk)
        (max covEnd (baseEnd chunk)) chunks = (regionEnd', side)"
      using "2.prems"(1) True by simp
    have "length (sv_rest side) \<le> length chunks" using absorb_length run by (metis snd_conv)
    moreover have "max regionEnd (baseEnd chunk) \<le> regionEnd' \<and> regionEnd' \<le> n \<and> side_ok n regionEnd' side \<and> chunks_ok n regionEnd' (sv_rest side) \<and>
        side_text base side = (lines @ slice covEnd (baseStart chunk) base @ ch_lines chunk) @ patch base (baseEnd chunk) chunks"
      using "2.IH" [OF True run] "2.prems"(3,4) unfolding cov by simp
    ultimately show ?thesis by simp
  next
    case False
    then have "regionEnd' = regionEnd" "side = \<lparr> sv_lines = lines, sv_covEnd = covEnd, sv_rest = chunk # chunks \<rparr>"
      using "2.prems"(1) by simp_all
    then show ?thesis using "2.prems" False by (simp add: side_ok_def side_text_def)
  qed
next
  case (1 base regionEnd lines covEnd)
  then have "regionEnd' = regionEnd" "side = \<lparr> sv_lines = lines, sv_covEnd = covEnd, sv_rest = [] \<rparr>" by simp_all
  then show ?case using "1.prems" by (simp add: side_ok_def side_text_def)
qed

lemma absorbSide_ok:
  assumes "absorbSide base regionEnd side = (regionEnd', side')" and "side_ok n regionEnd side" and "regionEnd \<le> n"
  shows "regionEnd \<le> regionEnd'" "regionEnd' \<le> n" "side_ok n regionEnd' side'" "chunks_ok n regionEnd' (sv_rest side')"
    "side_text base side' = side_text base side" "length (sv_rest side') = length (sv_rest side) \<longrightarrow> regionEnd' = regionEnd"
  using absorb_ok [OF assms(1) [unfolded absorbSide_def]] assms(2,3) by (simp_all add: side_ok_def side_text_def [of base side])

lemma side_ok_mono: "side_ok n lo side \<Longrightarrow> lo \<le> hi \<Longrightarrow> side_ok n hi side"
  by (simp add: side_ok_def)

definition grown_ok :: "string list \<Rightarrow> nat \<Rightarrow> side_view \<Rightarrow> side_view \<Rightarrow> nat \<times> side_view \<times> side_view \<Rightarrow> bool" where
  "grown_ok base regionEnd ours theirs grown \<longleftrightarrow>
     (case grown of (regionEnd', ours', theirs') \<Rightarrow>
        regionEnd \<le> regionEnd' \<and> regionEnd' \<le> length base \<and>
        sv_covEnd ours' \<le> regionEnd' \<and> sv_covEnd theirs' \<le> regionEnd' \<and>
        chunks_ok (length base) regionEnd' (sv_rest ours') \<and> chunks_ok (length base) regionEnd' (sv_rest theirs') \<and>
        side_text base ours' = side_text base ours \<and> side_text base theirs' = side_text base theirs \<and>
        length (sv_rest ours') \<le> length (sv_rest ours) \<and> length (sv_rest theirs') \<le> length (sv_rest theirs))"

lemma growRegion_ok:
  "side_ok (length base) regionEnd ours \<Longrightarrow> side_ok (length base) regionEnd theirs \<Longrightarrow> regionEnd \<le> length base \<Longrightarrow>
     grown_ok base regionEnd ours theirs (growRegion base regionEnd ours theirs)"
proof (induction base regionEnd ours theirs rule: growRegion.induct)
  case (1 base regionEnd ours theirs)
  obtain e1 ours' e2 theirs' where o: "absorbSide base regionEnd ours = (e1, ours')" and t: "absorbSide base e1 theirs = (e2, theirs')"
    by (metis surj_pair)
  note o_ok = absorbSide_ok [OF o "1.prems"(1,3)]
  note t_ok = absorbSide_ok [OF t side_ok_mono [OF "1.prems"(2) o_ok(1)] o_ok(2)]
  have len: "length (sv_rest ours') \<le> length (sv_rest ours)" "length (sv_rest theirs') \<le> length (sv_rest theirs)"
    using absorbSide_length [OF o [symmetric]] absorbSide_length [OF t [symmetric]] .
  show ?case
  proof (cases "length (sv_rest ours') < length (sv_rest ours) \<or> length (sv_rest theirs') < length (sv_rest theirs)")
    case True
    have "grown_ok base e2 ours' theirs' (growRegion base e2 ours' theirs')"
      using "1.IH" [OF o [symmetric] t [symmetric] True] side_ok_mono [OF o_ok(3) t_ok(1)] t_ok(2,3) by simp
    then show ?thesis using True o t o_ok t_ok len
      by (subst growRegion.simps) (auto simp: grown_ok_def split: prod.splits)
  next
    case False
    then show ?thesis using o t o_ok t_ok len
      by (subst growRegion.simps) (auto simp: grown_ok_def side_ok_def)
  qed
qed

subsection \<open>The merge loop\<close>

definition explains :: "string list \<Rightarrow> string list \<Rightarrow> string list \<Rightarrow> diff3_options \<Rightarrow> merge_state \<Rightarrow> merge_region list \<Rightarrow> bool" where
  "explains base ours theirs opts st regions \<longleftrightarrow>
     ms_out st = concat (map (in_result opts) regions) \<and> ms_conflicts st = length (filter is_conflict regions) \<and>
     list_all region_ok regions \<and> ms_cursor st \<le> length base \<and> concat (map in_base regions) = take (ms_cursor st) base \<and>
     concat (map in_ours regions) @ patch base (ms_cursor st) (ms_ours st) = ours \<and>
     concat (map in_theirs regions) @ patch base (ms_cursor st) (ms_theirs st) = theirs \<and>
     chunks_ok (length base) (ms_cursor st) (ms_ours st) \<and> chunks_ok (length base) (ms_cursor st) (ms_theirs st)"

definition copied :: "string list \<Rightarrow> nat \<Rightarrow> merge_state \<Rightarrow> merge_state" where
  "copied base next st = st\<lparr>ms_out := ms_out st @ slice (ms_cursor st) next base, ms_cursor := max (ms_cursor st) next\<rparr>"

lemma explains_copied:
  assumes "explains base ours theirs opts st regions" and "ms_cursor st \<le> next" and "next \<le> length base"
    and "chunks_ok (length base) next (ms_ours st)" and "chunks_ok (length base) next (ms_theirs st)"
  shows "explains base ours theirs opts (copied base next st) (regions @ [Kept (slice (ms_cursor st) next base)])"
  using assms patch_split [OF assms(4,2)] patch_split [OF assms(5,2)]
  by (simp add: explains_def copied_def max_absorb2 take_slice)

lemma explains_ours:
  assumes "explains base ours theirs opts st regions" and "ms_ours st = oc # ocs" and "baseStart oc = ms_cursor st"
    and "chunks_ok (length base) (baseEnd oc) (ms_theirs st)"
  shows "explains base ours theirs opts ((takeChunk st oc)\<lparr>ms_ours := ocs\<rparr>)
     (regions @ [OursChange (slice (ms_cursor st) (baseEnd oc) base) (ch_lines oc)])"
  using assms patch_split [OF assms(4), of "ms_cursor st"] chunks_ok_mono [of "length base" "Suc (baseEnd oc)" ocs "baseEnd oc"]
  by (simp add: explains_def takeChunk_def max_absorb2 take_slice)

lemma explains_theirs:
  assumes "explains base ours theirs opts st regions" and "ms_theirs st = tc # tcs" and "baseStart tc = ms_cursor st"
    and "chunks_ok (length base) (baseEnd tc) (ms_ours st)"
  shows "explains base ours theirs opts ((takeChunk st tc)\<lparr>ms_theirs := tcs\<rparr>)
     (regions @ [TheirsChange (slice (ms_cursor st) (baseEnd tc) base) (ch_lines tc)])"
  using assms patch_split [OF assms(4), of "ms_cursor st"] chunks_ok_mono [of "length base" "Suc (baseEnd tc)" tcs "baseEnd tc"]
  by (simp add: explains_def takeChunk_def max_absorb2 take_slice)

lemma region_side:
  assumes "side_text base side = ch_lines c @ patch base (baseEnd c) cs" and "sv_covEnd side \<le> regionEnd" and "chunks_ok n regionEnd (sv_rest side)"
  shows "patch base cursor (c # cs) = regionView base (baseStart c) (sv_covEnd side) regionEnd (sv_lines side) cursor @ patch base regionEnd (sv_rest side)"
  using assms patch_split [OF assms(3,2)] by (simp add: side_text_def regionView_def)

lemma explains_region:
  assumes ex: "explains base ours theirs opts st regions" and oc: "ms_ours st = oc # ocs" and tc: "ms_theirs st = tc # tcs"
  shows "\<exists>region. explains base ours theirs opts (mergeRegion base opts st oc tc) (regions @ [region])"
    and "length (ms_ours (mergeRegion base opts st oc tc)) \<le> length ocs \<and> length (ms_theirs (mergeRegion base opts st oc tc)) \<le> length tcs"
proof -
  define so where "so = \<lparr> sv_lines = ch_lines oc, sv_covEnd = baseEnd oc, sv_rest = ocs \<rparr>"
  define sd where "sd = \<lparr> sv_lines = ch_lines tc, sv_covEnd = baseEnd tc, sv_rest = tcs \<rparr>"
  define lo where "lo = max (max (baseEnd oc) (baseEnd tc)) (ms_cursor st)"
  obtain hi so' sd' where grow: "growRegion base lo so sd = (hi, so', sd')" by (metis surj_pair)
  have chunks: "chunks_ok (length base) (ms_cursor st) (oc # ocs)" "chunks_ok (length base) (ms_cursor st) (tc # tcs)" "ms_cursor st \<le> length base"
    using ex oc tc by (simp_all add: explains_def)
  then have "grown_ok base lo so sd (hi, so', sd')"
    using growRegion_ok [of base lo so sd] grow by (simp add: side_ok_def so_def sd_def lo_def)
  then have g: "lo \<le> hi" "hi \<le> length base" "sv_covEnd so' \<le> hi" "sv_covEnd sd' \<le> hi" "chunks_ok (length base) hi (sv_rest so')"
    "chunks_ok (length base) hi (sv_rest sd')" "side_text base so' = ch_lines oc @ patch base (baseEnd oc) ocs"
    "side_text base sd' = ch_lines tc @ patch base (baseEnd tc) tcs" "length (sv_rest so') \<le> length ocs" "length (sv_rest sd') \<le> length tcs"
    by (simp_all add: grown_ok_def side_text_def so_def sd_def)
  define vo where "vo = regionView base (baseStart oc) (sv_covEnd so') hi (sv_lines so') (ms_cursor st)"
  define vt where "vt = regionView base (baseStart tc) (sv_covEnd sd') hi (sv_lines sd') (ms_cursor st)"
  have st': "mergeRegion base opts st oc tc =
      \<lparr> ms_out = ms_out st @ (if vo = vt then vo else conflictLines opts vo vt), ms_conflicts = ms_conflicts st + (if vo = vt then 0 else 1),
        ms_cursor = hi, ms_ours = sv_rest so', ms_theirs = sv_rest sd' \<rparr>"
    using grow by (simp add: mergeRegion_def oc tc so_def sd_def lo_def vo_def vt_def Let_def)
  have views: "patch base (ms_cursor st) (oc # ocs) = vo @ patch base hi (sv_rest so')" "patch base (ms_cursor st) (tc # tcs) = vt @ patch base hi (sv_rest sd')"
    using region_side [OF g(7,3,5)] region_side [OF g(8,4,6)] by (simp_all only: vo_def vt_def)
  have cursor: "ms_cursor st \<le> hi" using g(1) by (simp add: lo_def)
  define b where "b = slice (ms_cursor st) hi base"
  have "explains base ours theirs opts (mergeRegion base opts st oc tc) (regions @ [if vo = vt then Agreed b vo else Conflict b vo vt])"
    using ex oc tc views g(2,5,6) cursor by (cases "vo = vt") (simp_all add: explains_def st' b_def take_slice del: patch.simps)
  then show "\<exists>region. explains base ours theirs opts (mergeRegion base opts st oc tc) (regions @ [region])" by blast
  show "length (ms_ours (mergeRegion base opts st oc tc)) \<le> length ocs \<and> length (ms_theirs (mergeRegion base opts st oc tc)) \<le> length tcs"
    using g(9,10) by (simp add: st')
qed

lemma first_chunk_simps [simp]: "first_chunk [] = None" "first_chunk (c # cs) = Some c"
  by (simp_all add: first_chunk_def)

text \<open>Two chunks that do not overlap: the one that starts at the cursor ends before the other starts.\<close>

lemma explains_step:
  assumes ex: "explains base ours theirs opts st0 regions0" and more: "ms_ours st0 \<noteq> [] \<or> ms_theirs st0 \<noteq> []"
  shows "\<exists>regions. explains base ours theirs opts (mergeStep base opts st0) regions"
    and "length (ms_ours (mergeStep base opts st0)) + length (ms_theirs (mergeStep base opts st0)) < length (ms_ours st0) + length (ms_theirs st0)"
proof -
  define oc tc where "oc = first_chunk (ms_ours st0)" and "tc = first_chunk (ms_theirs st0)"
  define st where "st = copied base (nextStart oc tc) st0"
  have chunks: "chunks_ok (length base) (ms_cursor st0) (ms_ours st0)" "chunks_ok (length base) (ms_cursor st0) (ms_theirs st0)"
    using ex by (simp_all add: explains_def)
  have "ms_cursor st0 \<le> nextStart oc tc \<and> nextStart oc tc \<le> length base \<and>
      chunks_ok (length base) (nextStart oc tc) (ms_ours st0) \<and> chunks_ok (length base) (nextStart oc tc) (ms_theirs st0)"
    using more chunks by (cases "ms_ours st0"; cases "ms_theirs st0") (auto simp: oc_def tc_def nextStart_def)
  then obtain regions where st: "explains base ours theirs opts st regions" "ms_cursor st = nextStart oc tc"
    using explains_copied [OF ex] unfolding st_def by (fastforce simp: copied_def)
  have same: "ms_ours st = ms_ours st0" "ms_theirs st = ms_theirs st0" by (simp_all add: st_def copied_def)
  have step: "mergeStep base opts st0 =
      (if spansOverlap (ms_cursor st) oc tc then mergeRegion base opts st (the oc) (the tc)
       else if active (ms_cursor st) oc \<and> \<not> active (ms_cursor st) tc then (takeChunk st (the oc))\<lparr>ms_ours := tl (ms_ours st)\<rparr>
       else if active (ms_cursor st) tc \<and> \<not> active (ms_cursor st) oc then (takeChunk st (the tc))\<lparr>ms_theirs := tl (ms_theirs st)\<rparr>
       else st)"
    by (simp add: mergeStep_def oc_def tc_def st_def copied_def Let_def)
  have ok: "chunks_ok (length base) (ms_cursor st) (ms_ours st)" "chunks_ok (length base) (ms_cursor st) (ms_theirs st)"
    using st(1) by (simp_all add: explains_def)
  have "(\<exists>regions. explains base ours theirs opts (mergeStep base opts st0) regions) \<and>
      length (ms_ours (mergeStep base opts st0)) + length (ms_theirs (mergeStep base opts st0)) < length (ms_ours st) + length (ms_theirs st)"
  proof (cases "spansOverlap (ms_cursor st) oc tc")
    case True
    then obtain c cs d ds where o: "ms_ours st = c # cs" "oc = Some c" and t: "ms_theirs st = d # ds" "tc = Some d"
      by (cases "ms_ours st"; cases "ms_theirs st") (auto simp: spansOverlap_def oc_def tc_def same)
    show ?thesis using explains_region [OF st(1) o(1) t(1)] True o t by (auto simp: step)
  next
    case apart: False
    have either: "active (ms_cursor st) oc \<noteq> active (ms_cursor st) tc"
      using more apart st(2) ok
      by (cases "ms_ours st"; cases "ms_theirs st") (auto simp: oc_def tc_def active_def nextStart_def spansOverlap_def same)
    show ?thesis
    proof (cases "active (ms_cursor st) oc")
      case True
      then obtain c cs where o: "ms_ours st = c # cs" "oc = Some c" by (cases "ms_ours st") (auto simp: oc_def active_def same)
      then have start: "baseStart c = ms_cursor st" using True ok(1) by (simp add: active_def)
      have "chunks_ok (length base) (baseEnd c) (ms_theirs st)"
        using apart either True ok o start by (cases "ms_theirs st") (auto simp: tc_def active_def spansOverlap_def same)
      then show ?thesis using explains_ours [OF st(1) o(1) start] apart either True o by (auto simp: step takeChunk_def)
    next
      case False
      then obtain d ds where t: "ms_theirs st = d # ds" "tc = Some d" using either by (cases "ms_theirs st") (auto simp: tc_def active_def same)
      then have start: "baseStart d = ms_cursor st" using False either ok(2) by (simp add: active_def)
      have "chunks_ok (length base) (baseEnd d) (ms_ours st)"
        using apart either False ok t start by (cases "ms_ours st") (auto simp: oc_def active_def spansOverlap_def same)
      then show ?thesis using explains_theirs [OF st(1) t(1) start] apart either False t by (auto simp: step takeChunk_def)
    qed
  qed
  then show "\<exists>regions. explains base ours theirs opts (mergeStep base opts st0) regions"
    "length (ms_ours (mergeStep base opts st0)) + length (ms_theirs (mergeStep base opts st0)) < length (ms_ours st0) + length (ms_theirs st0)"
    by (simp_all add: same)
qed

lemma mergeLoop_explains:
  "explains base ours theirs opts st regions \<Longrightarrow> length (ms_ours st) + length (ms_theirs st) < fuel \<Longrightarrow>
     \<exists>st' regions'. mergeLoop fuel base opts st = Some st' \<and> explains base ours theirs opts st' regions' \<and> ms_ours st' = [] \<and> ms_theirs st' = []"
proof (induction fuel arbitrary: st regions)
  case (Suc fuel)
  show ?case
  proof (cases "ms_ours st \<noteq> [] \<or> ms_theirs st \<noteq> []")
    case True
    obtain regions' where next': "explains base ours theirs opts (mergeStep base opts st) regions'" using explains_step(1) [OF Suc.prems(1) True] by blast
    show ?thesis using Suc.IH [OF next'] explains_step(2) [OF Suc.prems(1) True] Suc.prems(2) True by auto
  qed (use Suc.prems in auto)
qed simp

lemma start_explained:
  "explains base ours theirs opts (start_state (diffChunks base ours) (diffChunks base theirs)) []"
  using diffChunks_patch [of base ours] diffChunks_patch [of base theirs] by (simp add: explains_def start_state_def)

text \<open>C9: A merge of three different texts ends and can be explained: it is a sequence of regions (shared lines,
  changes of one side, changes both sides agree on, conflicts between different lines) whose base lines make up
  the base, whose lines of ours make up ours and whose lines of theirs make up theirs. The merged text is the
  regions' results, and the merge is clean exactly if there is no conflict region.\<close>

theorem merge_is_explained:
  assumes "oursText \<noteq> theirsText" and "oursText \<noteq> baseText" and "theirsText \<noteq> baseText"
  shows "\<exists>result regions. diff3Merge baseText oursText theirsText opts = Some result \<and>
     concat (map in_base regions) = splitLines baseText \<and> concat (map in_ours regions) = splitLines oursText \<and>
     concat (map in_theirs regions) = splitLines theirsText \<and> list_all region_ok regions \<and>
     d3_text result = joinLines (concat (map (in_result opts) regions)) baseText oursText theirsText \<and>
     d3_conflicts result = length (filter is_conflict regions) \<and> (d3_ok result \<longleftrightarrow> \<not> list_ex is_conflict regions)"
proof -
  let ?base = "splitLines baseText" and ?ours = "splitLines oursText" and ?theirs = "splitLines theirsText"
  let ?oc = "diffChunks ?base ?ours" and ?tc = "diffChunks ?base ?theirs"
  obtain st regions where run: "mergeLoop (length ?oc + length ?tc + 1) ?base opts (start_state ?oc ?tc) = Some st"
    and ex: "explains ?base ?ours ?theirs opts st regions" and rest: "ms_ours st = []" "ms_theirs st = []"
    using mergeLoop_explains [OF start_explained [of ?base ?ours ?theirs opts], of "length ?oc + length ?tc + 1"] by (auto simp: start_state_def)
  let ?regions = "regions @ [Kept (drop (ms_cursor st) ?base)]"
  have "filter is_conflict regions = [] \<longleftrightarrow> \<not> list_ex is_conflict regions" by (auto simp: filter_empty_conv list_ex_iff)
  then show ?thesis using run ex rest assms
    by (intro exI [of _ ?regions] exI [of _ "\<lparr> d3_ok = ms_conflicts st = 0,
               d3_text = joinLines (ms_out st @ drop (ms_cursor st) ?base) baseText oursText theirsText, d3_conflicts = ms_conflicts st \<rparr>"])
       (simp add: diff3Merge_def Let_def explains_def)
qed

definition nl :: char where
  "nl = CHR 0x0A"

theorem merge_is_explained_witness:
  "\<exists>result regions. diff3Merge (''a'' @ [nl]) (''b'' @ [nl]) (''c'' @ [nl]) \<lparr> oursLabel = None, theirsLabel = None \<rparr> = Some result \<and>
     d3_conflicts result = length (filter is_conflict regions) \<and> concat (map in_ours regions) = [''b''] \<and> concat (map in_theirs regions) = [''c'']"
proof -
  have "splitLines (''b'' @ [nl]) = [''b'']" "splitLines (''c'' @ [nl]) = [''c'']" by (simp_all add: splitLines_def nl_def)
  then show ?thesis
    using merge_is_explained [of "''b'' @ [nl]" "''c'' @ [nl]" "''a'' @ [nl]" "\<lparr> oursLabel = None, theirsLabel = None \<rparr>"] by auto
qed

text \<open>The last blank line is lost. Three texts that all end in a newline, whose clean merge is one empty line:
  the merged text is empty, so the newline that every input ends with is not preserved.\<close>

theorem blank_line_is_lost:
  "diff3Merge [CHR ''a'', nl, nl, CHR ''b'', nl] [nl, CHR ''b'', nl] [CHR ''a'', nl, nl] \<lparr> oursLabel = None, theirsLabel = None \<rparr> =
     Some \<lparr> d3_ok = True, d3_text = [], d3_conflicts = 0 \<rparr> \<and>
   splitLines [CHR ''a'', nl, nl, CHR ''b'', nl] = [''a'', [], ''b''] \<and> splitLines [nl, CHR ''b'', nl] = [[], ''b''] \<and>
   splitLines [CHR ''a'', nl, nl] = [''a'', []]"
  by code_simp

end
