(* ===== verification/MergeEngine.thy ===== *)
theory MergeEngine
  imports MergeProofs LogStore
begin

text \<open>
  The three-way merge of worktree states (\<open>src/server/gadVcs/merge.ts\<close>): per path the case table over base, ours
  and theirs, modes merged apart from contents, contents through \<open>Diff3\<close>. File bytes are strings of byte values;
  the blob store is the dictionary from digests to bytes. The store's RPC methods, SHA-256 and UTF-8 are the
  environment.
\<close>

subsection \<open>Data\<close>

record state_file =
  sf_path :: string
  sf_hash :: string
  sf_mode :: int

datatype conflict_kind = ContentConflict | BinaryConflict | DeleteVsChange | ModeConflict

type_synonym merge_conflict = "string \<times> conflict_kind"

record merged_file =
  mg_path :: string
  mg_hash :: string
  mg_size :: nat
  mg_mode :: int

datatype merge_status = Clean | Conflicted | UpToDate | FastForward

record merge_computation =
  mp_status :: merge_status
  mp_files :: "merged_file list"
  mp_conflicts :: "merge_conflict list"
  mp_base :: "string option"

record merge_env =
  mx_listStateFiles :: "string \<Rightarrow> state_file list res"
  mx_getMergeBase :: "string \<Rightarrow> string \<Rightarrow> string option res"
  mx_digest :: "string \<Rightarrow> string"
  mx_decode :: "string \<Rightarrow> string"
  mx_encode :: "string \<Rightarrow> string"

definition byPath :: "state_file list \<Rightarrow> state_file dict" where
  "byPath files = foldl (\<lambda>m file. dput (sf_path file) file m) [] files"

definition looksBinary :: "string \<Rightarrow> bool" where
  "looksBinary bytes \<longleftrightarrow> CHR 0x00 \<in> set (take 8192 bytes)"

definition resolveMode :: "state_file option \<Rightarrow> state_file \<Rightarrow> state_file \<Rightarrow> int \<times> bool" where
  "resolveMode b ours theirs =
     (let base = map_option sf_mode b; oursChanged = Some (sf_mode ours) \<noteq> base; theirsChanged = Some (sf_mode theirs) \<noteq> base in
      if oursChanged \<and> theirsChanged then (sf_mode ours, sf_mode ours \<noteq> sf_mode theirs)
      else if theirsChanged then (sf_mode theirs, False)
      else (sf_mode ours, False))"

subsection \<open>Blobs\<close>

definition stateFiles :: "merge_env \<Rightarrow> string option \<Rightarrow> state_file list res" where
  "stateFiles env stateHash =
     (case stateHash of None \<Rightarrow> Inr [] | Some h \<Rightarrow> if h = [] then Inr [] else mx_listStateFiles env h)"

definition readBlob :: "string dict \<Rightarrow> string \<Rightarrow> string res" where
  "readBlob blobs digest =
     (case dget blobs digest of None \<Rightarrow> Inl (StoreError (''merge: blob missing from CAS: '' @ digest)) | Some bytes \<Rightarrow> Inr bytes)"

subsection \<open>The merge\<close>

record merge_acc =
  ma_blobs :: "string dict"
  ma_files :: "merged_file list"
  ma_conflicts :: "merge_conflict list"

definition keep :: "state_file \<Rightarrow> merge_acc \<Rightarrow> merge_acc" where
  "keep file acc = acc\<lparr>ma_files := ma_files acc @ [\<lparr> mg_path = sf_path file, mg_hash = sf_hash file, mg_size = 0, mg_mode = sf_mode file \<rparr>]\<rparr>"

definition keep_present :: "state_file option \<Rightarrow> merge_acc \<Rightarrow> merge_acc" where
  "keep_present file acc = (case file of None \<Rightarrow> acc | Some f \<Rightarrow> keep f acc)"

definition flag :: "string \<Rightarrow> conflict_kind \<Rightarrow> bool \<Rightarrow> merge_acc \<Rightarrow> merge_acc" where
  "flag path kind conflict acc = (if conflict then acc\<lparr>ma_conflicts := ma_conflicts acc @ [(path, kind)]\<rparr> else acc)"

definition changed :: "state_file option \<Rightarrow> state_file option \<Rightarrow> bool" where
  "changed b file \<longleftrightarrow> map_option sf_hash file \<noteq> map_option sf_hash b \<or> map_option sf_mode file \<noteq> map_option sf_mode b"

text \<open>Both sides have the file, with different contents. A merge that does not return has no result; \<open>Diff3\<close>
  shows that it returns.\<close>

definition mergeContent :: "merge_env \<Rightarrow> diff3_options \<Rightarrow> string \<Rightarrow> state_file option \<Rightarrow> state_file \<Rightarrow> state_file \<Rightarrow> merge_acc \<Rightarrow> merge_acc res" where
  "mergeContent env labels path b ours theirs acc =
     bind_res (case b of None \<Rightarrow> Inr [] | Some file \<Rightarrow> readBlob (ma_blobs acc) (sf_hash file)) (\<lambda>baseBytes.
     bind_res (readBlob (ma_blobs acc) (sf_hash ours)) (\<lambda>oursBytes.
     bind_res (readBlob (ma_blobs acc) (sf_hash theirs)) (\<lambda>theirsBytes.
       if looksBinary baseBytes \<or> looksBinary oursBytes \<or> looksBinary theirsBytes
       then Inr (keep ours (flag path BinaryConflict True acc))
       else
         case diff3Merge (mx_decode env baseBytes) (mx_decode env oursBytes) (mx_decode env theirsBytes) labels of
           None \<Rightarrow> Inl (StoreError ''diff3Merge'')
         | Some result \<Rightarrow>
             let bytes = mx_encode env (d3_text result); digest = mx_digest env bytes; (mode, modeConflict) = resolveMode b ours theirs
             in Inr (flag path ModeConflict modeConflict (flag path ContentConflict (\<not> d3_ok result)
                  (acc\<lparr>ma_blobs := dput digest bytes (ma_blobs acc),
                    ma_files := ma_files acc @ [\<lparr> mg_path = path, mg_hash = digest, mg_size = length bytes, mg_mode = mode \<rparr>]\<rparr>))))))"

definition mergePath ::
  "merge_env \<Rightarrow> diff3_options \<Rightarrow> state_file dict \<Rightarrow> state_file dict \<Rightarrow> state_file dict \<Rightarrow> merge_acc \<Rightarrow> string \<Rightarrow> merge_acc res" where
  "mergePath env labels base ours theirs acc path =
     (let b = dget base path; o' = dget ours path; t = dget theirs path in
      if \<not> changed b t then Inr (keep_present o' acc)
      else if \<not> changed b o' then Inr (keep_present t acc)
      else
        case (o', t) of
          (None, None) \<Rightarrow> Inr acc
        | (Some file, None) \<Rightarrow> Inr (keep file (flag path DeleteVsChange True acc))
        | (None, Some file) \<Rightarrow> Inr (keep file (flag path DeleteVsChange True acc))
        | (Some ourFile, Some theirFile) \<Rightarrow>
            if sf_hash ourFile = sf_hash theirFile then
              let (mode, modeConflict) = resolveMode b ourFile theirFile in
              Inr (flag path ModeConflict modeConflict (keep (ourFile\<lparr>sf_mode := mode\<rparr>) acc))
            else mergeContent env labels path b ourFile theirFile acc)"

definition allPaths :: "state_file dict \<Rightarrow> state_file dict \<Rightarrow> state_file dict \<Rightarrow> string list" where
  "allPaths base ours theirs = sort (remdups (map fst base @ map fst ours @ map fst theirs))"

definition nothing_to_merge :: "string option \<Rightarrow> merge_computation" where
  "nothing_to_merge base = \<lparr> mp_status = UpToDate, mp_files = [], mp_conflicts = [], mp_base = base \<rparr>"

definition mergeFromBase ::
  "merge_env \<Rightarrow> diff3_options \<Rightarrow> string option \<Rightarrow> string \<Rightarrow> string \<Rightarrow> string dict \<Rightarrow> (string dict \<times> merge_computation) res" where
  "mergeFromBase env labels baseStateHash oursStateHash theirsStateHash blobs =
     (if baseStateHash = Some theirsStateHash then Inr (blobs, nothing_to_merge baseStateHash)
      else
        bind_res (stateFiles env baseStateHash) (\<lambda>baseFiles.
        bind_res (stateFiles env (Some oursStateHash)) (\<lambda>oursFiles.
        bind_res (stateFiles env (Some theirsStateHash)) (\<lambda>theirsFiles.
          if baseStateHash = Some oursStateHash then
            Inr (blobs, \<lparr> mp_status = FastForward,
              mp_files = map (\<lambda>file. \<lparr> mg_path = sf_path file, mg_hash = sf_hash file, mg_size = 0, mg_mode = sf_mode file \<rparr>) theirsFiles,
              mp_conflicts = [], mp_base = baseStateHash \<rparr>)
          else
            let base = byPath baseFiles; ours = byPath oursFiles; theirs = byPath theirsFiles in
            bind_res (fold_res (mergePath env labels base ours theirs) \<lparr> ma_blobs = blobs, ma_files = [], ma_conflicts = [] \<rparr>
                (allPaths base ours theirs)) (\<lambda>acc.
              Inr (ma_blobs acc, \<lparr> mp_status = (if ma_conflicts acc = [] then Clean else Conflicted), mp_files = ma_files acc,
                mp_conflicts = ma_conflicts acc, mp_base = baseStateHash \<rparr>))))))"

definition compute3 ::
  "merge_env \<Rightarrow> diff3_options \<Rightarrow> string option \<Rightarrow> string \<Rightarrow> string \<Rightarrow> string dict \<Rightarrow> (string dict \<times> merge_computation) res" where
  "compute3 env labels base ours theirs blobs =
     (if ours = theirs then Inr (blobs, nothing_to_merge (Some ours)) else mergeFromBase env labels base ours theirs blobs)"

definition compute :: "merge_env \<Rightarrow> diff3_options \<Rightarrow> string \<Rightarrow> string \<Rightarrow> string dict \<Rightarrow> (string dict \<times> merge_computation) res" where
  "compute env labels ours theirs blobs =
     (if ours = theirs then Inr (blobs, nothing_to_merge (Some ours))
      else bind_res (mx_getMergeBase env ours theirs) (\<lambda>base. mergeFromBase env labels base ours theirs blobs))"

end
