(* ===== verification/MergeSafe.thy ===== *)
theory MergeSafe
  imports MergeEngine
begin

text \<open>What the merge of worktree states guarantees per path, and where it reports a conflict without one.\<close>

subsection \<open>Versions of a path\<close>

definition entry :: "state_file \<Rightarrow> string \<times> int" where
  "entry sf = (sf_hash sf, sf_mode sf)"

text \<open>Contents and mode of a path in a list of files, if it is there.\<close>

definition version :: "state_file list \<Rightarrow> string \<Rightarrow> (string \<times> int) option" where
  "version files path = map_option entry (dget (byPath files) path)"

definition merged_version :: "merged_file list \<Rightarrow> string \<Rightarrow> (string \<times> int) option" where
  "merged_version files path = map_of (map (\<lambda>f. (mg_path f, (mg_hash f, mg_mode f))) files) path"

lemma changed_iff: "changed b sf \<longleftrightarrow> map_option entry sf \<noteq> map_option entry b"
  by (cases b; cases sf) (auto simp: changed_def entry_def)

lemma byPath_keyed: "keyed sf_path (\<lambda>_. True) (byPath files)"
proof -
  have "keyed sf_path (\<lambda>_. True) m \<Longrightarrow> keyed sf_path (\<lambda>_. True) (foldl (\<lambda>m sf. dput (sf_path sf) sf m) m files)" for m
    by (induction files arbitrary: m) auto
  from this [of "[]"] show ?thesis by (simp add: byPath_def keyed_def)
qed

subsection \<open>One path\<close>

definition kept :: "state_file \<Rightarrow> merged_file" where
  "kept sf = \<lparr> mg_path = sf_path sf, mg_hash = sf_hash sf, mg_size = 0, mg_mode = sf_mode sf \<rparr>"

text \<open>The last part of \<open>mergePath\<close>: both sides changed.\<close>

definition both_changed ::
  "merge_env \<Rightarrow> diff3_options \<Rightarrow> state_file option \<Rightarrow> state_file option \<Rightarrow> state_file option \<Rightarrow> merge_acc \<Rightarrow> string \<Rightarrow> merge_acc res" where
  "both_changed env labels b ours theirs acc path =
     (case (ours, theirs) of
        (None, None) \<Rightarrow> Inr acc
      | (Some sf, None) \<Rightarrow> Inr (keep sf (flag path DeleteVsChange True acc))
      | (None, Some sf) \<Rightarrow> Inr (keep sf (flag path DeleteVsChange True acc))
      | (Some ourFile, Some theirFile) \<Rightarrow>
          if sf_hash ourFile = sf_hash theirFile then
            let (mode, modeConflict) = resolveMode b ourFile theirFile in
            Inr (flag path ModeConflict modeConflict (keep (ourFile\<lparr>sf_mode := mode\<rparr>) acc))
          else mergeContent env labels path b ourFile theirFile acc)"

lemma mergePath_cases:
  "mergePath env labels base ours theirs acc path =
     (if \<not> changed (dget base path) (dget theirs path) then Inr (keep_present (dget ours path) acc)
      else if \<not> changed (dget base path) (dget ours path) then Inr (keep_present (dget theirs path) acc)
      else both_changed env labels (dget base path) (dget ours path) (dget theirs path) acc path)"
  by (simp only: mergePath_def both_changed_def Let_def)

definition adds :: "merge_acc \<Rightarrow> merge_acc \<Rightarrow> string \<Rightarrow> merged_file list \<Rightarrow> merge_conflict list \<Rightarrow> bool" where
  "adds acc acc' path files conflicts \<longleftrightarrow>
     ma_files acc' = ma_files acc @ files \<and> ma_conflicts acc' = ma_conflicts acc @ conflicts \<and> length files \<le> 1 \<and>
     (\<forall>f \<in> set files. mg_path f = path) \<and> (\<forall>c \<in> set conflicts. fst c = path)"

lemma mergeContent_adds:
  "mergeContent env labels path b ourFile theirFile acc = Inr acc' \<Longrightarrow> sf_path ourFile = path \<Longrightarrow> \<exists>files conflicts. adds acc acc' path files conflicts"
  by (auto simp: mergeContent_def adds_def keep_def flag_def Let_def split: if_splits option.splits prod.splits)

lemma keep_present_adds:
  assumes "\<And>sf. file' = Some sf \<Longrightarrow> sf_path sf = path"
  shows "\<exists>files. adds acc (keep_present file' acc) path files [] \<and> merged_version files path = map_option entry file'"
proof (cases file')
  case None
  then show ?thesis by (intro exI [of _ "[]"]) (simp add: adds_def keep_present_def merged_version_def)
next
  case (Some sf)
  then show ?thesis using assms [OF Some]
    by (intro exI [of _ "[kept sf]"]) (simp add: adds_def keep_present_def keep_def kept_def merged_version_def entry_def)
qed

lemma both_changed_adds:
  assumes run: "both_changed env labels b ours theirs acc path = Inr acc'"
    and paths: "\<And>sf. ours = Some sf \<or> theirs = Some sf \<Longrightarrow> sf_path sf = path"
  shows "\<exists>files conflicts. adds acc acc' path files conflicts \<and>
     (map_option entry ours = map_option entry theirs \<longrightarrow> merged_version files path = map_option entry ours \<and> conflicts = [])"
proof -
  consider (gone) "ours = None" "theirs = None" | (ours) sf where "ours = Some sf" "theirs = None" | (theirs) sf where "ours = None" "theirs = Some sf"
    | (there) ourFile theirFile where "ours = Some ourFile" "theirs = Some theirFile"
    by (cases ours; cases theirs) simp_all
  then show ?thesis
  proof cases
    case gone
    then have "acc' = acc" using run by (simp add: both_changed_def)
    then show ?thesis using gone by (intro exI [of _ "[]"]) (simp add: adds_def merged_version_def)
  next
    case ours
    then have "acc' = keep sf (flag path DeleteVsChange True acc)" using run by (simp add: both_changed_def)
    then show ?thesis using ours paths [of sf]
      by (intro exI [of _ "[kept sf]"] exI [of _ "[(path, DeleteVsChange)]"]) (simp add: adds_def keep_def flag_def kept_def)
  next
    case theirs
    then have "acc' = keep sf (flag path DeleteVsChange True acc)" using run by (simp add: both_changed_def)
    then show ?thesis using theirs paths [of sf]
      by (intro exI [of _ "[kept sf]"] exI [of _ "[(path, DeleteVsChange)]"]) (simp add: adds_def keep_def flag_def kept_def)
  next
    case there
    show ?thesis
    proof (cases "sf_hash ourFile = sf_hash theirFile")
      case True
      obtain mode conflict where mode: "resolveMode b ourFile theirFile = (mode, conflict)" by (metis surj_pair)
      then have "acc' = flag path ModeConflict conflict (keep (ourFile\<lparr>sf_mode := mode\<rparr>) acc)"
        using run there True by (simp add: both_changed_def)
      moreover have "sf_mode ourFile = sf_mode theirFile \<Longrightarrow> mode = sf_mode ourFile \<and> \<not> conflict"
        using mode by (auto simp: resolveMode_def Let_def split: if_splits)
      moreover have "sf_path ourFile = path" by (rule paths) (simp add: there)
      ultimately show ?thesis using there True
        by (intro exI [of _ "[kept (ourFile\<lparr>sf_mode := mode\<rparr>)]"] exI [of _ "if conflict then [(path, ModeConflict)] else []"])
           (cases conflict; auto simp: adds_def keep_def flag_def kept_def merged_version_def entry_def)
    next
      case False
      then have "mergeContent env labels path b ourFile theirFile acc = Inr acc'" using run there by (simp add: both_changed_def)
      moreover have "sf_path ourFile = path" by (rule paths) (simp add: there)
      ultimately obtain files conflicts where "adds acc acc' path files conflicts" using mergeContent_adds by blast
      then show ?thesis using there False by (intro exI [of _ files] exI [of _ conflicts]) (simp add: entry_def)
    qed
  qed
qed

definition path_merge :: "state_file option \<Rightarrow> state_file option \<Rightarrow> state_file option \<Rightarrow> string \<Rightarrow> merged_file list \<Rightarrow> merge_conflict list \<Rightarrow> bool" where
  "path_merge b ours theirs path files conflicts \<longleftrightarrow>
     (map_option entry theirs = map_option entry b \<longrightarrow> merged_version files path = map_option entry ours \<and> conflicts = []) \<and>
     (map_option entry ours = map_option entry b \<longrightarrow> merged_version files path = map_option entry theirs \<and> conflicts = []) \<and>
     (map_option entry ours = map_option entry theirs \<longrightarrow> merged_version files path = map_option entry ours \<and> conflicts = [])"

lemma mergePath_adds:
  assumes run: "mergePath env labels base ours theirs acc path = Inr acc'"
    and keys: "\<And>sf. dget ours path = Some sf \<or> dget theirs path = Some sf \<Longrightarrow> sf_path sf = path"
  shows "\<exists>files conflicts. adds acc acc' path files conflicts \<and> path_merge (dget base path) (dget ours path) (dget theirs path) path files conflicts"
proof -
  let ?b = "dget base path" and ?o = "dget ours path" and ?t = "dget theirs path"
  consider (t) "map_option entry ?t = map_option entry ?b" "acc' = keep_present ?o acc"
    | (o) "map_option entry ?t \<noteq> map_option entry ?b" "map_option entry ?o = map_option entry ?b" "acc' = keep_present ?t acc"
    | (both) "map_option entry ?t \<noteq> map_option entry ?b" "map_option entry ?o \<noteq> map_option entry ?b" "both_changed env labels ?b ?o ?t acc path = Inr acc'"
    using run unfolding mergePath_cases changed_iff by (auto split: if_splits)
  then show ?thesis
  proof cases
    case t
    obtain files where "adds acc acc' path files []" "merged_version files path = map_option entry ?o"
      using keep_present_adds [of ?o path acc] keys t(2) by auto
    then show ?thesis using t(1) unfolding path_merge_def by metis
  next
    case o
    obtain files where "adds acc acc' path files []" "merged_version files path = map_option entry ?t"
      using keep_present_adds [of ?t path acc] keys o(3) by auto
    then show ?thesis using o(1,2) unfolding path_merge_def by metis
  next
    case both
    from both_changed_adds [OF both(3) keys] show ?thesis using both(1,2) unfolding path_merge_def by metis
  qed
qed

subsection \<open>All paths\<close>

lemma adds_filter:
  assumes "adds acc acc' path files conflicts"
  shows "filter (\<lambda>f. mg_path f = p) (ma_files acc') = filter (\<lambda>f. mg_path f = p) (ma_files acc) @ (if p = path then files else [])"
    "filter (\<lambda>c. fst c = p) (ma_conflicts acc') = filter (\<lambda>c. fst c = p) (ma_conflicts acc) @ (if p = path then conflicts else [])"
    "\<exists>new. map mg_path (ma_files acc') = map mg_path (ma_files acc) @ new \<and> subseq new [path]"
proof -
  have files: "ma_files acc' = ma_files acc @ files" "ma_conflicts acc' = ma_conflicts acc @ conflicts" "length files \<le> 1"
    "\<And>f. f \<in> set files \<Longrightarrow> mg_path f = path" "\<And>c. c \<in> set conflicts \<Longrightarrow> fst c = path"
    using assms by (auto simp: adds_def)
  have "filter (\<lambda>f. mg_path f = p) files = (if p = path then files else [])" "filter (\<lambda>c. fst c = p) conflicts = (if p = path then conflicts else [])"
    using files(4,5) by (auto simp: filter_True filter_empty_conv)
  then show "filter (\<lambda>f. mg_path f = p) (ma_files acc') = filter (\<lambda>f. mg_path f = p) (ma_files acc) @ (if p = path then files else [])"
    "filter (\<lambda>c. fst c = p) (ma_conflicts acc') = filter (\<lambda>c. fst c = p) (ma_conflicts acc) @ (if p = path then conflicts else [])"
    using files(1,2) by simp_all
  have "map mg_path files = [] \<or> map mg_path files = [path]" using files(3,4) by (cases files) auto
  then show "\<exists>new. map mg_path (ma_files acc') = map mg_path (ma_files acc) @ new \<and> subseq new [path]" using files(1) by auto
qed

lemma fold_merge:
  assumes "fold_res (mergePath env labels base ours theirs) acc paths = Inr acc'" and "distinct paths"
    and keys: "\<And>path sf. dget ours path = Some sf \<or> dget theirs path = Some sf \<Longrightarrow> sf_path sf = path"
  shows "(\<exists>new. map mg_path (ma_files acc') = map mg_path (ma_files acc) @ new \<and> subseq new paths) \<and>
     (\<exists>files conflicts. filter (\<lambda>f. mg_path f = p) (ma_files acc') = filter (\<lambda>f. mg_path f = p) (ma_files acc) @ files \<and>
        filter (\<lambda>c. fst c = p) (ma_conflicts acc') = filter (\<lambda>c. fst c = p) (ma_conflicts acc) @ conflicts \<and>
        (if p \<in> set paths then path_merge (dget base p) (dget ours p) (dget theirs p) p files conflicts else files = [] \<and> conflicts = []))"
  using assms(1,2)
proof (induction paths arbitrary: acc)
  case (Cons path paths)
  obtain acc1 where one: "mergePath env labels base ours theirs acc path = Inr acc1"
    and rest: "fold_res (mergePath env labels base ours theirs) acc1 paths = Inr acc'" using Cons.prems(1) by auto
  obtain files1 conflicts1 where adds: "adds acc acc1 path files1 conflicts1"
    and merge: "path_merge (dget base path) (dget ours path) (dget theirs path) path files1 conflicts1"
    using mergePath_adds [OF one keys] by blast
  have IH: "(\<exists>new. map mg_path (ma_files acc') = map mg_path (ma_files acc1) @ new \<and> subseq new paths) \<and>
     (\<exists>files conflicts. filter (\<lambda>f. mg_path f = p) (ma_files acc') = filter (\<lambda>f. mg_path f = p) (ma_files acc1) @ files \<and>
        filter (\<lambda>c. fst c = p) (ma_conflicts acc') = filter (\<lambda>c. fst c = p) (ma_conflicts acc1) @ conflicts \<and>
        (if p \<in> set paths then path_merge (dget base p) (dget ours p) (dget theirs p) p files conflicts else files = [] \<and> conflicts = []))"
    using Cons.IH [OF rest] Cons.prems(2) by simp
  then obtain new files conflicts where new: "map mg_path (ma_files acc') = map mg_path (ma_files acc1) @ new" "subseq new paths"
    and at: "filter (\<lambda>f. mg_path f = p) (ma_files acc') = filter (\<lambda>f. mg_path f = p) (ma_files acc1) @ files"
      "filter (\<lambda>c. fst c = p) (ma_conflicts acc') = filter (\<lambda>c. fst c = p) (ma_conflicts acc1) @ conflicts"
      "if p \<in> set paths then path_merge (dget base p) (dget ours p) (dget theirs p) p files conflicts else files = [] \<and> conflicts = []"
    by blast
  obtain new1 where new1: "map mg_path (ma_files acc1) = map mg_path (ma_files acc) @ new1" "subseq new1 [path]"
    using adds_filter(3) [OF adds] by blast
  have "subseq (new1 @ new) (path # paths)" using list_emb_append_mono [OF new1(2) new(2)] by simp
  moreover have "path_merge (dget base p) (dget ours p) (dget theirs p) p files1 conflicts1 \<and> files = [] \<and> conflicts = []" if "p = path"
    using merge at(3) Cons.prems(2) that by simp
  ultimately show ?case
    using new(1) new1(1) at adds_filter(1,2) [OF adds, of p]
    by (cases "p = path") (auto intro!: exI [of _ "new1 @ new"])
qed simp

lemma merged_version_filter: "merged_version files p = merged_version (filter (\<lambda>f. mg_path f = p) files) p"
  by (induction files) (simp_all add: merged_version_def)

lemma allPaths_ok: "distinct (allPaths base ours theirs)" "sorted (allPaths base ours theirs)"
  "p \<in> set (allPaths base ours theirs) \<longleftrightarrow> dget base p \<noteq> None \<or> dget ours p \<noteq> None \<or> dget theirs p \<noteq> None"
  by (auto simp: allPaths_def map_of_eq_None_iff)

lemma sorted_subseq: "subseq xs ys \<Longrightarrow> sorted ys \<Longrightarrow> sorted (xs :: 'a :: linorder list)"
  by (induction rule: list_emb.induct) (auto dest: list_emb_set)

lemma distinct_subseq: "subseq xs ys \<Longrightarrow> distinct ys \<Longrightarrow> distinct xs"
  by (induction rule: list_emb.induct) (auto dest: list_emb_set)

text \<open>C10: A merge takes over every change of one side. If a three-way merge of worktree states returns, then for
  every path that one side left as it was in the base (contents and mode, absence included) the result has the
  other side's version, for every path on which both sides agree it has that version, and none of these paths is
  reported as a conflict. The result lists its paths in order and without repetition.\<close>

theorem merge_takes_one_sided_changes:
  assumes "mergeFromBase env labels base ours theirs blobs = Inr (blobs', m)" and "base \<noteq> Some ours" and "base \<noteq> Some theirs"
    and "stateFiles env base = Inr baseFiles" and "stateFiles env (Some ours) = Inr oursFiles" and "stateFiles env (Some theirs) = Inr theirsFiles"
  shows "(version theirsFiles path = version baseFiles path \<longrightarrow>
        merged_version (mp_files m) path = version oursFiles path \<and> path \<notin> fst ` set (mp_conflicts m)) \<and>
     (version oursFiles path = version baseFiles path \<longrightarrow>
        merged_version (mp_files m) path = version theirsFiles path \<and> path \<notin> fst ` set (mp_conflicts m)) \<and>
     (version oursFiles path = version theirsFiles path \<longrightarrow>
        merged_version (mp_files m) path = version oursFiles path \<and> path \<notin> fst ` set (mp_conflicts m)) \<and>
     sorted (map mg_path (mp_files m)) \<and> distinct (map mg_path (mp_files m))"
proof -
  let ?b = "byPath baseFiles" and ?o = "byPath oursFiles" and ?t = "byPath theirsFiles"
  obtain acc where run: "fold_res (mergePath env labels ?b ?o ?t) \<lparr> ma_blobs = blobs, ma_files = [], ma_conflicts = [] \<rparr> (allPaths ?b ?o ?t) = Inr acc"
    and m: "mp_files m = ma_files acc" "mp_conflicts m = ma_conflicts acc"
    using assms by (auto simp: mergeFromBase_def Let_def)
  have keys: "sf_path sf = p" if "dget ?o p = Some sf \<or> dget ?t p = Some sf" for p sf
    using that keyed_dgetD [OF byPath_keyed] by blast
  obtain files conflicts where at: "filter (\<lambda>f. mg_path f = path) (ma_files acc) = files" "filter (\<lambda>c. fst c = path) (ma_conflicts acc) = conflicts"
      "if path \<in> set (allPaths ?b ?o ?t) then path_merge (dget ?b path) (dget ?o path) (dget ?t path) path files conflicts else files = [] \<and> conflicts = []"
    and sub: "subseq (map mg_path (ma_files acc)) (allPaths ?b ?o ?t)"
    using fold_merge [OF run allPaths_ok(1) keys, of path] by auto
  have "path_merge (dget ?b path) (dget ?o path) (dget ?t path) path files conflicts"
    using at(3) by (cases "path \<in> set (allPaths ?b ?o ?t)") (auto simp: allPaths_ok(3) path_merge_def merged_version_def)
  moreover have "merged_version (mp_files m) path = merged_version files path" using merged_version_filter at(1) m(1) by metis
  moreover have "conflicts = [] \<Longrightarrow> path \<notin> fst ` set (mp_conflicts m)" using at(2) m(2) by (auto simp: filter_empty_conv)
  moreover have "sorted (map mg_path (mp_files m))" "distinct (map mg_path (mp_files m))"
    using sorted_subseq [OF sub allPaths_ok(2)] distinct_subseq [OF sub allPaths_ok(1)] m(1) by simp_all
  ultimately show ?thesis unfolding path_merge_def version_def by metis
qed

definition sample_files :: "string \<Rightarrow> state_file list res" where
  "sample_files h =
     (if h = ''base'' then Inr [\<lparr> sf_path = ''a'', sf_hash = ''h1'', sf_mode = 420 \<rparr>]
      else if h = ''ours'' then Inr [\<lparr> sf_path = ''a'', sf_hash = ''h2'', sf_mode = 420 \<rparr>]
      else Inr [\<lparr> sf_path = ''b'', sf_hash = ''h3'', sf_mode = 420 \<rparr>, \<lparr> sf_path = ''a'', sf_hash = ''h1'', sf_mode = 420 \<rparr>])"

definition sample_merge_env :: merge_env where
  "sample_merge_env = \<lparr> mx_listStateFiles = sample_files, mx_getMergeBase = (\<lambda>_ _. Inr (Some ''base'')), mx_digest = (\<lambda>s. s),
     mx_decode = (\<lambda>s. s), mx_encode = (\<lambda>s. s) \<rparr>"

theorem merge_takes_one_sided_changes_witness:
  "\<exists>m. mergeFromBase sample_merge_env \<lparr> oursLabel = None, theirsLabel = None \<rparr> (Some ''base'') ''ours'' ''theirs'' [] = Inr ([], m) \<and>
     merged_version (mp_files m) ''a'' = Some (''h2'', 420) \<and> merged_version (mp_files m) ''b'' = Some (''h3'', 420)"
proof -
  let ?run = "mergeFromBase sample_merge_env \<lparr> oursLabel = None, theirsLabel = None \<rparr> (Some ''base'') ''ours'' ''theirs'' []"
  have "case ?run of Inl _ \<Rightarrow> False | Inr (blobs, m) \<Rightarrow> blobs = []" by code_simp
  then obtain m where run: "?run = Inr ([], m)" by (cases ?run) (auto split: prod.splits)
  have files: "stateFiles sample_merge_env (Some ''base'') = sample_files ''base''" "stateFiles sample_merge_env (Some ''ours'') = sample_files ''ours''"
    "stateFiles sample_merge_env (Some ''theirs'') = sample_files ''theirs''"
    by (simp_all add: stateFiles_def sample_merge_env_def)
  note merge = merge_takes_one_sided_changes [OF run _ _ files [unfolded sample_files_def, simplified], simplified]
  show ?thesis using run merge [of "''a''"] merge [of "''b''"] by (simp add: version_def byPath_def entry_def)
qed

text \<open>A change of mode makes a binary file conflict. If ours only changed the mode of a file that theirs gave
  new contents, and the contents look binary, the merge reports a conflict of contents and keeps the old contents,
  although only one side changed them.\<close>

theorem mode_change_makes_binary_conflict:
  assumes "dget base path = Some b" and "dget ours path = Some ourFile" and "dget theirs path = Some theirFile"
    and "sf_hash ourFile = sf_hash b" and "sf_mode ourFile \<noteq> sf_mode b" and "sf_hash theirFile \<noteq> sf_hash b"
    and "readBlob (ma_blobs acc) (sf_hash b) = Inr oldBytes" and "readBlob (ma_blobs acc) (sf_hash theirFile) = Inr newBytes"
    and "looksBinary oldBytes"
  shows "\<exists>acc'. mergePath env labels base ours theirs acc path = Inr acc' \<and> ma_conflicts acc' = ma_conflicts acc @ [(path, BinaryConflict)] \<and>
     map mg_hash (ma_files acc') = map mg_hash (ma_files acc) @ [sf_hash b]"
  using assms by (simp add: mergePath_def changed_def mergeContent_def keep_def flag_def Let_def)

definition sample_binary :: "string \<Rightarrow> int \<Rightarrow> state_file dict" where
  "sample_binary h mode = [(''x'', \<lparr> sf_path = ''x'', sf_hash = h, sf_mode = mode \<rparr>)]"

theorem mode_change_makes_binary_conflict_witness:
  "\<exists>acc'. mergePath sample_merge_env \<lparr> oursLabel = None, theirsLabel = None \<rparr> (sample_binary ''h1'' 420) (sample_binary ''h1'' 493)
       (sample_binary ''h2'' 420) \<lparr> ma_blobs = [(''h1'', [CHR 0x00]), (''h2'', [CHR 0x00, CHR 0x01])], ma_files = [], ma_conflicts = [] \<rparr> ''x'' = Inr acc' \<and>
     ma_conflicts acc' = [(''x'', BinaryConflict)] \<and> map mg_hash (ma_files acc') = [''h1'']"
  using mode_change_makes_binary_conflict [where base = "sample_binary ''h1'' 420" and ours = "sample_binary ''h1'' 493" and theirs = "sample_binary ''h2'' 420"
      and b = "snd (hd (sample_binary ''h1'' 420))" and ourFile = "snd (hd (sample_binary ''h1'' 493))" and theirFile = "snd (hd (sample_binary ''h2'' 420))"
      and env = sample_merge_env and labels = "\<lparr> oursLabel = None, theirsLabel = None \<rparr>" and oldBytes = "[CHR 0x00]" and newBytes = "[CHR 0x00, CHR 0x01]"
      and path = "''x''" and acc = "\<lparr> ma_blobs = [(''h1'', [CHR 0x00]), (''h2'', [CHR 0x00, CHR 0x01])], ma_files = [], ma_conflicts = [] \<rparr>"]
  by (simp add: sample_binary_def readBlob_def looksBinary_def)

end
