(* ===== verification/Leases.thy ===== *)
theory Leases
  imports Prelude "HOL-Library.Sublist"
begin

text \<open>
  Panel leases: the server's \<open>PanelRuntimeCoordinator\<close> (\<open>src/server/panelRuntimeCoordinator.ts\<close>), which hands the
  lease on a panel to one host at a time, and the \<open>LeaseTracker\<close> of a host (\<open>packages/shared/src/panel/leaseTracker.ts\<close>),
  which turns lease snapshots and change events into load and unload intents.

  An operation of the coordinator returns its new state with the result or the error thrown; what it did before it
  threw stays done. Emitted events and closed connections are lists in the state. Expiry timers are the dictionary
  of what each would release, and a timer that fires is an operation of its own. The clock and random ids are the
  environment; an optional flag that every reader defaults to false is a Boolean.
\<close>

subsection \<open>Ids\<close>

definition PANEL_SLOT_PREFIX :: string where "PANEL_SLOT_PREFIX = ''panel:tree/''"
definition PANEL_ENTITY_PREFIX :: string where "PANEL_ENTITY_PREFIX = ''panel:nav-''"

definition isPanelSlotId :: "string \<Rightarrow> bool" where
  "isPanelSlotId value \<longleftrightarrow> prefix PANEL_SLOT_PREFIX value"

definition isPanelEntityId :: "string \<Rightarrow> bool" where
  "isPanelEntityId value \<longleftrightarrow> prefix PANEL_ENTITY_PREFIX value"

definition asPanelSlotId :: "string \<Rightarrow> string res" where
  "asPanelSlotId value = (if isPanelSlotId value then Inr value else Inl (StoreError ''Not a panel slot id''))"

definition asPanelEntityId :: "string \<Rightarrow> string res" where
  "asPanelEntityId value = (if isPanelEntityId value then Inr value else Inl (StoreError ''Not a panel entity id''))"

subsection \<open>Leases, clients, events\<close>

record lease =
  le_slotId :: string
  le_runtimeEntityId :: string
  le_clientSessionId :: string
  le_hostConnectionId :: string
  le_connectionId :: string
  le_holderLabel :: string
  le_platform :: string
  le_supportsCdp :: bool
  le_loadOnLeaseAssignment :: bool
  le_keepLoaded :: bool
  le_acquiredAt :: int
  le_expiresAt :: "int option"

record host_registration =
  hr_clientSessionId :: string
  hr_hostConnectionId :: "string option"
  hr_ownerCallerId :: "string option"
  hr_label :: string
  hr_platform :: string
  hr_supportsCdp :: "bool option"
  hr_loadOnLeaseAssignment :: "bool option"

record client_session =
  cs_clientSessionId :: string
  cs_hostConnectionId :: string
  cs_ownerCallerId :: "string option"
  cs_label :: string
  cs_platform :: string
  cs_supportsCdp :: bool
  cs_loadOnLeaseAssignment :: bool
  cs_connectedAt :: int
  cs_lastSeenAt :: int

record lease_request =
  lr_slotId :: string
  lr_clientSessionId :: string
  lr_connectionId :: string
  lr_hostConnectionId :: "string option"

datatype lease_reason = Acquired | Released | Revoked | Expired | Retired

record lease_version =
  ver_epoch :: string
  ver_counter :: nat

record lease_event =
  lv_version :: lease_version
  lv_slotId :: string
  lv_runtimeEntityId :: string
  lv_previous :: "lease option"
  lv_next :: "lease option"
  lv_reason :: lease_reason

subsection \<open>The coordinator\<close>

record coordinator =
  co_epoch :: string
  co_counter :: nat
  co_leases :: "lease dict"
  co_clients :: "client_session dict"
  co_timers :: "string dict"
  co_defaultCdp :: "string list"
  co_kept :: "string list"
  co_events :: "lease_event list"
  co_closed :: "(string \<times> string \<times> nat) list"

record lease_env =
  lx_now :: int
  lx_uuid :: "nat \<Rightarrow> string"

definition LEASE_RECONNECT_GRACE_MS :: int where "LEASE_RECONNECT_GRACE_MS = 3000"

definition currentVersion :: "coordinator \<Rightarrow> lease_version" where
  "currentVersion c = \<lparr> ver_epoch = co_epoch c, ver_counter = co_counter c \<rparr>"

definition emitChange :: "string \<Rightarrow> string \<Rightarrow> lease option \<Rightarrow> lease option \<Rightarrow> lease_reason \<Rightarrow> coordinator \<Rightarrow> coordinator" where
  "emitChange entityId slotId previous next reason c0 =
     (let c = c0\<lparr>co_counter := co_counter c0 + 1\<rparr> in
      c\<lparr>co_events := co_events c @ [\<lparr> lv_version = currentVersion c, lv_slotId = slotId, lv_runtimeEntityId = entityId,
        lv_previous = previous, lv_next = next, lv_reason = reason \<rparr>]\<rparr>)"

definition clearExpiry :: "string \<Rightarrow> coordinator \<Rightarrow> coordinator" where
  "clearExpiry entityId c = c\<lparr>co_timers := ddel entityId (co_timers c)\<rparr>"

definition closeConnection :: "string \<Rightarrow> string \<Rightarrow> nat \<Rightarrow> coordinator \<Rightarrow> coordinator" where
  "closeConnection entityId connectionId code c = c\<lparr>co_closed := co_closed c @ [(entityId, connectionId, code)]\<rparr>"

definition restampOne :: "string \<Rightarrow> bool \<Rightarrow> string \<times> lease \<Rightarrow> coordinator \<Rightarrow> coordinator" where
  "restampOne slotId keepLoaded entry c =
     (case entry of (entityId, lease) \<Rightarrow>
        if le_slotId lease \<noteq> slotId \<or> le_keepLoaded lease = keepLoaded then c
        else let next = lease\<lparr>le_keepLoaded := keepLoaded\<rparr> in
          emitChange entityId slotId (Some lease) (Some next) Acquired (c\<lparr>co_leases := dput entityId next (co_leases c)\<rparr>))"

definition restampSlotKeepLoaded :: "string \<Rightarrow> bool \<Rightarrow> coordinator \<Rightarrow> coordinator" where
  "restampSlotKeepLoaded slotId keepLoaded c = fold (restampOne slotId keepLoaded) (co_leases c) c"

definition pinSlotLoaded :: "string \<Rightarrow> coordinator \<Rightarrow> coordinator \<times> unit res" where
  "pinSlotLoaded slotId c =
     (case asPanelSlotId slotId of
        Inl e \<Rightarrow> (c, Inl e)
      | Inr slot \<Rightarrow>
          if slot \<in> set (co_kept c) then (c, Inr ())
          else (restampSlotKeepLoaded slot True (c\<lparr>co_kept := co_kept c @ [slot]\<rparr>), Inr ()))"

definition unpinSlotLoaded :: "string \<Rightarrow> coordinator \<Rightarrow> coordinator \<times> unit res" where
  "unpinSlotLoaded slotId c =
     (case asPanelSlotId slotId of
        Inl e \<Rightarrow> (c, Inl e)
      | Inr slot \<Rightarrow>
          if slot \<notin> set (co_kept c) then (c, Inr ())
          else (restampSlotKeepLoaded slot False (c\<lparr>co_kept := removeAll slot (co_kept c)\<rparr>), Inr ()))"

definition registerClient :: "lease_env \<Rightarrow> host_registration \<Rightarrow> coordinator \<Rightarrow> coordinator" where
  "registerClient env input c =
     (let sid = hr_clientSessionId input; existing = dget (co_clients c) sid in
      c\<lparr>co_clients := dput sid
          \<lparr> cs_clientSessionId = sid,
            cs_hostConnectionId = (case hr_hostConnectionId input of Some h \<Rightarrow> h
              | None \<Rightarrow> (case existing of Some old \<Rightarrow> cs_hostConnectionId old | None \<Rightarrow> sid)),
            cs_ownerCallerId = (case hr_ownerCallerId input of Some owner \<Rightarrow> Some owner
              | None \<Rightarrow> Option.bind existing cs_ownerCallerId),
            cs_label = hr_label input, cs_platform = hr_platform input,
            cs_supportsCdp = (case hr_supportsCdp input of Some b \<Rightarrow> b | None \<Rightarrow> hr_platform input \<noteq> ''mobile''),
            cs_loadOnLeaseAssignment = (case hr_loadOnLeaseAssignment input of Some b \<Rightarrow> b | None \<Rightarrow> False),
            cs_connectedAt = (case existing of Some old \<Rightarrow> cs_connectedAt old | None \<Rightarrow> lx_now env),
            cs_lastSeenAt = lx_now env \<rparr> (co_clients c)\<rparr>)"

text \<open>\<open>writeLease\<close> checks the client first; an unknown one throws.\<close>

definition writeLease :: "lease_env \<Rightarrow> string \<Rightarrow> lease_request \<Rightarrow> lease_reason \<Rightarrow> bool \<Rightarrow> coordinator \<Rightarrow> coordinator \<times> lease res" where
  "writeLease env entityId input reason defaultCdpLease c0 =
     (case dget (co_clients c0) (lr_clientSessionId input) of
        None \<Rightarrow> (c0, Inl (StoreError ''Unknown runtime client session''))
      | Some client \<Rightarrow>
          (case asPanelSlotId (lr_slotId input) of
             Inl e \<Rightarrow> (c0, Inl e)
           | Inr slotId \<Rightarrow>
               let previous = dget (co_leases c0) entityId;
                   c1 = clearExpiry entityId c0;
                   c2 = (case previous of None \<Rightarrow> c1 | Some p \<Rightarrow> c1\<lparr>co_defaultCdp := removeAll (le_connectionId p) (co_defaultCdp c1)\<rparr>);
                   lease = \<lparr> le_slotId = slotId, le_runtimeEntityId = entityId, le_clientSessionId = lr_clientSessionId input,
                     le_hostConnectionId = (case lr_hostConnectionId input of Some h \<Rightarrow> h | None \<Rightarrow> cs_hostConnectionId client),
                     le_connectionId = lr_connectionId input, le_holderLabel = cs_label client, le_platform = cs_platform client,
                     le_supportsCdp = cs_supportsCdp client, le_loadOnLeaseAssignment = cs_loadOnLeaseAssignment client,
                     le_keepLoaded = (slotId \<in> set (co_kept c2)), le_acquiredAt = lx_now env, le_expiresAt = None \<rparr>;
                   c3 = c2\<lparr>co_leases := dput entityId lease (co_leases c2)\<rparr>;
                   c4 = (if defaultCdpLease then c3\<lparr>co_defaultCdp := List.insert (le_connectionId lease) (co_defaultCdp c3)\<rparr> else c3)
               in (emitChange entityId slotId previous (Some lease) reason c4, Inr lease)))"

definition eligible :: "(string \<Rightarrow> bool) option \<Rightarrow> client_session \<Rightarrow> bool" where
  "eligible isHostAvailable client \<longleftrightarrow>
     cs_supportsCdp client \<and> cs_loadOnLeaseAssignment client \<and>
     (case isHostAvailable of None \<Rightarrow> True | Some available \<Rightarrow> available (cs_hostConnectionId client))"

definition getDefaultCdpHostClient :: "(string \<Rightarrow> bool) option \<Rightarrow> coordinator \<Rightarrow> client_session option" where
  "getDefaultCdpHostClient isHostAvailable c =
     (let clients = map snd (co_clients c) in
      find (eligible isHostAvailable)
        (filter (\<lambda>client. cs_platform client = ''headless'') clients @ filter (\<lambda>client. cs_platform client \<noteq> ''headless'') clients))"

definition defaultCdpRequest :: "lease_env \<Rightarrow> string \<Rightarrow> client_session \<Rightarrow> coordinator \<Rightarrow> lease_request" where
  "defaultCdpRequest env slotId client c =
     \<lparr> lr_slotId = slotId, lr_clientSessionId = cs_clientSessionId client,
       lr_connectionId = ''default-cdp-'' @ slotId @ ''-'' @ lx_uuid env (co_counter c), lr_hostConnectionId = Some (cs_hostConnectionId client) \<rparr>"

definition assignDefaultCdpHost :: "lease_env \<Rightarrow> string \<Rightarrow> string \<Rightarrow> coordinator \<Rightarrow> coordinator \<times> lease option res" where
  "assignDefaultCdpHost env entityId slotId c =
     (case getDefaultCdpHostClient None c of
        None \<Rightarrow> (c, Inr None)
      | Some client \<Rightarrow>
          (case writeLease env entityId (defaultCdpRequest env slotId client c) Acquired True c of
             (c', Inl e) \<Rightarrow> (c', Inl e) | (c', Inr lease) \<Rightarrow> (c', Inr (Some lease))))"

definition shouldReassignDefaultCdpLease :: "lease \<Rightarrow> bool \<Rightarrow> bool" where
  "shouldReassignDefaultCdpLease lease wasDefaultCdpLease \<longleftrightarrow> wasDefaultCdpLease \<and> le_platform lease \<noteq> ''headless''"

text \<open>A lease goes away: timer, table, default connections, optionally the connection, event.\<close>

definition dropLease :: "string \<Rightarrow> lease \<Rightarrow> nat option \<Rightarrow> lease_reason \<Rightarrow> coordinator \<Rightarrow> coordinator" where
  "dropLease entityId lease close reason c0 =
     (let c1 = clearExpiry entityId c0;
          c2 = c1\<lparr>co_leases := ddel entityId (co_leases c1), co_defaultCdp := removeAll (le_connectionId lease) (co_defaultCdp c1)\<rparr>;
          c3 = (case close of None \<Rightarrow> c2 | Some code \<Rightarrow> closeConnection (le_runtimeEntityId lease) (le_connectionId lease) code c2)
      in emitChange entityId (le_slotId lease) (Some lease) None reason c3)"

definition reassign :: "lease_env \<Rightarrow> string \<times> lease \<times> bool \<Rightarrow> coordinator \<Rightarrow> coordinator" where
  "reassign env released c =
     (case released of (entityId, lease, wasDefault) \<Rightarrow>
        if shouldReassignDefaultCdpLease lease wasDefault then fst (assignDefaultCdpHost env entityId (le_slotId lease) c) else c)"

text \<open>Whether a released lease was a default one is looked up before its connection is removed.\<close>

definition releaseOne :: "string \<times> lease \<Rightarrow> coordinator \<times> (string \<times> lease \<times> bool) list \<Rightarrow> coordinator \<times> (string \<times> lease \<times> bool) list" where
  "releaseOne entry acc =
     (case (entry, acc) of ((entityId, lease), (c, released)) \<Rightarrow>
        (dropLease entityId lease (Some 4095) Released c,
         released @ [(entityId, lease, le_connectionId lease \<in> set (co_defaultCdp c))]))"

definition unregisterClient :: "lease_env \<Rightarrow> string \<Rightarrow> coordinator \<Rightarrow> coordinator" where
  "unregisterClient env clientSessionId c0 =
     (if dget (co_clients c0) clientSessionId = None then c0
      else
        let c1 = c0\<lparr>co_clients := ddel clientSessionId (co_clients c0)\<rparr>;
            mine = filter (\<lambda>(_, lease). le_clientSessionId lease = clientSessionId) (co_leases c1);
            (c2, released) = fold releaseOne mine (c1, [])
        in fold (reassign env) released c2)"

definition getSnapshot :: "coordinator \<Rightarrow> lease_version \<times> lease list" where
  "getSnapshot c = (currentVersion c, map snd (co_leases c))"

definition getLease :: "string \<Rightarrow> coordinator \<Rightarrow> lease option" where
  "getLease entityId c = (if isPanelEntityId entityId then dget (co_leases c) entityId else None)"

definition hasClientHostConnection :: "string \<Rightarrow> string option \<Rightarrow> coordinator \<Rightarrow> bool" where
  "hasClientHostConnection hostConnectionId ownerCallerId c =
     (case find (\<lambda>client. cs_hostConnectionId client = hostConnectionId) (map snd (co_clients c)) of
        None \<Rightarrow> False
      | Some client \<Rightarrow>
          (case (ownerCallerId, cs_ownerCallerId client) of
             (Some owner, Some other) \<Rightarrow> owner = [] \<or> other = [] \<or> other = owner
           | _ \<Rightarrow> True))"

definition ownsClientSession :: "string \<Rightarrow> string \<Rightarrow> coordinator \<Rightarrow> bool" where
  "ownsClientSession clientSessionId ownerCallerId c =
     (case dget (co_clients c) clientSessionId of
        None \<Rightarrow> False | Some client \<Rightarrow> (case cs_ownerCallerId client of None \<Rightarrow> True | Some owner \<Rightarrow> owner = ownerCallerId))"

definition lease_of_slot :: "string \<Rightarrow> coordinator \<Rightarrow> lease option" where
  "lease_of_slot slotId c = find (\<lambda>lease. le_slotId lease = slotId) (map snd (co_leases c))"

definition resolveHostForSlot :: "string \<Rightarrow> coordinator \<Rightarrow> (string \<times> bool) option res" where
  "resolveHostForSlot slotId c =
     bind_res (asPanelSlotId slotId) (\<lambda>slot. Inr (map_option (\<lambda>lease. (le_hostConnectionId lease, le_supportsCdp lease)) (lease_of_slot slot c)))"

datatype default_host = Assigned lease | AlreadyHeld lease | MobileHeld lease | NoDefaultCdpHost

definition heldBy :: "lease \<Rightarrow> default_host" where
  "heldBy lease = (if le_supportsCdp lease then AlreadyHeld lease else MobileHeld lease)"

definition ensureDefaultCdpHostForSlot ::
  "lease_env \<Rightarrow> string \<Rightarrow> string \<Rightarrow> (string \<Rightarrow> bool) option \<Rightarrow> coordinator \<Rightarrow> coordinator \<times> default_host res" where
  "ensureDefaultCdpHostForSlot env slotId runtimeEntityId isHostAvailable c =
     (case (asPanelSlotId slotId, asPanelEntityId runtimeEntityId) of
        (Inl e, _) \<Rightarrow> (c, Inl e)
      | (Inr slot, Inl e) \<Rightarrow> (c, Inl e)
      | (Inr slot, Inr entityId) \<Rightarrow>
          (case dget (co_leases c) entityId of
             Some existing \<Rightarrow> (c, Inr (heldBy existing))
           | None \<Rightarrow>
               (case lease_of_slot slot c of
                  Some lease \<Rightarrow> (c, Inr (heldBy lease))
                | None \<Rightarrow>
                    (case getDefaultCdpHostClient isHostAvailable c of
                       None \<Rightarrow> (c, Inr NoDefaultCdpHost)
                     | Some client \<Rightarrow>
                         (case writeLease env entityId (defaultCdpRequest env slotId client c) Acquired True c of
                            (c', Inl e) \<Rightarrow> (c', Inl e) | (c', Inr lease) \<Rightarrow> (c', Inr (Assigned lease)))))))"

datatype acquire_result = AcquireDone lease | AcquireDenied lease

definition acquired :: "coordinator \<times> lease res \<Rightarrow> coordinator \<times> acquire_result res" where
  "acquired result = (fst result, bind_res (snd result) (\<lambda>lease. Inr (AcquireDone lease)))"

definition acquire :: "lease_env \<Rightarrow> string \<Rightarrow> lease_request \<Rightarrow> coordinator \<Rightarrow> coordinator \<times> acquire_result res" where
  "acquire env runtimeEntityId input c =
     (case asPanelEntityId runtimeEntityId of
        Inl e \<Rightarrow> (c, Inl e)
      | Inr entityId \<Rightarrow>
          (case dget (co_leases c) entityId of
             Some existing \<Rightarrow>
               if le_connectionId existing \<noteq> lr_connectionId input \<and> le_clientSessionId existing \<noteq> lr_clientSessionId input
               then (c, Inr (AcquireDenied existing))
               else acquired (writeLease env entityId input Acquired False c)
           | None \<Rightarrow> acquired (writeLease env entityId input Acquired False c)))"

definition takeOver :: "lease_env \<Rightarrow> string \<Rightarrow> lease_request \<Rightarrow> coordinator \<Rightarrow> coordinator \<times> acquire_result res" where
  "takeOver env runtimeEntityId input c0 =
     (case asPanelEntityId runtimeEntityId of
        Inl e \<Rightarrow> (c0, Inl e)
      | Inr entityId \<Rightarrow>
          let c = (case dget (co_leases c0) entityId of
                     Some existing \<Rightarrow>
                       if le_connectionId existing \<noteq> lr_connectionId input
                       then emitChange entityId (le_slotId existing) (Some existing) None Revoked
                              (closeConnection runtimeEntityId (le_connectionId existing) 4091 c0)
                       else c0
                   | None \<Rightarrow> c0)
          in acquired (writeLease env entityId input Acquired False c))"

definition release :: "lease_env \<Rightarrow> string \<Rightarrow> string \<Rightarrow> lease_reason \<Rightarrow> coordinator \<Rightarrow> coordinator \<times> unit res" where
  "release env runtimeEntityId connectionId reason c =
     (case asPanelEntityId runtimeEntityId of
        Inl e \<Rightarrow> (c, Inl e)
      | Inr entityId \<Rightarrow>
          (case dget (co_leases c) entityId of
             None \<Rightarrow> (c, Inr ())
           | Some existing \<Rightarrow>
               if le_connectionId existing \<noteq> connectionId then (c, Inr ())
               else if le_slotId existing \<in> set (co_kept c) then (clearExpiry entityId c, Inr ())
               else
                 let wasDefault = le_connectionId existing \<in> set (co_defaultCdp c); c' = dropLease entityId existing None reason c in
                 (if (reason = Released \<or> reason = Expired) \<and> shouldReassignDefaultCdpLease existing wasDefault
                  then fst (assignDefaultCdpHost env entityId (le_slotId existing) c') else c', Inr ())))"

definition unloadSlot :: "string \<Rightarrow> coordinator \<Rightarrow> coordinator \<times> lease option res" where
  "unloadSlot slotId c =
     (case asPanelSlotId slotId of
        Inl e \<Rightarrow> (c, Inl e)
      | Inr slot \<Rightarrow>
          if slot \<in> set (co_kept c) then (c, Inr None)
          else
            (case find (\<lambda>(_, lease). le_slotId lease = slot) (co_leases c) of
               None \<Rightarrow> (c, Inr None)
             | Some (entityId, lease) \<Rightarrow> (dropLease entityId lease (Some 4094) Released c, Inr (Some lease))))"

definition retireRuntimeEntity :: "string \<Rightarrow> coordinator \<Rightarrow> coordinator" where
  "retireRuntimeEntity entityId c =
     (if \<not> isPanelEntityId entityId then c
      else
        (case dget (co_leases c) entityId of
           None \<Rightarrow> c
         | Some existing \<Rightarrow>
             emitChange entityId (le_slotId existing) (Some existing) None Retired
               (closeConnection entityId (le_connectionId existing) 4093
                 ((clearExpiry entityId c)\<lparr>co_leases := ddel entityId (co_leases c),
                    co_defaultCdp := removeAll (le_connectionId existing) (co_defaultCdp c)\<rparr>))))"

definition authorizePanelConnection :: "string \<Rightarrow> string \<Rightarrow> coordinator \<Rightarrow> (string + unit) res" where
  "authorizePanelConnection runtimeEntityId connectionId c =
     bind_res (asPanelEntityId runtimeEntityId) (\<lambda>entityId.
       case dget (co_leases c) entityId of
         None \<Rightarrow> Inr (Inl ''Panel runtime has no active lease'')
       | Some lease \<Rightarrow>
           if le_connectionId lease \<noteq> connectionId then Inr (Inl (''Panel runtime is leased by '' @ le_holderLabel lease)) else Inr (Inr ()))"

definition markConnected :: "string \<Rightarrow> string \<Rightarrow> coordinator \<Rightarrow> coordinator \<times> unit res" where
  "markConnected runtimeEntityId connectionId c =
     (case asPanelEntityId runtimeEntityId of
        Inl e \<Rightarrow> (c, Inl e)
      | Inr entityId \<Rightarrow>
          (case dget (co_leases c) entityId of
             None \<Rightarrow> (c, Inr ())
           | Some lease \<Rightarrow>
               if le_connectionId lease \<noteq> connectionId then (c, Inr ())
               else
                 let c1 = clearExpiry entityId c; next = lease\<lparr>le_expiresAt := None\<rparr> in
                 (if le_expiresAt lease \<noteq> None
                  then emitChange entityId (le_slotId lease) (Some lease) (Some next) Acquired (c1\<lparr>co_leases := dput entityId next (co_leases c1)\<rparr>)
                  else c1, Inr ())))"

definition markDisconnected :: "lease_env \<Rightarrow> string \<Rightarrow> string \<Rightarrow> coordinator \<Rightarrow> coordinator \<times> unit res" where
  "markDisconnected env runtimeEntityId connectionId c =
     (case asPanelEntityId runtimeEntityId of
        Inl e \<Rightarrow> (c, Inl e)
      | Inr entityId \<Rightarrow>
          (case dget (co_leases c) entityId of
             None \<Rightarrow> (c, Inr ())
           | Some lease \<Rightarrow>
               if le_connectionId lease \<noteq> connectionId then (c, Inr ())
               else
                 let c1 = clearExpiry entityId c; next = lease\<lparr>le_expiresAt := Some (lx_now env + LEASE_RECONNECT_GRACE_MS)\<rparr>;
                     c2 = emitChange entityId (le_slotId lease) (Some lease) (Some next) Released
                            (c1\<lparr>co_leases := dput entityId next (co_leases c1)\<rparr>)
                 in (c2\<lparr>co_timers := dput entityId connectionId (co_timers c2)\<rparr>, Inr ())))"

text \<open>The timer that \<open>markDisconnected\<close> set fires, once.\<close>

definition expiryFires :: "lease_env \<Rightarrow> string \<Rightarrow> coordinator \<Rightarrow> coordinator \<times> unit res" where
  "expiryFires env entityId c =
     (case dget (co_timers c) entityId of
        None \<Rightarrow> (c, Inr ())
      | Some connectionId \<Rightarrow> release env entityId connectionId Expired (clearExpiry entityId c))"

definition resolveRouteLease :: "string \<Rightarrow> coordinator \<Rightarrow> lease option" where
  "resolveRouteLease targetId c =
     (case (if isPanelEntityId targetId then dget (co_leases c) targetId else None) of
        Some lease \<Rightarrow> Some lease
      | None \<Rightarrow> if isPanelSlotId targetId then lease_of_slot targetId c else None)"

definition resolveRouteConnection :: "string \<Rightarrow> coordinator \<Rightarrow> string option" where
  "resolveRouteConnection targetId c = map_option le_connectionId (resolveRouteLease targetId c)"

definition resolveRouteRuntimeEntityId :: "string \<Rightarrow> coordinator \<Rightarrow> string option" where
  "resolveRouteRuntimeEntityId targetId c = map_option le_runtimeEntityId (resolveRouteLease targetId c)"

subsection \<open>The tracker of a host\<close>

datatype unload_reason = LeaseTransfer | LeaseReleased | LeaseStale

datatype lease_intent = LoadPanel string string string | UnloadPanel string unload_reason

record held_lease =
  hl_runtimeEntityId :: string
  hl_connectionId :: string
  hl_keepLoaded :: bool

record lease_tracker =
  tk_clientSessionId :: string
  tk_held :: "held_lease dict"
  tk_version :: "lease_version option"

definition versionNewer :: "lease_version \<Rightarrow> lease_version option \<Rightarrow> bool" where
  "versionNewer a b' =
     (case b' of None \<Rightarrow> True | Some b \<Rightarrow> if ver_epoch a \<noteq> ver_epoch b then True else ver_counter a > ver_counter b)"

datatype disposition = AssignedTo lease | Unassigned string unload_reason lease | Unrelated

definition classifyRuntimeLeaseChange :: "string \<Rightarrow> lease_event \<Rightarrow> disposition" where
  "classifyRuntimeLeaseChange clientSessionId event =
     (if map_option le_clientSessionId (lv_next event) = Some clientSessionId then AssignedTo (the (lv_next event))
      else if map_option le_clientSessionId (lv_previous event) = Some clientSessionId
      then Unassigned (lv_slotId event) (if lv_next event \<noteq> None then LeaseTransfer else LeaseReleased) (the (lv_previous event))
      else Unrelated)"

definition heldFrom :: "lease \<Rightarrow> held_lease" where
  "heldFrom lease = \<lparr> hl_runtimeEntityId = le_runtimeEntityId lease, hl_connectionId = le_connectionId lease, hl_keepLoaded = le_keepLoaded lease \<rparr>"

definition loadIntent :: "string \<Rightarrow> lease \<Rightarrow> lease_intent" where
  "loadIntent slotId lease = LoadPanel slotId (le_runtimeEntityId lease) (le_connectionId lease)"

text \<open>One held slot against the snapshot; \<open>mine\<close> are the leases of this host by slot.\<close>

definition reconcileHeld :: "lease dict \<Rightarrow> string \<times> held_lease \<Rightarrow> held_lease dict \<times> lease_intent list \<Rightarrow> held_lease dict \<times> lease_intent list" where
  "reconcileHeld mine entry acc =
     (case (entry, acc) of ((slotId, current), (held, intents)) \<Rightarrow>
        (case dget mine slotId of
           None \<Rightarrow>
             if hl_keepLoaded current then (held, intents) else (ddel slotId held, intents @ [UnloadPanel slotId LeaseTransfer])
         | Some next \<Rightarrow>
             if le_connectionId next \<noteq> hl_connectionId current
             then (dput slotId (heldFrom next) held, intents @ [UnloadPanel slotId LeaseStale, loadIntent slotId next])
             else if le_keepLoaded next \<noteq> hl_keepLoaded current
             then (dput slotId (current\<lparr>hl_keepLoaded := le_keepLoaded next\<rparr>) held, intents)
             else (held, intents)))"

definition loadNew :: "string \<times> lease \<Rightarrow> held_lease dict \<times> lease_intent list \<Rightarrow> held_lease dict \<times> lease_intent list" where
  "loadNew entry acc =
     (case (entry, acc) of ((slotId, lease), (held, intents)) \<Rightarrow>
        if dget held slotId = None then (dput slotId (heldFrom lease) held, intents @ [loadIntent slotId lease]) else (held, intents))"

definition leasesOf :: "string \<Rightarrow> lease list \<Rightarrow> lease dict" where
  "leasesOf clientSessionId leases =
     fold (\<lambda>lease m. if le_clientSessionId lease = clientSessionId then dput (le_slotId lease) lease m else m) leases []"

definition tracker_reconcile :: "lease_version \<times> lease list \<Rightarrow> lease_tracker \<Rightarrow> lease_tracker \<times> lease_intent list" where
  "tracker_reconcile snapshot t =
     (let mine = leasesOf (tk_clientSessionId t) (snd snapshot);
          (held, intents) = fold loadNew mine (fold (reconcileHeld mine) (tk_held t) (tk_held t, []))
      in (t\<lparr>tk_version := Some (fst snapshot), tk_held := held\<rparr>, intents))"

definition tracker_apply :: "lease_event \<Rightarrow> lease_tracker \<Rightarrow> lease_tracker \<times> lease_intent list" where
  "tracker_apply event t0 =
     (if \<not> versionNewer (lv_version event) (tk_version t0) then (t0, [])
      else
        let t = t0\<lparr>tk_version := Some (lv_version event)\<rparr>; slotId = lv_slotId event; current = dget (tk_held t) slotId;
            hold = (\<lambda>h. t\<lparr>tk_held := dput slotId h (tk_held t)\<rparr>) in
        case classifyRuntimeLeaseChange (tk_clientSessionId t) event of
          AssignedTo lease \<Rightarrow>
            (case current of
               None \<Rightarrow> (hold (heldFrom lease), [loadIntent slotId lease])
             | Some cur \<Rightarrow>
                 if hl_connectionId cur \<noteq> le_connectionId lease
                 then (hold (heldFrom lease), [UnloadPanel slotId LeaseStale, loadIntent slotId lease])
                 else if le_keepLoaded lease \<noteq> hl_keepLoaded cur then (hold (cur\<lparr>hl_keepLoaded := le_keepLoaded lease\<rparr>), [])
                 else (t, []))
        | Unassigned slot reason previous \<Rightarrow>
            (case current of
               None \<Rightarrow> (t, [])
             | Some cur \<Rightarrow>
                 if hl_keepLoaded cur then (t, [])
                 else (t\<lparr>tk_held := ddel slotId (tk_held t)\<rparr>, [UnloadPanel slotId reason]))
        | Unrelated \<Rightarrow> (t, []))"

definition tracker_drop :: "string \<Rightarrow> lease_tracker \<Rightarrow> lease_tracker" where
  "tracker_drop slotId t = t\<lparr>tk_held := ddel slotId (tk_held t)\<rparr>"

definition heldSlots :: "lease_tracker \<Rightarrow> string list" where
  "heldSlots t = map fst (tk_held t)"

definition tracker_heldLease :: "string \<Rightarrow> lease_tracker \<Rightarrow> held_lease option" where
  "tracker_heldLease slotId t = dget (tk_held t) slotId"

end
