(* ===== verification/LeaseProofs.thy ===== *)
theory LeaseProofs
  imports Leases
begin

text \<open>
  The coordinator and its hosts together. The events the coordinator emits are a complete history of its table,
  so a tracker that took a snapshot and applied every event after it holds exactly the panels leased to its host,
  pinned ones aside; and the intents a tracker returns keep what the host has loaded equal to what it holds.
\<close>

subsection \<open>Histories\<close>

type_synonym ledger = "string \<Rightarrow> lease option"

text \<open>An event describes a change of a ledger: it names the lease that was there, and no other lease has its slot.\<close>

definition describes :: "ledger \<Rightarrow> lease_event \<Rightarrow> bool" where
  "describes L ev \<longleftrightarrow>
     (\<forall>l. L (lv_runtimeEntityId ev) = Some l \<longrightarrow> lv_previous ev = Some l \<and> le_slotId l = lv_slotId ev) \<and>
     (\<forall>l. lv_next ev = Some l \<longrightarrow> le_slotId l = lv_slotId ev) \<and>
     (\<forall>e l. e \<noteq> lv_runtimeEntityId ev \<longrightarrow> L e = Some l \<longrightarrow> le_slotId l \<noteq> lv_slotId ev)"

definition ledger_after :: "ledger \<Rightarrow> lease_event \<Rightarrow> ledger" where
  "ledger_after L ev = L(lv_runtimeEntityId ev := lv_next ev)"

definition next_version :: "lease_version \<Rightarrow> lease_version" where
  "next_version v = v\<lparr>ver_counter := Suc (ver_counter v)\<rparr>"

inductive history :: "lease_version \<Rightarrow> ledger \<Rightarrow> lease_event list \<Rightarrow> lease_version \<Rightarrow> ledger \<Rightarrow> bool" where
  history_nil: "history v L [] v L"
| history_cons: "describes L ev \<Longrightarrow> lv_version ev = next_version v \<Longrightarrow>
    history (next_version v) (ledger_after L ev) evs v' L' \<Longrightarrow> history v L (ev # evs) v' L'"

inductive_simps history_nil_iff [simp]: "history v L [] v' L'"
inductive_simps history_cons_iff [simp]: "history v L (ev # evs) v' L'"

lemma history_append:
  "history v L evs v' L' \<Longrightarrow> history v' L' evs' v'' L'' \<Longrightarrow> history v L (evs @ evs') v'' L''"
  by (induction rule: history.induct) auto

subsection \<open>The table of leases\<close>

definition table_ok :: "coordinator \<Rightarrow> bool" where
  "table_ok c \<longleftrightarrow> distinct (map fst (co_leases c)) \<and>
     (\<forall>e l. dget (co_leases c) e = Some l \<longrightarrow> isPanelSlotId (le_slotId l)) \<and>
     (\<forall>e e' l l'. dget (co_leases c) e = Some l \<longrightarrow> dget (co_leases c) e' = Some l' \<longrightarrow> le_slotId l = le_slotId l' \<longrightarrow> e = e')"

text \<open>The entity is, if anything is, what is leased in the slot.\<close>

definition fits :: "ledger \<Rightarrow> string \<Rightarrow> string \<Rightarrow> bool" where
  "fits L e slot \<longleftrightarrow> (\<forall>e' l. L e' = Some l \<longrightarrow> (e' = e \<longleftrightarrow> le_slotId l = slot))"

definition emitted :: "coordinator \<Rightarrow> lease_event list \<Rightarrow> coordinator \<Rightarrow> bool" where
  "emitted c evs c' \<longleftrightarrow> co_events c' = co_events c @ evs \<and>
     history (currentVersion c) (dget (co_leases c)) evs (currentVersion c') (dget (co_leases c'))"

definition tracked :: "coordinator \<Rightarrow> coordinator \<Rightarrow> bool" where
  "tracked c c' \<longleftrightarrow> (table_ok c \<longrightarrow> table_ok c' \<and> (\<exists>evs. emitted c evs c'))"

lemma emitted_trans: "emitted c evs c' \<Longrightarrow> emitted c' evs' c'' \<Longrightarrow> emitted c (evs @ evs') c''"
  by (auto simp: emitted_def intro: history_append)

lemma tracked_trans: "tracked c c' \<Longrightarrow> tracked c' c'' \<Longrightarrow> tracked c c''"
  by (meson tracked_def emitted_trans)

lemma tracked_frame:
  "co_leases c' = co_leases c \<Longrightarrow> co_events c' = co_events c \<Longrightarrow> co_counter c' = co_counter c \<Longrightarrow> co_epoch c' = co_epoch c \<Longrightarrow>
     tracked c c'"
  by (auto simp: tracked_def emitted_def table_ok_def currentVersion_def intro: exI [of _ "[]"])

lemma tracked_refl [simp]: "tracked c c"
  by (rule tracked_frame) simp_all

text \<open>What changes the table: some bookkeeping, the entry of one entity, one event.\<close>

definition entry_change ::
  "string \<Rightarrow> string \<Rightarrow> lease option \<Rightarrow> lease option \<Rightarrow> coordinator \<Rightarrow> coordinator \<Rightarrow> bool" where
  "entry_change e slot previous next c c' \<longleftrightarrow>
     co_leases c' = (case next of None \<Rightarrow> ddel e (co_leases c) | Some l \<Rightarrow> dput e l (co_leases c)) \<and>
     co_epoch c' = co_epoch c \<and> co_counter c' = Suc (co_counter c) \<and>
     (\<exists>reason. co_events c' = co_events c @ [\<lparr> lv_version = currentVersion c', lv_slotId = slot, lv_runtimeEntityId = e,
        lv_previous = previous, lv_next = next, lv_reason = reason \<rparr>])"

lemma entry_change_leases:
  "entry_change e slot previous next c c' \<Longrightarrow> dget (co_leases c') = (dget (co_leases c))(e := next)"
  by (auto simp: entry_change_def split: option.splits)

lemma table_ok_entry_change:
  assumes "table_ok c" "entry_change e slot previous next c c'" "fits (dget (co_leases c)) e slot"
    and "\<And>l. next = Some l \<Longrightarrow> le_slotId l = slot \<and> isPanelSlotId slot"
  shows "table_ok c'"
proof -
  have "distinct (map fst (co_leases c'))"
    using assms(1,2) by (auto simp: entry_change_def table_ok_def distinct_update distinct_delete split: option.splits)
  then show ?thesis
    using assms(1,3,4) by (auto simp: table_ok_def entry_change_leases [OF assms(2)] fits_def split: if_splits)
qed

lemma history_entry_change:
  assumes "entry_change e slot previous next c c'" "fits L e slot" "L e = None \<or> L e = previous"
    and "\<And>l. next = Some l \<Longrightarrow> le_slotId l = slot"
  shows "\<exists>ev. co_events c' = co_events c @ [ev] \<and> history (currentVersion c) L [ev] (currentVersion c') (L(e := next))"
proof -
  have "currentVersion c' = next_version (currentVersion c)"
    using assms(1) by (simp add: entry_change_def currentVersion_def next_version_def)
  moreover obtain reason where "co_events c' = co_events c @ [\<lparr> lv_version = currentVersion c', lv_slotId = slot, lv_runtimeEntityId = e,
        lv_previous = previous, lv_next = next, lv_reason = reason \<rparr>]"
    using assms(1) by (auto simp: entry_change_def)
  ultimately show ?thesis
    using assms(2-4) by (auto simp: describes_def ledger_after_def fits_def)
qed

lemma tracked_entry_change:
  assumes "entry_change e slot previous next c c'" "fits (dget (co_leases c)) e slot"
    and "previous = dget (co_leases c) e" "\<And>l. next = Some l \<Longrightarrow> le_slotId l = slot \<and> isPanelSlotId slot"
  shows "tracked c c'"
  unfolding tracked_def emitted_def entry_change_leases [OF assms(1)]
  using table_ok_entry_change [OF _ assms(1,2)] history_entry_change [OF assms(1,2)] assms(3,4) by metis

lemma table_ok_fits:
  "table_ok c \<Longrightarrow> dget (co_leases c) e = Some l \<Longrightarrow> fits (dget (co_leases c)) e (le_slotId l)"
  unfolding table_ok_def fits_def by (metis option.inject)

lemma tracked_entry_change_at:
  assumes "entry_change e (le_slotId l) (Some l) next c c'" "dget (co_leases c) e = Some l"
    and "\<And>l'. next = Some l' \<Longrightarrow> le_slotId l' = le_slotId l"
  shows "tracked c c'"
proof (cases "table_ok c")
  case True
  then have slot: "isPanelSlotId (le_slotId l)"
    using assms(2) unfolding table_ok_def by blast
  show ?thesis
    by (rule tracked_entry_change [OF assms(1) table_ok_fits [OF True assms(2)] assms(2) [symmetric]])
      (use slot assms(3) in blast)
qed (simp add: tracked_def)

subsection \<open>Every operation is tracked\<close>

lemma entry_change_emit:
  assumes "co_leases c1 = (case next of None \<Rightarrow> ddel e (co_leases c) | Some l \<Rightarrow> dput e l (co_leases c))"
    "co_events c1 = co_events c" "co_counter c1 = co_counter c" "co_epoch c1 = co_epoch c"
  shows "entry_change e slot previous next c (emitChange e slot previous next reason c1)"
  using assms by (auto simp: entry_change_def emitChange_def currentVersion_def Let_def)

lemma entry_change_after:
  "entry_change e slot previous next c c' \<Longrightarrow> co_leases c'' = co_leases c' \<Longrightarrow> co_events c'' = co_events c' \<Longrightarrow>
     co_counter c'' = co_counter c' \<Longrightarrow> co_epoch c'' = co_epoch c' \<Longrightarrow> entry_change e slot previous next c c''"
  by (auto simp: entry_change_def currentVersion_def)

lemma writeLease_throws:
  "dget (co_clients c) (lr_clientSessionId input) = None \<or> \<not> isPanelSlotId (lr_slotId input) \<Longrightarrow>
     \<exists>err. writeLease env e input reason d c = (c, Inl err)"
  by (auto simp: writeLease_def asPanelSlotId_def split: option.splits)

lemma writeLease_writes:
  assumes "dget (co_clients c) (lr_clientSessionId input) = Some client" "isPanelSlotId (lr_slotId input)"
  shows "\<exists>c' lease. writeLease env e input reason d c = (c', Inr lease) \<and> le_slotId lease = lr_slotId input \<and>
     le_clientSessionId lease = lr_clientSessionId input \<and> le_connectionId lease = lr_connectionId input \<and>
     entry_change e (lr_slotId input) (dget (co_leases c) e) (Some lease) c c'"
  using assms by (auto simp: writeLease_def asPanelSlotId_def Let_def clearExpiry_def split: option.splits
    intro!: entry_change_emit)

lemma writeLease_cases:
  obtains (throws) err where "writeLease env e input reason d c = (c, Inl err)"
      "dget (co_clients c) (lr_clientSessionId input) = None \<or> \<not> isPanelSlotId (lr_slotId input)"
  | (writes) c' lease where "writeLease env e input reason d c = (c', Inr lease)" "le_slotId lease = lr_slotId input"
      "le_clientSessionId lease = lr_clientSessionId input" "le_connectionId lease = lr_connectionId input"
      "isPanelSlotId (lr_slotId input)" "dget (co_clients c) (lr_clientSessionId input) \<noteq> None"
      "entry_change e (lr_slotId input) (dget (co_leases c) e) (Some lease) c c'"
proof (cases "dget (co_clients c) (lr_clientSessionId input) = None \<or> \<not> isPanelSlotId (lr_slotId input)")
  case True
  with writeLease_throws [OF True, of env e reason d] throws show thesis by blast
next
  case False
  then obtain client where "dget (co_clients c) (lr_clientSessionId input) = Some client" by fastforce
  with False writeLease_writes [OF this, of env e reason d] writes show thesis by auto
qed

lemma tracked_writeLease:
  assumes "fits (dget (co_leases c)) e (lr_slotId input)"
  shows "tracked c (fst (writeLease env e input reason d c))"
proof (cases rule: writeLease_cases [where env = env and e = e and input = input and reason = reason and d = d and c = c])
  case (writes c' lease)
  then show ?thesis
    using tracked_entry_change [OF writes(7) assms refl] by simp
qed simp

lemma tracked_dropLease:
  assumes "dget (co_leases c) e = Some l"
  shows "tracked c (dropLease e l close reason c)"
  by (rule tracked_entry_change_at [OF _ assms])
    (auto simp: dropLease_def Let_def clearExpiry_def closeConnection_def split: option.splits intro!: entry_change_emit)

lemma dropLease_leases [simp]: "co_leases (dropLease e l close reason c) = ddel e (co_leases c)"
  by (simp add: dropLease_def Let_def clearExpiry_def closeConnection_def emitChange_def split: option.splits)

lemma tracked_restampOne:
  assumes "dget (co_leases c) e = Some l"
  shows "tracked c (restampOne slot keep (e, l) c)"
  unfolding restampOne_def
  by (auto simp: Let_def intro!: tracked_entry_change_at [OF _ assms] entry_change_emit)

lemma restampOne_other: "e' \<noteq> e \<Longrightarrow> dget (co_leases (restampOne slot keep (e, l) c)) e' = dget (co_leases c) e'"
  by (simp add: restampOne_def Let_def emitChange_def)

lemma tracked_restamps:
  "distinct (map fst entries) \<Longrightarrow> (\<And>e l. (e, l) \<in> set entries \<Longrightarrow> dget (co_leases c) e = Some l) \<Longrightarrow>
     tracked c (fold (restampOne slot keep) entries c)"
proof (induction entries arbitrary: c)
  case (Cons entry entries)
  obtain e l where entry: "entry = (e, l)" by (cases entry)
  have "tracked (restampOne slot keep entry c) (fold (restampOne slot keep) entries (restampOne slot keep entry c))"
    using Cons.prems restampOne_other [of _ e slot keep l c] by (intro Cons.IH) (force simp: entry image_iff)+
  then show ?case
    using tracked_restampOne [of c e l slot keep] Cons.prems(2) [of e l] tracked_trans by (simp add: entry)
qed simp

lemma tracked_restampSlotKeepLoaded: "tracked c (restampSlotKeepLoaded slot keep c)"
proof (cases "table_ok c")
  case True
  then show ?thesis
    unfolding restampSlotKeepLoaded_def by (intro tracked_restamps) (auto simp: table_ok_def)
qed (simp add: tracked_def)

lemma fits_free: "L e = None \<Longrightarrow> (\<And>e' l. L e' = Some l \<Longrightarrow> le_slotId l \<noteq> slot) \<Longrightarrow> fits L e slot"
  by (auto simp: fits_def)

lemma assignDefaultCdpHost_cases:
  "fst (assignDefaultCdpHost env e slot c) = c \<or>
     (\<exists>client. fst (assignDefaultCdpHost env e slot c) = fst (writeLease env e (defaultCdpRequest env slot client c) Acquired True c))"
proof (cases "getDefaultCdpHostClient None c")
  case (Some client)
  then have "fst (assignDefaultCdpHost env e slot c) = fst (writeLease env e (defaultCdpRequest env slot client c) Acquired True c)"
    by (simp add: assignDefaultCdpHost_def split: prod.splits sum.splits)
  then show ?thesis by blast
qed (simp add: assignDefaultCdpHost_def)

lemma defaultCdpRequest_slot [simp]: "lr_slotId (defaultCdpRequest env slot client c) = slot"
  by (simp add: defaultCdpRequest_def)

lemma tracked_assignDefaultCdpHost:
  "fits (dget (co_leases c)) e slot \<Longrightarrow> tracked c (fst (assignDefaultCdpHost env e slot c))"
  using assignDefaultCdpHost_cases [of env e slot c] tracked_writeLease [of c e] by fastforce

text \<open>What a released lease leaves free: its entity and its slot.\<close>

definition freed :: "coordinator \<Rightarrow> string \<times> lease \<times> bool \<Rightarrow> bool" where
  "freed c released \<longleftrightarrow> (\<forall>e l. dget (co_leases c) e = Some l \<longrightarrow> e \<noteq> fst released \<and> le_slotId l \<noteq> le_slotId (fst (snd released)))"

lemma freed_fits: "freed c (e, l, w) \<Longrightarrow> fits (dget (co_leases c)) e (le_slotId l)"
  unfolding freed_def fits_def fst_conv snd_conv by blast

lemma tracked_reassign: "freed c released \<Longrightarrow> tracked c (reassign env released c)"
  by (auto simp: reassign_def split: prod.splits intro: tracked_assignDefaultCdpHost freed_fits)

lemma writeLease_leases:
  "dget (co_leases (fst (writeLease env e input reason d c))) e' = Some l \<Longrightarrow>
     dget (co_leases c) e' = Some l \<or> e' = e \<and> le_slotId l = lr_slotId input"
  by (cases rule: writeLease_cases [where env = env and e = e and input = input and reason = reason and d = d and c = c])
    (auto dest: entry_change_leases split: if_splits)

lemma reassign_leases:
  "dget (co_leases (reassign env (e, l, w) c)) e' = Some l' \<Longrightarrow>
     dget (co_leases c) e' = Some l' \<or> e' = e \<and> le_slotId l' = le_slotId l"
  using assignDefaultCdpHost_cases [of env e "le_slotId l" c] writeLease_leases [of env e _ Acquired True c e' l']
  by (auto simp: reassign_def split: if_splits)

lemma tracked_reassigns:
  "distinct (map fst released) \<Longrightarrow> distinct (map (le_slotId \<circ> fst \<circ> snd) released) \<Longrightarrow> \<forall>r \<in> set released. freed c r \<Longrightarrow>
     tracked c (fold (reassign env) released c)"
proof (induction released arbitrary: c)
  case (Cons r released)
  have "\<forall>r' \<in> set released. freed (reassign env r c) r'"
    using Cons.prems reassign_leases [of env "fst r" "fst (snd r)" "snd (snd r)" c]
    unfolding freed_def prod.collapse by (fastforce simp: image_iff)
  then have "tracked (reassign env r c) (fold (reassign env) released (reassign env r c))"
    using Cons.prems by (intro Cons.IH) auto
  then show ?case
    using tracked_reassign [of c r env] Cons.prems tracked_trans by simp
qed simp

lemma releaseOne_pair [simp]:
  "releaseOne (e, l) (c, acc) =
     (dropLease e l (Some 4095) Released c, acc @ [(e, l, le_connectionId l \<in> set (co_defaultCdp c))])"
  by (simp add: releaseOne_def)

lemma releases:
  assumes "distinct (map fst mine)" "\<And>e l. (e, l) \<in> set mine \<Longrightarrow> dget (co_leases c) e = Some l"
    "fold releaseOne mine (c, acc) = (c', released)"
  shows "tracked c c' \<and> map (\<lambda>(e, l, w). (e, l)) released = map (\<lambda>(e, l, w). (e, l)) acc @ mine \<and>
     (\<forall>e. dget (co_leases c') e = (if e \<in> fst ` set mine then None else dget (co_leases c) e))"
  using assms
proof (induction mine arbitrary: c acc)
  case (Cons entry mine)
  obtain e l where entry: "entry = (e, l)" by (cases entry)
  let ?c = "dropLease e l (Some 4095) Released c"
  have "tracked ?c c' \<and> map (\<lambda>(e, l, w). (e, l)) released =
      map (\<lambda>(e, l, w). (e, l)) (acc @ [(e, l, le_connectionId l \<in> set (co_defaultCdp c))]) @ mine \<and>
     (\<forall>e. dget (co_leases c') e = (if e \<in> fst ` set mine then None else dget (co_leases ?c) e))"
  proof (rule Cons.IH)
    show "dget (co_leases ?c) e' = Some l'" if "(e', l') \<in> set mine" for e' l'
    proof -
      have "e' \<noteq> e"
        using that Cons.prems(1) by (force simp: entry)
      then show ?thesis
        using that Cons.prems(2) by simp
    qed
    show "fold releaseOne mine (?c, acc @ [(e, l, le_connectionId l \<in> set (co_defaultCdp c))]) = (c', released)"
      using Cons.prems(3) by (simp add: entry)
  qed (use Cons.prems(1) in simp)
  then show ?case
    using tracked_trans [OF tracked_dropLease [of c e l "Some 4095" Released]] Cons.prems(2) [of e l]
    by (auto simp: entry)
qed simp

lemma tracked_unregisterClient: "tracked c (unregisterClient env sid c)"
proof (cases "dget (co_clients c) sid = None \<or> \<not> table_ok c")
  case False
  define c1 where "c1 = c\<lparr>co_clients := ddel sid (co_clients c)\<rparr>"
  define mine where "mine = filter (\<lambda>(_, l). le_clientSessionId l = sid) (co_leases c1)"
  obtain c2 released where fold: "fold releaseOne mine (c1, []) = (c2, released)" by fastforce
  have run: "unregisterClient env sid c = fold (reassign env) released c2"
    using False fold by (auto simp: unregisterClient_def mine_def c1_def Let_def)
  have ok: "table_ok c1"
    using False by (simp add: table_ok_def c1_def)
  have at: "dget (co_leases c1) e = Some l" if "(e, l) \<in> set mine" for e l
    using that ok by (auto simp: table_ok_def mine_def)
  have distinct: "distinct (map fst mine)"
    using ok by (simp add: table_ok_def mine_def distinct_map_filter)
  note after = releases [OF distinct at fold]
  have rel: "map (\<lambda>(e, l, w). (e, l)) released = mine" using after by simp
  have "freed c2 r" if "r \<in> set released" for r
  proof -
    have "(fst r, fst (snd r)) \<in> set mine"
      using that rel by (force simp: split_beta)
    with at have "dget (co_leases c1) (fst r) = Some (fst (snd r))" "fst r \<in> fst ` set mine" by force+
    with after ok show ?thesis
      unfolding freed_def table_ok_def by (metis option.distinct(1))
  qed
  moreover have "map fst released = map fst mine" "map (le_slotId \<circ> fst \<circ> snd) released = map (le_slotId \<circ> snd) mine"
    by (simp_all add: rel [symmetric] split_beta)
  moreover have "distinct (map (le_slotId \<circ> snd) mine)"
    using distinct at ok unfolding table_ok_def distinct_map inj_on_def by (metis comp_apply prod.collapse)
  ultimately have "tracked c2 (unregisterClient env sid c)"
    unfolding run using distinct by (intro tracked_reassigns) auto
  moreover have "tracked c c1"
    by (rule tracked_frame) (simp_all add: c1_def)
  ultimately show ?thesis
    using after tracked_trans by blast
qed (metis tracked_def tracked_refl unregisterClient_def)

lemma tracked_pins:
  "tracked c (fst (pinSlotLoaded slot c))" "tracked c (fst (unpinSlotLoaded slot c))"
  by (auto simp: pinSlotLoaded_def unpinSlotLoaded_def asPanelSlotId_def
      intro: tracked_trans [OF tracked_frame tracked_restampSlotKeepLoaded])

lemma tracked_ensureDefaultCdpHostForSlot: "tracked c (fst (ensureDefaultCdpHostForSlot env slot e available c))"
proof (cases "asPanelSlotId slot = Inr slot \<and> asPanelEntityId e = Inr e \<and> dget (co_leases c) e = None \<and> lease_of_slot slot c = None")
  case True
  then have "fits (dget (co_leases c)) e slot"
    by (intro fits_free) (force simp: lease_of_slot_def find_None_iff dest: map_of_SomeD)+
  then have "tracked c (fst (writeLease env e (defaultCdpRequest env slot client c) Acquired True c))" for client
    by (intro tracked_writeLease) simp
  with True show ?thesis
    by (auto simp: ensureDefaultCdpHostForSlot_def split: option.splits prod.splits sum.splits) (metis fst_conv)+
qed (auto simp: ensureDefaultCdpHostForSlot_def asPanelSlotId_def asPanelEntityId_def split: option.splits)

lemma fst_acquired [simp]: "fst (acquired r) = fst r"
  by (simp add: acquired_def)

lemma tracked_acquire: "fits (dget (co_leases c)) e (lr_slotId input) \<Longrightarrow> tracked c (fst (acquire env e input c))"
  by (auto simp: acquire_def asPanelEntityId_def intro: tracked_writeLease split: option.splits)

text \<open>A takeover first announces that the lease is gone; the table follows with the second event.\<close>

lemma tracked_takeOver:
  assumes "fits (dget (co_leases c)) e (lr_slotId input)" "dget (co_clients c) (lr_clientSessionId input) = Some client"
  shows "tracked c (fst (takeOver env e input c))"
proof (cases "isPanelEntityId e \<and> table_ok c \<and> (\<exists>old. dget (co_leases c) e = Some old \<and> le_connectionId old \<noteq> lr_connectionId input)")
  case True
  then obtain old where old: "dget (co_leases c) e = Some old" "le_connectionId old \<noteq> lr_connectionId input" by blast
  define c1 where "c1 = emitChange e (le_slotId old) (Some old) None Revoked (closeConnection e (le_connectionId old) 4091 c)"
  have slot: "le_slotId old = lr_slotId input"
    using assms(1) old(1) by (auto simp: fits_def)
  have ok: "isPanelSlotId (lr_slotId input)"
    using True old(1) unfolding table_ok_def slot [symmetric] by blast
  have c1: "co_leases c1 = co_leases c" "co_clients c1 = co_clients c"
    by (simp_all add: c1_def emitChange_def closeConnection_def Let_def)
  have virtual: "entry_change e (le_slotId old) (Some old) None c (c1\<lparr>co_leases := ddel e (co_leases c)\<rparr>)"
    by (auto simp: entry_change_def c1_def emitChange_def closeConnection_def currentVersion_def Let_def)
  obtain ev where ev: "co_events c1 = co_events c @ [ev]"
    "history (currentVersion c) (dget (co_leases c)) [ev] (currentVersion c1) ((dget (co_leases c))(e := None))"
    using history_entry_change [OF virtual _ disjI2] assms(1) old(1) by (auto simp: slot currentVersion_def)
  obtain c2 lease where wrote: "writeLease env e input Acquired False c1 = (c2, Inr lease)" "le_slotId lease = lr_slotId input"
    "entry_change e (lr_slotId input) (Some old) (Some lease) c1 c2"
    using writeLease_writes [of c1 input client env e Acquired False] assms(2) ok old(1) by (auto simp: c1)
  have fits: "fits ((dget (co_leases c))(e := None)) e (lr_slotId input)"
    using assms(1) unfolding fits_def by auto
  obtain ev' where ev': "co_events c2 = co_events c1 @ [ev']"
    "history (currentVersion c1) ((dget (co_leases c))(e := None)) [ev'] (currentVersion c2) ((dget (co_leases c))(e := Some lease))"
    using history_entry_change [OF wrote(3) fits] wrote(2) by auto
  have run: "fst (takeOver env e input c) = c2"
    using True old wrote(1) by (simp add: takeOver_def asPanelEntityId_def Let_def c1_def)
  have "emitted c ([ev] @ [ev']) c2"
    using history_append [OF ev(2) ev'(2)] ev(1) ev'(1) entry_change_leases [OF wrote(3)] by (simp add: emitted_def c1)
  moreover have "table_ok c2"
    by (rule table_ok_entry_change [OF _ wrote(3)]) (use True assms(1) ok wrote(2) in \<open>auto simp: table_ok_def c1\<close>)
  ultimately show ?thesis
    unfolding run tracked_def by blast
next
  case False
  then consider "\<not> table_ok c" | "fst (takeOver env e input c) = c" | "takeOver env e input c = acquired (writeLease env e input Acquired False c)"
    by (cases "isPanelEntityId e") (auto simp: takeOver_def asPanelEntityId_def split: option.splits)
  then show ?thesis
    using tracked_writeLease [OF assms(1), of env Acquired False] by cases (simp_all add: tracked_def)
qed

lemma tracked_clearExpiry: "tracked c (clearExpiry e c)"
  by (rule tracked_frame) (simp_all add: clearExpiry_def)

lemma tracked_release: "tracked c (fst (release env e connection reason c))"
proof (cases "dget (co_leases c) e")
  case (Some old)
  let ?c = "dropLease e old None reason c"
  have drop: "tracked c ?c"
    using Some by (rule tracked_dropLease)
  have "tracked ?c (fst (assignDefaultCdpHost env e (le_slotId old) ?c))" if "table_ok c"
    by (rule tracked_assignDefaultCdpHost) (use table_ok_fits [OF that Some] in \<open>auto simp: fits_def\<close>)
  then have "tracked c (fst (assignDefaultCdpHost env e (le_slotId old) ?c))"
    using drop tracked_trans tracked_def by blast
  then show ?thesis
    using drop tracked_clearExpiry Some by (auto simp: release_def asPanelEntityId_def Let_def)
qed (simp add: release_def asPanelEntityId_def)

lemma tracked_unloadSlot: "tracked c (fst (unloadSlot slot c))"
proof (cases "table_ok c")
  case True
  have "dget (co_leases c) e = Some l" if "find (\<lambda>(_, l). le_slotId l = slot) (co_leases c) = Some (e, l)" for e l
    using that True by (auto simp: table_ok_def find_Some_iff) (metis nth_mem)
  then show ?thesis
    by (auto simp: unloadSlot_def asPanelSlotId_def intro: tracked_dropLease split: option.splits)
qed (simp add: tracked_def)

lemma tracked_retireRuntimeEntity: "tracked c (retireRuntimeEntity e c)"
  by (auto simp: retireRuntimeEntity_def clearExpiry_def closeConnection_def split: option.splits
      intro!: tracked_entry_change_at entry_change_emit)

lemma tracked_markConnected: "tracked c (fst (markConnected e connection c))"
proof -
  have "tracked c (emitChange e (le_slotId l) (Some l) (Some (l\<lparr>le_expiresAt := at\<rparr>)) Acquired
      ((clearExpiry e c)\<lparr>co_leases := dput e (l\<lparr>le_expiresAt := at\<rparr>) (co_leases (clearExpiry e c))\<rparr>))"
    if "dget (co_leases c) e = Some l" for l at
    by (rule tracked_entry_change_at [OF entry_change_emit that]) (auto simp: clearExpiry_def)
  then show ?thesis
    using tracked_clearExpiry by (auto simp: markConnected_def asPanelEntityId_def Let_def split: option.splits)
qed

lemma tracked_markDisconnected: "tracked c (fst (markDisconnected env e connection c))"
proof -
  have "tracked c ((emitChange e (le_slotId l) (Some l) (Some (l\<lparr>le_expiresAt := at\<rparr>)) Released
      ((clearExpiry e c)\<lparr>co_leases := dput e (l\<lparr>le_expiresAt := at\<rparr>) (co_leases c)\<rparr>))\<lparr>co_timers := timers\<rparr>)"
    if "dget (co_leases c) e = Some l" for l at timers
    by (rule tracked_entry_change_at [OF entry_change_after [OF entry_change_emit] that]) (auto simp: clearExpiry_def)
  then show ?thesis
    by (auto simp: markDisconnected_def asPanelEntityId_def Let_def clearExpiry_def split: option.splits)
qed

lemma tracked_expiryFires: "tracked c (fst (expiryFires env e c))"
  by (auto simp: expiryFires_def intro: tracked_trans [OF tracked_clearExpiry tracked_release] split: option.splits)

subsection \<open>Runs of the coordinator\<close>

datatype lease_op =
    Register host_registration
  | Unregister string
  | Pin string
  | Unpin string
  | EnsureHost string string "(string \<Rightarrow> bool) option"
  | Acquire string lease_request
  | TakeOver string lease_request
  | Release string string lease_reason
  | Unload string
  | Retire string
  | Connected string string
  | Disconnected string string
  | ExpiryFires string

fun perform :: "lease_env \<Rightarrow> lease_op \<Rightarrow> coordinator \<Rightarrow> coordinator" where
  "perform env (Register input) c = registerClient env input c"
| "perform env (Unregister sid) c = unregisterClient env sid c"
| "perform env (Pin slot) c = fst (pinSlotLoaded slot c)"
| "perform env (Unpin slot) c = fst (unpinSlotLoaded slot c)"
| "perform env (EnsureHost slot e available) c = fst (ensureDefaultCdpHostForSlot env slot e available c)"
| "perform env (Acquire e input) c = fst (acquire env e input c)"
| "perform env (TakeOver e input) c = fst (takeOver env e input c)"
| "perform env (Release e connection reason) c = fst (release env e connection reason c)"
| "perform env (Unload slot) c = fst (unloadSlot slot c)"
| "perform env (Retire e) c = retireRuntimeEntity e c"
| "perform env (Connected e connection) c = fst (markConnected e connection c)"
| "perform env (Disconnected e connection) c = fst (markDisconnected env e connection c)"
| "perform env (ExpiryFires e) c = fst (expiryFires env e c)"

text \<open>What callers keep to: a slot shows one entity at a time, an entity stays in its slot, and only a registered host
  takes over.\<close>

fun op_ok :: "lease_op \<Rightarrow> coordinator \<Rightarrow> bool" where
  "op_ok (Acquire e input) c = (\<forall>(e', l) \<in> set (co_leases c). (e' = e) = (le_slotId l = lr_slotId input))"
| "op_ok (TakeOver e input) c = ((\<forall>(e', l) \<in> set (co_leases c). (e' = e) = (le_slotId l = lr_slotId input)) \<and>
     dget (co_clients c) (lr_clientSessionId input) \<noteq> None)"
| "op_ok _ c = True"

definition newCoordinator :: "string \<Rightarrow> coordinator" where
  "newCoordinator epoch = \<lparr> co_epoch = epoch, co_counter = 0, co_leases = [], co_clients = [], co_timers = [],
     co_defaultCdp = [], co_kept = [], co_events = [], co_closed = [] \<rparr>"

fun lease_run :: "(lease_env \<times> lease_op) list \<Rightarrow> coordinator \<Rightarrow> coordinator" where
  "lease_run [] c = c"
| "lease_run ((env, op) # ops) c = lease_run ops (perform env op c)"

fun run_ok :: "(lease_env \<times> lease_op) list \<Rightarrow> coordinator \<Rightarrow> bool" where
  "run_ok [] c = True"
| "run_ok ((env, op) # ops) c = (op_ok op c \<and> run_ok ops (perform env op c))"

lemma fits_set:
  "\<forall>(e', l) \<in> set (co_leases c). (e' = e) = (le_slotId l = slot) \<Longrightarrow> fits (dget (co_leases c)) e slot"
  by (auto simp: fits_def dest: map_of_SomeD)

lemma tracked_perform: "op_ok op c \<Longrightarrow> tracked c (perform env op c)"
  by (cases op) (auto simp: tracked_unregisterClient tracked_pins tracked_ensureDefaultCdpHostForSlot tracked_release
      tracked_unloadSlot tracked_retireRuntimeEntity tracked_markConnected tracked_markDisconnected tracked_expiryFires
      registerClient_def Let_def intro: tracked_frame tracked_acquire tracked_takeOver fits_set)

lemma tracked_run: "run_ok ops c \<Longrightarrow> tracked c (lease_run ops c)"
  by (induction ops c rule: lease_run.induct) (auto intro: tracked_trans tracked_perform)

lemma table_ok_new: "table_ok (newCoordinator epoch)"
  by (simp add: table_ok_def newCoordinator_def)

end
