(* ===== verification/LeaseHost.thy ===== *)
theory LeaseHost
  imports LeaseProofs
begin

text \<open>The tracker of a host against the coordinator's history, and what the host has loaded against what it holds.\<close>

subsection \<open>A tracker follows a history\<close>

text \<open>What a host should hold: every panel leased to it, under that lease's connection and pin; anything else only
  because it is pinned.\<close>

definition follows :: "string \<Rightarrow> ledger \<Rightarrow> (string \<Rightarrow> held_lease option) \<Rightarrow> bool" where
  "follows client L held \<longleftrightarrow>
     (\<forall>e l. L e = Some l \<longrightarrow> le_clientSessionId l = client \<longrightarrow>
        (\<exists>h. held (le_slotId l) = Some h \<and> hl_connectionId h = le_connectionId l \<and> hl_keepLoaded h = le_keepLoaded l)) \<and>
     (\<forall>slot h. held slot = Some h \<longrightarrow> \<not> hl_keepLoaded h \<longrightarrow>
        (\<exists>e l. L e = Some l \<and> le_slotId l = slot \<and> le_clientSessionId l = client))"

text \<open>An event changes what is held in its own slot only.\<close>

lemma follows_change:
  assumes "follows client L held" "describes L ev" "\<And>slot. slot \<noteq> lv_slotId ev \<Longrightarrow> held' slot = held slot"
    and mine: "\<And>l. lv_next ev = Some l \<Longrightarrow> le_clientSessionId l = client \<Longrightarrow>
      \<exists>h. held' (lv_slotId ev) = Some h \<and> hl_connectionId h = le_connectionId l \<and> hl_keepLoaded h = le_keepLoaded l"
    and unpinned: "\<And>h. map_option le_clientSessionId (lv_next ev) \<noteq> Some client \<Longrightarrow> held' (lv_slotId ev) = Some h \<Longrightarrow> hl_keepLoaded h"
  shows "follows client (ledger_after L ev) held'"
  unfolding follows_def
proof (intro conjI allI impI)
  fix e l
  assume "ledger_after L ev e = Some l" "le_clientSessionId l = client"
  then show "\<exists>h. held' (le_slotId l) = Some h \<and> hl_connectionId h = le_connectionId l \<and> hl_keepLoaded h = le_keepLoaded l"
    using assms(1-3) mine [of l] by (auto simp: ledger_after_def follows_def describes_def split: if_splits)
next
  fix slot h
  assume held: "held' slot = Some h" "\<not> hl_keepLoaded h"
  show "\<exists>e l. ledger_after L ev e = Some l \<and> le_slotId l = slot \<and> le_clientSessionId l = client"
  proof (cases "slot = lv_slotId ev")
    case True
    then have "map_option le_clientSessionId (lv_next ev) = Some client"
      using held unpinned by blast
    then show ?thesis
      using assms(2) True by (auto simp: ledger_after_def describes_def)
  next
    case False
    then obtain e l where "L e = Some l" "le_slotId l = slot" "le_clientSessionId l = client"
      using held assms(1,3) unfolding follows_def by metis
    moreover from this have "e \<noteq> lv_runtimeEntityId ev"
      using assms(2) False by (auto simp: describes_def)
    ultimately show ?thesis
      by (auto simp: ledger_after_def)
  qed
qed

lemma follows_slot_mine:
  assumes "follows client L held" "describes L ev" "held (lv_slotId ev) = Some h" "\<not> hl_keepLoaded h"
  shows "map_option le_clientSessionId (lv_previous ev) = Some client"
proof -
  obtain e l where e: "L e = Some l" "le_slotId l = lv_slotId ev" "le_clientSessionId l = client"
    using assms(1,3,4) unfolding follows_def by metis
  then have "e = lv_runtimeEntityId ev"
    using assms(2) unfolding describes_def by metis
  then show ?thesis
    using e assms(2) by (auto simp: describes_def)
qed

lemma tracker_apply_follows:
  assumes follows: "follows (tk_clientSessionId t) L (dget (tk_held t))" and "describes L ev"
    and newer: "versionNewer (lv_version ev) (tk_version t)"
  shows "follows (tk_clientSessionId t) (ledger_after L ev) (dget (tk_held (fst (tracker_apply ev t))))"
proof (rule follows_change [OF follows assms(2)])
  show "dget (tk_held (fst (tracker_apply ev t))) slot = dget (tk_held t) slot" if "slot \<noteq> lv_slotId ev" for slot
    using that by (auto simp: tracker_apply_def Let_def split: option.splits disposition.splits)
next
  fix l
  assume "lv_next ev = Some l" "le_clientSessionId l = tk_clientSessionId t"
  then show "\<exists>h. dget (tk_held (fst (tracker_apply ev t))) (lv_slotId ev) = Some h \<and> hl_connectionId h = le_connectionId l \<and>
      hl_keepLoaded h = le_keepLoaded l"
    using newer by (auto simp: tracker_apply_def Let_def classifyRuntimeLeaseChange_def heldFrom_def split: option.splits)
next
  fix h
  assume "map_option le_clientSessionId (lv_next ev) \<noteq> Some (tk_clientSessionId t)"
    "dget (tk_held (fst (tracker_apply ev t))) (lv_slotId ev) = Some h"
  then show "hl_keepLoaded h"
    using newer follows_slot_mine [OF follows assms(2), of h]
    by (auto simp: tracker_apply_def Let_def classifyRuntimeLeaseChange_def split: option.splits if_splits)
qed

definition apply_all :: "lease_event list \<Rightarrow> lease_tracker \<Rightarrow> lease_tracker" where
  "apply_all evs t = fold (\<lambda>ev t. fst (tracker_apply ev t)) evs t"

lemma tracker_apply_version:
  "versionNewer (lv_version ev) (tk_version t) \<Longrightarrow> tk_version (fst (tracker_apply ev t)) = Some (lv_version ev)"
  by (auto simp: tracker_apply_def Let_def split: option.splits disposition.splits)

lemma tracker_apply_client [simp]: "tk_clientSessionId (fst (tracker_apply ev t)) = tk_clientSessionId t"
  by (auto simp: tracker_apply_def Let_def split: option.splits disposition.splits)

lemma tracker_apply_distinct:
  "distinct (map fst (tk_held t)) \<Longrightarrow> distinct (map fst (tk_held (fst (tracker_apply ev t))))"
  by (auto simp: tracker_apply_def Let_def distinct_update distinct_delete split: option.splits disposition.splits)

lemma apply_all_follows:
  "history v L evs v' L' \<Longrightarrow> tk_version t = Some v \<Longrightarrow> follows (tk_clientSessionId t) L (dget (tk_held t)) \<Longrightarrow>
     follows (tk_clientSessionId t) L' (dget (tk_held (apply_all evs t)))"
proof (induction arbitrary: t rule: history.induct)
  case (history_cons L ev v evs v' L')
  have newer: "versionNewer (lv_version ev) (tk_version t)"
    by (simp add: history_cons versionNewer_def next_version_def)
  show ?case
    using history_cons.IH [of "fst (tracker_apply ev t)"] tracker_apply_version [OF newer]
      tracker_apply_follows [OF history_cons.prems(2) history_cons.hyps(1) newer] history_cons.hyps(2)
    by (simp add: apply_all_def)
qed (simp add: apply_all_def)

subsection \<open>Reconciling with a snapshot\<close>

definition reconciled_holding :: "lease option \<Rightarrow> held_lease \<Rightarrow> held_lease option" where
  "reconciled_holding mine current =
     (case mine of None \<Rightarrow> if hl_keepLoaded current then Some current else None
      | Some l \<Rightarrow> if le_connectionId l \<noteq> hl_connectionId current then Some (heldFrom l)
          else Some (current\<lparr>hl_keepLoaded := le_keepLoaded l\<rparr>))"

lemma reconcileHeld_held:
  "dget held slot = Some current \<Longrightarrow>
     dget (fst (reconcileHeld mine (slot, current) (held, intents))) s = (if s = slot then reconciled_holding (dget mine slot) current else dget held s)"
  by (cases "dget mine slot") (auto simp: reconcileHeld_def reconciled_holding_def)

lemma reconcile_held:
  assumes "distinct (map fst entries)" "\<And>s h. (s, h) \<in> set entries \<Longrightarrow> dget held s = Some h"
  shows "dget (fst (fold (reconcileHeld mine) entries (held, intents))) s =
     (case map_of entries s of None \<Rightarrow> dget held s | Some h \<Rightarrow> reconciled_holding (dget mine s) h)"
  using assms
proof (induction entries arbitrary: held intents)
  case (Cons entry entries)
  obtain slot current where entry: "entry = (slot, current)" by (cases entry)
  obtain held' intents' where step: "reconcileHeld mine entry (held, intents) = (held', intents')" by fastforce
  have held': "dget held' s' = (if s' = slot then reconciled_holding (dget mine slot) current else dget held s')" for s'
    using reconcileHeld_held [of held slot current mine intents s'] step Cons.prems(2) by (simp add: entry)
  have "dget held' s' = Some h" if "(s', h) \<in> set entries" for s' h
    using that Cons.prems held' [of s'] by (force simp: entry)
  with Cons.IH [of held' intents'] Cons.prems(1) show ?case
    using held' [of s] by (auto simp: entry step [unfolded entry] split: option.splits dest: map_of_SomeD) (force dest: map_of_SomeD)
qed simp

lemma loadNew_held:
  "dget (fst (fold loadNew entries (held, intents))) s =
     (case dget held s of Some h \<Rightarrow> Some h | None \<Rightarrow> map_option heldFrom (map_of entries s))"
proof (induction entries arbitrary: held intents)
  case (Cons entry entries)
  then show ?case
    by (cases entry) (auto simp: loadNew_def split: option.splits)
qed (simp split: option.splits)

lemma leasesOf_sound:
  "dget (fold (\<lambda>l m. if le_clientSessionId l = client then dput (le_slotId l) l m else m) leases m) s = Some l \<Longrightarrow>
     dget m s = Some l \<or> l \<in> set leases \<and> le_slotId l = s \<and> le_clientSessionId l = client"
  by (induction leases arbitrary: m) (fastforce split: if_splits)+

lemma leasesOf_complete:
  "l \<in> set leases \<Longrightarrow> le_clientSessionId l = client \<Longrightarrow>
     dget (fold (\<lambda>l m. if le_clientSessionId l = client then dput (le_slotId l) l m else m) leases m) (le_slotId l) \<noteq> None"
proof (induction leases arbitrary: m)
  case (Cons l' leases)
  have keeps: "dget m s \<noteq> None \<Longrightarrow>
     dget (fold (\<lambda>l m. if le_clientSessionId l = client then dput (le_slotId l) l m else m) leases m) s \<noteq> None" for m s
    by (induction leases arbitrary: m) auto
  show ?case
  proof (cases "l = l'")
    case True
    then show ?thesis
      using Cons.prems(2) keeps [of "dput (le_slotId l') l' m" "le_slotId l"] by simp
  next
    case False
    then show ?thesis
      using Cons by simp
  qed
qed simp

lemma leasesOf_snapshot:
  assumes "table_ok c"
  shows "dget (leasesOf client (map snd (co_leases c))) s = Some l \<longleftrightarrow>
     (\<exists>e. dget (co_leases c) e = Some l \<and> le_slotId l = s \<and> le_clientSessionId l = client)" (is "?found = ?there")
proof
  assume ?found
  then show ?there
    using leasesOf_sound [of client "map snd (co_leases c)" "[]" s l] assms by (auto simp: leasesOf_def table_ok_def)
next
  assume ?there
  then obtain e where e: "dget (co_leases c) e = Some l" "le_slotId l = s" "le_clientSessionId l = client" by blast
  then have "dget (leasesOf client (map snd (co_leases c))) s \<noteq> None"
    using leasesOf_complete [of l "map snd (co_leases c)" client "[]"] by (force simp: leasesOf_def dest: map_of_SomeD)
  then obtain l' where l': "dget (leasesOf client (map snd (co_leases c))) s = Some l'" by blast
  then obtain e' where "dget (co_leases c) e' = Some l'" "le_slotId l' = s"
    using leasesOf_sound [of client "map snd (co_leases c)" "[]" s l'] assms by (auto simp: leasesOf_def table_ok_def)
  with e assms have "l' = l"
    unfolding table_ok_def by (metis option.inject)
  with l' show ?found by simp
qed

lemma tracker_reconcile_held:
  assumes "distinct (map fst (tk_held t))"
  shows "dget (tk_held (fst (tracker_reconcile snapshot t))) s =
     (let mine = dget (leasesOf (tk_clientSessionId t) (snd snapshot)) s in
      case dget (tk_held t) s of None \<Rightarrow> map_option heldFrom mine
      | Some h \<Rightarrow> (case reconciled_holding mine h of None \<Rightarrow> map_option heldFrom mine | Some h' \<Rightarrow> Some h'))"
proof -
  define mine where "mine = leasesOf (tk_clientSessionId t) (snd snapshot)"
  obtain held intents where step: "fold (reconcileHeld mine) (tk_held t) (tk_held t, []) = (held, intents)" by fastforce
  have "dget held s = (case dget (tk_held t) s of None \<Rightarrow> None | Some h \<Rightarrow> reconciled_holding (dget mine s) h)"
    using reconcile_held [OF assms, of "tk_held t" mine "[]" s] assms by (simp add: step split: option.splits)
  then show ?thesis
    using loadNew_held [of mine held intents s]
    by (auto simp: tracker_reconcile_def Let_def mine_def [symmetric] step split: prod.splits option.splits)
qed

lemma reconcile_follows:
  assumes "table_ok c" "distinct (map fst (tk_held t))"
  shows "follows (tk_clientSessionId t) (dget (co_leases c)) (dget (tk_held (fst (tracker_reconcile (getSnapshot c) t))))"
  unfolding follows_def tracker_reconcile_held [OF assms(2)] getSnapshot_def snd_conv
proof (intro conjI allI impI)
  fix e l
  assume "dget (co_leases c) e = Some l" "le_clientSessionId l = tk_clientSessionId t"
  then have "dget (leasesOf (tk_clientSessionId t) (map snd (co_leases c))) (le_slotId l) = Some l"
    using leasesOf_snapshot [OF assms(1)] by blast
  then show "\<exists>h. (let mine = dget (leasesOf (tk_clientSessionId t) (map snd (co_leases c))) (le_slotId l) in
      case dget (tk_held t) (le_slotId l) of None \<Rightarrow> map_option heldFrom mine
      | Some h \<Rightarrow> (case reconciled_holding mine h of None \<Rightarrow> map_option heldFrom mine | Some h' \<Rightarrow> Some h')) = Some h \<and>
      hl_connectionId h = le_connectionId l \<and> hl_keepLoaded h = le_keepLoaded l"
    by (simp add: reconciled_holding_def heldFrom_def Let_def split: option.splits)
next
  fix slot h
  assume "(let mine = dget (leasesOf (tk_clientSessionId t) (map snd (co_leases c))) slot in
      case dget (tk_held t) slot of None \<Rightarrow> map_option heldFrom mine
      | Some h \<Rightarrow> (case reconciled_holding mine h of None \<Rightarrow> map_option heldFrom mine | Some h' \<Rightarrow> Some h')) = Some h" "\<not> hl_keepLoaded h"
  then have "dget (leasesOf (tk_clientSessionId t) (map snd (co_leases c))) slot \<noteq> None"
    by (auto simp: reconciled_holding_def Let_def split: option.splits if_splits)
  then show "\<exists>e l. dget (co_leases c) e = Some l \<and> le_slotId l = slot \<and> le_clientSessionId l = tk_clientSessionId t"
    using leasesOf_snapshot [OF assms(1)] by blast
qed

subsection \<open>What the host has loaded\<close>

text \<open>The host carries out the intents in order. Loading a slot that is loaded, or unloading one that is not, is a
  failure.\<close>

fun do_intent :: "lease_intent \<Rightarrow> (string \<Rightarrow> (string \<times> string) option) \<Rightarrow> (string \<Rightarrow> (string \<times> string) option) option" where
  "do_intent (LoadPanel slot e connection) view = (if view slot = None then Some (view(slot \<mapsto> (e, connection))) else None)"
| "do_intent (UnloadPanel slot reason) view = (if view slot = None then None else Some (view(slot := None)))"

fun do_intents :: "lease_intent list \<Rightarrow> (string \<Rightarrow> (string \<times> string) option) \<Rightarrow> (string \<Rightarrow> (string \<times> string) option) option" where
  "do_intents [] view = Some view"
| "do_intents (i # is) view = (case do_intent i view of None \<Rightarrow> None | Some view' \<Rightarrow> do_intents is view')"

lemma do_intents_append:
  "do_intents (is @ js) view = (case do_intents is view of None \<Rightarrow> None | Some view' \<Rightarrow> do_intents js view')"
  by (induction "is" arbitrary: view) (auto split: option.splits)

definition view_of :: "held_lease dict \<Rightarrow> string \<Rightarrow> (string \<times> string) option" where
  "view_of held slot = map_option (\<lambda>h. (hl_runtimeEntityId h, hl_connectionId h)) (dget held slot)"

lemma view_of_dput [simp]: "view_of (dput slot h held) = (view_of held)(slot \<mapsto> (hl_runtimeEntityId h, hl_connectionId h))"
  by (auto simp: view_of_def)

lemma view_of_ddel [simp]: "view_of (ddel slot held) = (view_of held)(slot := None)"
  by (auto simp: view_of_def)

lemma view_of_at: "dget held slot = Some h \<Longrightarrow> view_of held slot = Some (hl_runtimeEntityId h, hl_connectionId h)"
  by (simp add: view_of_def)

lemma view_of_none: "dget held slot = None \<Longrightarrow> view_of held slot = None"
  by (simp add: view_of_def)

lemma fun_upd_same: "f x = y \<Longrightarrow> f(x := y) = f"
  by auto

lemma apply_loads: "do_intents (snd (tracker_apply ev t)) (view_of (tk_held t)) = Some (view_of (tk_held (fst (tracker_apply ev t))))"
  by (auto simp: tracker_apply_def Let_def loadIntent_def heldFrom_def fun_upd_same view_of_at view_of_none
      split: disposition.splits option.splits)

lemma reconcileHeld_loads:
  assumes "do_intents intents view = Some (view_of held)" "dget held slot = Some current"
    "reconcileHeld mine (slot, current) (held, intents) = (held', intents')"
  shows "do_intents intents' view = Some (view_of held')"
  using assms
  by (auto simp: reconcileHeld_def do_intents_append loadIntent_def heldFrom_def fun_upd_same view_of_at split: option.splits if_splits)

lemma reconcile_loads:
  assumes "distinct (map fst entries)" "\<And>s h. (s, h) \<in> set entries \<Longrightarrow> dget held s = Some h"
    "do_intents intents view = Some (view_of held)" "fold (reconcileHeld mine) entries (held, intents) = (held', intents')"
  shows "do_intents intents' view = Some (view_of held')"
  using assms
proof (induction entries arbitrary: held intents)
  case (Cons entry entries)
  obtain slot current where entry: "entry = (slot, current)" by (cases entry)
  obtain held1 intents1 where step: "reconcileHeld mine (slot, current) (held, intents) = (held1, intents1)" by fastforce
  have at: "dget held slot = Some current" using Cons.prems(2) by (simp add: entry)
  show ?case
  proof (rule Cons.IH)
    show "do_intents intents1 view = Some (view_of held1)"
      using reconcileHeld_loads [OF Cons.prems(3) at step] .
    show "dget held1 s' = Some h" if "(s', h) \<in> set entries" for s' h
      using that Cons.prems(1,2) reconcileHeld_held [OF at, of mine intents s'] by (force simp: entry step)
    show "fold (reconcileHeld mine) entries (held1, intents1) = (held', intents')"
      using Cons.prems(4) by (simp add: entry step)
  qed (use Cons.prems(1) in simp)
qed simp

lemma loadNew_loads:
  "do_intents intents view = Some (view_of held) \<Longrightarrow> fold loadNew entries (held, intents) = (held', intents') \<Longrightarrow>
     do_intents intents' view = Some (view_of held')"
proof (induction entries arbitrary: held intents)
  case (Cons entry entries)
  obtain slot l where entry: "entry = (slot, l)" by (cases entry)
  obtain held1 intents1 where step: "loadNew (slot, l) (held, intents) = (held1, intents1)" by fastforce
  then have "do_intents intents1 view = Some (view_of held1)"
    using Cons.prems(1) by (auto simp: loadNew_def do_intents_append loadIntent_def heldFrom_def view_of_none split: if_splits)
  then show ?case
    using Cons.prems(2) by (intro Cons.IH) (simp_all add: entry step)
qed simp

lemma tracker_reconcile_loads:
  assumes "distinct (map fst (tk_held t))"
  shows "do_intents (snd (tracker_reconcile snapshot t)) (view_of (tk_held t)) =
     Some (view_of (tk_held (fst (tracker_reconcile snapshot t))))"
proof -
  define mine where "mine = leasesOf (tk_clientSessionId t) (snd snapshot)"
  obtain held intents where held: "fold (reconcileHeld mine) (tk_held t) (tk_held t, []) = (held, intents)" by fastforce
  obtain held' intents' where held': "fold loadNew mine (held, intents) = (held', intents')" by fastforce
  have "do_intents intents (view_of (tk_held t)) = Some (view_of held)"
    by (rule reconcile_loads [OF assms _ _ held]) (use assms in simp_all)
  then show ?thesis
    using loadNew_loads [OF _ held'] held held' by (simp add: tracker_reconcile_def mine_def [symmetric] Let_def)
qed

text \<open>A host's life: a new tracker, then snapshots and events, whatever they say.\<close>

datatype host_input = Snapshot "lease_version \<times> lease list" | Event lease_event

definition newTracker :: "string \<Rightarrow> lease_tracker" where
  "newTracker client = \<lparr> tk_clientSessionId = client, tk_held = [], tk_version = None \<rparr>"

fun host_step :: "host_input \<Rightarrow> lease_tracker \<Rightarrow> lease_tracker \<times> lease_intent list" where
  "host_step (Snapshot snapshot) t = tracker_reconcile snapshot t"
| "host_step (Event ev) t = tracker_apply ev t"

fun host_run :: "host_input list \<Rightarrow> lease_tracker \<Rightarrow> lease_tracker \<times> lease_intent list" where
  "host_run [] t = (t, [])"
| "host_run (i # is) t = (case host_step i t of (t', intents) \<Rightarrow> (case host_run is t' of (t'', intents') \<Rightarrow> (t'', intents @ intents')))"

lemma reconcileHeld_distinct:
  "distinct (map fst (fst acc)) \<Longrightarrow> distinct (map fst (fst (reconcileHeld mine entry acc)))"
  by (auto simp: reconcileHeld_def distinct_update distinct_delete split: prod.splits option.splits)

lemma loadNew_distinct: "distinct (map fst (fst acc)) \<Longrightarrow> distinct (map fst (fst (loadNew entry acc)))"
  by (auto simp: loadNew_def distinct_update split: prod.splits)

lemma fold_invariant_held: "(\<And>x acc. P (fst acc) \<Longrightarrow> P (fst (f x acc))) \<Longrightarrow> P (fst acc) \<Longrightarrow> P (fst (fold f xs acc))"
  by (induction xs arbitrary: acc) auto

lemma tracker_reconcile_distinct:
  assumes "distinct (map fst (tk_held t))"
  shows "distinct (map fst (tk_held (fst (tracker_reconcile snapshot t))))"
proof -
  let ?mine = "leasesOf (tk_clientSessionId t) (snd snapshot)"
  have "distinct (map fst (fst (fold loadNew ?mine (fold (reconcileHeld ?mine) (tk_held t) (tk_held t, [])))))"
    by (intro fold_invariant_held [where P = "\<lambda>held. distinct (map fst held)"] loadNew_distinct reconcileHeld_distinct)
      (use assms in simp_all)
  then show ?thesis
    by (simp add: tracker_reconcile_def Let_def split_beta)
qed

lemma host_step_distinct: "distinct (map fst (tk_held t)) \<Longrightarrow> distinct (map fst (tk_held (fst (host_step i t))))"
  by (cases i) (simp_all add: tracker_reconcile_distinct tracker_apply_distinct)

lemma host_step_loads:
  "distinct (map fst (tk_held t)) \<Longrightarrow>
     do_intents (snd (host_step i t)) (view_of (tk_held t)) = Some (view_of (tk_held (fst (host_step i t))))"
  by (cases i) (simp_all add: tracker_reconcile_loads apply_loads)

lemma host_run_loads:
  "distinct (map fst (tk_held t)) \<Longrightarrow>
     do_intents (snd (host_run is t)) (view_of (tk_held t)) = Some (view_of (tk_held (fst (host_run is t)))) \<and>
     distinct (map fst (tk_held (fst (host_run is t))))"
proof (induction "is" arbitrary: t)
  case (Cons i "is")
  show ?case
    using Cons.IH [OF host_step_distinct [OF Cons.prems, of i]] host_step_loads [OF Cons.prems, of i]
    by (simp add: do_intents_append split_beta)
qed simp

text \<open>C20: A host has loaded what its tracker holds. Whatever snapshots and events a new tracker is given, in whatever
  order, carrying out its intents never loads a slot that is loaded or unloads one that is not, and ends with
  exactly the held slots loaded, each with the entity and the connection it is held under.\<close>

theorem intents_match_holdings:
  "do_intents (snd (host_run inputs (newTracker client))) (\<lambda>_. None) =
     Some (\<lambda>slot. map_option (\<lambda>h. (hl_runtimeEntityId h, hl_connectionId h))
       (tracker_heldLease slot (fst (host_run inputs (newTracker client)))))"
proof -
  have "view_of (tk_held (newTracker client)) = (\<lambda>_. None)"
    by (simp add: newTracker_def view_of_def fun_eq_iff)
  moreover have "view_of (tk_held t) = (\<lambda>slot. map_option (\<lambda>h. (hl_runtimeEntityId h, hl_connectionId h)) (tracker_heldLease slot t))" for t
    by (simp add: view_of_def tracker_heldLease_def fun_eq_iff)
  ultimately show ?thesis
    using host_run_loads [of "newTracker client" inputs] by (simp add: newTracker_def)
qed

subsection \<open>Coordinator and hosts\<close>

text \<open>A tracker that was given everything up to a point of the coordinator's life: earlier inputs, whatever they were,
  then a snapshot and every event emitted since.\<close>

definition caught_up :: "host_input list \<Rightarrow> coordinator \<Rightarrow> coordinator \<Rightarrow> host_input list" where
  "caught_up earlier c c' = earlier @ [Snapshot (getSnapshot c)] @ map Event (drop (length (co_events c)) (co_events c'))"

lemma host_run_append:
  "host_run (is @ js) t = (case host_run is t of (t', intents) \<Rightarrow> (case host_run js t' of (t'', intents') \<Rightarrow> (t'', intents @ intents')))"
  by (induction "is" arbitrary: t) (auto split: prod.splits)

lemma host_run_events: "fst (host_run (map Event evs) t) = apply_all evs t"
  by (induction evs arbitrary: t) (auto simp: apply_all_def split_beta)

lemma tracker_reconcile_client [simp]: "tk_clientSessionId (fst (tracker_reconcile snapshot t)) = tk_clientSessionId t"
  by (simp add: tracker_reconcile_def Let_def split_beta)

lemma tracker_reconcile_version: "tk_version (fst (tracker_reconcile snapshot t)) = Some (fst snapshot)"
  by (simp add: tracker_reconcile_def Let_def split_beta)

lemma host_run_client [simp]: "tk_clientSessionId (fst (host_run is t)) = tk_clientSessionId t"
proof (induction "is" arbitrary: t)
  case (Cons i "is")
  then show ?case by (cases i) (simp_all add: split_beta)
qed simp

lemma caught_up_follows:
  assumes "table_ok c" "tracked c c'"
  shows "follows client (dget (co_leases c')) (dget (tk_held (fst (host_run (caught_up earlier c c') (newTracker client)))))"
proof -
  define t where "t = fst (tracker_reconcile (getSnapshot c) (fst (host_run earlier (newTracker client))))"
  obtain evs where evs: "co_events c' = co_events c @ evs"
    "history (currentVersion c) (dget (co_leases c)) evs (currentVersion c') (dget (co_leases c'))"
    using assms by (auto simp: tracked_def emitted_def)
  have client: "tk_clientSessionId t = client" by (simp add: t_def newTracker_def)
  have "follows (tk_clientSessionId t) (dget (co_leases c)) (dget (tk_held t))"
    using reconcile_follows [OF assms(1), of "fst (host_run earlier (newTracker client))"]
      host_run_loads [of "newTracker client" earlier] by (simp add: t_def newTracker_def)
  then have "follows client (dget (co_leases c')) (dget (tk_held (apply_all evs t)))"
    using apply_all_follows [OF evs(2), of t] by (simp add: client t_def newTracker_def tracker_reconcile_version getSnapshot_def)
  moreover have "fst (host_run (caught_up earlier c c') (newTracker client)) = apply_all evs t"
    using host_run_events [of evs t] by (simp add: caught_up_def evs(1) host_run_append split_beta t_def)
  ultimately show ?thesis by simp
qed

end
