(* ===== verification/LeaseClaims.thy ===== *)
theory LeaseClaims
  imports LeaseHost
begin

text \<open>Coordinator and hosts together: what a host that is up to date holds, and where the protocol falls short.\<close>

subsection \<open>Routing by slot\<close>

lemma slot_is_no_entity: "isPanelSlotId s \<Longrightarrow> \<not> isPanelEntityId s"
  by (auto simp: isPanelSlotId_def isPanelEntityId_def PANEL_SLOT_PREFIX_def PANEL_ENTITY_PREFIX_def prefix_def)

lemma route_of_slot:
  assumes "table_ok c" "dget (co_leases c) e = Some l"
  shows "resolveRouteLease (le_slotId l) c = Some l"
proof -
  have slot: "isPanelSlotId (le_slotId l)"
    using assms unfolding table_ok_def by blast
  have "(e, l) \<in> set (co_leases c)"
    using assms(2) by (rule map_of_SomeD)
  then obtain l' where l': "lease_of_slot (le_slotId l) c = Some l'"
    by (cases "lease_of_slot (le_slotId l) c") (force simp: lease_of_slot_def find_None_iff)+
  then have "l' \<in> set (map snd (co_leases c))" "le_slotId l' = le_slotId l"
    by (auto simp: lease_of_slot_def find_Some_iff)
  then obtain e' where "dget (co_leases c) e' = Some l'"
    using assms(1) by (auto simp: table_ok_def)
  then have "l' = l"
    using assms \<open>le_slotId l' = le_slotId l\<close> unfolding table_ok_def by (metis option.inject)
  with l' show ?thesis
    using slot slot_is_no_entity by (simp add: resolveRouteLease_def)
qed


subsection \<open>Concrete runs\<close>

definition sample_host :: "string \<Rightarrow> host_registration" where
  "sample_host sid = \<lparr> hr_clientSessionId = sid, hr_hostConnectionId = None, hr_ownerCallerId = None, hr_label = sid,
     hr_platform = ''desktop'', hr_supportsCdp = None, hr_loadOnLeaseAssignment = Some True \<rparr>"

definition sample_lease_request :: "string \<Rightarrow> string \<Rightarrow> lease_request" where
  "sample_lease_request sid connection = \<lparr> lr_slotId = ''panel:tree/a'', lr_clientSessionId = sid, lr_connectionId = connection, lr_hostConnectionId = None \<rparr>"

definition lease_sample :: "lease_op \<Rightarrow> lease_env \<times> lease_op" where
  "lease_sample op = (\<lparr> lx_now = 10, lx_uuid = (\<lambda>n. ''id'') \<rparr>, op)"

text \<open>Two hosts register, the first one acquires a panel.\<close>

definition sample_before :: "(lease_env \<times> lease_op) list" where
  "sample_before = map lease_sample [Register (sample_host ''A''), Register (sample_host ''B''),
     Acquire ''panel:nav-1'' (sample_lease_request ''A'' ''a1'')]"

definition sample_coordinator :: coordinator where
  "sample_coordinator = lease_run sample_before (newCoordinator ''e'')"

definition sample_since :: "lease_op list \<Rightarrow> coordinator" where
  "sample_since ops = lease_run (map lease_sample ops) sample_coordinator"

definition sample_tracker :: "string \<Rightarrow> coordinator \<Rightarrow> lease_tracker" where
  "sample_tracker sid c = fst (host_run (caught_up [] sample_coordinator c) (newTracker sid))"


subsection \<open>Where the protocol falls short\<close>

text \<open>A takeover by an unknown client session revokes the lease without replacing it. If the lease of a panel is
  held under another connection and the session that takes over is not registered, \<open>takeOver\<close> throws; by then it has
  closed the holder's connection and announced that the lease is gone, while the table still has it.\<close>

theorem takeover_by_unknown_session:
  assumes "isPanelEntityId e" "getLease e c = Some old" "le_connectionId old \<noteq> lr_connectionId input"
    and "dget (co_clients c) (lr_clientSessionId input) = None" "takeOver env e input c = (c', r)"
  shows "(\<exists>err. r = Inl err) \<and> getLease e c' = Some old \<and> (e, le_connectionId old, 4091) \<in> set (co_closed c') \<and>
     co_events c' = co_events c @ [\<lparr> lv_version = currentVersion c', lv_slotId = le_slotId old, lv_runtimeEntityId = e,
       lv_previous = Some old, lv_next = None, lv_reason = Revoked \<rparr>]"
  using assms
  by (auto simp: takeOver_def asPanelEntityId_def getLease_def writeLease_def acquired_def emitChange_def closeConnection_def
      currentVersion_def Let_def)

theorem takeover_by_unknown_session_witness:
  "\<exists>c' r err. takeOver (fst (lease_sample (Pin []))) ''panel:nav-1'' (sample_lease_request ''C'' ''c1'') sample_coordinator = (c', r) \<and>
     r = Inl err \<and> getLease ''panel:nav-1'' c' = getLease ''panel:nav-1'' sample_coordinator"
proof -
  let ?input = "sample_lease_request ''C'' ''c1''"
  obtain c' r where run: "takeOver (fst (lease_sample (Pin []))) ''panel:nav-1'' ?input sample_coordinator = (c', r)" by fastforce
  obtain old where old: "getLease ''panel:nav-1'' sample_coordinator = Some old" "le_connectionId old = ''a1''"
  proof -
    have "map_option le_connectionId (getLease ''panel:nav-1'' sample_coordinator) = Some ''a1''" by code_simp
    with that show thesis by auto
  qed
  have "isPanelEntityId ''panel:nav-1''" by code_simp
  moreover have "le_connectionId old \<noteq> lr_connectionId ?input" by (simp add: old sample_lease_request_def)
  moreover have "dget (co_clients sample_coordinator) (lr_clientSessionId ?input) = None" by code_simp
  ultimately show ?thesis
    using takeover_by_unknown_session [OF _ old(1) _ _ run] run old(1) by auto
qed


text \<open>A grace period that ends while the slot is pinned is lost: the lease of the vanished connection stays, marked as
  expiring, without a timer, also after the pin is released.\<close>

lemma expiry_lost_under_pin:
  "let c = sample_since [Disconnected ''panel:nav-1'' ''a1'', Pin ''panel:tree/a'', ExpiryFires ''panel:nav-1'', Unpin ''panel:tree/a'']
   in map_option le_expiresAt (getLease ''panel:nav-1'' c) = Some (Some 3010) \<and> co_timers c = [] \<and> co_kept c = []"
  by code_simp

end
