(* ===== verification/Spec2Isabelle.thy ===== *)
theory Spec2Isabelle
  imports Scenario Context InStep StaleReplay MergeSafe LeaseClaims
begin

text \<open>
  NatStack runs agents as event-sourced loops over a versioned workspace, with panels shown by several hosts. This
  development models the loop, the driver and the outbox that carry its effects and the log store underneath, from
  the TypeScript sources under \<open>src/workspace\<close>, and from the server (\<open>src/src/server\<close>) the three-way merge of
  workspace states and the leases that give a panel to one host at a time.

  \<^bold>\<open>The program.\<close> An agent's trajectory is an append-only log of envelopes. \<open>agent-loop\<close> is its pure core:
  a fold turns the log into an \<open>AgentState\<close>, a step function turns a state and a stimulus (command, appended
  event, failed effect) into items to append and effects to run, policies rewrite the step's output, and
  \<open>derivePendingEffects\<close> recomputes the outstanding effects from the state alone, so that a restarted process
  resumes from the log. The driver (\<open>agentic-do\<close>) runs steps, keeps the outstanding effects in an outbox table with
  leases and retries, caches the fold, dispatches due effects, journals their outcomes, and writes the log through the log store (\<open>workers/gad-store\<close>), which chains envelopes by hash,
  forks logs without copying, publishes events into channel logs and answers retried appends idempotently.
  \<open>agentic-protocol\<close> holds what they share: envelopes, canonical JSON, participant references. The server's version
  control merges worktree states file by file (\<open>merge.ts\<close>), and texts line by line (\<open>diff3.ts\<close>). Its
  \<open>PanelRuntimeCoordinator\<close> keeps the table of panel leases and emits every change as an event; each host's
  \<open>LeaseTracker\<close> turns snapshots and events into intents to load and unload panels.

  \<^bold>\<open>Theories and sources.\<close>
  \<^item> \<open>Prelude\<close>: results with errors, \<open>Record<string, T>\<close> objects as ordered association lists, decimal
    rendering. \<open>Json\<close>: JavaScript values and the operators the code applies to them (property reads,
    truthiness, \<open>??\<close>, spread, \<open>JSON.stringify\<close>). \<open>Dates\<close>: \<open>Date.parse\<close> on the interchange format.
  \<^item> \<open>Ids\<close>: \<open>agent-loop/src/ids.ts\<close>, with the FNV-1a hash on 32-bit words. \<open>LoopState\<close>: \<open>state.ts\<close>, \<open>commands.ts\<close>
    and the envelope types of \<open>agentic-protocol\<close>, as records and datatypes with the source's constructors.
  \<^item> \<open>Fold\<close>: \<open>fold.ts\<close>, one definition per case of \<open>applyEvent\<close>. \<open>Effects\<close>: \<open>effects.ts\<close>, descriptors,
    \<open>derivePendingEffects\<close>, \<open>outcomeEvents\<close>. \<open>Step\<close>: \<open>step.ts\<close>, every arm of \<open>coreStep\<close>, \<open>projectAppend\<close> and
    \<open>composeStep\<close>. \<open>Policies\<close>: \<open>policies/index.ts\<close>. \<open>Context\<close>: \<open>context.ts\<close>. \<open>Scenario\<close>: \<open>scenario.ts\<close>, the loop
    against an in-memory log.
  \<^item> \<open>Outbox\<close>: \<open>agentic-do/src/effect-outbox.ts\<close> and the driver's \<open>deferRedrive\<close> and \<open>nudgeRedrive\<close>; the table is a
    list of rows in insertion order. \<open>FoldCache\<close>: \<open>fold-cache.ts\<close>, the cached fold and its paged, validating load.
  \<^item> \<open>Driver\<close>, \<open>Dispatch\<close>: \<open>agent-loop-driver.ts\<close> and \<open>model-credential-suspension.ts\<close>. The state is the record
    \<open>driver\<close>: the tables (store, cache, outbox, scheduled resumes), a heap of loop instances (a dropped instance may
    still be held by the operation that loaded it), the map of live loops, the running aborts, the pump's flags and
    the calls made to the host. An operation is a function of type \<open>'a drv\<close> that returns the new state with a result
    or the error thrown; \<open>Driver\<close> goes from loading a loop to the wake protocol, \<open>Dispatch\<close> from outcomes to the alarm.
  \<^item> \<open>Participants\<close>: \<open>agentic-protocol/src/participant-ref.ts\<close> and the sanitisers of \<open>gad-store\<close>.
    \<open>LogStore\<close>: the log core of \<open>gad-store/index.ts\<close> (heads, lineage, reads, appends with replay and publication,
    forks, integrity check, deletion and archiving of heads) over the tables \<open>log_heads\<close>, \<open>log_events\<close> and
    \<open>gad_worktree_heads\<close> with their key constraints, and \<open>canonical-json.ts\<close>, \<open>log-envelope.ts\<close>.
  \<^item> \<open>Diff3\<close>: \<open>gadVcs/diff3.ts\<close>, the table of common subsequences as a list of rows, the walk that makes chunks, the
    merge loop with its growing conflict regions, replace hunks. \<open>MergeEngine\<close>: \<open>gadVcs/merge.ts\<close>, a file list and the
    blobs written as an explicit store.
  \<^item> \<open>Leases\<close>: \<open>panelRuntimeCoordinator.ts\<close> and, of \<open>packages/shared/src/panel\<close>, \<open>leaseTracker.ts\<close>, \<open>panelLease.ts\<close> and
    \<open>ids.ts\<close>. The record \<open>coordinator\<close> is the class with its maps as ordered association lists, its timers, the events
    emitted and the connections closed; a timer that fires is an operation.

  \<^bold>\<open>What is shown.\<close>
  \<^item> \<open>Fold\<close>: the fold of any log is well formed, throws in exactly three cases, isolates the events of other
    participants, keeps its queues in log order. \<open>Projection\<close>, \<open>Gating\<close>: what a step appends folds without error
    and every effect it emits is derivable from the folded state, also after the policies rewrote it, so an
    effect lost with the process is found again. \<open>StepSafety\<close>: interrupts settle everything, the step is total,
    model calls start only within budget. \<open>Delivery\<close>, \<open>Forks\<close>: redelivery, promotion, read receipts, fork
    cleanup. \<open>Context\<close>: whose voice a context message has, stability of a context snapshot. \<open>Scenario\<close>: in every
    reachable run the log replays to the state and the registry is the derived set; a plain turn completes.
  \<^item> \<open>Outbox\<close>: the alarm time is exact, deferral and backoff are bounded, external ids round-trip.
  \<^item> \<open>CacheLoad\<close>: a cached fold never changes what loading returns, the configuration aside (the exception is a
    theorem of its own); \<open>FoldCache\<close>: the paged read ends and returns the log.
  \<^item> \<open>DriverRel\<close>: the locale \<open>driver_relation\<close> is the contract of a relation on driver states that every primitive
    change respects; each operation is shown once, inside it, to respect the relation. Its interpretations give that
    the outbox stays well formed, that logs only grow, that a live loop is the loop of its channel, that the heap of
    instances grows. \<open>driver_op\<close> is one operation, a restart, a lost cache row or an append of another writer; what
    holds of its reachable states holds at every crash point. \<open>Converge\<close>: the wake time is exact, reconciliation makes
    the rows of a branch the derived effects, operations that return leave them so. \<open>Outcomes\<close>: no outcome is lost.
    \<open>InStep\<close>: a step keeps its loop the fold of the log; \<open>StaleReplay\<close>: a loop that is behind may replay with a gap.
    \<open>DriverRuns\<close> holds the concrete runs of the witnesses.
  \<^item> \<open>LogChain\<close>: every transaction keeps each log a hash chain ended by its head row (\<open>checkLogIntegrity\<close> stays
    empty), shown through the locale \<open>framed_publisher\<close>, the contract between an append and the publications it
    makes in its middle; archiving a head is the exception, as a theorem. \<open>LogView\<close> (locale \<open>growing_publisher\<close>):
    every head reads its inherited prefix followed by its own rows as one chain; reads only ever extend; a fork
    reads the prefix of its source. \<open>LogRetry\<close>: a retried append is a replay that changes nothing, an append
    with an expected hash is applied to that head only.
  \<^item> \<open>DiffProofs\<close>: a diff is a patch and keeps a longest common subsequence. \<open>MergeProofs\<close>: the merge loop ends and its
    result is a sequence of regions that explains base, ours and theirs. \<open>MergeSafe\<close>: a merge of states takes over
    every change of one side; a change of mode makes a binary file conflict.
  \<^item> \<open>LeaseProofs\<close>: the events of every operation are a history of the lease table. \<open>LeaseHost\<close>: a tracker follows a
    history, and its intents keep what is loaded equal to what is held. \<open>LeaseClaims\<close>: a host that is up to date
    holds its leases, and where pins and takeovers fall short.

  \<^bold>\<open>Parameters.\<close> \<open>classifyModelFailure\<close> (regular expressions over provider messages) is an argument of the
  definitions that use it. The log store takes a record \<open>store_env\<close>: SHA-256, clock, random ids, the zod
  event schema, the check for encoded values, whether a worktree state exists, and whether applying the
  projections succeeds. The driver takes a record \<open>driver_env\<close>: clock, identity, configuration and policies of a
  channel, blob encoding and hydration, what an executor returns, the host's optional services and the points at
  which the process dies. The merge takes a record \<open>merge_env\<close> (state listings, merge bases, SHA-256 and
  UTF-8), the coordinator a record \<open>lease_env\<close> (clock, random ids). Theorems hold for every choice; injectivity of the hash is a named hypothesis of the
  theorems that need it, and \<open>clockless\<close> (the schema does not copy the time into the payload) of another.

  \<^bold>\<open>Bounds and termination.\<close> Structural recursion throughout, with three exceptions. A cascade of a scenario
  has fuel, its depth; more fuel never changes a result, and the liveness theorem gives the fuel it needs. A cascade
  of the driver has fuel too, and its pump a number of rounds; running out is the value \<open>None\<close>, on which no
  property of the driver rests: they speak of every run that ends, by a return, an exception or a death.
  \<open>decodeURIComponent\<close>, the lineage walk and the growing of a conflict region have termination proofs (input length;
  heads not yet seen; chunks left). The merge loop has one round of fuel per chunk, shown to be enough. Positions
  and times are unbounded integers: the code uses doubles far below \<open>2 ^ 53\<close>, and 32-bit line counts in the diff.

  \<^bold>\<open>Not modelled.\<close> The classification of model errors; exceptions from malformed configuration objects;
  \<open>Date.parse\<close> outside the interchange format; characters beyond Latin-1 and JavaScript's order of integer-like
  keys; the JSON text of table rows (a row holds the value); blob references, projections, worktree and
  recall tables of the log store; the interleaving of two driver operations at an await (operations run one after
  the other, with other writers between them);
  listeners that call the coordinator back while it emits; the vessel, the channel worker, the rest of the server, the
  desktop shell and user interfaces.
\<close>

end
